(* ===== verification/Prelude.thy ===== *)
theory Prelude
  imports Main "HOL-Library.Word" "HOL-Library.Char_ord"
begin

text \<open>
  What every theory of the development shares.

  \<^item> The names of the Go types: a Go \<open>string\<close> is a list of bytes (\<open>char\<close> is one byte),
    \<open>int64\<close> and \<open>uint64\<close> are both 64-bit words (\<open>+\<close>, \<open>-\<close>, \<open>*\<close> wrap as Go's do); a signed
    reading is \<open>sint\<close> and a signed comparison \<open><s\<close>.
  \<^item> Results: a Go function returning \<open>(T, error)\<close> is a function into \<open>'e + 'a\<close>, with
    \<open>Inl\<close> the error; \<open>andThen\<close> is the \<open>if err != nil { return ..., err }\<close> of the source.
  \<^item> What the source uses of the Go standard library: decimal printing (\<open>strconv\<close>),
    \<open>strings.TrimSpace\<close>, \<open>time.Time\<close>.
  \<^item> The generic lemmas on words, digits and lists the component proofs rest on.
\<close>

named_theorems go_simps "equations that evaluate the error-propagation combinators"
named_theorems ok_elims "inversion of a computation that returned without an error"

section \<open>Integers\<close>

type_synonym u64 = "64 word"
type_synonym i64 = "64 word"

abbreviation MaxInt64 :: "64 word" where "MaxInt64 \<equiv> 0x7FFFFFFFFFFFFFFF"
abbreviation MinInt64 :: "64 word" where "MinInt64 \<equiv> 0x8000000000000000"

lemma sint64_range: "- (2 ^ 63) \<le> sint (x :: i64)" "sint (x :: i64) < 2 ^ 63"
  using sint_range_size [of x] by (simp_all add: word_size)

lemma signed_take_bit_63:
  "signed_take_bit 63 (k :: int) =
     (if k < - (2 ^ 63) then k + 2 ^ 64 else if 2 ^ 63 \<le> k then k - 2 ^ 64 else k)"
  if "- (2 ^ 64) \<le> k" "k < 2 ^ 64"
proof -
  have "signed_take_bit 63 k = (k + 2 ^ 63) mod 2 ^ 64 - 2 ^ 63"
    by (simp add: signed_take_bit_eq_take_bit_shift take_bit_eq_mod)
  moreover have "(k + 2 ^ 63) mod 2 ^ 64 = k + 2 ^ 63 + 2 ^ 64" if "k < - (2 ^ 63)"
  proof -
    have "(k + 2 ^ 63) mod 2 ^ 64 = (k + 2 ^ 63 + 2 ^ 64) mod 2 ^ 64"
      by (rule mod_add_self2 [symmetric])
    also have "\<dots> = k + 2 ^ 63 + 2 ^ 64"
      using that \<open>- (2 ^ 64) \<le> k\<close> by (intro mod_pos_pos_trivial) auto
    finally show ?thesis .
  qed
  moreover have "(k + 2 ^ 63) mod 2 ^ 64 = k + 2 ^ 63 - 2 ^ 64" if "2 ^ 63 \<le> k"
  proof -
    have "(k + 2 ^ 63) mod 2 ^ 64 = (k + 2 ^ 63 - 2 ^ 64) mod 2 ^ 64"
      by (rule minus_mod_self2 [symmetric])
    also have "\<dots> = k + 2 ^ 63 - 2 ^ 64"
      using that \<open>k < 2 ^ 64\<close> by (intro mod_pos_pos_trivial) auto
    finally show ?thesis .
  qed
  moreover have "(k + 2 ^ 63) mod 2 ^ 64 = k + 2 ^ 63" if "- (2 ^ 63) \<le> k" "k < 2 ^ 63"
    using that by (intro mod_pos_pos_trivial) auto
  ultimately show ?thesis by auto
qed

text \<open>The wrap-around of a signed 64-bit sum and difference, case by case.\<close>

lemma sint64_add:
  "sint (a + b :: i64) =
     (if sint a + sint b < - (2 ^ 63) then sint a + sint b + 2 ^ 64
      else if 2 ^ 63 \<le> sint a + sint b then sint a + sint b - 2 ^ 64
      else sint a + sint b)"
proof -
  have "sint (a + b) = signed_take_bit 63 (sint a + sint b)"
    by (simp add: sint_word_ariths)
  also have "\<dots> = (if sint a + sint b < - (2 ^ 63) then sint a + sint b + 2 ^ 64
      else if 2 ^ 63 \<le> sint a + sint b then sint a + sint b - 2 ^ 64 else sint a + sint b)"
    using sint64_range [of a] sint64_range [of b] by (intro signed_take_bit_63) auto
  finally show ?thesis .
qed

lemma sint64_sub:
  "sint (a - b :: i64) =
     (if sint a - sint b < - (2 ^ 63) then sint a - sint b + 2 ^ 64
      else if 2 ^ 63 \<le> sint a - sint b then sint a - sint b - 2 ^ 64
      else sint a - sint b)"
proof -
  have "sint (a - b) = signed_take_bit 63 (sint a - sint b)"
    by (simp add: sint_word_ariths)
  also have "\<dots> = (if sint a - sint b < - (2 ^ 63) then sint a - sint b + 2 ^ 64
      else if 2 ^ 63 \<le> sint a - sint b then sint a - sint b - 2 ^ 64 else sint a - sint b)"
    using sint64_range [of a] sint64_range [of b] by (intro signed_take_bit_63) auto
  finally show ?thesis .
qed

lemma sint64_eq_iff: "(a :: i64) = b \<longleftrightarrow> sint a = sint b"
  by (rule word_eq_iff_signed)

text \<open>The integers an \<open>int64\<close> holds, and the two overflow tests of the source against it.\<close>

definition fits64 :: "int \<Rightarrow> bool" where
  "fits64 n \<longleftrightarrow> - (2 ^ 63) \<le> n \<and> n < 2 ^ 63"

lemma fits64_sint [simp]: "fits64 (sint (x :: i64))"
  using sint64_range [of x] by (simp add: fits64_def)

lemma sint_of_int64: "fits64 n \<Longrightarrow> sint (word_of_int n :: i64) = n"
  by (simp add: fits64_def sint_sbintrunc' signed_take_bit_63)

lemma of_int_sint64 [simp]: "word_of_int (sint x) = (x :: i64)"
  by (simp add: sint64_eq_iff sint_of_int64)

lemma word_eq_of_int64: "fits64 n \<Longrightarrow> (x :: i64) = word_of_int n \<longleftrightarrow> sint x = n"
  by (auto simp: sint_of_int64)

lemma sint64_add_fits: "fits64 (sint a + sint b) \<Longrightarrow> sint (a + b :: i64) = sint a + sint b"
  by (simp add: fits64_def sint64_add)

lemma sint64_sub_fits: "fits64 (sint a - sint b) \<Longrightarrow> sint (a - b :: i64) = sint a - sint b"
  by (simp add: fits64_def sint64_sub)

lemma sint64_neg_fits: "fits64 (- sint a) \<Longrightarrow> sint (- a :: i64) = - sint a"
  using sint64_sub_fits [of 0 a] by simp

lemma add_overflow_test:
  "((0 <s b \<and> a + b <s a) \<or> (b <s 0 \<and> a <s a + b)) \<longleftrightarrow> \<not> fits64 (sint a + sint (b :: i64))"
  using sint64_range [of a] sint64_range [of b]
  by (auto simp: word_sless_alt sint64_add fits64_def)

lemma sub_overflow_test:
  "((b <s 0 \<and> a - b <s a) \<or> (0 <s b \<and> a <s a - b)) \<longleftrightarrow> \<not> fits64 (sint a - sint (b :: i64))"
  using sint64_range [of a] sint64_range [of b]
  by (auto simp: word_sless_alt sint64_sub fits64_def)

lemma unat_lt64: "unat (x :: u64) < 2 ^ 64"
  by (rule order_less_le_trans [OF unsigned_less]) simp

lemma ex_unat: "n \<le> unat (limit :: u64) \<Longrightarrow> \<exists>x :: u64. unat x = n"
  using unat_lt64 [of limit]
  by (intro exI [of _ "word_of_nat n"]) (simp add: unat_of_nat)

lemma ex_unat_iff: "(\<exists>x :: u64. unat x = n \<and> P x) \<longleftrightarrow> n < 2 ^ 64 \<and> P (word_of_nat n)"
proof -
  have "\<exists>x :: u64. unat x = n \<and> P x" if "n < 2 ^ 64" "P (word_of_nat n)"
    using that by (intro exI [of _ "word_of_nat n"]) (simp add: unat_of_nat)
  moreover have "n < 2 ^ 64 \<and> P (word_of_nat n)" if "unat x = n" "P x" for x :: u64
    using that unat_lt64 [of x] by auto
  ultimately show ?thesis by blast
qed

lemma le_mult_pow10: "n \<le> n * 10 ^ (k :: nat)" for n :: nat
  by simp

lemma unat_limits [simp]:
  "unat (MaxInt64 :: u64) = 2 ^ 63 - 1" "unat (MaxInt64 + 1 :: u64) = 2 ^ 63"
  by simp_all

lemma sint_small: "unat (a :: i64) < 2 ^ 63 \<Longrightarrow> sint a = int (unat a)"
proof -
  assume "unat a < 2 ^ 63"
  then have "int (unat a) < int (2 ^ 63)" by (simp only: of_nat_less_iff)
  then have "uint a < 2 ^ 63" by (simp only: uint_nat of_nat_power of_nat_numeral)
  moreover have "0 \<le> uint a" by simp
  ultimately have "signed_take_bit 63 (uint a) = uint a" by (intro signed_take_bit_int_eq_self) linarith+
  then show ?thesis by (simp add: sint_uint)
qed

lemma neg_word_of_int: "- (a :: i64) = word_of_int (- int (unat a))"
  by simp

lemma word_of_int_unat: "(a :: u64) = word_of_int (int (unat a))"
  by simp

lemma uint_of_int64: "uint (word_of_int k :: i64) = take_bit 64 k"
  by (simp add: unsigned_of_int)

section \<open>Results\<close>

definition andThen :: "'e + 'a \<Rightarrow> ('a \<Rightarrow> 'e + 'b) \<Rightarrow> 'e + 'b" where
  "andThen r f = (case r of Inl e \<Rightarrow> Inl e | Inr x \<Rightarrow> f x)"

lemma andThen_simps [simp, go_simps]:
  "andThen (Inl e) f = Inl e"
  "andThen (Inr x) f = f x"
  by (simp_all add: andThen_def)

lemma andThen_Inr_iff: "andThen r f = Inr y \<longleftrightarrow> (\<exists>x. r = Inr x \<and> f x = Inr y)"
  by (cases r) auto

lemma andThen_Inl_iff:
  "andThen r f = Inl e \<longleftrightarrow> r = Inl e \<or> (\<exists>x. r = Inr x \<and> f x = Inl e)"
  by (cases r) auto

lemma andThen_okE [ok_elims]:
  assumes "andThen r f = Inr y"
  obtains x where "r = Inr x" "f x = Inr y"
  using assms by (auto simp: andThen_Inr_iff)

lemma andThen_cong [fundef_cong]:
  "r = r' \<Longrightarrow> (\<And>x. r' = Inr x \<Longrightarrow> f x = g x) \<Longrightarrow> andThen r f = andThen r' g"
  by (cases r') auto

section \<open>Decimal printing\<close>

definition digit_char :: "nat \<Rightarrow> char" where
  "digit_char d = char_of (48 + d)"

fun utoa :: "nat \<Rightarrow> string" where
  "utoa n = (if n < 10 then [digit_char n] else utoa (n div 10) @ [digit_char (n mod 10)])"

declare utoa.simps [simp del]

definition is_digit :: "char \<Rightarrow> bool" where
  "is_digit c \<longleftrightarrow> CHR ''0'' \<le> c \<and> c \<le> CHR ''9''"

definition digit_val :: "char \<Rightarrow> nat" where
  "digit_val c = of_char c - 48"

definition digits_val :: "nat \<Rightarrow> string \<Rightarrow> nat" where
  "digits_val a s = foldl (\<lambda>acc c. acc * 10 + digit_val c) a s"

lemma digits_val_simps [simp]:
  "digits_val a [] = a"
  "digits_val a (c # s) = digits_val (a * 10 + digit_val c) s"
  "digits_val a (s @ t) = digits_val (digits_val a s) t"
  by (simp_all add: digits_val_def)

lemma digits_val_mono: "a \<le> digits_val a s"
proof (induction s arbitrary: a)
  case Nil
  then show ?case by simp
next
  case (Cons c s)
  have "a \<le> a * 10 + digit_val c" by simp
  also have "\<dots> \<le> digits_val (a * 10 + digit_val c) s" by (rule Cons.IH)
  finally show ?case by simp
qed

lemma digit_char_of_char: "d < 10 \<Longrightarrow> of_char (digit_char d) = 48 + d"
  by (simp add: digit_char_def)

lemma is_digit_digit_char [simp]: "d < 10 \<Longrightarrow> is_digit (digit_char d)"
  by (simp add: is_digit_def less_eq_char_def digit_char_of_char)

lemma digit_val_digit_char [simp]: "d < 10 \<Longrightarrow> digit_val (digit_char d) = d"
  by (simp add: digit_val_def digit_char_of_char)

lemma digit_char_simps [simp]:
  "digit_char 0 = CHR ''0''" "digit_char (Suc 0) = CHR ''1''" "digit_char 1 = CHR ''1''"
  "digit_char 2 = CHR ''2''" "digit_char 3 = CHR ''3''" "digit_char 4 = CHR ''4''"
  "digit_char 5 = CHR ''5''" "digit_char 6 = CHR ''6''" "digit_char 7 = CHR ''7''"
  "digit_char 8 = CHR ''8''" "digit_char 9 = CHR ''9''"
  by (simp_all add: digit_char_def char_of_def bit_Suc_0_iff)

lemma digit_val_le_9: "is_digit c \<Longrightarrow> digit_val c \<le> 9"
  by (auto simp: is_digit_def digit_val_def less_eq_char_def)

lemma utoa_not_Nil [simp]: "utoa n \<noteq> []"
  by (subst utoa.simps) simp

lemma utoa_digits: "c \<in> set (utoa n) \<Longrightarrow> is_digit c"
proof (induction n rule: utoa.induct)
  case (1 n)
  then show ?case
    by (subst (asm) utoa.simps) (auto split: if_splits)
qed

lemma digits_val_utoa [simp]: "digits_val 0 (utoa n) = n"
proof (induction n rule: utoa.induct)
  case (1 n)
  then show ?case
    by (cases "n < 10") (simp_all add: utoa.simps [of n])
qed

lemma utoa_inj: "utoa m = utoa n \<longleftrightarrow> m = n"
  by (metis digits_val_utoa)

lemma utoa_hd_digit: "is_digit (hd (utoa n))"
  by (rule utoa_digits [OF hd_in_set]) simp

lemma utoa_Cons: "\<exists>c cs. utoa n = c # cs \<and> is_digit c"
  by (metis list.exhaust_sel utoa_hd_digit utoa_not_Nil)

lemma utoa_all_digits: "list_all is_digit (utoa n)"
  by (simp add: list_all_iff utoa_digits)

lemma digit_not_point: "is_digit b \<Longrightarrow> b \<noteq> CHR ''.''"
  by (auto simp: is_digit_def less_eq_char_def)

lemma digit_not_minus: "is_digit b \<Longrightarrow> b \<noteq> CHR ''-''"
  by (auto simp: is_digit_def less_eq_char_def)

lemma two_places:
  assumes "n < 100"
  shows "list_all is_digit ((if n < 10 then ''0'' else '''') @ utoa n)"
    and "length ((if n < 10 then ''0'' else '''') @ utoa n) = 2"
    and "digits_val a ((if n < 10 then ''0'' else '''') @ utoa n) = a * 100 + n"
proof -
  have "is_digit CHR ''0''" "digit_val CHR ''0'' = 0" by (simp_all add: is_digit_def digit_val_def)
  moreover have div10: "n div 10 < 10" using assms by presburger
  moreover have "utoa n = (if n < 10 then [digit_char n] else [digit_char (n div 10), digit_char (n mod 10)])"
    using assms div10 by (simp add: utoa.simps [of n] utoa.simps [of "n div 10"])
  ultimately show "list_all is_digit ((if n < 10 then ''0'' else '''') @ utoa n)"
    and "length ((if n < 10 then ''0'' else '''') @ utoa n) = 2"
    and "digits_val a ((if n < 10 then ''0'' else '''') @ utoa n) = a * 100 + n"
    using assms by auto
qed

section \<open>White space, as \<open>strings.TrimSpace\<close> sees it\<close>

text \<open>
  The UTF-8 encodings of the code points for which \<open>unicode.IsSpace\<close> holds: the ASCII
  ones, U+0085, U+00A0, U+1680, U+2000 to U+200A, U+2028, U+2029, U+202F, U+205F, U+3000.
\<close>

definition space_runes :: "string list" where
  "space_runes =
     map (\<lambda>n. [char_of n]) [9::nat, 10, 11, 12, 13, 32]
     @ map (map char_of)
        ([[0xC2, 0x85], [0xC2, 0xA0], [0xE1, 0x9A, 0x80]]
         @ map (\<lambda>n. [0xE2, 0x80, n]) ([0x80..<0x8B] @ [0xA8, 0xA9, 0xAF])
         @ [[0xE2, 0x81, 0x9F], [0xE3, 0x80, 0x80 :: nat]])"

definition strip_rune :: "string \<Rightarrow> string option" where
  "strip_rune s =
     (case List.find (\<lambda>p. take (length p) s = p) space_runes of
        None \<Rightarrow> None
      | Some p \<Rightarrow> Some (drop (length p) s))"

definition strip_last_rune :: "string \<Rightarrow> string option" where
  "strip_last_rune s =
     (case List.find (\<lambda>p. length p \<le> length s \<and> drop (length s - length p) s = p) space_runes of
        None \<Rightarrow> None
      | Some p \<Rightarrow> Some (take (length s - length p) s))"

lemma space_runes_not_Nil: "p \<in> set space_runes \<Longrightarrow> p \<noteq> []"
  by (auto simp: space_runes_def)

lemma strip_rune_shorter: "strip_rune s = Some t \<Longrightarrow> length t < length s"
proof -
  assume "strip_rune s = Some t"
  then obtain p where p: "p \<in> set space_runes" "take (length p) s = p" "t = drop (length p) s"
    by (auto simp: strip_rune_def find_Some_iff split: option.splits) (metis nth_mem)
  then have pos: "0 < length p" using space_runes_not_Nil by auto
  have "length p = min (length s) (length p)" using p(2) by (metis length_take)
  with pos have "0 < length s" by linarith
  with pos p(3) show ?thesis by simp
qed

lemma strip_last_rune_shorter: "strip_last_rune s = Some t \<Longrightarrow> length t < length s"
proof -
  assume "strip_last_rune s = Some t"
  then obtain p where p: "p \<in> set space_runes" "length p \<le> length s" "t = take (length s - length p) s"
    by (auto simp: strip_last_rune_def find_Some_iff split: option.splits) (metis nth_mem)
  then have "0 < length p" using space_runes_not_Nil by auto
  with p have "length s - length p < length s" by linarith
  with p show ?thesis by simp
qed

function trim_left :: "string \<Rightarrow> string" where
  "trim_left s = (case strip_rune s of None \<Rightarrow> s | Some t \<Rightarrow> trim_left t)"
  by pat_completeness auto
termination
  by (relation "measure length") (auto dest: strip_rune_shorter)

function trim_right :: "string \<Rightarrow> string" where
  "trim_right s = (case strip_last_rune s of None \<Rightarrow> s | Some t \<Rightarrow> trim_right t)"
  by pat_completeness auto
termination
  by (relation "measure length") (auto dest: strip_last_rune_shorter)

declare trim_left.simps [simp del] trim_right.simps [simp del]

definition TrimSpace :: "string \<Rightarrow> string" where
  "TrimSpace s = trim_right (trim_left s)"

lemma TrimSpace_id:
  "strip_rune s = None \<Longrightarrow> strip_last_rune s = None \<Longrightarrow> TrimSpace s = s"
  by (simp add: TrimSpace_def trim_left.simps trim_right.simps)

section \<open>Instants\<close>

text \<open>
  A \<open>time.Time\<close> is an instant, counted in nanoseconds from the zero value (January 1 of
  year 1, UTC), and the location it prints in; \<open>IsZero\<close> and \<open>Before\<close> look at the instant
  only, \<open>UTC\<close> changes the location only. A \<open>time.Duration\<close> is an \<open>int64\<close> of nanoseconds.
\<close>

datatype location = LocUTC | LocNamed string

record gotime =
  instant :: int
  loc :: location

type_synonym duration = i64

definition time_zero :: gotime where
  "time_zero = \<lparr>instant = 0, loc = LocUTC\<rparr>"

definition time_IsZero :: "gotime \<Rightarrow> bool" where
  "time_IsZero t \<longleftrightarrow> instant t = 0"

definition time_UTC :: "gotime \<Rightarrow> gotime" where
  "time_UTC t = t\<lparr>loc := LocUTC\<rparr>"

definition time_Before :: "gotime \<Rightarrow> gotime \<Rightarrow> bool" where
  "time_Before t u \<longleftrightarrow> instant t < instant u"

definition time_Add :: "gotime \<Rightarrow> duration \<Rightarrow> gotime" where
  "time_Add t d = t\<lparr>instant := instant t + sint d\<rparr>"

lemma time_IsZero_UTC [simp]: "time_IsZero (time_UTC t) = time_IsZero t"
  by (simp add: time_IsZero_def time_UTC_def)

lemma time_IsZero_zero [simp]: "time_IsZero time_zero"
  by (simp add: time_IsZero_def time_zero_def)

lemma time_UTC_UTC [simp]: "time_UTC (time_UTC t) = time_UTC t"
  by (simp add: time_UTC_def)

lemma instant_UTC [simp]: "instant (time_UTC t) = instant t"
  by (simp add: time_UTC_def)

lemma loc_UTC [simp]: "loc (time_UTC t) = LocUTC"
  by (simp add: time_UTC_def)

end
