(* ===== verification/Errors.thy ===== *)
theory Errors
  imports Prelude
begin

text \<open>
  Errors as values (\<open>internal/domain/errors.go\<close>, \<open>internal/app/errors.go\<close>).

  A Go \<open>error\<close> is a tree: a sentinel, a domain rejection carrying a stable code, a
  constraint error carrying the name of the rule that fired and the class it belongs to,
  or any of these wrapped with \<open>%w\<close>. The text of an error is not modelled: nothing in the
  program branches on it. \<open>OtherErr\<close> is every error the program has no name for (driver,
  context, entropy source); its string only tells two of them apart.
\<close>

section \<open>Stable rejection codes\<close>

text \<open>
  \<open>type Code string\<close>. The constants are constructors; \<open>CodeOther s\<close> is any other string,
  in particular \<open>CodeOther ''''\<close> is the empty code.
\<close>

datatype code =
    CodeInvalidCurrency | CodeInvalidAmount | CodeNegativeAmount | CodeAmountOverflow
  | CodeCurrencyMismatch
  | CodeInvalidIdentifier | CodeInvalidTimestamp | CodeInvalidDirection | CodeNonPositiveAmount
  | CodeInconsistentEntry | CodeInsufficientFunds | CodeInvalidVersion
  | CodeInvalidKind | CodeInvalidStatus | CodeInvalidTransition | CodeInvalidAmountForKind
  | CodeMissingReference | CodeUnexpectedReference
  | CodeReferenceNotFound | CodeReferenceMismatch | CodeReferenceAmountMismatch
  | CodeReferenceNotReversible | CodeAlreadyReversed | CodeReversalExceedsBalance
  | CodeOther string

definition all_codes :: "code list" where
  "all_codes =
     [CodeInvalidCurrency, CodeInvalidAmount, CodeNegativeAmount, CodeAmountOverflow,
      CodeCurrencyMismatch,
      CodeInvalidIdentifier, CodeInvalidTimestamp, CodeInvalidDirection, CodeNonPositiveAmount,
      CodeInconsistentEntry, CodeInsufficientFunds, CodeInvalidVersion,
      CodeInvalidKind, CodeInvalidStatus, CodeInvalidTransition, CodeInvalidAmountForKind,
      CodeMissingReference, CodeUnexpectedReference,
      CodeReferenceNotFound, CodeReferenceMismatch, CodeReferenceAmountMismatch,
      CodeReferenceNotReversible, CodeAlreadyReversed, CodeReversalExceedsBalance]"

fun string_of_code :: "code \<Rightarrow> string" where
  "string_of_code CodeInvalidCurrency = ''INVALID_CURRENCY''"
| "string_of_code CodeInvalidAmount = ''INVALID_AMOUNT''"
| "string_of_code CodeNegativeAmount = ''NEGATIVE_AMOUNT''"
| "string_of_code CodeAmountOverflow = ''AMOUNT_OVERFLOW''"
| "string_of_code CodeCurrencyMismatch = ''CURRENCY_MISMATCH''"
| "string_of_code CodeInvalidIdentifier = ''INVALID_IDENTIFIER''"
| "string_of_code CodeInvalidTimestamp = ''INVALID_TIMESTAMP''"
| "string_of_code CodeInvalidDirection = ''INVALID_DIRECTION''"
| "string_of_code CodeNonPositiveAmount = ''NON_POSITIVE_AMOUNT''"
| "string_of_code CodeInconsistentEntry = ''INCONSISTENT_LEDGER_ENTRY''"
| "string_of_code CodeInsufficientFunds = ''INSUFFICIENT_FUNDS''"
| "string_of_code CodeInvalidVersion = ''INVALID_VERSION''"
| "string_of_code CodeInvalidKind = ''INVALID_KIND''"
| "string_of_code CodeInvalidStatus = ''INVALID_STATUS''"
| "string_of_code CodeInvalidTransition = ''INVALID_TRANSITION''"
| "string_of_code CodeInvalidAmountForKind = ''INVALID_AMOUNT_FOR_KIND''"
| "string_of_code CodeMissingReference = ''MISSING_REFERENCE''"
| "string_of_code CodeUnexpectedReference = ''UNEXPECTED_REFERENCE''"
| "string_of_code CodeReferenceNotFound = ''REFERENCE_NOT_FOUND''"
| "string_of_code CodeReferenceMismatch = ''REFERENCE_MISMATCH''"
| "string_of_code CodeReferenceAmountMismatch = ''REFERENCE_AMOUNT_MISMATCH''"
| "string_of_code CodeReferenceNotReversible = ''REFERENCE_NOT_REVERSIBLE''"
| "string_of_code CodeAlreadyReversed = ''ALREADY_REVERSED''"
| "string_of_code CodeReversalExceedsBalance = ''REVERSAL_EXCEEDS_BALANCE''"
| "string_of_code (CodeOther s) = s"

definition code_of_string :: "string \<Rightarrow> code" where
  "code_of_string s =
     (case List.find (\<lambda>c. string_of_code c = s) all_codes of Some c \<Rightarrow> c | None \<Rightarrow> CodeOther s)"

text \<open>A code as the program can hold it: a constant, or a string that is no constant.\<close>

definition proper_code :: "code \<Rightarrow> bool" where
  "proper_code c \<longleftrightarrow> code_of_string (string_of_code c) = c"

lemma string_of_code_of_string [simp]: "string_of_code (code_of_string s) = s"
  by (auto simp: code_of_string_def find_Some_iff split: option.splits)

lemma proper_code_of_string [simp]: "proper_code (code_of_string s)"
  by (simp add: proper_code_def)

lemma all_codes_proper: "list_all proper_code all_codes"
  by code_simp

lemma proper_code_constants: "c \<in> set all_codes \<Longrightarrow> proper_code c"
  using all_codes_proper by (simp add: list_all_iff)

lemma code_of_string_empty [simp]: "code_of_string '''' = CodeOther ''''"
  by (simp add: code_of_string_def all_codes_def)

lemma proper_code_empty [simp]: "proper_code (CodeOther '''')"
  by (simp add: proper_code_def)

lemma string_of_code_Nil_iff [simp]: "string_of_code c = '''' \<longleftrightarrow> c = CodeOther ''''"
  by (cases c) auto

section \<open>Error values\<close>

datatype goerror =
    DomainErr code
  | ErrUnauthenticated | ErrForbidden | ErrNotFound | ErrConflict | ErrInvariantViolated
  | ErrVersionMismatch | ErrSerializationFailure | ErrInvalidInput | ErrNotImplemented
  | ErrNestedUnitOfWork
  | ConstraintError string goerror
  | Wrapped goerror
  | OtherErr string

type_synonym 'a res = "goerror + 'a"

text \<open>\<open>fail\<close> of the domain: a rejection identified by its code.\<close>

definition fail :: "code \<Rightarrow> 'a res" where
  "fail c = Inl (DomainErr c)"

definition NewConflict :: "string \<Rightarrow> goerror" where
  "NewConflict name = ConstraintError name ErrConflict"

definition NewInvariantViolation :: "string \<Rightarrow> goerror" where
  "NewInvariantViolation name = ConstraintError name ErrInvariantViolated"

text \<open>
  \<open>errors.Is\<close>: the target is found at the error itself or at what it unwraps to; a domain
  error answers its own \<open>Is\<close> method, which compares codes.
\<close>

fun errors_Is :: "goerror \<Rightarrow> goerror \<Rightarrow> bool" where
  "errors_Is (Wrapped e) t = (Wrapped e = t \<or> errors_Is e t)"
| "errors_Is (ConstraintError n e) t = (ConstraintError n e = t \<or> errors_Is e t)"
| "errors_Is (DomainErr c) t = (case t of DomainErr d \<Rightarrow> d = c | _ \<Rightarrow> False)"
| "errors_Is e t = (e = t)"

text \<open>\<open>errors.As\<close> into a \<open>*domain.Error\<close> and into a \<open>*ConstraintError\<close>.\<close>

fun as_domain :: "goerror \<Rightarrow> code option" where
  "as_domain (DomainErr c) = Some c"
| "as_domain (Wrapped e) = as_domain e"
| "as_domain (ConstraintError n e) = as_domain e"
| "as_domain _ = None"

fun as_constraint :: "goerror \<Rightarrow> string option" where
  "as_constraint (ConstraintError n e) = Some n"
| "as_constraint (Wrapped e) = as_constraint e"
| "as_constraint _ = None"

lemma fail_simps [simp]: "fail c \<noteq> Inr x" "Inr x \<noteq> fail c" "fail c = Inl e \<longleftrightarrow> e = DomainErr c"
  by (auto simp: fail_def)

lemma andThen_fail [simp, go_simps]: "andThen (fail c) f = fail c"
  by (simp add: fail_def)

lemma as_domain_NewConflict [simp]: "as_domain (NewConflict n) = None"
  by (simp add: NewConflict_def)

lemma as_domain_NewInvariantViolation [simp]: "as_domain (NewInvariantViolation n) = None"
  by (simp add: NewInvariantViolation_def)

text \<open>A domain rejection is never one of the sentinels of the application layer.\<close>

lemma domain_not_conflict: "as_domain e = Some c \<Longrightarrow> \<not> errors_Is e ErrConflict"
  by (induction e) auto

lemma domain_not_transient:
  "as_domain e = Some c \<Longrightarrow> \<not> errors_Is e ErrSerializationFailure \<and> \<not> errors_Is e ErrVersionMismatch"
  by (induction e) auto

end
