(* ===== verification/Money.thy ===== *)
theory Money
  imports Errors
begin

text \<open>
  \<open>internal/domain/money.go\<close>: amounts as a count of minor units in one currency.

  \<open>minor\<close> is the \<open>int64\<close> of the source, a 64-bit word; the parser accumulates in \<open>uint64\<close>
  exactly as the source does, digit by digit, with the overflow test before each multiply.
  The JSON codec is modelled on the wire object (\<open>moneyJSON\<close>), the bytes around it being
  \<open>encoding/json\<close>'s.
\<close>

section \<open>Currency\<close>

record currency = code_str :: string

definition Currency_zero :: currency where
  "Currency_zero = \<lparr>code_str = ''''\<rparr>"

fun all_upper :: "string \<Rightarrow> bool" where
  "all_upper [] = True"
| "all_upper (b # s) = (if b < CHR ''A'' \<or> CHR ''Z'' < b then False else all_upper s)"

definition ParseCurrency :: "string \<Rightarrow> currency res" where
  "ParseCurrency s =
     (if length s \<noteq> 3 then fail CodeInvalidCurrency
      else if \<not> all_upper s then fail CodeInvalidCurrency
      else Inr \<lparr>code_str = s\<rparr>)"

definition Currency_String :: "currency \<Rightarrow> string" where
  "Currency_String c = code_str c"

definition Currency_IsZero :: "currency \<Rightarrow> bool" where
  "Currency_IsZero c \<longleftrightarrow> code_str c = ''''"

section \<open>Money\<close>

record money =
  minor :: i64
  currency :: currency

definition Scale :: nat where
  "Scale = 2"

definition scaleFactor :: u64 where
  "scaleFactor = 100"

text \<open>The zero value \<open>Money{}\<close>: no currency, so not initialised.\<close>

definition Money_zero :: money where
  "Money_zero = \<lparr>minor = 0, currency = Currency_zero\<rparr>"

definition Money_IsZero :: "money \<Rightarrow> bool" where
  "Money_IsZero m \<longleftrightarrow> minor m = 0"

definition Money_IsPositive :: "money \<Rightarrow> bool" where
  "Money_IsPositive m \<longleftrightarrow> 0 <s minor m"

definition Money_IsNegative :: "money \<Rightarrow> bool" where
  "Money_IsNegative m \<longleftrightarrow> minor m <s 0"

definition Money_IsInitialised :: "money \<Rightarrow> bool" where
  "Money_IsInitialised m \<longleftrightarrow> \<not> Currency_IsZero (currency m)"

definition ZeroMoney :: "currency \<Rightarrow> money res" where
  "ZeroMoney c =
     (if Currency_IsZero c then fail CodeInvalidCurrency
      else Inr \<lparr>minor = 0, currency = c\<rparr>)"

definition NewMoneyFromMinor :: "i64 \<Rightarrow> currency \<Rightarrow> money res" where
  "NewMoneyFromMinor n c =
     (if Currency_IsZero c then fail CodeInvalidCurrency
      else Inr \<lparr>minor = n, currency = c\<rparr>)"

subsection \<open>Parsing\<close>

definition digit :: "char \<Rightarrow> u64 option" where
  "digit b = (if b < CHR ''0'' \<or> CHR ''9'' < b then None else Some (of_char b - of_char CHR ''0''))"

definition pushDigit :: "u64 \<Rightarrow> u64 \<Rightarrow> u64 \<Rightarrow> u64 option" where
  "pushDigit acc d limit =
     (if (limit - d) div 10 < acc then None else Some (acc * 10 + d))"

text \<open>The loop over the integer part: it stops at the end or in front of the point.\<close>

fun scan_int :: "u64 \<Rightarrow> string \<Rightarrow> u64 \<Rightarrow> nat \<Rightarrow> (u64 \<times> nat \<times> string) res" where
  "scan_int limit [] acc intDigits = Inr (acc, intDigits, [])"
| "scan_int limit (b # s) acc intDigits =
     (if b = CHR ''.'' then Inr (acc, intDigits, b # s)
      else case digit b of
        None \<Rightarrow> fail CodeInvalidAmount
      | Some d \<Rightarrow>
          (case pushDigit acc d limit of
             None \<Rightarrow> fail CodeAmountOverflow
           | Some acc' \<Rightarrow> scan_int limit s acc' (Suc intDigits)))"

text \<open>The loop over the decimal places.\<close>

fun scan_frac :: "u64 \<Rightarrow> string \<Rightarrow> u64 \<Rightarrow> nat \<Rightarrow> (u64 \<times> nat) res" where
  "scan_frac limit [] acc fracDigits = Inr (acc, fracDigits)"
| "scan_frac limit (b # s) acc fracDigits =
     (case digit b of
        None \<Rightarrow> fail CodeInvalidAmount
      | Some d \<Rightarrow>
          if fracDigits = Scale then fail CodeInvalidAmount
          else (case pushDigit acc d limit of
             None \<Rightarrow> fail CodeAmountOverflow
           | Some acc' \<Rightarrow> scan_frac limit s acc' (Suc fracDigits)))"

text \<open>The padding loop, which brings the number of places up to the fixed scale.\<close>

function pad_frac :: "u64 \<Rightarrow> u64 \<Rightarrow> nat \<Rightarrow> u64 res" where
  "pad_frac limit acc fracDigits =
     (if fracDigits < Scale then
        (case pushDigit acc 0 limit of
           None \<Rightarrow> fail CodeAmountOverflow
         | Some acc' \<Rightarrow> pad_frac limit acc' (Suc fracDigits))
      else Inr acc)"
  by pat_completeness auto
termination
  by (relation "measure (\<lambda>(limit, acc, n). Scale - n)") auto

declare pad_frac.simps [simp del]

text \<open>What follows the sign: the two scans and the padding.\<close>

definition parse_magnitude :: "u64 \<Rightarrow> string \<Rightarrow> u64 res" where
  "parse_magnitude limit s =
     andThen (scan_int limit s 0 0) (\<lambda>(acc, intDigits, rest).
       if intDigits = 0 then fail CodeInvalidAmount
       else
         andThen
           (case rest of
              [] \<Rightarrow> Inr (acc, 0)
            | _ # frac \<Rightarrow>
                andThen (scan_frac limit frac acc 0) (\<lambda>(acc', fracDigits).
                  if fracDigits = 0 then fail CodeInvalidAmount else Inr (acc', fracDigits)))
           (\<lambda>(acc', fracDigits). pad_frac limit acc' fracDigits))"

definition parseMinor :: "string \<Rightarrow> i64 res" where
  "parseMinor s =
     (case s of
        [] \<Rightarrow> fail CodeInvalidAmount
      | b # rest \<Rightarrow>
          if b = CHR ''-'' then
            andThen (parse_magnitude (MaxInt64 + 1) rest) (\<lambda>acc.
              if acc = MaxInt64 + 1 then Inr MinInt64 else Inr (- acc))
          else if b = CHR ''+'' then fail CodeInvalidAmount
          else andThen (parse_magnitude MaxInt64 s) Inr)"

definition ParseMoney :: "string \<Rightarrow> currency \<Rightarrow> money res" where
  "ParseMoney amount c =
     (if Currency_IsZero c then fail CodeInvalidCurrency
      else andThen (parseMinor amount) (\<lambda>n. Inr \<lparr>minor = n, currency = c\<rparr>))"

definition ParseExternalMoney :: "string \<Rightarrow> currency \<Rightarrow> money res" where
  "ParseExternalMoney amount c =
     andThen (ParseMoney amount c) (\<lambda>m.
       if minor m <s 0 then fail CodeNegativeAmount else Inr m)"

subsection \<open>Printing\<close>

definition Money_magnitude :: "money \<Rightarrow> u64" where
  "Money_magnitude m = (if minor m <s 0 then - (minor m + 1) + 1 else minor m)"

definition Money_String :: "money \<Rightarrow> string" where
  "Money_String m =
     (let sign = (if minor m <s 0 then ''-'' else '''');
          units = Money_magnitude m div scaleFactor;
          fraction = Money_magnitude m mod scaleFactor
      in sign @ utoa (unat units) @ ''.'' @ (if fraction < 10 then ''0'' else '''')
         @ utoa (unat fraction))"

subsection \<open>Arithmetic\<close>

definition Money_requireComparable :: "money \<Rightarrow> money \<Rightarrow> unit res" where
  "Money_requireComparable m other =
     (if \<not> Money_IsInitialised m \<or> \<not> Money_IsInitialised other then fail CodeInvalidCurrency
      else if currency m \<noteq> currency other then fail CodeCurrencyMismatch
      else Inr ())"

definition Money_Add :: "money \<Rightarrow> money \<Rightarrow> money res" where
  "Money_Add m other =
     andThen (Money_requireComparable m other) (\<lambda>_.
       let sum = minor m + minor other in
       if (0 <s minor other \<and> sum <s minor m) \<or> (minor other <s 0 \<and> minor m <s sum)
       then fail CodeAmountOverflow
       else Inr \<lparr>minor = sum, currency = currency m\<rparr>)"

definition Money_Sub :: "money \<Rightarrow> money \<Rightarrow> money res" where
  "Money_Sub m other =
     andThen (Money_requireComparable m other) (\<lambda>_.
       let diff = minor m - minor other in
       if (minor other <s 0 \<and> diff <s minor m) \<or> (0 <s minor other \<and> minor m <s diff)
       then fail CodeAmountOverflow
       else Inr \<lparr>minor = diff, currency = currency m\<rparr>)"

definition Money_Neg :: "money \<Rightarrow> money res" where
  "Money_Neg m =
     (if \<not> Money_IsInitialised m then fail CodeInvalidCurrency
      else if minor m = MinInt64 then fail CodeAmountOverflow
      else Inr \<lparr>minor = - minor m, currency = currency m\<rparr>)"

definition Money_Cmp :: "money \<Rightarrow> money \<Rightarrow> int res" where
  "Money_Cmp m other =
     andThen (Money_requireComparable m other) (\<lambda>_.
       if minor m <s minor other then Inr (-1)
       else if minor other <s minor m then Inr 1
       else Inr 0)"

subsection \<open>The wire shape\<close>

record moneyJSON =
  json_amount :: string
  json_currency :: string

definition Money_MarshalJSON :: "money \<Rightarrow> moneyJSON res" where
  "Money_MarshalJSON m =
     (if \<not> Money_IsInitialised m then fail CodeInvalidCurrency
      else Inr \<lparr>json_amount = Money_String m, json_currency = code_str (currency m)\<rparr>)"

text \<open>
  The argument is what \<open>json.Unmarshal\<close> made of the bytes: its error (\<open>None\<close>) or the
  decoded object.
\<close>

definition Money_UnmarshalJSON :: "moneyJSON option \<Rightarrow> money res" where
  "Money_UnmarshalJSON data =
     (case data of
        None \<Rightarrow> fail CodeInvalidAmount
      | Some raw \<Rightarrow>
          andThen (ParseCurrency (json_currency raw)) (\<lambda>c.
            ParseMoney (json_amount raw) c))"

section \<open>Lemmas\<close>

lemma requireComparable_Inr_iff:
  "Money_requireComparable m n = Inr u \<longleftrightarrow>
     Money_IsInitialised m \<and> Money_IsInitialised n \<and> currency m = currency n"
  by (auto simp: Money_requireComparable_def)

lemma Money_Add_iff:
  "Money_Add m n = Inr r \<longleftrightarrow>
     Money_IsInitialised m \<and> Money_IsInitialised n \<and> currency m = currency n
     \<and> fits64 (sint (minor m) + sint (minor n))
     \<and> r = \<lparr>minor = minor m + minor n, currency = currency m\<rparr>"
  by (auto simp: Money_Add_def andThen_Inr_iff requireComparable_Inr_iff add_overflow_test Let_def)

lemma Money_Sub_iff:
  "Money_Sub m n = Inr r \<longleftrightarrow>
     Money_IsInitialised m \<and> Money_IsInitialised n \<and> currency m = currency n
     \<and> fits64 (sint (minor m) - sint (minor n))
     \<and> r = \<lparr>minor = minor m - minor n, currency = currency m\<rparr>"
  by (auto simp: Money_Sub_def andThen_Inr_iff requireComparable_Inr_iff sub_overflow_test Let_def)

lemma digit_eq:
  "digit b = (if is_digit b then Some (word_of_nat (digit_val b)) else None)"
proof (cases "is_digit b")
  case True
  then have "48 \<le> (of_char b :: nat)"
    by (simp add: is_digit_def less_eq_char_def)
  moreover have "(of_char b :: u64) = word_of_nat (of_char b)"
    by (simp add: of_nat_of_char)
  ultimately show ?thesis
    using True by (auto simp: digit_def is_digit_def digit_val_def)
next
  case False
  then show ?thesis by (auto simp: digit_def is_digit_def)
qed

lemma unat_digit: "is_digit b \<Longrightarrow> unat (word_of_nat (digit_val b) :: u64) = digit_val b"
  using digit_val_le_9 [of b] by (simp add: unat_of_nat)

lemma pushDigit_eq:
  assumes "unat d \<le> 9" "9 \<le> unat limit"
  shows "pushDigit acc d limit =
    (if unat acc * 10 + unat d \<le> unat limit then Some (acc * 10 + d) else None)"
    and "unat acc * 10 + unat d \<le> unat limit \<Longrightarrow> unat (acc * 10 + d) = unat acc * 10 + unat d"
proof -
  have "d \<le> limit" using assms by (simp add: word_le_nat_alt)
  then have "unat ((limit - d) div 10) = (unat limit - unat d) div 10"
    by (simp add: unat_div unat_sub)
  then have "(limit - d) div 10 < acc \<longleftrightarrow> (unat limit - unat d) div 10 < unat acc"
    by (simp add: word_less_nat_alt)
  also have "\<dots> \<longleftrightarrow> \<not> unat acc * 10 + unat d \<le> unat limit"
    using assms by (auto simp: div_less_iff_less_mult less_diff_conv)
  finally show "pushDigit acc d limit =
    (if unat acc * 10 + unat d \<le> unat limit then Some (acc * 10 + d) else None)"
    by (simp add: pushDigit_def)
  assume le: "unat acc * 10 + unat d \<le> unat limit"
  also have "unat limit < 2 ^ 64" by (rule unat_lt64)
  finally have "unat acc * 10 + unat d < 2 ^ 64" .
  then show "unat (acc * 10 + d) = unat acc * 10 + unat d"
    by (simp add: unat_word_ariths)
qed


subsection \<open>The decimal parser against a reference on unbounded integers\<close>

text \<open>
  \<open>magnitude_value\<close> and \<open>decimal_value\<close> are the specification: which strings denote an
  amount with at most two places, and which number of minor units they denote. They know
  nothing of words or of overflow.
\<close>

definition magnitude_value :: "string \<Rightarrow> nat option" where
  "magnitude_value s =
     (let ip = takeWhile (\<lambda>c. c \<noteq> CHR ''.'') s; rest = dropWhile (\<lambda>c. c \<noteq> CHR ''.'') s
      in if ip = [] \<or> \<not> list_all is_digit ip then None
         else case rest of
           [] \<Rightarrow> Some (digits_val 0 ip * 100)
         | _ # fp \<Rightarrow>
             if list_all is_digit fp \<and> fp \<noteq> [] \<and> length fp \<le> 2
             then Some (digits_val 0 (ip @ fp) * 10 ^ (2 - length fp))
             else None)"

definition decimal_value :: "string \<Rightarrow> int option" where
  "decimal_value s =
     (case s of
        [] \<Rightarrow> None
      | b # rest \<Rightarrow>
          if b = CHR ''-'' then map_option (\<lambda>n. - int n) (magnitude_value rest)
          else map_option int (magnitude_value s))"

lemma scan_int_iff:
  assumes "9 \<le> unat limit" "unat acc \<le> unat limit"
  shows "scan_int limit s acc k = Inr (a, k', rest) \<longleftrightarrow>
    (let ip = takeWhile (\<lambda>c. c \<noteq> CHR ''.'') s in
       list_all is_digit ip \<and> unat a = digits_val (unat acc) ip \<and> unat a \<le> unat limit
       \<and> k' = k + length ip \<and> rest = dropWhile (\<lambda>c. c \<noteq> CHR ''.'') s)"
  using assms(2)
proof (induction s arbitrary: acc k)
  case Nil
  then show ?case by (auto simp: Let_def word_unat_eq_iff)
next
  case (Cons b s)
  show ?case
  proof (cases "is_digit b")
    case True
    let ?v = "unat acc * 10 + digit_val b"
    let ?acc = "acc * 10 + word_of_nat (digit_val b)"
    note push = pushDigit_eq [of "word_of_nat (digit_val b)" limit acc]
    have d9: "unat (word_of_nat (digit_val b) :: u64) \<le> 9"
      using True unat_digit digit_val_le_9 by simp
    show ?thesis
    proof (cases "?v \<le> unat limit")
      case le: True
      then have "unat ?acc = ?v" using push(2) d9 assms(1) unat_digit [OF True] by simp
      with le push(1) d9 assms(1) True unat_digit [OF True] show ?thesis
        using Cons.IH [of ?acc "Suc k"]
        by (simp add: digit_eq digit_not_point Let_def)
    next
      case False
      have "\<not> unat a \<le> unat limit"
        if "unat a = digits_val (unat acc) (b # takeWhile (\<lambda>c. c \<noteq> CHR ''.'') s)"
        using that False digits_val_mono [of ?v "takeWhile (\<lambda>c. c \<noteq> CHR ''.'') s"] by simp
      with False push(1) d9 assms(1) True unat_digit [OF True] show ?thesis
        by (auto simp: digit_eq digit_not_point Let_def)
    qed
  next
    case False
    then show ?thesis using Cons.prems by (auto simp: digit_eq Let_def word_unat_eq_iff)
  qed
qed

lemma scan_frac_iff:
  assumes "9 \<le> unat limit" "unat acc \<le> unat limit" "k \<le> 2"
  shows "scan_frac limit s acc k = Inr (a, k') \<longleftrightarrow>
     list_all is_digit s \<and> k + length s \<le> 2 \<and> unat a = digits_val (unat acc) s
     \<and> unat a \<le> unat limit \<and> k' = k + length s"
  using assms(2,3)
proof (induction s arbitrary: acc k)
  case Nil
  then show ?case by (auto simp: word_unat_eq_iff)
next
  case (Cons b s)
  show ?case
  proof (cases "is_digit b \<and> k \<noteq> 2")
    case True
    let ?v = "unat acc * 10 + digit_val b"
    let ?acc = "acc * 10 + word_of_nat (digit_val b)"
    note push = pushDigit_eq [of "word_of_nat (digit_val b)" limit acc]
    have ud: "unat (word_of_nat (digit_val b) :: u64) = digit_val b" using True unat_digit by simp
    then have d9: "unat (word_of_nat (digit_val b) :: u64) \<le> 9"
      using True digit_val_le_9 by simp
    show ?thesis
    proof (cases "?v \<le> unat limit")
      case le: True
      then have "unat ?acc = ?v" using push(2) d9 assms(1) ud by simp
      with le push(1) d9 assms(1) True ud Cons.prems show ?thesis
        using Cons.IH [of ?acc "Suc k"]
        by (simp add: digit_eq Scale_def)
    next
      case False
      have "\<not> unat a \<le> unat limit" if "unat a = digits_val (unat acc) (b # s)"
        using that False digits_val_mono [of ?v s] by simp
      with False push(1) d9 assms(1) True ud show ?thesis
        by (auto simp: digit_eq Scale_def)
    qed
  next
    case False
    then show ?thesis using Cons.prems by (auto simp: digit_eq Scale_def)
  qed
qed

lemma pad_frac_iff:
  assumes "9 \<le> unat limit" "unat acc \<le> unat limit" "k \<le> 2"
  shows "pad_frac limit acc k = Inr a \<longleftrightarrow>
     unat a = unat acc * 10 ^ (2 - k) \<and> unat a \<le> unat limit"
proof -
  have step: "pad_frac limit acc k =
      (if unat acc * 10 \<le> unat limit then pad_frac limit (acc * 10) (Suc k) else fail CodeAmountOverflow)"
    "unat acc * 10 \<le> unat limit \<Longrightarrow> unat (acc * 10) = unat acc * 10"
    if "k < 2" for acc k
    using that pushDigit_eq [of 0 limit acc] assms(1)
    by (simp_all add: pad_frac.simps [of limit acc k] Scale_def)
  have two: "pad_frac limit acc 2 = Inr acc" for acc
    by (simp add: pad_frac.simps Scale_def)
  have one: "pad_frac limit acc 1 = Inr a \<longleftrightarrow> unat a = unat acc * 10 \<and> unat a \<le> unat limit" for acc
    using step [of 1 acc] two by (auto simp: numeral_2_eq_2 word_unat_eq_iff)
  consider "k = 0" | "k = 1" | "k = 2" using assms(3) by linarith
  then show ?thesis
  proof cases
    case 1
    then show ?thesis
      using step [of 0 acc] one [of "acc * 10"] by (auto simp: power2_eq_square)
  next
    case 2
    then show ?thesis using one by simp
  next
    case 3
    then show ?thesis using two assms(2) by (auto simp: word_unat_eq_iff)
  qed
qed

lemma parse_magnitude_unfold:
  "parse_magnitude limit s = Inr a \<longleftrightarrow>
     (\<exists>acc k rest. scan_int limit s 0 0 = Inr (acc, k, rest) \<and> k \<noteq> 0 \<and>
        (case rest of
           [] \<Rightarrow> pad_frac limit acc 0 = Inr a
         | _ # fp \<Rightarrow> (\<exists>acc' f. scan_frac limit fp acc 0 = Inr (acc', f) \<and> f \<noteq> 0
             \<and> pad_frac limit acc' f = Inr a)))"
  unfolding parse_magnitude_def andThen_Inr_iff
  by (fastforce split: list.splits if_splits simp: andThen_Inr_iff)

lemma frac_pad_iff:
  assumes lim: "9 \<le> unat limit" and acc: "unat acc \<le> unat limit"
  shows "(\<exists>acc' f. scan_frac limit fp acc 0 = Inr (acc', f) \<and> f \<noteq> 0 \<and> pad_frac limit acc' f = Inr a)
    \<longleftrightarrow> list_all is_digit fp \<and> fp \<noteq> [] \<and> length fp \<le> 2 
      \<and> unat a = digits_val (unat acc) fp * 10 ^ (2 - length fp) \<and> unat a \<le> unat limit"
    (is "?L \<longleftrightarrow> ?R")
proof
  assume ?L
  then obtain acc' f where 1: "scan_frac limit fp acc 0 = Inr (acc', f)" "f \<noteq> 0"
      "pad_frac limit acc' f = Inr a" by blast
  from 1(1) have 2: "list_all is_digit fp" "length fp \<le> 2" "unat acc' = digits_val (unat acc) fp"
      "unat acc' \<le> unat limit" "f = length fp"
    using scan_frac_iff [OF lim acc, of 0 fp] by auto
  then show ?R using 1 pad_frac_iff [OF lim 2(4), of f a] by auto
next
  assume R: ?R
  let ?W = "digits_val (unat acc) fp"
  have W: "?W \<le> unat limit" using R le_mult_pow10 [of ?W "2 - length fp"] by linarith
  then obtain acc' :: u64 where acc': "unat acc' = ?W" using ex_unat by blast
  have "scan_frac limit fp acc 0 = Inr (acc', length fp)"
    using scan_frac_iff [OF lim acc, of 0 fp] R W acc' by simp
  moreover have "pad_frac limit acc' (length fp) = Inr a"
    using pad_frac_iff [OF lim, of acc' "length fp" a] R W acc' by simp
  ultimately show ?L using R by auto
qed

lemma parse_magnitude_iff:
  assumes lim: "9 \<le> unat limit"
  shows "parse_magnitude limit s = Inr a \<longleftrightarrow>
    (\<exists>n. magnitude_value s = Some n \<and> n \<le> unat limit \<and> unat a = n)"
proof -
  let ?ip = "takeWhile (\<lambda>c. c \<noteq> CHR ''.'') s"
  let ?V = "digits_val 0 ?ip"
  have si: "scan_int limit s 0 0 = Inr (acc, k, rest) \<longleftrightarrow>
      list_all is_digit ?ip \<and> unat acc = ?V \<and> unat acc \<le> unat limit
      \<and> k = length ?ip \<and> rest = dropWhile (\<lambda>c. c \<noteq> CHR ''.'') s" for acc k rest
    using scan_int_iff [OF lim, of 0 s 0] by (simp add: Let_def)
  show ?thesis
  proof (cases "dropWhile (\<lambda>c. c \<noteq> CHR ''.'') s")
    case Nil
    have "parse_magnitude limit s = Inr a \<longleftrightarrow>
        (\<exists>acc. list_all is_digit ?ip \<and> unat acc = ?V \<and> unat acc \<le> unat limit \<and> ?ip \<noteq> []
           \<and> pad_frac limit acc 0 = Inr a)"
      by (auto simp: parse_magnitude_unfold si Nil)
    also have "\<dots> \<longleftrightarrow> list_all is_digit ?ip \<and> ?ip \<noteq> [] \<and> unat a = ?V * 100 \<and> unat a \<le> unat limit"
    proof -
      have pad: "pad_frac limit acc 0 = Inr a \<longleftrightarrow> unat a = unat acc * 100 \<and> unat a \<le> unat limit"
        if "unat acc \<le> unat limit" for acc
        using pad_frac_iff [OF lim that, of 0 a] by (simp add: power2_eq_square)
      moreover have "\<exists>acc :: u64. unat acc = ?V \<and> unat acc \<le> unat limit"
        if "unat a = ?V * 100" "unat a \<le> unat limit"
      proof -
        have "?V \<le> unat limit" using that by linarith
        then show ?thesis using ex_unat [of ?V limit] by auto
      qed
      ultimately show ?thesis by metis
    qed
    also have "\<dots> \<longleftrightarrow> (\<exists>n. magnitude_value s = Some n \<and> n \<le> unat limit \<and> unat a = n)"
      by (auto simp: magnitude_value_def Let_def Nil)
    finally show ?thesis .
  next
    case (Cons c fp)
    let ?W = "digits_val ?V fp"
    have mono: "?V \<le> ?W" by (rule digits_val_mono)
    have "parse_magnitude limit s = Inr a \<longleftrightarrow>
        (\<exists>acc. unat acc = ?V \<and> (list_all is_digit ?ip \<and> ?ip \<noteq> [] \<and> unat acc \<le> unat limit
           \<and> (\<exists>acc' f. scan_frac limit fp acc 0 = Inr (acc', f) \<and> f \<noteq> 0 \<and> pad_frac limit acc' f = Inr a)))"
      by (auto simp: parse_magnitude_unfold si Cons)
    also have "\<dots> \<longleftrightarrow> ?V < 2 ^ 64 \<and> list_all is_digit ?ip \<and> ?ip \<noteq> [] \<and> ?V \<le> unat limit
           \<and> list_all is_digit fp \<and> fp \<noteq> []
           \<and> length fp \<le> 2 \<and> unat a = ?W * 10 ^ (2 - length fp) \<and> unat a \<le> unat limit"
      unfolding ex_unat_iff using frac_pad_iff [OF lim, of "word_of_nat ?V" fp a]
      by (intro conj_cong refl) (simp_all add: unat_of_nat)
    also have "\<dots> \<longleftrightarrow> list_all is_digit ?ip \<and> ?ip \<noteq> [] \<and> list_all is_digit fp \<and> fp \<noteq> []
           \<and> length fp \<le> 2 \<and> unat a = ?W * 10 ^ (2 - length fp) \<and> unat a \<le> unat limit"
      using mono le_mult_pow10 [of ?W "2 - length fp"] unat_lt64 [of limit] by linarith
    also have "\<dots> \<longleftrightarrow> (\<exists>n. magnitude_value s = Some n \<and> n \<le> unat limit \<and> unat a = n)"
      by (auto simp: magnitude_value_def Let_def Cons)
    finally show ?thesis .
  qed
qed


lemma ex_neg_int:
  "(\<exists>n. (\<exists>k. m = Some k \<and> - int k = n) \<and> - 9223372036854775808 \<le> n \<and> n < 9223372036854775808 \<and> P n)
     \<longleftrightarrow> (\<exists>k. m = Some k \<and> k \<le> 9223372036854775808 \<and> P (- int k))"
  by (cases m) auto

lemma ex_pos_int:
  "(\<exists>n. (\<exists>k. m = Some k \<and> int k = n) \<and> - 9223372036854775808 \<le> n \<and> n < 9223372036854775808 \<and> P n)
     \<longleftrightarrow> (\<exists>k. m = Some k \<and> k < 9223372036854775808 \<and> P (int k))"
  by (cases m) auto

lemma parseMinor_iff:
  "parseMinor s = Inr v \<longleftrightarrow>
     (\<exists>n. decimal_value s = Some n \<and> fits64 n \<and> v = word_of_int n)"
proof (cases s)
  case Nil
  then show ?thesis by (simp add: parseMinor_def decimal_value_def)
next
  case (Cons b rest)
  show ?thesis
  proof (cases "b = CHR ''-''")
    case True
    have "parseMinor s = Inr v \<longleftrightarrow>
        (\<exists>acc. parse_magnitude (MaxInt64 + 1) rest = Inr acc \<and> v = - acc)"
      by (auto simp: parseMinor_def Cons True andThen_Inr_iff)
    also have "\<dots> \<longleftrightarrow> (\<exists>n. magnitude_value rest = Some n \<and> n \<le> 2 ^ 63 \<and> v = word_of_int (- int n))"
    proof -
      have "parse_magnitude (MaxInt64 + 1) rest = Inr acc \<longleftrightarrow>
          (\<exists>n. magnitude_value rest = Some n \<and> n \<le> 2 ^ 63 \<and> unat acc = n)" for acc
        using parse_magnitude_iff [of "MaxInt64 + 1" rest acc] by simp
      then have "(\<exists>acc. parse_magnitude (MaxInt64 + 1) rest = Inr acc \<and> v = - acc) \<longleftrightarrow>
          (\<exists>n. magnitude_value rest = Some n \<and> n \<le> 2 ^ 63 \<and> (\<exists>acc :: u64. unat acc = n \<and> v = - acc))"
        by blast
      also have "\<dots> \<longleftrightarrow> (\<exists>n. magnitude_value rest = Some n \<and> n \<le> 2 ^ 63 \<and> v = word_of_int (- int n))"
        unfolding ex_unat_iff by (intro ex_cong1 conj_cong refl) auto
      finally show ?thesis .
    qed
    finally show ?thesis
      by (simp add: decimal_value_def Cons True fits64_def ex_neg_int)
  next
    case False
    have "parseMinor s = Inr v \<longleftrightarrow> parse_magnitude MaxInt64 s = Inr v"
      by (auto simp: parseMinor_def Cons False andThen_Inr_iff parse_magnitude_def digit_def less_char_def)
    also have "\<dots> \<longleftrightarrow> (\<exists>n. magnitude_value s = Some n \<and> n < 2 ^ 63 \<and> v = word_of_int (int n))"
      using parse_magnitude_iff [of MaxInt64 s v]
      by (auto simp: unat_of_nat)
    finally show ?thesis
      by (simp add: decimal_value_def Cons False fits64_def ex_pos_int)
  qed
qed

lemma ParseMoney_iff:
  "ParseMoney s c = Inr m \<longleftrightarrow>
     \<not> Currency_IsZero c \<and> currency m = c \<and> decimal_value s = Some (sint (minor m))"
proof -
  have "(\<exists>n. decimal_value s = Some n \<and> fits64 n \<and> minor m = word_of_int n)
      \<longleftrightarrow> decimal_value s = Some (sint (minor m))"
    by (metis fits64_sint of_int_sint64 sint_of_int64)
  then show ?thesis
    by (auto simp: ParseMoney_def andThen_Inr_iff parseMinor_iff intro!: money.equality)
qed

lemma unat_magnitude: "int (unat (Money_magnitude m)) = \<bar>sint (minor m)\<bar>"
proof (cases "minor m <s 0")
  case True
  then have neg: "sint (minor m) < 0" by (simp add: word_sless_alt)
  have "Money_magnitude m = - minor m" using True by (simp add: Money_magnitude_def)
  also have "\<dots> = word_of_int (- sint (minor m))" by simp
  finally have "uint (Money_magnitude m) = take_bit 64 (- sint (minor m))"
    by (simp only: uint_of_int64)
  also have "\<dots> = - sint (minor m)"
    using neg sint64_range [of "minor m"] by (intro take_bit_int_eq_self) auto
  finally show ?thesis using neg by simp
next
  case False
  then have pos: "0 \<le> sint (minor m)" by (simp add: word_sless_alt)
  have "uint (minor m) = take_bit 64 (sint (minor m))" by (metis of_int_sint64 uint_of_int64)
  also have "\<dots> = sint (minor m)"
    using pos sint64_range [of "minor m"] by (intro take_bit_int_eq_self) auto
  finally show ?thesis using False pos by (simp add: Money_magnitude_def)
qed

lemma magnitude_value_point:
  assumes "ip \<noteq> []" "list_all is_digit ip" "list_all is_digit fp" "length fp = 2"
  shows "magnitude_value (ip @ CHR ''.'' # fp) = Some (digits_val (digits_val 0 ip) fp)"
proof -
  have "\<And>c. c \<in> set ip \<Longrightarrow> c \<noteq> CHR ''.''"
    using assms(2) digit_not_point by (auto simp: list_all_iff)
  then have "takeWhile (\<lambda>c. c \<noteq> CHR ''.'') (ip @ CHR ''.'' # fp) = ip"
    "dropWhile (\<lambda>c. c \<noteq> CHR ''.'') (ip @ CHR ''.'' # fp) = CHR ''.'' # fp"
    by (simp_all add: takeWhile_append dropWhile_append3)
  with assms show ?thesis by (auto simp: magnitude_value_def Let_def)
qed

lemma decimal_value_String: "decimal_value (Money_String m) = Some (sint (minor m))"
proof -
  let ?k = "unat (Money_magnitude m)"
  let ?f = "(if ?k mod 100 < 10 then ''0'' else '''') @ utoa (?k mod 100)"
  let ?s = "utoa (?k div 100) @ CHR ''.'' # ?f"
  have mag: "magnitude_value ?s = Some ?k"
    using two_places [of "?k mod 100"]
    by (subst magnitude_value_point) (auto simp: utoa_all_digits)
  have str: "Money_String m = (if minor m <s 0 then ''-'' else '''') @ ?s"
    by (simp add: Money_String_def Let_def scaleFactor_def unat_div unat_mod word_less_nat_alt)
  obtain c cs where c: "?s = c # cs" "is_digit c"
    using utoa_Cons [of "?k div 100"] by (metis append_Cons)
  have "decimal_value (Money_String m) = Some (if minor m <s 0 then - int ?k else int ?k)"
    using mag c digit_not_minus [of c] unfolding str by (auto simp: decimal_value_def)
  then show ?thesis using unat_magnitude [of m] by (auto simp: word_sless_alt)
qed

lemma Money_string_roundtrip:
  "Money_IsInitialised m \<Longrightarrow> ParseMoney (Money_String m) (currency m) = Inr m"
  by (simp add: ParseMoney_iff decimal_value_String Money_IsInitialised_def)

lemma Money_String_inj: "Money_String m = Money_String n \<longleftrightarrow> minor m = minor n"
  by (metis decimal_value_String option.inject sint64_eq_iff Money_String_def Money_magnitude_def)

lemma ParseExternalMoney_iff:
  "ParseExternalMoney s c = Inr m \<longleftrightarrow> ParseMoney s c = Inr m \<and> 0 \<le> sint (minor m)"
  by (cases "ParseMoney s c") (auto simp: ParseExternalMoney_def word_sless_alt)

lemma Money_Cmp_iff:
  "Money_Cmp m n = Inr r \<longleftrightarrow>
     Money_IsInitialised m \<and> Money_IsInitialised n \<and> currency m = currency n
     \<and> r = sgn (sint (minor m) - sint (minor n))"
  by (auto simp: Money_Cmp_def andThen_Inr_iff requireComparable_Inr_iff word_sless_alt sgn_if)

lemma Money_Neg_iff:
  "Money_Neg m = Inr r \<longleftrightarrow>
     Money_IsInitialised m \<and> fits64 (- sint (minor m)) \<and> currency r = currency m
     \<and> sint (minor r) = - sint (minor m)"
proof -
  have "minor m = MinInt64 \<longleftrightarrow> \<not> fits64 (- sint (minor m))"
    using sint64_range [of "minor m"] by (auto simp: sint64_eq_iff fits64_def)
  moreover have "fits64 (- sint (minor m)) \<Longrightarrow> sint (- minor m) = - sint (minor m)"
    using sint64_sub_fits [of 0 "minor m"] by simp
  ultimately show ?thesis
    by (auto simp: Money_Neg_def sint64_eq_iff intro!: money.equality)
qed

text \<open>A currency as \<open>ParseCurrency\<close> builds it.\<close>

lemma ParseCurrency_Inr:
  "ParseCurrency s = Inr c \<Longrightarrow> code_str c = s \<and> \<not> Currency_IsZero c \<and> ParseCurrency (code_str c) = Inr c"
  by (auto simp: ParseCurrency_def Currency_IsZero_def split: if_splits)

lemma Money_json_roundtrip:
  assumes "ParseCurrency (code_str (currency m)) = Inr (currency m)"
  shows "Money_MarshalJSON m = Inr w \<Longrightarrow> Money_UnmarshalJSON (Some w) = Inr m"
  using assms by (auto simp: Money_MarshalJSON_def Money_UnmarshalJSON_def Money_string_roundtrip split: if_splits)
section \<open>Properties\<close>

text \<open>
  C3. Sums and differences of amounts are exact or refused: \<open>Add\<close> and \<open>Sub\<close> succeed exactly
  when both amounts carry the same currency and the mathematical result fits in an
  \<open>int64\<close>; the result is then that number in that currency. No wrapped value ever escapes.
\<close>

theorem money_arithmetic_exact:
  "(Money_Add a b = Inr s \<longleftrightarrow>
     Money_IsInitialised a \<and> Money_IsInitialised b \<and> currency a = currency b
     \<and> fits64 (sint (minor a) + sint (minor b))
     \<and> currency s = currency a \<and> sint (minor s) = sint (minor a) + sint (minor b))
   \<and> (Money_Sub a b = Inr d \<longleftrightarrow>
     Money_IsInitialised a \<and> Money_IsInitialised b \<and> currency a = currency b
     \<and> fits64 (sint (minor a) - sint (minor b))
     \<and> currency d = currency a \<and> sint (minor d) = sint (minor a) - sint (minor b))
   \<and> (Money_Neg a = Inr n \<longleftrightarrow>
     Money_IsInitialised a \<and> fits64 (- sint (minor a))
     \<and> currency n = currency a \<and> sint (minor n) = - sint (minor a))"
  by (auto simp: Money_Add_iff Money_Sub_iff Money_Neg_iff sint64_add_fits sint64_sub_fits
      sint64_eq_iff intro!: money.equality)

text \<open>
  C4. The decimal parser accepts exactly the strings of the documented form whose value fits
  in an \<open>int64\<close> of minor units, and yields that value: the digit-by-digit accumulation with its
  overflow tests agrees with the reference reading \<open>decimal_value\<close> on unbounded integers;
  an amount from outside is in addition never negative.
\<close>

theorem parse_money_spec:
  "(ParseMoney s c = Inr m \<longleftrightarrow>
     \<not> Currency_IsZero c \<and> currency m = c \<and> decimal_value s = Some (sint (minor m)))
   \<and> (ParseExternalMoney s c = Inr m \<longleftrightarrow>
     \<not> Currency_IsZero c \<and> currency m = c \<and> decimal_value s = Some (sint (minor m))
     \<and> 0 \<le> sint (minor m))"
  by (simp add: ParseExternalMoney_iff ParseMoney_iff)

text \<open>
  C5. Printing and parsing are inverse on the whole range, the least \<open>int64\<close> included, and so
  are the two halves of the wire codec.
\<close>

theorem money_roundtrip:
  assumes "ParseCurrency (code_str (currency m)) = Inr (currency m)"
  shows "ParseMoney (Money_String m) (currency m) = Inr m
    \<and> (\<exists>w. Money_MarshalJSON m = Inr w \<and> Money_UnmarshalJSON (Some w) = Inr m)"
  using assms ParseCurrency_Inr [OF assms] Money_json_roundtrip [OF assms]
  by (auto simp: Money_string_roundtrip Money_MarshalJSON_def Money_IsInitialised_def)

theorem money_roundtrip_witness:
  "ParseMoney ''-92233720368547758.08'' \<lparr>code_str = ''BRL''\<rparr>
     = Inr \<lparr>minor = MinInt64, currency = \<lparr>code_str = ''BRL''\<rparr>\<rparr>"
proof -
  let ?m = "\<lparr>minor = MinInt64, currency = \<lparr>code_str = ''BRL''\<rparr>\<rparr>"
  have "Money_String ?m = ''-92233720368547758.08''" 
    by (simp add: Money_String_def Let_def scaleFactor_def utoa.simps Money_magnitude_def word_sless_alt)
  moreover have "ParseCurrency (code_str (currency ?m)) = Inr (currency ?m)" by (simp add: ParseCurrency_def)
  ultimately show ?thesis using money_roundtrip [of ?m] by simp
qed

end
