(* ===== verification/Identifier.thy ===== *)
theory Identifier
  imports Errors
begin

text \<open>
  \<open>internal/domain/identifier.go\<close>: opaque identifiers.

  The embedded struct \<open>identifier\<close> is one type with a phantom parameter; each Go type is
  that type at its own tag, so that a player id is no wallet id here either. The zero value
  is \<open>Identifier ''''\<close>.
\<close>

datatype 'k ident = Identifier (ident_value: string)

datatype wallet_tag = WalletTag
datatype player_tag = PlayerTag
datatype transaction_tag = TransactionTag
datatype ledger_entry_tag = LedgerEntryTag
datatype provider_tag = ProviderTag
datatype round_tag = RoundTag
datatype game_tag = GameTag
datatype external_transaction_tag = ExternalTransactionTag
datatype idempotency_key_tag = IdempotencyKeyTag
datatype payload_hash_tag = PayloadHashTag

type_synonym WalletID = "wallet_tag ident"
type_synonym PlayerID = "player_tag ident"
type_synonym TransactionID = "transaction_tag ident"
type_synonym LedgerEntryID = "ledger_entry_tag ident"
type_synonym ProviderID = "provider_tag ident"
type_synonym RoundID = "round_tag ident"
type_synonym GameID = "game_tag ident"
type_synonym ExternalTransactionID = "external_transaction_tag ident"
type_synonym IdempotencyKey = "idempotency_key_tag ident"
type_synonym PayloadHash = "payload_hash_tag ident"

definition maxIdentifierLength :: nat where
  "maxIdentifierLength = 128"

definition ident_String :: "'k ident \<Rightarrow> string" where
  "ident_String i = ident_value i"

definition ident_IsZero :: "'k ident \<Rightarrow> bool" where
  "ident_IsZero i \<longleftrightarrow> ident_value i = ''''"

abbreviation ident_zero :: "'k ident" where "ident_zero \<equiv> Identifier ''''"

definition parseIdentifier :: "string \<Rightarrow> 'k ident res" where
  "parseIdentifier s =
     (if s = '''' then fail CodeInvalidIdentifier
      else if length s > maxIdentifierLength then fail CodeInvalidIdentifier
      else Inr (Identifier s))"

definition ParseWalletID :: "string \<Rightarrow> WalletID res" where
  "ParseWalletID s = parseIdentifier s"

definition ParsePlayerID :: "string \<Rightarrow> PlayerID res" where
  "ParsePlayerID s = parseIdentifier s"

definition ParseTransactionID :: "string \<Rightarrow> TransactionID res" where
  "ParseTransactionID s = parseIdentifier s"

definition ParseLedgerEntryID :: "string \<Rightarrow> LedgerEntryID res" where
  "ParseLedgerEntryID s = parseIdentifier s"

definition ParseProviderID :: "string \<Rightarrow> ProviderID res" where
  "ParseProviderID s = parseIdentifier s"

definition ParseRoundID :: "string \<Rightarrow> RoundID res" where
  "ParseRoundID s = parseIdentifier s"

definition ParseGameID :: "string \<Rightarrow> GameID res" where
  "ParseGameID s = parseIdentifier s"

definition ParseExternalTransactionID :: "string \<Rightarrow> ExternalTransactionID res" where
  "ParseExternalTransactionID s = parseIdentifier s"

definition ParseIdempotencyKey :: "string \<Rightarrow> IdempotencyKey res" where
  "ParseIdempotencyKey s = parseIdentifier s"

definition ParsePayloadHash :: "string \<Rightarrow> PayloadHash res" where
  "ParsePayloadHash s = parseIdentifier s"

lemmas parse_id_defs =
  ParseWalletID_def ParsePlayerID_def ParseTransactionID_def ParseLedgerEntryID_def
  ParseProviderID_def ParseRoundID_def ParseGameID_def ParseExternalTransactionID_def
  ParseIdempotencyKey_def ParsePayloadHash_def

text \<open>An identifier the parsers can have built: set, and within the bound.\<close>

definition ident_ok :: "'k ident \<Rightarrow> bool" where
  "ident_ok i \<longleftrightarrow> ident_value i \<noteq> '''' \<and> length (ident_value i) \<le> maxIdentifierLength"

lemma ident_IsZero_iff: "ident_IsZero i \<longleftrightarrow> i = ident_zero"
  by (cases i) (simp add: ident_IsZero_def)

lemma ident_IsZero_zero [simp]: "ident_IsZero ident_zero"
  by (simp add: ident_IsZero_def)

lemma ident_IsZero_Identifier [simp]: "ident_IsZero (Identifier s) \<longleftrightarrow> s = ''''"
  by (simp add: ident_IsZero_def)

lemma ident_String_Identifier [simp]: "ident_String (Identifier s) = s"
  by (simp add: ident_String_def)

lemma ident_ok_not_zero: "ident_ok i \<Longrightarrow> \<not> ident_IsZero i"
  by (simp add: ident_ok_def ident_IsZero_def)

lemma parseIdentifier_iff:
  "parseIdentifier s = Inr i \<longleftrightarrow> i = Identifier s \<and> ident_ok i"
  by (auto simp: parseIdentifier_def ident_ok_def)

lemma parseIdentifier_String [simp]: "ident_ok i \<Longrightarrow> parseIdentifier (ident_String i) = Inr i"
  by (cases i) (simp add: parseIdentifier_iff)

lemma parseIdentifier_Inl:
  "parseIdentifier s = Inl e \<longleftrightarrow>
     e = DomainErr CodeInvalidIdentifier \<and> (s = '''' \<or> maxIdentifierLength < length s)"
  by (auto simp: parseIdentifier_def)

end
