(* ===== verification/Ledger.thy ===== *)
theory Ledger
  imports Money Identifier
begin

text \<open>
  \<open>internal/domain/ledger.go\<close>: one immutable movement on a wallet.

  \<open>LedgerEntryParams\<close> has the fields of \<open>LedgerEntry\<close> one for one, so one record stands for
  both; \<open>NewLedgerEntry\<close> is the only way from the first to the second. The accessors of the
  source are the selectors of the record.
\<close>

section \<open>Direction\<close>

datatype direction = Debit | Credit | DirectionOther string

fun string_of_direction :: "direction \<Rightarrow> string" where
  "string_of_direction Debit = ''DEBIT''"
| "string_of_direction Credit = ''CREDIT''"
| "string_of_direction (DirectionOther s) = s"

definition direction_of_string :: "string \<Rightarrow> direction" where
  "direction_of_string s =
     (if s = ''DEBIT'' then Debit else if s = ''CREDIT'' then Credit else DirectionOther s)"

definition Direction_Valid :: "direction \<Rightarrow> bool" where
  "Direction_Valid d \<longleftrightarrow> d = Debit \<or> d = Credit"

definition Direction_Opposite :: "direction \<Rightarrow> direction" where
  "Direction_Opposite d = (if d = Debit then Credit else Debit)"

lemma direction_of_string_of_direction [simp]:
  "Direction_Valid d \<Longrightarrow> direction_of_string (string_of_direction d) = d"
  by (auto simp: Direction_Valid_def direction_of_string_def)

lemma Direction_Valid_simps [simp]:
  "Direction_Valid Debit" "Direction_Valid Credit" "\<not> Direction_Valid (DirectionOther s)"
  by (simp_all add: Direction_Valid_def)

section \<open>The entry\<close>

record LedgerEntry =
  e_id :: LedgerEntryID
  e_walletID :: WalletID
  e_transactionID :: TransactionID
  e_direction :: direction
  e_amount :: money
  e_balanceBefore :: money
  e_balanceAfter :: money
  e_createdAt :: gotime

type_synonym LedgerEntryParams = LedgerEntry

fun applyDirection :: "direction \<Rightarrow> money \<Rightarrow> money \<Rightarrow> money res" where
  "applyDirection Debit balance amount = Money_Sub balance amount"
| "applyDirection Credit balance amount = Money_Add balance amount"
| "applyDirection (DirectionOther s) balance amount = fail CodeInvalidDirection"

definition NewLedgerEntry :: "LedgerEntryParams \<Rightarrow> LedgerEntry res" where
  "NewLedgerEntry p =
     (if ident_IsZero (e_id p) then fail CodeInvalidIdentifier
      else if ident_IsZero (e_walletID p) then fail CodeInvalidIdentifier
      else if ident_IsZero (e_transactionID p) then fail CodeInvalidIdentifier
      else if \<not> Direction_Valid (e_direction p) then fail CodeInvalidDirection
      else if time_IsZero (e_createdAt p) then fail CodeInvalidTimestamp
      else if \<not> Money_IsInitialised (e_amount p) \<or> \<not> Money_IsPositive (e_amount p)
        then fail CodeNonPositiveAmount
      else if \<not> Money_IsInitialised (e_balanceBefore p) \<or> \<not> Money_IsInitialised (e_balanceAfter p)
        then fail CodeInvalidCurrency
      else let cur = currency (e_amount p) in
        if currency (e_balanceBefore p) \<noteq> cur \<or> currency (e_balanceAfter p) \<noteq> cur
        then fail CodeCurrencyMismatch
        else andThen (applyDirection (e_direction p) (e_balanceBefore p) (e_amount p)) (\<lambda>expected.
          if expected \<noteq> e_balanceAfter p then fail CodeInconsistentEntry
          else Inr (p\<lparr>e_createdAt := time_UTC (e_createdAt p)\<rparr>)))"

definition LedgerEntry_SignedAmount :: "LedgerEntry \<Rightarrow> money res" where
  "LedgerEntry_SignedAmount e =
     (if e_direction e = Debit then Money_Neg (e_amount e) else Inr (e_amount e))"

section \<open>What an entry promises\<close>

text \<open>The movement in minor units, as a mathematical integer: negative for a debit.\<close>

definition direction_sign :: "direction \<Rightarrow> int" where
  "direction_sign d = (if d = Debit then -1 else 1)"

definition entry_delta :: "LedgerEntry \<Rightarrow> int" where
  "entry_delta e = direction_sign (e_direction e) * sint (minor (e_amount e))"

abbreviation balance_value :: "money \<Rightarrow> int" where
  "balance_value m \<equiv> sint (minor m)"

text \<open>The facts every entry built by \<open>NewLedgerEntry\<close> satisfies.\<close>

definition entry_ok :: "LedgerEntry \<Rightarrow> bool" where
  "entry_ok e \<longleftrightarrow>
     \<not> ident_IsZero (e_id e) \<and> \<not> ident_IsZero (e_walletID e) \<and> \<not> ident_IsZero (e_transactionID e)
     \<and> Direction_Valid (e_direction e) \<and> \<not> time_IsZero (e_createdAt e)
     \<and> 0 < balance_value (e_amount e)
     \<and> Money_IsInitialised (e_amount e)
     \<and> currency (e_balanceBefore e) = currency (e_amount e)
     \<and> currency (e_balanceAfter e) = currency (e_amount e)
     \<and> balance_value (e_balanceAfter e) = balance_value (e_balanceBefore e) + entry_delta e"

lemma IsPositive_iff: "Money_IsPositive m \<longleftrightarrow> 0 < balance_value m"
  by (simp add: Money_IsPositive_def word_sless_alt)

lemma IsNegative_iff: "Money_IsNegative m \<longleftrightarrow> balance_value m < 0"
  by (simp add: Money_IsNegative_def word_sless_alt)

lemma IsZero_iff: "Money_IsZero m \<longleftrightarrow> balance_value m = 0"
  by (simp add: Money_IsZero_def sint64_eq_iff)

lemma initialised_cong: "currency m = currency n \<Longrightarrow> Money_IsInitialised m = Money_IsInitialised n"
  by (simp add: Money_IsInitialised_def)

text \<open>\<open>applyDirection\<close> as arithmetic on unbounded integers.\<close>

lemma applyDirection_iff:
  assumes "Direction_Valid d"
  shows "applyDirection d balance amount = Inr after \<longleftrightarrow>
     Money_IsInitialised balance \<and> Money_IsInitialised amount \<and> currency balance = currency amount
     \<and> fits64 (balance_value balance + direction_sign d * balance_value amount)
     \<and> currency after = currency balance
     \<and> balance_value after = balance_value balance + direction_sign d * balance_value amount"
  using assms
  by (auto simp: Direction_Valid_def direction_sign_def Money_Add_iff Money_Sub_iff
      sint64_add_fits sint64_sub_fits sint64_eq_iff intro!: money.equality)

lemma NewLedgerEntry_iff:
  "NewLedgerEntry p = Inr e \<longleftrightarrow> entry_ok p \<and> e = p\<lparr>e_createdAt := time_UTC (e_createdAt p)\<rparr>"
proof (cases "Direction_Valid (e_direction p)")
  case True
  have init: "Money_IsInitialised (e_amount p) \<Longrightarrow> currency m = currency (e_amount p)
      \<Longrightarrow> Money_IsInitialised m" for m
    by (simp add: Money_IsInitialised_def)
  have fits: "balance_value (e_balanceAfter p) = balance_value (e_balanceBefore p) + k
      \<Longrightarrow> fits64 (balance_value (e_balanceBefore p) + k)" for k
    by (metis fits64_sint)
  show ?thesis
    using True
    by (auto simp: NewLedgerEntry_def entry_ok_def IsPositive_iff Let_def andThen_Inr_iff
        applyDirection_iff entry_delta_def init fits)
next
  case False
  then show ?thesis by (simp add: NewLedgerEntry_def entry_ok_def)
qed

lemma entry_ok_created: "NewLedgerEntry p = Inr e \<Longrightarrow> entry_ok e"
  by (auto simp: NewLedgerEntry_iff entry_ok_def entry_delta_def)

lemma entry_delta_createdAt [simp]: "entry_delta (e\<lparr>e_createdAt := t\<rparr>) = entry_delta e"
  by (simp add: entry_delta_def)

lemma SignedAmount_ok:
  assumes "entry_ok e"
  obtains m where "LedgerEntry_SignedAmount e = Inr m" "balance_value m = entry_delta e"
    "currency m = currency (e_amount e)"
proof (cases "e_direction e = Debit")
  case True
  let ?k = "- balance_value (e_amount e)"
  have "fits64 ?k" using assms sint64_range [of "minor (e_amount e)"]
    by (simp add: entry_ok_def fits64_def)
  then have "Money_Neg (e_amount e) = Inr \<lparr>minor = - minor (e_amount e), currency = currency (e_amount e)\<rparr>"
    using assms by (simp add: Money_Neg_iff entry_ok_def sint64_neg_fits)
  with True \<open>fits64 ?k\<close> show ?thesis
    by (intro that [of "\<lparr>minor = - minor (e_amount e), currency = currency (e_amount e)\<rparr>"])
      (simp_all add: LedgerEntry_SignedAmount_def entry_delta_def direction_sign_def sint64_neg_fits)
next
  case False
  then show ?thesis
    by (intro that) (simp_all add: LedgerEntry_SignedAmount_def entry_delta_def direction_sign_def)
qed

section \<open>Properties\<close>

text \<open>
  A ledger entry is built exactly when its fields are set and its arithmetic holds over
  unbounded integers: a positive amount, one currency, and a balance after that is the
  balance before plus or minus the amount. The stored entry then always yields a signed
  amount, which is the difference of the two balances.
\<close>

lemma ledger_entry_spec:
  "(NewLedgerEntry p = Inr e \<longleftrightarrow>
      entry_ok p \<and> e = p\<lparr>e_createdAt := time_UTC (e_createdAt p)\<rparr>)
   \<and> (entry_ok p \<longrightarrow> (\<exists>m. LedgerEntry_SignedAmount p = Inr m
      \<and> balance_value m = balance_value (e_balanceAfter p) - balance_value (e_balanceBefore p)))"
proof -
  have "\<exists>m. LedgerEntry_SignedAmount p = Inr m
      \<and> balance_value m = balance_value (e_balanceAfter p) - balance_value (e_balanceBefore p)"
    if ok: "entry_ok p"
    by (rule SignedAmount_ok [OF ok]) (use ok in \<open>auto simp: entry_ok_def\<close>)
  then show ?thesis by (simp add: NewLedgerEntry_iff)
qed

theorem ledger_entry_spec_witness:
  "\<exists>e m. NewLedgerEntry e = Inr e \<and> LedgerEntry_SignedAmount e = Inr m \<and> balance_value m = -40"
proof -
  let ?m = "\<lambda>n. \<lparr>minor = n, currency = \<lparr>code_str = ''BRL''\<rparr>\<rparr>"
  let ?e = "\<lparr>e_id = Identifier ''e1'', e_walletID = Identifier ''w1'',
    e_transactionID = Identifier ''t1'', e_direction = Debit, e_amount = ?m 40,
    e_balanceBefore = ?m 100, e_balanceAfter = ?m 60, e_createdAt = \<lparr>instant = 1, loc = LocUTC\<rparr>\<rparr>"
  have ok: "entry_ok ?e"
    by (simp add: entry_ok_def entry_delta_def direction_sign_def time_IsZero_def
        Money_IsInitialised_def Currency_IsZero_def)
  then have "\<exists>m. LedgerEntry_SignedAmount ?e = Inr m \<and> balance_value m = -40"
    using ledger_entry_spec [of ?e ?e] by simp
  moreover have "NewLedgerEntry ?e = Inr ?e"
    using ledger_entry_spec [of ?e ?e] ok by (simp add: time_UTC_def)
  ultimately show ?thesis by blast
qed

end
