(* ===== verification/Wallet.thy ===== *)
theory Wallet
  imports Ledger
begin

text \<open>
  \<open>internal/domain/wallet.go\<close>: the financial aggregate.

  A method with a value receiver that returns a new wallet is a function from the wallet to a
  result. The version is the \<open>int64\<close> of the source and its increment wraps.
\<close>

record Wallet =
  w_id :: WalletID
  w_playerID :: PlayerID
  w_currency :: currency
  w_balance :: money
  w_version :: i64
  w_createdAt :: gotime
  w_updatedAt :: gotime

record Movement =
  mv_wallet :: Wallet
  mv_entry :: LedgerEntry

record Opening =
  op_wallet :: Wallet
  op_entries :: "LedgerEntry list"

record OpenWalletParams =
  ow_id :: WalletID
  ow_playerID :: PlayerID
  ow_initialBalance :: money
  ow_openingTransactionID :: TransactionID
  ow_openingEntryID :: LedgerEntryID
  ow_createdAt :: gotime

record RehydrateWalletParams =
  rw_id :: WalletID
  rw_playerID :: PlayerID
  rw_balance :: money
  rw_version :: i64
  rw_createdAt :: gotime
  rw_updatedAt :: gotime

definition OpenWallet :: "OpenWalletParams \<Rightarrow> Opening res" where
  "OpenWallet p =
     (if ident_IsZero (ow_id p) then fail CodeInvalidIdentifier
      else if ident_IsZero (ow_playerID p) then fail CodeInvalidIdentifier
      else if time_IsZero (ow_createdAt p) then fail CodeInvalidTimestamp
      else if \<not> Money_IsInitialised (ow_initialBalance p) then fail CodeInvalidCurrency
      else if Money_IsNegative (ow_initialBalance p) then fail CodeNegativeAmount
      else
        let at = time_UTC (ow_createdAt p); cur = currency (ow_initialBalance p) in
        andThen (ZeroMoney cur) (\<lambda>zero.
          let wallet = \<lparr>w_id = ow_id p, w_playerID = ow_playerID p, w_currency = cur,
                w_balance = ow_initialBalance p, w_version = 1,
                w_createdAt = at, w_updatedAt = at\<rparr> in
          if Money_IsZero (ow_initialBalance p) then Inr \<lparr>op_wallet = wallet, op_entries = []\<rparr>
          else andThen
            (NewLedgerEntry \<lparr>e_id = ow_openingEntryID p, e_walletID = ow_id p,
               e_transactionID = ow_openingTransactionID p, e_direction = Credit,
               e_amount = ow_initialBalance p, e_balanceBefore = zero,
               e_balanceAfter = ow_initialBalance p, e_createdAt = at\<rparr>)
            (\<lambda>entry. Inr \<lparr>op_wallet = wallet, op_entries = [entry]\<rparr>)))"

definition RehydrateWallet :: "RehydrateWalletParams \<Rightarrow> Wallet res" where
  "RehydrateWallet p =
     (if ident_IsZero (rw_id p) then fail CodeInvalidIdentifier
      else if ident_IsZero (rw_playerID p) then fail CodeInvalidIdentifier
      else if \<not> Money_IsInitialised (rw_balance p) then fail CodeInvalidCurrency
      else if Money_IsNegative (rw_balance p) then fail CodeInconsistentEntry
      else if rw_version p <s 1 then fail CodeInvalidVersion
      else if time_IsZero (rw_createdAt p) then fail CodeInvalidTimestamp
      else if time_IsZero (rw_updatedAt p) then fail CodeInvalidTimestamp
      else Inr \<lparr>w_id = rw_id p, w_playerID = rw_playerID p, w_currency = currency (rw_balance p),
             w_balance = rw_balance p, w_version = rw_version p,
             w_createdAt = time_UTC (rw_createdAt p), w_updatedAt = time_UTC (rw_updatedAt p)\<rparr>)"

definition Wallet_IsInitialised :: "Wallet \<Rightarrow> bool" where
  "Wallet_IsInitialised w \<longleftrightarrow> \<not> ident_IsZero (w_id w)"

definition Wallet_move ::
  "Wallet \<Rightarrow> direction \<Rightarrow> LedgerEntryID \<Rightarrow> TransactionID \<Rightarrow> money \<Rightarrow> gotime \<Rightarrow> Movement res" where
  "Wallet_move w d entryID txID amount at =
     (if \<not> Wallet_IsInitialised w then fail CodeInvalidIdentifier
      else if time_IsZero at then fail CodeInvalidTimestamp
      else if \<not> Money_IsInitialised amount \<or> \<not> Money_IsPositive amount then fail CodeNonPositiveAmount
      else if currency amount \<noteq> w_currency w then fail CodeCurrencyMismatch
      else andThen (applyDirection d (w_balance w) amount) (\<lambda>after.
        if Money_IsNegative after then fail CodeInsufficientFunds
        else andThen
          (NewLedgerEntry \<lparr>e_id = entryID, e_walletID = w_id w, e_transactionID = txID,
             e_direction = d, e_amount = amount, e_balanceBefore = w_balance w,
             e_balanceAfter = after, e_createdAt = at\<rparr>)
          (\<lambda>entry. Inr \<lparr>mv_wallet = w\<lparr>w_balance := after, w_version := w_version w + 1,
                                         w_updatedAt := time_UTC at\<rparr>,
                        mv_entry = entry\<rparr>)))"

definition Wallet_Debit ::
  "Wallet \<Rightarrow> LedgerEntryID \<Rightarrow> TransactionID \<Rightarrow> money \<Rightarrow> gotime \<Rightarrow> Movement res" where
  "Wallet_Debit w entryID txID amount at = Wallet_move w Debit entryID txID amount at"

definition Wallet_Credit ::
  "Wallet \<Rightarrow> LedgerEntryID \<Rightarrow> TransactionID \<Rightarrow> money \<Rightarrow> gotime \<Rightarrow> Movement res" where
  "Wallet_Credit w entryID txID amount at = Wallet_move w Credit entryID txID amount at"

section \<open>The invariant\<close>

text \<open>
  What the constructors establish and every movement keeps: set identities and instants, a
  balance in the wallet's currency that is not negative, a version of at least 1.
\<close>

definition wallet_ok :: "Wallet \<Rightarrow> bool" where
  "wallet_ok w \<longleftrightarrow>
     \<not> ident_IsZero (w_id w) \<and> \<not> ident_IsZero (w_playerID w)
     \<and> Money_IsInitialised (w_balance w) \<and> currency (w_balance w) = w_currency w
     \<and> 0 \<le> balance_value (w_balance w) \<and> 1 \<le> sint (w_version w)
     \<and> \<not> time_IsZero (w_createdAt w) \<and> \<not> time_IsZero (w_updatedAt w)
     \<and> loc (w_createdAt w) = LocUTC \<and> loc (w_updatedAt w) = LocUTC"

definition wallet_params :: "Wallet \<Rightarrow> RehydrateWalletParams" where
  "wallet_params w = \<lparr>rw_id = w_id w, rw_playerID = w_playerID w, rw_balance = w_balance w,
     rw_version = w_version w, rw_createdAt = w_createdAt w, rw_updatedAt = w_updatedAt w\<rparr>"

lemma time_UTC_id: "loc t = LocUTC \<Longrightarrow> time_UTC t = t"
  by (simp add: time_UTC_def)

lemma RehydrateWallet_ok: "RehydrateWallet p = Inr w \<Longrightarrow> wallet_ok w"
  by (auto simp: RehydrateWallet_def wallet_ok_def IsNegative_iff word_sless_alt split: if_splits)

lemma RehydrateWallet_params: "wallet_ok w \<Longrightarrow> RehydrateWallet (wallet_params w) = Inr w"
  by (auto simp: RehydrateWallet_def wallet_params_def wallet_ok_def IsNegative_iff word_sless_alt
      time_UTC_id)

text \<open>A movement, on every branch: when it succeeds and what it then yields.\<close>

definition moved_entry ::
  "Wallet \<Rightarrow> direction \<Rightarrow> LedgerEntryID \<Rightarrow> TransactionID \<Rightarrow> money \<Rightarrow> money \<Rightarrow> gotime \<Rightarrow> LedgerEntry" where
  "moved_entry w d eid tid amount after at =
     \<lparr>e_id = eid, e_walletID = w_id w, e_transactionID = tid, e_direction = d, e_amount = amount,
      e_balanceBefore = w_balance w, e_balanceAfter = after, e_createdAt = time_UTC at\<rparr>"

lemma Wallet_move_okE:
  assumes "Wallet_move w d eid tid amount at = Inr mv"
  obtains after where
    "applyDirection d (w_balance w) amount = Inr after" "0 \<le> balance_value after"
    "entry_ok (mv_entry mv)" "mv_entry mv = moved_entry w d eid tid amount after at"
    "mv_wallet mv = w\<lparr>w_balance := after, w_version := w_version w + 1, w_updatedAt := time_UTC at\<rparr>"
    "currency amount = w_currency w" "\<not> time_IsZero at"
    "Money_IsInitialised amount" "0 < balance_value amount"
  using assms
  by (auto simp: Wallet_move_def andThen_Inr_iff IsNegative_iff IsPositive_iff NewLedgerEntry_iff
      moved_entry_def entry_ok_def entry_delta_def split: if_splits)

lemma moved_entry_simps [simp]:
  "e_id (moved_entry w d eid tid amount after at) = eid"
  "e_walletID (moved_entry w d eid tid amount after at) = w_id w"
  "e_transactionID (moved_entry w d eid tid amount after at) = tid"
  "e_direction (moved_entry w d eid tid amount after at) = d"
  "e_amount (moved_entry w d eid tid amount after at) = amount"
  "e_balanceBefore (moved_entry w d eid tid amount after at) = w_balance w"
  "e_balanceAfter (moved_entry w d eid tid amount after at) = after"
  "e_createdAt (moved_entry w d eid tid amount after at) = time_UTC at"
  by (simp_all add: moved_entry_def)

lemma applyDirection_valid: "applyDirection d b a = Inr r \<Longrightarrow> Direction_Valid d"
  by (cases d) auto

text \<open>What a successful movement means for the wallet.\<close>

lemma Wallet_move_effect:
  assumes "Wallet_move w d eid tid amount at = Inr mv" "wallet_ok w"
  shows "w_id (mv_wallet mv) = w_id w" "w_playerID (mv_wallet mv) = w_playerID w"
    "w_currency (mv_wallet mv) = w_currency w" "w_createdAt (mv_wallet mv) = w_createdAt w"
    "w_version (mv_wallet mv) = w_version w + 1"
    "balance_value (w_balance (mv_wallet mv)) =
       balance_value (w_balance w) + direction_sign d * balance_value amount"
    "currency (w_balance (mv_wallet mv)) = w_currency w"
    "0 \<le> balance_value (w_balance (mv_wallet mv))"
    "entry_ok (mv_entry mv)" "e_walletID (mv_entry mv) = w_id w"
    "e_transactionID (mv_entry mv) = tid" "e_id (mv_entry mv) = eid"
    "e_balanceBefore (mv_entry mv) = w_balance w"
    "e_balanceAfter (mv_entry mv) = w_balance (mv_wallet mv)"
    "entry_delta (mv_entry mv) = direction_sign d * balance_value amount"
    "Direction_Valid d"
  using assms(1)
  by (elim Wallet_move_okE;
      use assms(2) applyDirection_valid in \<open>fastforce simp: applyDirection_iff entry_delta_def wallet_ok_def\<close>)+

lemma wallet_ok_move:
  assumes "Wallet_move w d eid tid amount at = Inr mv" "wallet_ok w" "sint (w_version w) < 2 ^ 63 - 1"
  shows "wallet_ok (mv_wallet mv)"
proof -
  have "sint (w_version w + 1) = sint (w_version w) + 1"
    using assms(2,3) sint64_add_fits [of "w_version w" 1] by (simp add: fits64_def wallet_ok_def)
  moreover have "Direction_Valid d" using Wallet_move_effect(16) [OF assms(1,2)] .
  ultimately show ?thesis
    using assms(1)
    by (elim Wallet_move_okE) (use assms(2) in \<open>auto simp: wallet_ok_def applyDirection_iff Money_IsInitialised_def\<close>)
qed

text \<open>A movement of a positive amount in the wallet's currency, in closed form.\<close>

definition moved_wallet :: "Wallet \<Rightarrow> money \<Rightarrow> gotime \<Rightarrow> Wallet" where
  "moved_wallet w after at =
     w\<lparr>w_balance := after, w_version := w_version w + 1, w_updatedAt := time_UTC at\<rparr>"

lemma Wallet_move_Inr:
  assumes "wallet_ok w" "\<not> ident_IsZero eid" "\<not> ident_IsZero tid" "\<not> time_IsZero at"
    and amt: "Money_IsInitialised amount" "0 < balance_value amount" "currency amount = w_currency w"
    and d: "Direction_Valid d"
    and after: "applyDirection d (w_balance w) amount = Inr after" "0 \<le> balance_value after"
  shows "Wallet_move w d eid tid amount at =
    Inr \<lparr>mv_wallet = moved_wallet w after at, mv_entry = moved_entry w d eid tid amount after at\<rparr>"
proof -
  let ?p = "(moved_entry w d eid tid amount after at)\<lparr>e_createdAt := at\<rparr>"
  have "entry_ok ?p"
    using assms by (auto simp: entry_ok_def moved_entry_def entry_delta_def applyDirection_iff wallet_ok_def)
  then have "NewLedgerEntry ?p = Inr (moved_entry w d eid tid amount after at)"
    by (simp add: NewLedgerEntry_iff moved_entry_def)
  then show ?thesis
    using assms
    by (simp add: Wallet_move_def Wallet_IsInitialised_def wallet_ok_def IsPositive_iff IsNegative_iff
        moved_wallet_def moved_entry_def)
qed

lemma debit_fits: "0 \<le> balance_value b \<Longrightarrow> 0 < balance_value a \<Longrightarrow> fits64 (balance_value b - balance_value a)"
  using sint64_range [of "minor b"] sint64_range [of "minor a"] by (simp add: fits64_def)

lemma Wallet_move_insufficient:
  assumes "wallet_ok w" "\<not> time_IsZero at"
    and amt: "Money_IsInitialised amount" "currency amount = w_currency w"
    and less: "balance_value (w_balance w) < balance_value amount"
  shows "Wallet_move w Debit eid tid amount at = fail CodeInsufficientFunds"
proof -
  let ?r = "\<lparr>minor = minor (w_balance w) - minor amount, currency = w_currency w\<rparr>"
  have pos: "0 < balance_value amount" using less assms(1) by (simp add: wallet_ok_def)
  have fits: "fits64 (balance_value (w_balance w) - balance_value amount)"
    using assms(1) pos by (simp add: debit_fits wallet_ok_def)
  then have "Money_Sub (w_balance w) amount = Inr ?r"
    using assms by (simp add: Money_Sub_iff wallet_ok_def)
  moreover have "Money_IsNegative ?r"
    using fits less by (simp add: IsNegative_iff sint64_sub_fits)
  ultimately show ?thesis
    using assms pos by (simp add: Wallet_move_def Wallet_IsInitialised_def wallet_ok_def IsPositive_iff)
qed

lemma Wallet_move_overflow:
  assumes "wallet_ok w" "\<not> time_IsZero at"
    and amt: "Money_IsInitialised amount" "0 < balance_value amount" "currency amount = w_currency w"
    and big: "2 ^ 63 \<le> balance_value (w_balance w) + balance_value amount"
  shows "Wallet_move w Credit eid tid amount at = fail CodeAmountOverflow"
proof -
  have "\<not> fits64 (balance_value (w_balance w) + balance_value amount)"
    using big by (simp add: fits64_def)
  then have "Money_Add (w_balance w) amount = fail CodeAmountOverflow"
    using assms by (simp add: Money_Add_def Money_requireComparable_def wallet_ok_def add_overflow_test Let_def)
  then show ?thesis
    using assms by (simp add: Wallet_move_def Wallet_IsInitialised_def wallet_ok_def IsPositive_iff)
qed

text \<open>Opening.\<close>

lemma OpenWallet_okE:
  assumes "OpenWallet p = Inr opening"
  obtains "wallet_ok (op_wallet opening)" "w_id (op_wallet opening) = ow_id p"
    "w_playerID (op_wallet opening) = ow_playerID p"
    "w_balance (op_wallet opening) = ow_initialBalance p" "w_version (op_wallet opening) = 1"
    "w_createdAt (op_wallet opening) = time_UTC (ow_createdAt p)"
    "op_entries opening = [] \<longleftrightarrow> balance_value (ow_initialBalance p) = 0"
    "\<And>e. e \<in> set (op_entries opening) \<Longrightarrow> entry_ok e \<and> e_walletID e = ow_id p
       \<and> e_transactionID e = ow_openingTransactionID p \<and> e_id e = ow_openingEntryID p
       \<and> e_direction e = Credit \<and> e_amount e = ow_initialBalance p
       \<and> balance_value (e_balanceBefore e) = 0 \<and> e_balanceAfter e = ow_initialBalance p
       \<and> op_entries opening = [e]"
proof -
  obtain zero where z: "ZeroMoney (currency (ow_initialBalance p)) = Inr zero" "minor zero = 0"
    using assms by (auto simp: OpenWallet_def ZeroMoney_def andThen_Inr_iff Let_def split: if_splits)
  show ?thesis
  proof (rule that)
  qed (use assms z in \<open>auto simp: OpenWallet_def andThen_Inr_iff Let_def wallet_ok_def IsNegative_iff
        IsZero_iff NewLedgerEntry_iff entry_ok_def entry_delta_def Money_IsInitialised_def split: if_splits\<close>)
qed

section \<open>Properties\<close>



text \<open>
  C7. The wallet invariant, non-negative balance included, holds of every wallet the program
  can hold: opening establishes it, every movement keeps it while the version has room, and
  a wallet read back from storage satisfies it and is the wallet that was stored.
\<close>

theorem wallet_invariant:
  "(OpenWallet p = Inr opening \<longrightarrow> wallet_ok (op_wallet opening))
   \<and> (wallet_ok w \<longrightarrow> sint (w_version w) < 2 ^ 63 - 1 \<longrightarrow>
       Wallet_move w d eid tid amount at = Inr mv \<longrightarrow> wallet_ok (mv_wallet mv))
   \<and> (RehydrateWallet r = Inr w' \<longrightarrow> wallet_ok w')
   \<and> (wallet_ok w \<longrightarrow> RehydrateWallet (wallet_params w) = Inr w)"
  by (auto simp: wallet_ok_move RehydrateWallet_ok RehydrateWallet_params elim: OpenWallet_okE)

theorem wallet_invariant_witness:
  "\<exists>w. wallet_ok w \<and> RehydrateWallet (wallet_params w) = Inr w
     \<and> balance_value (w_balance w) = 100"
proof -
  let ?t = "\<lparr>instant = 1, loc = LocUTC\<rparr>"
  let ?w = "\<lparr>w_id = Identifier ''w1'', w_playerID = Identifier ''p1'', w_currency = \<lparr>code_str = ''BRL''\<rparr>,
    w_balance = \<lparr>minor = 100, currency = \<lparr>code_str = ''BRL''\<rparr>\<rparr>, w_version = 7,
    w_createdAt = ?t, w_updatedAt = ?t\<rparr>"
  have ok: "wallet_ok ?w"
    by (simp add: wallet_ok_def Money_IsInitialised_def Currency_IsZero_def time_IsZero_def)
  moreover have "RehydrateWallet (wallet_params ?w) = Inr ?w"
    using wallet_invariant [of _ _ ?w] ok by blast
  ultimately show ?thesis by (intro exI [of _ ?w]) simp
qed

end
