(* ===== verification/Transaction.thy ===== *)
theory Transaction
  imports Wallet
begin

text \<open>
  \<open>internal/domain/transaction.go\<close>: one operation against a wallet and its state machine.

  The string enumerations of the source are datatypes whose constructors are the constants,
  with one more for every other string. \<open>RehydrateTransactionParams\<close> has the fields of
  \<open>WagerTransaction\<close> one for one, so one record stands for both.
\<close>

section \<open>Kind\<close>

datatype kind =
    KindOpening | KindBet | KindWin | KindLoss | KindRefund | KindRollback | KindOther string

fun string_of_kind :: "kind \<Rightarrow> string" where
  "string_of_kind KindOpening = ''OPENING''"
| "string_of_kind KindBet = ''BET''"
| "string_of_kind KindWin = ''WIN''"
| "string_of_kind KindLoss = ''LOSS''"
| "string_of_kind KindRefund = ''REFUND''"
| "string_of_kind KindRollback = ''ROLLBACK''"
| "string_of_kind (KindOther s) = s"

definition kind_of_string :: "string \<Rightarrow> kind" where
  "kind_of_string s =
     (if s = ''OPENING'' then KindOpening else if s = ''BET'' then KindBet
      else if s = ''WIN'' then KindWin else if s = ''LOSS'' then KindLoss
      else if s = ''REFUND'' then KindRefund else if s = ''ROLLBACK'' then KindRollback
      else KindOther s)"

definition Kind_Valid :: "kind \<Rightarrow> bool" where
  "Kind_Valid k = (case k of KindOther s \<Rightarrow> False | _ \<Rightarrow> True)"

definition Kind_IsReversal :: "kind \<Rightarrow> bool" where
  "Kind_IsReversal k \<longleftrightarrow> k = KindRefund \<or> k = KindRollback"

definition Kind_MovesMoney :: "kind \<Rightarrow> bool" where
  "Kind_MovesMoney k \<longleftrightarrow> k \<noteq> KindLoss"

definition Kind_validateAmount :: "kind \<Rightarrow> money \<Rightarrow> unit res" where
  "Kind_validateAmount k m =
     (if \<not> Money_IsInitialised m then fail CodeInvalidCurrency
      else if k = KindLoss then
        (if \<not> Money_IsZero m then fail CodeInvalidAmountForKind else Inr ())
      else if \<not> Money_IsPositive m then fail CodeInvalidAmountForKind
      else Inr ())"

text \<open>The second return value of the source, \<open>false\<close> for no movement, is \<open>None\<close> here.\<close>

fun Kind_Direction :: "kind \<Rightarrow> direction option" where
  "Kind_Direction KindOpening = Some Credit"
| "Kind_Direction KindWin = Some Credit"
| "Kind_Direction KindRefund = Some Credit"
| "Kind_Direction KindBet = Some Debit"
| "Kind_Direction KindRollback = None"
| "Kind_Direction _ = None"

definition Kind_CanReverse :: "kind \<Rightarrow> kind \<Rightarrow> bool" where
  "Kind_CanReverse k target =
     (case k of
        KindRefund \<Rightarrow> target = KindBet
      | KindRollback \<Rightarrow> target = KindBet \<or> target = KindWin \<or> target = KindRefund
      | _ \<Rightarrow> False)"

definition ReversalDirection :: "kind \<Rightarrow> direction res" where
  "ReversalDirection target =
     (case Kind_Direction target of
        None \<Rightarrow> fail CodeReferenceNotReversible
      | Some d \<Rightarrow> Inr (Direction_Opposite d))"

section \<open>Origin and status\<close>

datatype origin = OriginInternal | OriginExternal | OriginOther string

fun string_of_origin :: "origin \<Rightarrow> string" where
  "string_of_origin OriginInternal = ''INTERNAL''"
| "string_of_origin OriginExternal = ''EXTERNAL''"
| "string_of_origin (OriginOther s) = s"

definition origin_of_string :: "string \<Rightarrow> origin" where
  "origin_of_string s =
     (if s = ''INTERNAL'' then OriginInternal else if s = ''EXTERNAL'' then OriginExternal
      else OriginOther s)"

datatype status =
    StatusPending | StatusPendingReference | StatusProcessed | StatusRejected | StatusFailed
  | StatusOther string

fun string_of_status :: "status \<Rightarrow> string" where
  "string_of_status StatusPending = ''PENDING''"
| "string_of_status StatusPendingReference = ''PENDING_REFERENCE''"
| "string_of_status StatusProcessed = ''PROCESSED''"
| "string_of_status StatusRejected = ''REJECTED''"
| "string_of_status StatusFailed = ''FAILED''"
| "string_of_status (StatusOther s) = s"

definition status_of_string :: "string \<Rightarrow> status" where
  "status_of_string s =
     (if s = ''PENDING'' then StatusPending
      else if s = ''PENDING_REFERENCE'' then StatusPendingReference
      else if s = ''PROCESSED'' then StatusProcessed
      else if s = ''REJECTED'' then StatusRejected
      else if s = ''FAILED'' then StatusFailed
      else StatusOther s)"

definition Status_Valid :: "status \<Rightarrow> bool" where
  "Status_Valid s = (case s of StatusOther x \<Rightarrow> False | _ \<Rightarrow> True)"

definition Status_IsTerminal :: "status \<Rightarrow> bool" where
  "Status_IsTerminal s \<longleftrightarrow> s = StatusProcessed \<or> s = StatusRejected \<or> s = StatusFailed"

text \<open>\<open>allowedTransitions\<close>: a status that is no key of the map has no edges either.\<close>

fun allowedTransitions :: "status \<Rightarrow> status list" where
  "allowedTransitions StatusPending =
     [StatusPendingReference, StatusProcessed, StatusRejected, StatusFailed]"
| "allowedTransitions StatusPendingReference = [StatusProcessed, StatusRejected, StatusFailed]"
| "allowedTransitions StatusProcessed = []"
| "allowedTransitions StatusRejected = []"
| "allowedTransitions StatusFailed = []"
| "allowedTransitions (StatusOther s) = []"

section \<open>The transaction\<close>

record WagerTransaction =
  t_id :: TransactionID
  t_origin :: origin
  t_kind :: kind
  t_status :: status
  t_walletID :: WalletID
  t_playerID :: PlayerID
  t_money :: money
  t_providerID :: ProviderID
  t_externalID :: ExternalTransactionID
  t_idempotencyKey :: IdempotencyKey
  t_payloadHash :: PayloadHash
  t_roundID :: RoundID
  t_gameID :: GameID
  t_referenceExternalID :: ExternalTransactionID
  t_resolvedReferenceID :: TransactionID
  t_failureCode :: code
  t_referenceAttempts :: i64
  t_referenceNextAttemptAt :: gotime
  t_referenceDeadlineAt :: gotime
  t_balanceAfter :: money
  t_createdAt :: gotime
  t_updatedAt :: gotime

type_synonym RehydrateTransactionParams = WagerTransaction

record OpeningTransactionParams =
  ot_id :: TransactionID
  ot_walletID :: WalletID
  ot_playerID :: PlayerID
  ot_money :: money
  ot_createdAt :: gotime

definition NewOpeningTransaction :: "OpeningTransactionParams \<Rightarrow> WagerTransaction res" where
  "NewOpeningTransaction p =
     (if ident_IsZero (ot_id p) then fail CodeInvalidIdentifier
      else if ident_IsZero (ot_walletID p) then fail CodeInvalidIdentifier
      else if ident_IsZero (ot_playerID p) then fail CodeInvalidIdentifier
      else if time_IsZero (ot_createdAt p) then fail CodeInvalidTimestamp
      else andThen (Kind_validateAmount KindOpening (ot_money p)) (\<lambda>_.
        let at = time_UTC (ot_createdAt p) in
        Inr \<lparr>t_id = ot_id p, t_origin = OriginInternal, t_kind = KindOpening,
          t_status = StatusProcessed, t_walletID = ot_walletID p, t_playerID = ot_playerID p,
          t_money = ot_money p, t_providerID = ident_zero, t_externalID = ident_zero,
          t_idempotencyKey = ident_zero, t_payloadHash = ident_zero, t_roundID = ident_zero,
          t_gameID = ident_zero, t_referenceExternalID = ident_zero,
          t_resolvedReferenceID = ident_zero, t_failureCode = CodeOther '''',
          t_referenceAttempts = 0, t_referenceNextAttemptAt = time_zero,
          t_referenceDeadlineAt = time_zero, t_balanceAfter = ot_money p,
          t_createdAt = at, t_updatedAt = at\<rparr>))"

record ExternalTransactionParams =
  x_id :: TransactionID
  x_kind :: kind
  x_providerID :: ProviderID
  x_externalID :: ExternalTransactionID
  x_idempotencyKey :: IdempotencyKey
  x_payloadHash :: PayloadHash
  x_walletID :: WalletID
  x_playerID :: PlayerID
  x_roundID :: RoundID
  x_gameID :: GameID
  x_money :: money
  x_referenceExternalID :: ExternalTransactionID
  x_createdAt :: gotime

definition NewExternalTransaction :: "ExternalTransactionParams \<Rightarrow> WagerTransaction res" where
  "NewExternalTransaction p =
     (if \<not> Kind_Valid (x_kind p) then fail CodeInvalidKind
      else if x_kind p = KindOpening then fail CodeInvalidKind
      else if ident_IsZero (x_id p) then fail CodeInvalidIdentifier
      else if ident_IsZero (x_providerID p) then fail CodeInvalidIdentifier
      else if ident_IsZero (x_externalID p) then fail CodeInvalidIdentifier
      else if ident_IsZero (x_idempotencyKey p) then fail CodeInvalidIdentifier
      else if ident_IsZero (x_payloadHash p) then fail CodeInvalidIdentifier
      else if ident_IsZero (x_walletID p) then fail CodeInvalidIdentifier
      else if ident_IsZero (x_playerID p) then fail CodeInvalidIdentifier
      else if ident_IsZero (x_roundID p) then fail CodeInvalidIdentifier
      else if ident_IsZero (x_gameID p) then fail CodeInvalidIdentifier
      else if time_IsZero (x_createdAt p) then fail CodeInvalidTimestamp
      else andThen (Kind_validateAmount (x_kind p) (x_money p)) (\<lambda>_.
        if Kind_IsReversal (x_kind p) \<and> ident_IsZero (x_referenceExternalID p)
          then fail CodeMissingReference
        else if \<not> Kind_IsReversal (x_kind p) \<and> \<not> ident_IsZero (x_referenceExternalID p)
          then fail CodeUnexpectedReference
        else
          let at = time_UTC (x_createdAt p) in
          Inr \<lparr>t_id = x_id p, t_origin = OriginExternal, t_kind = x_kind p,
            t_status = StatusPending, t_walletID = x_walletID p, t_playerID = x_playerID p,
            t_money = x_money p, t_providerID = x_providerID p, t_externalID = x_externalID p,
            t_idempotencyKey = x_idempotencyKey p, t_payloadHash = x_payloadHash p,
            t_roundID = x_roundID p, t_gameID = x_gameID p,
            t_referenceExternalID = x_referenceExternalID p,
            t_resolvedReferenceID = ident_zero, t_failureCode = CodeOther '''',
            t_referenceAttempts = 0, t_referenceNextAttemptAt = time_zero,
            t_referenceDeadlineAt = time_zero, t_balanceAfter = Money_zero,
            t_createdAt = at, t_updatedAt = at\<rparr>))"

definition Tx_IsInitialised :: "WagerTransaction \<Rightarrow> bool" where
  "Tx_IsInitialised t \<longleftrightarrow> \<not> ident_IsZero (t_id t)"

definition Tx_IsTerminal :: "WagerTransaction \<Rightarrow> bool" where
  "Tx_IsTerminal t \<longleftrightarrow> Status_IsTerminal (t_status t)"

section \<open>Transitions\<close>

definition Tx_transition ::
  "WagerTransaction \<Rightarrow> status \<Rightarrow> gotime \<Rightarrow> (WagerTransaction \<Rightarrow> WagerTransaction)
     \<Rightarrow> WagerTransaction res" where
  "Tx_transition t to at app =
     (if \<not> Tx_IsInitialised t then fail CodeInvalidIdentifier
      else if time_IsZero at then fail CodeInvalidTimestamp
      else if to \<notin> set (allowedTransitions (t_status t)) then fail CodeInvalidTransition
      else Inr (app (t\<lparr>t_status := to, t_updatedAt := time_UTC at\<rparr>)))"

definition Tx_MarkPendingReference ::
  "WagerTransaction \<Rightarrow> gotime \<Rightarrow> gotime \<Rightarrow> gotime \<Rightarrow> WagerTransaction res" where
  "Tx_MarkPendingReference t at nextAttemptAt deadlineAt =
     (if \<not> Kind_IsReversal (t_kind t) then fail CodeInvalidTransition
      else if time_IsZero nextAttemptAt \<or> time_IsZero deadlineAt then fail CodeInvalidTimestamp
      else Tx_transition t StatusPendingReference at (\<lambda>next.
        next\<lparr>t_referenceAttempts := t_referenceAttempts next + 1,
             t_referenceNextAttemptAt := time_UTC nextAttemptAt,
             t_referenceDeadlineAt := time_UTC deadlineAt\<rparr>))"

definition Tx_RescheduleReference ::
  "WagerTransaction \<Rightarrow> gotime \<Rightarrow> gotime \<Rightarrow> WagerTransaction res" where
  "Tx_RescheduleReference t at nextAttemptAt =
     (if t_status t \<noteq> StatusPendingReference then fail CodeInvalidTransition
      else if time_IsZero at \<or> time_IsZero nextAttemptAt then fail CodeInvalidTimestamp
      else Inr (t\<lparr>t_referenceAttempts := t_referenceAttempts t + 1,
                 t_referenceNextAttemptAt := time_UTC nextAttemptAt,
                 t_updatedAt := time_UTC at\<rparr>))"

definition Tx_ReferenceDeadlinePassed :: "WagerTransaction \<Rightarrow> gotime \<Rightarrow> bool" where
  "Tx_ReferenceDeadlinePassed t now \<longleftrightarrow>
     \<not> time_IsZero (t_referenceDeadlineAt t) \<and> \<not> time_Before now (t_referenceDeadlineAt t)"

definition Tx_ResolveReference ::
  "WagerTransaction \<Rightarrow> TransactionID \<Rightarrow> gotime \<Rightarrow> WagerTransaction res" where
  "Tx_ResolveReference t i at =
     (if \<not> Kind_IsReversal (t_kind t) then fail CodeUnexpectedReference
      else if ident_IsZero i then fail CodeInvalidIdentifier
      else if Tx_IsTerminal t then fail CodeInvalidTransition
      else if time_IsZero at then fail CodeInvalidTimestamp
      else Inr (t\<lparr>t_resolvedReferenceID := i, t_updatedAt := time_UTC at\<rparr>))"

definition Tx_MarkProcessed :: "WagerTransaction \<Rightarrow> money \<Rightarrow> gotime \<Rightarrow> WagerTransaction res" where
  "Tx_MarkProcessed t balanceAfter at =
     (if \<not> Money_IsInitialised balanceAfter then fail CodeInvalidCurrency
      else if Money_IsInitialised (t_money t) \<and> currency balanceAfter \<noteq> currency (t_money t)
        then fail CodeCurrencyMismatch
      else Tx_transition t StatusProcessed at (\<lambda>next. next\<lparr>t_balanceAfter := balanceAfter\<rparr>))"

definition Tx_Reject :: "WagerTransaction \<Rightarrow> code \<Rightarrow> gotime \<Rightarrow> WagerTransaction res" where
  "Tx_Reject t c at =
     (if c = CodeOther '''' then fail CodeInvalidStatus
      else Tx_transition t StatusRejected at (\<lambda>next. next\<lparr>t_failureCode := c\<rparr>))"

definition Tx_Fail :: "WagerTransaction \<Rightarrow> code \<Rightarrow> gotime \<Rightarrow> WagerTransaction res" where
  "Tx_Fail t c at =
     (if c = CodeOther '''' then fail CodeInvalidStatus
      else Tx_transition t StatusFailed at (\<lambda>next. next\<lparr>t_failureCode := c\<rparr>))"

section \<open>Reading back\<close>

definition utcOrZero :: "gotime \<Rightarrow> gotime" where
  "utcOrZero at = (if time_IsZero at then time_zero else time_UTC at)"

definition RehydrateTransaction :: "RehydrateTransactionParams \<Rightarrow> WagerTransaction res" where
  "RehydrateTransaction p =
     (if ident_IsZero (t_id p) then fail CodeInvalidIdentifier
      else if \<not> Kind_Valid (t_kind p) then fail CodeInvalidKind
      else if \<not> Status_Valid (t_status p) then fail CodeInvalidStatus
      else if ident_IsZero (t_walletID p) then fail CodeInvalidIdentifier
      else if ident_IsZero (t_playerID p) then fail CodeInvalidIdentifier
      else if time_IsZero (t_createdAt p) \<or> time_IsZero (t_updatedAt p) then fail CodeInvalidTimestamp
      else andThen (Kind_validateAmount (t_kind p) (t_money p)) (\<lambda>_.
        andThen
          (case t_origin p of
             OriginInternal \<Rightarrow>
               if t_kind p \<noteq> KindOpening then fail CodeInvalidKind
               else if \<not> ident_IsZero (t_providerID p) \<or> \<not> ident_IsZero (t_externalID p)
                 \<or> \<not> ident_IsZero (t_idempotencyKey p) \<or> \<not> ident_IsZero (t_payloadHash p)
                 \<or> \<not> ident_IsZero (t_roundID p) \<or> \<not> ident_IsZero (t_gameID p)
                 \<or> \<not> ident_IsZero (t_referenceExternalID p) then fail CodeInvalidKind
               else Inr ()
           | OriginExternal \<Rightarrow>
               if t_kind p = KindOpening then fail CodeInvalidKind
               else if ident_IsZero (t_providerID p) \<or> ident_IsZero (t_externalID p)
                 \<or> ident_IsZero (t_idempotencyKey p) \<or> ident_IsZero (t_payloadHash p)
                 \<or> ident_IsZero (t_roundID p) \<or> ident_IsZero (t_gameID p)
                 then fail CodeInvalidIdentifier
               else if Kind_IsReversal (t_kind p) \<and> ident_IsZero (t_referenceExternalID p)
                 then fail CodeMissingReference
               else if \<not> Kind_IsReversal (t_kind p) \<and> \<not> ident_IsZero (t_referenceExternalID p)
                 then fail CodeUnexpectedReference
               else Inr ()
           | OriginOther s \<Rightarrow> fail CodeInvalidKind)
          (\<lambda>_. Inr (p\<lparr>t_referenceNextAttemptAt := utcOrZero (t_referenceNextAttemptAt p),
                     t_referenceDeadlineAt := utcOrZero (t_referenceDeadlineAt p),
                     t_createdAt := time_UTC (t_createdAt p),
                     t_updatedAt := time_UTC (t_updatedAt p)\<rparr>))))"

section \<open>Lemmas\<close>

lemma kind_of_string_of_kind [simp]: "Kind_Valid k \<Longrightarrow> kind_of_string (string_of_kind k) = k"
  by (cases k) (simp_all add: kind_of_string_def Kind_Valid_def)

lemma status_of_string_of_status [simp]: "Status_Valid s \<Longrightarrow> status_of_string (string_of_status s) = s"
  by (cases s) (simp_all add: status_of_string_def Status_Valid_def)

lemma string_of_kind_of_string [simp]: "string_of_kind (kind_of_string s) = s"
  by (simp add: kind_of_string_def)

lemma string_of_status_of_string [simp]: "string_of_status (status_of_string s) = s"
  by (simp add: status_of_string_def)

lemma string_of_origin_of_string [simp]: "string_of_origin (origin_of_string s) = s"
  by (simp add: origin_of_string_def)

lemma Kind_Valid_simps [simp]:
  "Kind_Valid KindOpening" "Kind_Valid KindBet" "Kind_Valid KindWin" "Kind_Valid KindLoss"
  "Kind_Valid KindRefund" "Kind_Valid KindRollback" "\<not> Kind_Valid (KindOther s)"
  by (simp_all add: Kind_Valid_def)

lemma Status_Valid_simps [simp]:
  "Status_Valid StatusPending" "Status_Valid StatusPendingReference" "Status_Valid StatusProcessed"
  "Status_Valid StatusRejected" "Status_Valid StatusFailed" "\<not> Status_Valid (StatusOther s)"
  by (simp_all add: Status_Valid_def)

lemma Kind_IsReversal_simps [simp]:
  "Kind_IsReversal KindRefund" "Kind_IsReversal KindRollback" "\<not> Kind_IsReversal KindBet"
  "\<not> Kind_IsReversal KindWin" "\<not> Kind_IsReversal KindLoss" "\<not> Kind_IsReversal KindOpening"
  "\<not> Kind_IsReversal (KindOther s)"
  by (simp_all add: Kind_IsReversal_def)

lemma Status_IsTerminal_simps [simp]:
  "\<not> Status_IsTerminal StatusPending" "\<not> Status_IsTerminal StatusPendingReference"
  "Status_IsTerminal StatusProcessed" "Status_IsTerminal StatusRejected" "Status_IsTerminal StatusFailed"
  "\<not> Status_IsTerminal (StatusOther s)"
  by (simp_all add: Status_IsTerminal_def)

text \<open>The amount policy of a kind, as a predicate.\<close>

definition amount_ok :: "kind \<Rightarrow> money \<Rightarrow> bool" where
  "amount_ok k m \<longleftrightarrow> Money_IsInitialised m
     \<and> (if k = KindLoss then balance_value m = 0 else 0 < balance_value m)"

lemma validateAmount_iff: "Kind_validateAmount k m = Inr u \<longleftrightarrow> amount_ok k m"
  by (auto simp: Kind_validateAmount_def amount_ok_def IsZero_iff IsPositive_iff)

text \<open>An instant as the constructors store it: in UTC, and unset only as the zero value.\<close>

definition stored_time :: "gotime \<Rightarrow> bool" where
  "stored_time t \<longleftrightarrow> loc t = LocUTC"

lemma stored_time_simps [simp]: "stored_time time_zero" "stored_time (time_UTC t)"
  by (simp_all add: stored_time_def time_zero_def)

lemma utcOrZero_id: "stored_time t \<Longrightarrow> utcOrZero t = t"
  by (auto simp: utcOrZero_def stored_time_def time_IsZero_def time_zero_def time_UTC_def)

lemma stored_time_utcOrZero [simp]: "stored_time (utcOrZero t)"
  by (simp add: utcOrZero_def)

lemma time_IsZero_utcOrZero [simp]: "time_IsZero (utcOrZero t) = time_IsZero t"
  by (simp add: utcOrZero_def)

lemma stored_time_UTC: "stored_time t \<Longrightarrow> time_UTC t = t"
  by (simp add: stored_time_def time_UTC_id)

subsection \<open>The shape of a transaction\<close>

definition tx_metadata_ok :: "WagerTransaction \<Rightarrow> bool" where
  "tx_metadata_ok t \<longleftrightarrow>
     (if t_kind t = KindOpening
      then t_origin t = OriginInternal \<and> t_providerID t = ident_zero \<and> t_externalID t = ident_zero
        \<and> t_idempotencyKey t = ident_zero \<and> t_payloadHash t = ident_zero
        \<and> t_roundID t = ident_zero \<and> t_gameID t = ident_zero \<and> t_referenceExternalID t = ident_zero
      else t_origin t = OriginExternal \<and> \<not> ident_IsZero (t_providerID t)
        \<and> \<not> ident_IsZero (t_externalID t) \<and> \<not> ident_IsZero (t_idempotencyKey t)
        \<and> \<not> ident_IsZero (t_payloadHash t) \<and> \<not> ident_IsZero (t_roundID t)
        \<and> \<not> ident_IsZero (t_gameID t)
        \<and> (Kind_IsReversal (t_kind t) \<longleftrightarrow> \<not> ident_IsZero (t_referenceExternalID t)))"

definition tx_shape :: "WagerTransaction \<Rightarrow> bool" where
  "tx_shape t \<longleftrightarrow>
     \<not> ident_IsZero (t_id t) \<and> Kind_Valid (t_kind t) \<and> Status_Valid (t_status t)
     \<and> \<not> ident_IsZero (t_walletID t) \<and> \<not> ident_IsZero (t_playerID t)
     \<and> amount_ok (t_kind t) (t_money t) \<and> tx_metadata_ok t
     \<and> \<not> time_IsZero (t_createdAt t) \<and> \<not> time_IsZero (t_updatedAt t)
     \<and> stored_time (t_createdAt t) \<and> stored_time (t_updatedAt t)
     \<and> stored_time (t_referenceNextAttemptAt t) \<and> stored_time (t_referenceDeadlineAt t)"

text \<open>What the status says about the other fields.\<close>

definition tx_life :: "WagerTransaction \<Rightarrow> bool" where
  "tx_life t \<longleftrightarrow>
     (if t_status t = StatusProcessed
      then Money_IsInitialised (t_balanceAfter t) \<and> currency (t_balanceAfter t) = currency (t_money t)
      else t_balanceAfter t = Money_zero)
     \<and> (t_failureCode t = CodeOther '''' \<longleftrightarrow> t_status t \<noteq> StatusRejected \<and> t_status t \<noteq> StatusFailed)
     \<and> (t_status t = StatusPendingReference \<longrightarrow> Kind_IsReversal (t_kind t)
         \<and> \<not> time_IsZero (t_referenceNextAttemptAt t) \<and> \<not> time_IsZero (t_referenceDeadlineAt t))
     \<and> (\<not> Kind_IsReversal (t_kind t) \<longrightarrow> t_resolvedReferenceID t = ident_zero
         \<and> t_referenceAttempts t = 0)"

definition tx_ok :: "WagerTransaction \<Rightarrow> bool" where
  "tx_ok t \<longleftrightarrow> tx_shape t \<and> tx_life t"

lemma RehydrateTransaction_shape: "tx_shape t \<Longrightarrow> RehydrateTransaction t = Inr t"
  by (auto simp: RehydrateTransaction_def tx_shape_def tx_metadata_ok_def validateAmount_iff
      andThen_Inr_iff utcOrZero_id stored_time_UTC split: if_splits)

lemma RehydrateTransaction_okE:
  assumes "RehydrateTransaction p = Inr t"
  obtains "tx_shape t" "t = p\<lparr>t_referenceNextAttemptAt := utcOrZero (t_referenceNextAttemptAt p),
     t_referenceDeadlineAt := utcOrZero (t_referenceDeadlineAt p),
     t_createdAt := time_UTC (t_createdAt p), t_updatedAt := time_UTC (t_updatedAt p)\<rparr>"
  using assms
  by (auto simp: RehydrateTransaction_def tx_shape_def tx_metadata_ok_def validateAmount_iff
      andThen_Inr_iff ident_IsZero_iff split: if_splits origin.splits)

lemma NewExternalTransaction_ok:
  assumes "NewExternalTransaction p = Inr t"
  shows "tx_ok t" "t_status t = StatusPending" "t_kind t \<noteq> KindOpening"
    "t_resolvedReferenceID t = ident_zero"
  using assms
  by (auto simp: NewExternalTransaction_def tx_ok_def tx_shape_def tx_life_def tx_metadata_ok_def
      validateAmount_iff andThen_Inr_iff Let_def split: if_splits)

lemma NewOpeningTransaction_ok:
  assumes "NewOpeningTransaction p = Inr t"
  shows "tx_ok t" "t_status t = StatusProcessed" "t_kind t = KindOpening"
  using assms
  by (auto simp: NewOpeningTransaction_def tx_ok_def tx_shape_def tx_life_def tx_metadata_ok_def
      validateAmount_iff andThen_Inr_iff Let_def amount_ok_def split: if_splits)

subsection \<open>The state machine\<close>

text \<open>One call of a method that returned a new transaction.\<close>

inductive tx_step :: "WagerTransaction \<Rightarrow> WagerTransaction \<Rightarrow> bool" where
  park: "Tx_MarkPendingReference t at n dl = Inr t' \<Longrightarrow> tx_step t t'"
| reschedule: "Tx_RescheduleReference t at n = Inr t' \<Longrightarrow> tx_step t t'"
| resolve: "Tx_ResolveReference t i at = Inr t' \<Longrightarrow> tx_step t t'"
| processed: "Tx_MarkProcessed t b at = Inr t' \<Longrightarrow> tx_step t t'"
| reject: "Tx_Reject t c at = Inr t' \<Longrightarrow> tx_step t t'"
| failed: "Tx_Fail t c at = Inr t' \<Longrightarrow> tx_step t t'"

inductive_cases tx_stepE: "tx_step t t'"

text \<open>What was asked: the fields no method may change.\<close>

definition same_request :: "WagerTransaction \<Rightarrow> WagerTransaction \<Rightarrow> bool" where
  "same_request t t' \<longleftrightarrow>
     t_id t' = t_id t \<and> t_origin t' = t_origin t \<and> t_kind t' = t_kind t
     \<and> t_walletID t' = t_walletID t \<and> t_playerID t' = t_playerID t \<and> t_money t' = t_money t
     \<and> t_providerID t' = t_providerID t \<and> t_externalID t' = t_externalID t
     \<and> t_idempotencyKey t' = t_idempotencyKey t \<and> t_payloadHash t' = t_payloadHash t
     \<and> t_roundID t' = t_roundID t \<and> t_gameID t' = t_gameID t
     \<and> t_referenceExternalID t' = t_referenceExternalID t \<and> t_createdAt t' = t_createdAt t"

lemma same_request_refl [simp]: "same_request t t"
  by (simp add: same_request_def)

lemma same_request_trans: "same_request a b \<Longrightarrow> same_request b c \<Longrightarrow> same_request a c"
  by (simp add: same_request_def)

lemma transition_okE:
  assumes "Tx_transition t to at app = Inr t'"
  obtains "t' = app (t\<lparr>t_status := to, t_updatedAt := time_UTC at\<rparr>)" "\<not> time_IsZero at"
    "to \<in> set (allowedTransitions (t_status t))"
  using assms by (auto simp: Tx_transition_def split: if_splits)

lemma MarkPendingReference_okE:
  assumes "Tx_MarkPendingReference t at n dl = Inr t'"
  obtains "t_status t = StatusPending" "Kind_IsReversal (t_kind t)" "\<not> time_IsZero at"
    "\<not> time_IsZero n" "\<not> time_IsZero dl"
    "t' = t\<lparr>t_status := StatusPendingReference, t_updatedAt := time_UTC at,
       t_referenceAttempts := t_referenceAttempts t + 1,
       t_referenceNextAttemptAt := time_UTC n, t_referenceDeadlineAt := time_UTC dl\<rparr>"
proof (rule that)
  show "t_status t = StatusPending"
    using assms by (cases "t_status t") (auto simp: Tx_MarkPendingReference_def Tx_transition_def split: if_splits)
qed (use assms in \<open>auto simp: Tx_MarkPendingReference_def elim!: transition_okE split: if_splits\<close>)

lemma allowed_end_iff:
  "Status_IsTerminal s' \<Longrightarrow>
     s' \<in> set (allowedTransitions s) \<longleftrightarrow> s = StatusPending \<or> s = StatusPendingReference"
  by (cases s) (auto simp: Status_IsTerminal_def)

lemma MarkProcessed_okE:
  assumes "Tx_MarkProcessed t b at = Inr t'"
  obtains "t_status t = StatusPending \<or> t_status t = StatusPendingReference" "\<not> time_IsZero at"
    "Money_IsInitialised b" "Money_IsInitialised (t_money t) \<Longrightarrow> currency b = currency (t_money t)"
    "t' = t\<lparr>t_status := StatusProcessed, t_updatedAt := time_UTC at, t_balanceAfter := b\<rparr>"
  using assms
  by (auto simp: Tx_MarkProcessed_def allowed_end_iff elim!: transition_okE split: if_splits)

lemma Reject_okE:
  assumes "Tx_Reject t c at = Inr t'"
  obtains "t_status t = StatusPending \<or> t_status t = StatusPendingReference" "\<not> time_IsZero at"
    "c \<noteq> CodeOther ''''"
    "t' = t\<lparr>t_status := StatusRejected, t_updatedAt := time_UTC at, t_failureCode := c\<rparr>"
  using assms
  by (auto simp: Tx_Reject_def allowed_end_iff elim!: transition_okE split: if_splits)

lemma Fail_okE:
  assumes "Tx_Fail t c at = Inr t'"
  obtains "t_status t = StatusPending \<or> t_status t = StatusPendingReference" "\<not> time_IsZero at"
    "c \<noteq> CodeOther ''''"
    "t' = t\<lparr>t_status := StatusFailed, t_updatedAt := time_UTC at, t_failureCode := c\<rparr>"
  using assms
  by (auto simp: Tx_Fail_def allowed_end_iff elim!: transition_okE split: if_splits)

lemma RescheduleReference_okE:
  assumes "Tx_RescheduleReference t at n = Inr t'"
  obtains "t_status t = StatusPendingReference" "\<not> time_IsZero at" "\<not> time_IsZero n"
    "t' = t\<lparr>t_referenceAttempts := t_referenceAttempts t + 1,
       t_referenceNextAttemptAt := time_UTC n, t_updatedAt := time_UTC at\<rparr>"
  using assms by (auto simp: Tx_RescheduleReference_def split: if_splits)

lemma ResolveReference_okE:
  assumes "Tx_ResolveReference t i at = Inr t'"
  obtains "Kind_IsReversal (t_kind t)" "\<not> ident_IsZero i" "\<not> Tx_IsTerminal t" "\<not> time_IsZero at"
    "t' = t\<lparr>t_resolvedReferenceID := i, t_updatedAt := time_UTC at\<rparr>"
  using assms by (auto simp: Tx_ResolveReference_def split: if_splits)

lemmas tx_okEs = MarkPendingReference_okE MarkProcessed_okE Reject_okE Fail_okE
  RescheduleReference_okE ResolveReference_okE

lemma tx_step_same_request: "tx_step t t' \<Longrightarrow> same_request t t'"
  by (erule tx_stepE; elim tx_okEs) (simp_all add: same_request_def)

lemma tx_metadata_same_request: "same_request t t' \<Longrightarrow> tx_metadata_ok t' = tx_metadata_ok t"
  by (simp add: same_request_def tx_metadata_ok_def)

lemma tx_shape_step: "tx_step t t' \<Longrightarrow> tx_shape t \<Longrightarrow> tx_shape t'"
  unfolding tx_shape_def
  by (frule tx_step_same_request, simp only: tx_metadata_same_request)
    (erule tx_stepE; elim tx_okEs; simp)

lemma tx_life_step:
  assumes "tx_step t t'" "tx_life t" "tx_shape t"
  shows "tx_life t'"
proof -
  have "Money_IsInitialised (t_money t)" using assms(3) by (simp add: tx_shape_def amount_ok_def)
  moreover have "t_status t = StatusPending \<or> t_status t = StatusPendingReference \<Longrightarrow>
      t_balanceAfter t = Money_zero \<and> t_failureCode t = CodeOther ''''"
    using assms(2) by (auto simp: tx_life_def)
  ultimately show ?thesis
    using assms(1)
    by (elim tx_stepE tx_okEs; use assms(2) in \<open>simp add: tx_life_def split: if_splits\<close>)
qed

lemma tx_ok_step: "tx_step t t' \<Longrightarrow> tx_ok t \<Longrightarrow> tx_ok t'"
  by (auto simp: tx_ok_def tx_shape_step tx_life_step)

lemma tx_step_not_terminal: "tx_step t t' \<Longrightarrow> \<not> Tx_IsTerminal t"
  by (erule tx_stepE; elim tx_okEs disjE) (simp_all add: Tx_IsTerminal_def)

lemma tx_step_edge:
  "tx_step t t' \<Longrightarrow> t_status t' = t_status t \<or> t_status t' \<in> set (allowedTransitions (t_status t))"
  by (erule tx_stepE; elim tx_okEs disjE) simp_all

lemma tx_steps_inv:
  assumes "tx_step\<^sup>*\<^sup>* t t'" "tx_ok t"
  shows "tx_ok t' \<and> same_request t t'"
  using assms
  by (induction rule: rtranclp_induct)
    (auto intro: tx_ok_step same_request_trans tx_step_same_request)

lemma tx_terminal_steps: "tx_step\<^sup>*\<^sup>* t t' \<Longrightarrow> Tx_IsTerminal t \<Longrightarrow> t' = t"
  by (metis converse_rtranclpE tx_step_not_terminal)

section \<open>Properties\<close>

text \<open>
  C8. The life of a provider's operation. Whatever sequence of calls is made on a transaction
  that \<open>NewExternalTransaction\<close> accepted, it keeps its shape and the meaning of its status: a
  balance is recorded exactly when it is processed, a failure code exactly when it is
  rejected or failed, a wait only on a reversal and with a next attempt and a deadline; and
  what was asked never changes. Once terminal, no call changes anything.
\<close>

theorem transaction_lifecycle:
  assumes "NewExternalTransaction p = Inr t\<^sub>0" "tx_step\<^sup>*\<^sup>* t\<^sub>0 t"
  shows "tx_ok t \<and> same_request t\<^sub>0 t \<and> t_origin t = OriginExternal
    \<and> (Tx_IsTerminal t \<longrightarrow> (\<forall>t'. tx_step\<^sup>*\<^sup>* t t' \<longrightarrow> t' = t))"
proof -
  have "tx_ok t\<^sub>0" by (rule NewExternalTransaction_ok [OF assms(1)])
  then have "tx_ok t \<and> same_request t\<^sub>0 t" by (rule tx_steps_inv [OF assms(2)])
  moreover have "t_origin t\<^sub>0 = OriginExternal"
    using \<open>tx_ok t\<^sub>0\<close> NewExternalTransaction_ok(3) [OF assms(1)]
    by (simp add: tx_ok_def tx_shape_def tx_metadata_ok_def)
  ultimately show ?thesis by (auto simp: same_request_def dest: tx_terminal_steps)
qed

definition sample_request :: "kind \<Rightarrow> string \<Rightarrow> i64 \<Rightarrow> ExternalTransactionParams" where
  "sample_request k ref n =
     \<lparr>x_id = Identifier ''t1'', x_kind = k, x_providerID = Identifier ''prov'',
      x_externalID = Identifier ''ext-1'', x_idempotencyKey = Identifier ''key-1'',
      x_payloadHash = Identifier ''sha256:00'', x_walletID = Identifier ''w1'',
      x_playerID = Identifier ''p1'', x_roundID = Identifier ''r1'', x_gameID = Identifier ''g1'',
      x_money = \<lparr>minor = n, currency = \<lparr>code_str = ''BRL''\<rparr>\<rparr>,
      x_referenceExternalID = Identifier ref, x_createdAt = \<lparr>instant = 1, loc = LocUTC\<rparr>\<rparr>"

theorem transaction_lifecycle_witness:
  "\<exists>t\<^sub>0 t. NewExternalTransaction (sample_request KindRefund ''ext-0'' 40) = Inr t\<^sub>0
     \<and> t_status t = StatusRejected \<and> t_referenceAttempts t = 1 \<and> tx_ok t \<and> same_request t\<^sub>0 t"
proof -
  let ?at = "\<lparr>instant = 2, loc = LocUTC\<rparr>"
  obtain t\<^sub>0 where t0: "NewExternalTransaction (sample_request KindRefund ''ext-0'' 40) = Inr t\<^sub>0"
    by (simp add: NewExternalTransaction_def sample_request_def validateAmount_iff time_IsZero_def
        Kind_validateAmount_def Money_IsInitialised_def Currency_IsZero_def IsPositive_iff Let_def)
  then have f: "t_status t\<^sub>0 = StatusPending" "t_kind t\<^sub>0 = KindRefund" "t_id t\<^sub>0 = Identifier ''t1''"
      "t_referenceAttempts t\<^sub>0 = 0"
    by (auto simp: NewExternalTransaction_def sample_request_def andThen_Inr_iff Let_def split: if_splits)
  then obtain t\<^sub>1 where t1: "Tx_MarkPendingReference t\<^sub>0 ?at ?at ?at = Inr t\<^sub>1"
      "t_status t\<^sub>1 = StatusPendingReference" "t_id t\<^sub>1 = Identifier ''t1''" "t_referenceAttempts t\<^sub>1 = 1"
    by (simp add: Tx_MarkPendingReference_def Tx_transition_def Tx_IsInitialised_def time_IsZero_def)
  then obtain t\<^sub>2 where t2: "Tx_Reject t\<^sub>1 CodeReferenceNotFound ?at = Inr t\<^sub>2"
      "t_status t\<^sub>2 = StatusRejected" "t_referenceAttempts t\<^sub>2 = 1"
    by (simp add: Tx_Reject_def Tx_transition_def Tx_IsInitialised_def time_IsZero_def)
  have "tx_step\<^sup>*\<^sup>* t\<^sub>0 t\<^sub>2"
    using tx_step.park [OF t1(1)] tx_step.reject [OF t2(1)] by auto
  then show ?thesis using transaction_lifecycle [OF t0] t0 t2 by blast
qed

text \<open>
  C9. Reading a transaction back is the identity on every transaction the program can hold,
  and what is read back always has the shape the constructors establish.
\<close>

theorem transaction_rehydrate:
  "(tx_shape t \<longrightarrow> RehydrateTransaction t = Inr t)
   \<and> (RehydrateTransaction q = Inr t' \<longrightarrow> tx_shape t')
   \<and> (NewExternalTransaction p = Inr t\<^sub>0 \<longrightarrow> RehydrateTransaction t\<^sub>0 = Inr t\<^sub>0)
   \<and> (NewOpeningTransaction o' = Inr t\<^sub>1 \<longrightarrow> RehydrateTransaction t\<^sub>1 = Inr t\<^sub>1)"
  using NewExternalTransaction_ok(1) [of p t\<^sub>0] NewOpeningTransaction_ok(1) [of o' t\<^sub>1]
  by (auto simp: RehydrateTransaction_shape tx_ok_def elim: RehydrateTransaction_okE)

theorem transaction_rehydrate_witness:
  "\<exists>t. NewExternalTransaction (sample_request KindBet '''' 40) = Inr t \<and> RehydrateTransaction t = Inr t"
proof -
  obtain t where "NewExternalTransaction (sample_request KindBet '''' 40) = Inr t"
    by (simp add: NewExternalTransaction_def sample_request_def validateAmount_iff time_IsZero_def
        Kind_validateAmount_def Money_IsInitialised_def Currency_IsZero_def IsPositive_iff Let_def)
  then show ?thesis using transaction_rehydrate by blast
qed

text \<open>
  A reversal moves money against its target. A kind reverses another only if it is itself
  a reversal and the target moved money in a fixed direction; the reversal's direction is
  then defined and of opposite sign, so that reversing an operation of the same amount
  restores the balance. No reversal can undo a ROLLBACK, a LOSS or an OPENING.
\<close>

lemma reversal_table:
  "Kind_CanReverse k target \<Longrightarrow>
     Kind_IsReversal k \<and> target \<in> {KindBet, KindWin, KindRefund}
     \<and> (\<exists>d d'. Kind_Direction target = Some d \<and> ReversalDirection target = Inr d'
         \<and> direction_sign d' = - direction_sign d)"
  by (cases k; cases target)
    (auto simp: Kind_CanReverse_def ReversalDirection_def Direction_Opposite_def direction_sign_def)

lemma reversal_table_witness:
  "Kind_CanReverse KindRollback KindWin \<and> ReversalDirection KindWin = Inr Debit"
  using reversal_table [of KindRollback KindWin]
  by (simp add: Kind_CanReverse_def ReversalDirection_def Direction_Opposite_def)

end
