(* ===== verification/Event.thy ===== *)
theory Event
  imports Transaction
begin

text \<open>
  \<open>internal/domain/event.go\<close>: the facts the program records for publication.

  A payload is the Go struct handed to \<open>json.Marshal\<close>; the JSON text it becomes is not
  modelled (the structs hold strings and integers only, which always serialise). The
  deadline of a wait, an RFC 3339 string in the source, is kept as the instant it prints.
\<close>

datatype event_type =
    EventWagerTransactionProcessed | EventWagerTransactionRejected | EventWalletBalanceChanged
  | EventWagerTransactionPendingReference

record moneyPayload =
  mp_amount :: string
  mp_currency :: string

definition toMoneyPayload :: "money \<Rightarrow> moneyPayload" where
  "toMoneyPayload m = \<lparr>mp_amount = Money_String m, mp_currency = Currency_String (currency m)\<rparr>"

record transactionPayload =
  tp_transactionID :: string
  tp_kind :: string
  tp_status :: string
  tp_walletID :: string
  tp_playerID :: string
  tp_money :: moneyPayload
  tp_providerID :: string
  tp_externalID :: string
  tp_roundID :: string
  tp_gameID :: string
  tp_failureCode :: string
  tp_balanceAfter :: "moneyPayload option"

record balancePayload =
  bp_walletID :: string
  bp_transactionID :: string
  bp_direction :: string
  bp_money :: moneyPayload
  bp_balanceBefore :: moneyPayload
  bp_balanceAfter :: moneyPayload
  bp_walletVersion :: i64

record pendingPayload =
  pp_transaction :: transactionPayload
  pp_referenceExternalID :: string
  pp_attempts :: i64
  pp_deadlineAt :: gotime

datatype payload =
    TransactionPayload transactionPayload
  | PendingPayload pendingPayload
  | BalancePayload balancePayload

record Event =
  ev_type :: event_type
  ev_version :: nat
  ev_aggregateID :: string
  ev_occurredAt :: gotime
  ev_payload :: payload

definition currentEventVersion :: nat where
  "currentEventVersion = 1"

definition toTransactionPayload :: "WagerTransaction \<Rightarrow> transactionPayload" where
  "toTransactionPayload t =
     \<lparr>tp_transactionID = ident_String (t_id t),
      tp_kind = string_of_kind (t_kind t),
      tp_status = string_of_status (t_status t),
      tp_walletID = ident_String (t_walletID t),
      tp_playerID = ident_String (t_playerID t),
      tp_money = toMoneyPayload (t_money t),
      tp_providerID = ident_String (t_providerID t),
      tp_externalID = ident_String (t_externalID t),
      tp_roundID = ident_String (t_roundID t),
      tp_gameID = ident_String (t_gameID t),
      tp_failureCode = string_of_code (t_failureCode t),
      tp_balanceAfter =
        (if Money_IsInitialised (t_balanceAfter t) then Some (toMoneyPayload (t_balanceAfter t)) else None)\<rparr>"

definition marshalEvent :: "event_type \<Rightarrow> string \<Rightarrow> gotime \<Rightarrow> payload \<Rightarrow> Event res" where
  "marshalEvent eventType aggregateID occurredAt pl =
     (if aggregateID = '''' then fail CodeInvalidIdentifier
      else if time_IsZero occurredAt then fail CodeInvalidTimestamp
      else Inr \<lparr>ev_type = eventType, ev_version = currentEventVersion, ev_aggregateID = aggregateID,
             ev_occurredAt = time_UTC occurredAt, ev_payload = pl\<rparr>)"

definition NewWagerTransactionProcessed :: "WagerTransaction \<Rightarrow> Event res" where
  "NewWagerTransactionProcessed t =
     (if t_status t \<noteq> StatusProcessed then fail CodeInvalidStatus
      else marshalEvent EventWagerTransactionProcessed (ident_String (t_id t)) (t_updatedAt t)
             (TransactionPayload (toTransactionPayload t)))"

definition NewWagerTransactionRejected :: "WagerTransaction \<Rightarrow> Event res" where
  "NewWagerTransactionRejected t =
     (if t_status t \<noteq> StatusRejected then fail CodeInvalidStatus
      else if t_failureCode t = CodeOther '''' then fail CodeInvalidStatus
      else marshalEvent EventWagerTransactionRejected (ident_String (t_id t)) (t_updatedAt t)
             (TransactionPayload (toTransactionPayload t)))"

definition NewWagerTransactionPendingReference :: "WagerTransaction \<Rightarrow> Event res" where
  "NewWagerTransactionPendingReference t =
     (if t_status t \<noteq> StatusPendingReference then fail CodeInvalidStatus
      else marshalEvent EventWagerTransactionPendingReference (ident_String (t_id t)) (t_updatedAt t)
             (PendingPayload \<lparr>pp_transaction = toTransactionPayload t,
                pp_referenceExternalID = ident_String (t_referenceExternalID t),
                pp_attempts = t_referenceAttempts t,
                pp_deadlineAt = t_referenceDeadlineAt t\<rparr>))"

definition NewWalletBalanceChanged :: "Wallet \<Rightarrow> LedgerEntry \<Rightarrow> Event res" where
  "NewWalletBalanceChanged wallet entry =
     (if \<not> Wallet_IsInitialised wallet then fail CodeInvalidIdentifier
      else if e_walletID entry \<noteq> w_id wallet then fail CodeInvalidIdentifier
      else if e_balanceAfter entry \<noteq> w_balance wallet then fail CodeInconsistentEntry
      else marshalEvent EventWalletBalanceChanged (ident_String (w_id wallet)) (e_createdAt entry)
             (BalancePayload \<lparr>bp_walletID = ident_String (w_id wallet),
                bp_transactionID = ident_String (e_transactionID entry),
                bp_direction = string_of_direction (e_direction entry),
                bp_money = toMoneyPayload (e_amount entry),
                bp_balanceBefore = toMoneyPayload (e_balanceBefore entry),
                bp_balanceAfter = toMoneyPayload (e_balanceAfter entry),
                bp_walletVersion = w_version wallet\<rparr>))"

section \<open>Lemmas\<close>

lemma marshalEvent_Inr:
  "aggregateID \<noteq> '''' \<Longrightarrow> \<not> time_IsZero at \<Longrightarrow> \<exists>ev. marshalEvent ty aggregateID at pl = Inr ev"
  by (simp add: marshalEvent_def)

lemma ident_String_Nil_iff [simp]: "ident_String i = '''' \<longleftrightarrow> ident_IsZero i"
  by (simp add: ident_String_def ident_IsZero_def)

lemma processed_event_ok:
  "tx_ok t \<Longrightarrow> t_status t = StatusProcessed \<Longrightarrow> \<exists>ev. NewWagerTransactionProcessed t = Inr ev"
  by (auto simp: NewWagerTransactionProcessed_def tx_ok_def tx_shape_def intro!: marshalEvent_Inr)

lemma rejected_event_ok:
  "tx_ok t \<Longrightarrow> t_status t = StatusRejected \<Longrightarrow> \<exists>ev. NewWagerTransactionRejected t = Inr ev"
  by (auto simp: NewWagerTransactionRejected_def tx_ok_def tx_shape_def tx_life_def
      intro!: marshalEvent_Inr)

lemma pending_event_ok:
  "tx_ok t \<Longrightarrow> t_status t = StatusPendingReference
     \<Longrightarrow> \<exists>ev. NewWagerTransactionPendingReference t = Inr ev"
  by (auto simp: NewWagerTransactionPendingReference_def tx_ok_def tx_shape_def
      intro!: marshalEvent_Inr)

lemma balance_event_ok:
  "\<not> ident_IsZero (w_id w) \<Longrightarrow> entry_ok e \<Longrightarrow> e_walletID e = w_id w \<Longrightarrow> e_balanceAfter e = w_balance w
     \<Longrightarrow> \<exists>ev. NewWalletBalanceChanged w e = Inr ev"
  by (auto simp: NewWalletBalanceChanged_def Wallet_IsInitialised_def entry_ok_def
      intro!: marshalEvent_Inr)

section \<open>Properties\<close>



end
