(* ===== verification/Identity.thy ===== *)
theory Identity
  imports Identifier
begin

text \<open>
  \<open>internal/app/identity.go\<close>: who calls, what the credential allows, and the context that
  carries it. A \<open>context.Context\<close> is reduced to what the program reads from it: the identity,
  the correlation id (\<open>internal/app/events.go\<close>), the mark of a running unit of work, and
  whether cancellation reaches it (\<open>context.WithoutCancel\<close> clears that).
\<close>

datatype scope = ScopeSubmit | ScopeRead | ScopeWallets | ScopeOther string

definition scope_of_string :: "string \<Rightarrow> scope" where
  "scope_of_string s =
     (if s = ''wagering:submit'' then ScopeSubmit
      else if s = ''wagering:read'' then ScopeRead
      else if s = ''wallets:manage'' then ScopeWallets
      else ScopeOther s)"

fun string_of_scope :: "scope \<Rightarrow> string" where
  "string_of_scope ScopeSubmit = ''wagering:submit''"
| "string_of_scope ScopeRead = ''wagering:read''"
| "string_of_scope ScopeWallets = ''wallets:manage''"
| "string_of_scope (ScopeOther s) = s"

record Identity =
  i_subject :: string
  i_providerID :: ProviderID
  i_scopes :: "scope list"

record IdentityParams =
  ip_subject :: string
  ip_providerID :: string
  ip_scopes :: "string list"

definition Scope_known :: "scope \<Rightarrow> bool" where
  "Scope_known s \<longleftrightarrow> s = ScopeSubmit \<or> s = ScopeRead \<or> s = ScopeWallets"

fun add_scopes :: "scope list \<Rightarrow> string list \<Rightarrow> scope list" where
  "add_scopes acc [] = acc"
| "add_scopes acc (raw # rest) =
     (let scope = scope_of_string (TrimSpace raw) in
      add_scopes (if Scope_known scope \<and> scope \<notin> set acc then acc @ [scope] else acc) rest)"

text \<open>A provider id the domain refuses is reported with \<open>%v\<close>: the result is not a domain error.\<close>

definition NewIdentity :: "IdentityParams \<Rightarrow> Identity res" where
  "NewIdentity p =
     (if ip_subject p = '''' then Inl (Wrapped ErrUnauthenticated)
      else andThen
        (if ip_providerID p \<noteq> '''' then
           (case ParseProviderID (ip_providerID p) of
              Inl e \<Rightarrow> Inl (Wrapped ErrUnauthenticated)
            | Inr pid \<Rightarrow> Inr pid)
         else Inr ident_zero)
        (\<lambda>pid. Inr \<lparr>i_subject = ip_subject p, i_providerID = pid,
                    i_scopes = add_scopes [] (ip_scopes p)\<rparr>))"

definition Identity_IsProvider :: "Identity \<Rightarrow> bool" where
  "Identity_IsProvider i \<longleftrightarrow> \<not> ident_IsZero (i_providerID i)"

definition Identity_Has :: "Identity \<Rightarrow> scope \<Rightarrow> bool" where
  "Identity_Has i s \<longleftrightarrow> s \<in> set (i_scopes i)"

definition Identity_authorise :: "Identity \<Rightarrow> scope \<Rightarrow> unit res" where
  "Identity_authorise i s = (if \<not> Identity_Has i s then Inl (Wrapped ErrForbidden) else Inr ())"

definition Identity_provider :: "Identity \<Rightarrow> ProviderID res" where
  "Identity_provider i =
     (if \<not> Identity_IsProvider i then Inl (Wrapped ErrForbidden) else Inr (i_providerID i))"

definition Identity_mayActAs :: "Identity \<Rightarrow> ProviderID \<Rightarrow> unit res" where
  "Identity_mayActAs i pid =
     andThen (Identity_provider i) (\<lambda>provider.
       if provider \<noteq> pid then Inl (Wrapped ErrForbidden) else Inr ())"

definition Identity_owns :: "Identity \<Rightarrow> ProviderID \<Rightarrow> bool" where
  "Identity_owns i pid =
     (if \<not> Identity_IsProvider i then Identity_Has i ScopeWallets
      else \<not> ident_IsZero pid \<and> pid = i_providerID i)"

section \<open>The context\<close>

record ctx =
  c_identity :: "Identity option"
  c_correlationID :: string
  c_insideUnitOfWork :: bool
  c_cancellable :: bool

definition WithIdentity :: "ctx \<Rightarrow> Identity \<Rightarrow> ctx" where
  "WithIdentity c i = c\<lparr>c_identity := Some i\<rparr>"

definition WithCorrelationID :: "ctx \<Rightarrow> string \<Rightarrow> ctx" where
  "WithCorrelationID c s = (if s = '''' then c else c\<lparr>c_correlationID := s\<rparr>)"

definition WithoutCancel :: "ctx \<Rightarrow> ctx" where
  "WithoutCancel c = c\<lparr>c_cancellable := False\<rparr>"

definition caller :: "ctx \<Rightarrow> scope \<Rightarrow> Identity res" where
  "caller c s =
     (case c_identity c of
        None \<Rightarrow> Inl (Wrapped ErrUnauthenticated)
      | Some i \<Rightarrow> andThen (Identity_authorise i s) (\<lambda>_. Inr i))"

section \<open>Lemmas\<close>

lemma caller_okE:
  assumes "caller c s = Inr i"
  obtains "c_identity c = Some i" "s \<in> set (i_scopes i)"
  using assms
  by (auto simp: caller_def Identity_authorise_def Identity_Has_def andThen_Inr_iff
      split: option.splits if_splits)

lemma caller_error: "caller c s = Inl e \<Longrightarrow> as_domain e = None"
  by (auto simp: caller_def Identity_authorise_def andThen_Inl_iff split: option.splits if_splits)

lemma mayActAs_iff:
  "Identity_mayActAs i pid = Inr u \<longleftrightarrow> \<not> ident_IsZero pid \<and> pid = i_providerID i"
  by (auto simp: Identity_mayActAs_def Identity_provider_def Identity_IsProvider_def andThen_Inr_iff)

lemma mayActAs_error: "Identity_mayActAs i pid = Inl e \<Longrightarrow> as_domain e = None"
  by (auto simp: Identity_mayActAs_def Identity_provider_def andThen_Inl_iff split: if_splits)

lemma set_add_scopes:
  "set (add_scopes acc raws) = set acc \<union> {s. Scope_known s \<and> (\<exists>r\<in>set raws. scope_of_string (TrimSpace r) = s)}"
  by (induction acc raws rule: add_scopes.induct) (auto simp: Let_def)

lemma distinct_add_scopes: "distinct acc \<Longrightarrow> distinct (add_scopes acc raws)"
  by (induction acc raws rule: add_scopes.induct) (auto simp: Let_def)

lemma NewIdentity_okE:
  assumes "NewIdentity p = Inr i"
  obtains "i_subject i = ip_subject p" "ip_subject p \<noteq> ''''"
    "i_providerID i = Identifier (ip_providerID p)"
    "ip_providerID p = '''' \<or> ident_ok (i_providerID i)"
    "i_scopes i = add_scopes [] (ip_scopes p)"
  using assms
  by (auto simp: NewIdentity_def andThen_Inr_iff ParseProviderID_def parseIdentifier_iff
      split: if_splits sum.splits)

section \<open>Properties\<close>

text \<open>
  C12. Authorisation fails closed. Without an identity in the context, or without the scope, no
  use case starts; an identity is built only for a named subject, carries only known scopes
  that the credential granted, each once, and a provider id only as the credential gave it.
  It may act as, and owns operations of, exactly its own provider; a credential with no
  provider acts as nobody and sees operations only with the internal scope.
\<close>

theorem authorisation_fails_closed:
  "(caller c s = Inr i \<longleftrightarrow> c_identity c = Some i \<and> s \<in> set (i_scopes i))
   \<and> (Identity_mayActAs i pid = Inr () \<longleftrightarrow> \<not> ident_IsZero pid \<and> pid = i_providerID i)
   \<and> (Identity_owns i pid \<longleftrightarrow>
        (if ident_IsZero (i_providerID i) then ScopeWallets \<in> set (i_scopes i)
         else pid = i_providerID i))
   \<and> (NewIdentity p = Inr j \<longrightarrow>
        ip_subject p \<noteq> '''' \<and> i_providerID j = Identifier (ip_providerID p)
        \<and> distinct (i_scopes j)
        \<and> set (i_scopes j) = {s. Scope_known s \<and> (\<exists>r\<in>set (ip_scopes p). scope_of_string (TrimSpace r) = s)})"
proof -
  have "caller c s = Inr i \<longleftrightarrow> c_identity c = Some i \<and> s \<in> set (i_scopes i)"
    by (auto simp: caller_def Identity_authorise_def Identity_Has_def andThen_Inr_iff split: option.splits)
  moreover have "NewIdentity p = Inr j \<longrightarrow>
        ip_subject p \<noteq> '''' \<and> i_providerID j = Identifier (ip_providerID p)
        \<and> distinct (i_scopes j)
        \<and> set (i_scopes j) = {s. Scope_known s \<and> (\<exists>r\<in>set (ip_scopes p). scope_of_string (TrimSpace r) = s)}"
    by (auto elim!: NewIdentity_okE simp: set_add_scopes distinct_add_scopes)
  ultimately show ?thesis
    by (auto simp: mayActAs_iff Identity_owns_def Identity_IsProvider_def Identity_Has_def)
qed

theorem authorisation_fails_closed_witness:
  "\<exists>i. NewIdentity \<lparr>ip_subject = ''client'', ip_providerID = ''prov'', ip_scopes = [''wagering:submit'']\<rparr> = Inr i
     \<and> i_providerID i = Identifier ''prov''"
proof -
  let ?p = "\<lparr>ip_subject = ''client'', ip_providerID = ''prov'', ip_scopes = [''wagering:submit'']\<rparr>"
  obtain i where "NewIdentity ?p = Inr i"
    by (simp add: NewIdentity_def ParseProviderID_def parseIdentifier_def maxIdentifierLength_def)
  then show ?thesis using authorisation_fails_closed [of _ _ _ _ ?p i] by auto
qed

end
