(* ===== verification/World.thy ===== *)
theory World
  imports Identity
begin

text \<open>
  Effects. A computation of the program that talks to the database, the clock, the id
  generator or the broker is a function from the world to a result and a new world.

  \<^item> \<open>world\<close> holds the stored data (the type parameter), whether a transaction is open and
    whether a failed statement has aborted it, and the number of external calls made so far.
  \<^item> \<open>env\<close> is everything outside the program, indexed by the number of the call: what the
    clock reads, which identifier the generator mints or whether it fails, whether a
    statement meets a server error, how a commit ends, which rows other sessions hold, the
    random source, whether the context is done. Nothing is assumed about it here; a theorem
    that needs more says so.
\<close>

section \<open>Errors of the driver\<close>

text \<open>
  What \<open>pgx\<close> reports: no row, a server error with its SQLSTATE, constraint and table, or
  anything else (a broken connection, a cancelled context).
\<close>

datatype pgerror =
    PgNoRows
  | PgError (pg_code: string) (pg_constraint: string) (pg_table: string) (pg_message: string)
  | PgOther string

definition codeRestrictViolation :: string where "codeRestrictViolation = ''23001''"
definition codeForeignKeyViolation :: string where "codeForeignKeyViolation = ''23503''"
definition codeNotNullViolation :: string where "codeNotNullViolation = ''23502''"
definition codeUniqueViolation :: string where "codeUniqueViolation = ''23505''"
definition codeCheckViolation :: string where "codeCheckViolation = ''23514''"
definition codeSerializationFailed :: string where "codeSerializationFailed = ''40001''"
definition codeDeadlockDetected :: string where "codeDeadlockDetected = ''40P01''"

lemmas sqlstate_defs = codeRestrictViolation_def codeForeignKeyViolation_def codeNotNullViolation_def
  codeUniqueViolation_def codeCheckViolation_def codeSerializationFailed_def codeDeadlockDetected_def

definition constraintOf :: "string \<Rightarrow> string \<Rightarrow> string \<Rightarrow> string" where
  "constraintOf cname tname msg =
     (if cname \<noteq> '''' then cname else if tname \<noteq> '''' then tname else msg)"

fun translate :: "pgerror \<Rightarrow> goerror" where
  "translate PgNoRows = ErrNotFound"
| "translate (PgOther s) = OtherErr s"
| "translate (PgError c n t msg) =
     (if c = codeUniqueViolation then NewConflict n
      else if c = codeCheckViolation \<or> c = codeForeignKeyViolation \<or> c = codeNotNullViolation
              \<or> c = codeRestrictViolation then NewInvariantViolation (constraintOf n t msg)
      else if c = codeSerializationFailed \<or> c = codeDeadlockDetected then ErrSerializationFailure
      else OtherErr (c @ '': '' @ msg))"

lemma as_domain_translate [simp]: "as_domain (translate e) = None"
  by (cases e) auto

section \<open>World and environment\<close>

text \<open>An error the server or the connection raises on its own, whatever the statement.\<close>

datatype pgfault = FaultServer string string string string | FaultOther string

fun fault_error :: "pgfault \<Rightarrow> pgerror" where
  "fault_error (FaultServer c n t msg) = PgError c n t msg"
| "fault_error (FaultOther s) = PgOther s"

lemma fault_not_NoRows [simp]: "fault_error f \<noteq> PgNoRows"
  by (cases f) simp_all

text \<open>
  How a commit ends: done; refused, so that the transaction is rolled back; or unknown, the
  connection lost before the answer, when it may have taken effect or not.
\<close>

datatype commit_outcome = CommitDone | CommitRefused pgfault | CommitUnknown string bool

record env =
  env_now :: "nat \<Rightarrow> gotime"
  env_uuid :: "nat \<Rightarrow> string option"
  env_fault :: "nat \<Rightarrow> pgfault option"
  env_commit :: "nat \<Rightarrow> commit_outcome"
  env_locked :: "nat \<Rightarrow> string \<Rightarrow> bool"
  env_random :: "nat \<Rightarrow> nat"
  env_done :: "nat \<Rightarrow> bool"
  env_publish :: "nat \<Rightarrow> string option"

record 'd world =
  db :: 'd
  in_tx :: bool
  aborted :: bool
  calls :: nat

type_synonym ('d, 'a) io = "'d world \<Rightarrow> 'a res \<times> 'd world"

definition ret :: "'a \<Rightarrow> ('d, 'a) io" where
  "ret x = (\<lambda>w. (Inr x, w))"

definition throw :: "goerror \<Rightarrow> ('d, 'a) io" where
  "throw e = (\<lambda>w. (Inl e, w))"

definition lift :: "'a res \<Rightarrow> ('d, 'a) io" where
  "lift r = (\<lambda>w. (r, w))"

text \<open>\<open>x, err := m; if err != nil { return err }\<close>.\<close>

definition bindE :: "('d, 'a) io \<Rightarrow> ('a \<Rightarrow> ('d, 'b) io) \<Rightarrow> ('d, 'b) io" where
  "bindE m f = (\<lambda>w. case m w of (Inl e, w') \<Rightarrow> (Inl e, w') | (Inr x, w') \<Rightarrow> f x w')"

text \<open>\<open>x, err := m\<close> followed by code that looks at both.\<close>

definition handle :: "('d, 'a) io \<Rightarrow> ('a res \<Rightarrow> ('d, 'b) io) \<Rightarrow> ('d, 'b) io" where
  "handle m f = (\<lambda>w. case m w of (r, w') \<Rightarrow> f r w')"

text \<open>\<open>fmt.Errorf("...: %w", err)\<close> around a call.\<close>

definition io_wrap :: "('d, 'a) io \<Rightarrow> ('d, 'a) io" where
  "io_wrap m = (\<lambda>w. case m w of (Inl e, w') \<Rightarrow> (Inl (Wrapped e), w') | (Inr x, w') \<Rightarrow> (Inr x, w'))"

definition tick :: "'d world \<Rightarrow> 'd world" where
  "tick w = w\<lparr>calls := Suc (calls w)\<rparr>"

lemma ret_apply [simp]: "ret x w = (Inr x, w)" by (simp add: ret_def)
lemma throw_apply [simp]: "throw e w = (Inl e, w)" by (simp add: throw_def)
lemma lift_apply [simp]: "lift r w = (r, w)" by (simp add: lift_def)

lemma bindE_Inr_iff:
  "bindE m f w = (Inr y, w') \<longleftrightarrow> (\<exists>x w1. m w = (Inr x, w1) \<and> f x w1 = (Inr y, w'))"
  by (auto simp: bindE_def split: prod.splits sum.splits)

lemma bindE_Inl_iff:
  "bindE m f w = (Inl e, w') \<longleftrightarrow>
     m w = (Inl e, w') \<or> (\<exists>x w1. m w = (Inr x, w1) \<and> f x w1 = (Inl e, w'))"
  by (auto simp: bindE_def split: prod.splits sum.splits)

lemma bindE_okE [ok_elims]:
  assumes "bindE m f w = (Inr y, w')"
  obtains x w1 where "m w = (Inr x, w1)" "f x w1 = (Inr y, w')"
  using assms by (auto simp: bindE_Inr_iff)

lemma bindE_errE:
  assumes "bindE m f w = (Inl e, w')"
  obtains (first) "m w = (Inl e, w')" | (rest) x w1 where "m w = (Inr x, w1)" "f x w1 = (Inl e, w')"
  using assms by (auto simp: bindE_Inl_iff)

lemma bindE_lift [simp]: "bindE (lift (Inr x)) f w = f x w" "bindE (lift (Inl e)) f w = (Inl e, w)"
  by (simp_all add: bindE_def)

lemma bindE_apply_Inr: "m w = (Inr x, w1) \<Longrightarrow> bindE m f w = f x w1"
  by (simp add: bindE_def)

lemma bindE_apply_Inl: "m w = (Inl e, w1) \<Longrightarrow> bindE m f w = (Inl e, w1)"
  by (simp add: bindE_def)

lemma handle_apply: "m w = (r, w1) \<Longrightarrow> handle m f w = f r w1"
  by (simp add: handle_def)

lemma handle_eq_iff: "handle m f w = (r, w') \<longleftrightarrow> (\<exists>r1 w1. m w = (r1, w1) \<and> f r1 w1 = (r, w'))"
  by (auto simp: handle_def split: prod.splits)

lemma io_wrap_errE:
  assumes "io_wrap m w = (Inl e, w')"
  obtains e' where "m w = (Inl e', w')" "e = Wrapped e'"
  using assms by (auto simp: io_wrap_def split: prod.splits sum.splits)

lemma io_wrap_okE:
  assumes "io_wrap m w = (Inr x, w')"
  obtains "m w = (Inr x, w')"
  using assms by (auto simp: io_wrap_def split: prod.splits sum.splits)

lemma tick_simps [simp]: "db (tick w) = db w" "in_tx (tick w) = in_tx w" "aborted (tick w) = aborted w"
  "calls (tick w) = Suc (calls w)"
  by (simp_all add: tick_def)

section \<open>Calls to the outside\<close>

definition clock_Now :: "env \<Rightarrow> ('d, gotime) io" where
  "clock_Now \<Gamma> = (\<lambda>w. (Inr (time_UTC (env_now \<Gamma> (calls w))), tick w))"

definition ctx_Err :: "env \<Rightarrow> ctx \<Rightarrow> ('d, unit) io" where
  "ctx_Err \<Gamma> c =
     (\<lambda>w. if c_cancellable c \<and> env_done \<Gamma> (calls w) then (Inl (OtherErr ''context done''), tick w)
          else (Inr (), tick w))"

text \<open>\<open>internal/adapter/system/system.go\<close>: \<open>uuid.NewV7\<close> is the environment's.\<close>

definition ids_next :: "env \<Rightarrow> ctx \<Rightarrow> ('d, string) io" where
  "ids_next \<Gamma> c =
     bindE (ctx_Err \<Gamma> c) (\<lambda>_ w.
       case env_uuid \<Gamma> (calls w) of
         None \<Rightarrow> (Inl (Wrapped (OtherErr ''generating a uuid'')), tick w)
       | Some s \<Rightarrow> (Inr s, tick w))"

definition ids_NewWalletID :: "env \<Rightarrow> ctx \<Rightarrow> ('d, WalletID) io" where
  "ids_NewWalletID \<Gamma> c = bindE (ids_next \<Gamma> c) (\<lambda>s. lift (ParseWalletID s))"

definition ids_NewTransactionID :: "env \<Rightarrow> ctx \<Rightarrow> ('d, TransactionID) io" where
  "ids_NewTransactionID \<Gamma> c = bindE (ids_next \<Gamma> c) (\<lambda>s. lift (ParseTransactionID s))"

definition ids_NewLedgerEntryID :: "env \<Rightarrow> ctx \<Rightarrow> ('d, LedgerEntryID) io" where
  "ids_NewLedgerEntryID \<Gamma> c = bindE (ids_next \<Gamma> c) (\<lambda>s. lift (ParseLedgerEntryID s))"

definition ids_NewEventID :: "env \<Rightarrow> ctx \<Rightarrow> ('d, string) io" where
  "ids_NewEventID \<Gamma> c = ids_next \<Gamma> c"

text \<open>\<open>rand.Int64N\<close>: a number below its argument, which must be positive.\<close>

definition rand_Int64N :: "env \<Rightarrow> nat \<Rightarrow> ('d, nat) io" where
  "rand_Int64N \<Gamma> n = (\<lambda>w. (Inr (env_random \<Gamma> (calls w) mod n), tick w))"

text \<open>
  One SQL statement. Inside an aborted transaction it fails with 25P02; a server or
  connection error fails it without effect; otherwise it runs. A statement that fails inside
  a transaction aborts it.
\<close>

definition stmt :: "env \<Rightarrow> (nat \<Rightarrow> 'd \<Rightarrow> (pgerror + 'a) \<times> 'd) \<Rightarrow> 'd world \<Rightarrow> (pgerror + 'a) \<times> 'd world" where
  "stmt \<Gamma> f w =
     (if in_tx w \<and> aborted w
      then (Inl (PgError ''25P02'' '''' '''' ''current transaction is aborted''), tick w)
      else case env_fault \<Gamma> (calls w) of
        Some e \<Rightarrow> (Inl (fault_error e), (tick w)\<lparr>aborted := aborted w \<or> in_tx w\<rparr>)
      | None \<Rightarrow>
          (case f (calls w) (db w) of
             (Inl e, d) \<Rightarrow> (Inl e, (tick w)\<lparr>db := d, aborted := aborted w \<or> (in_tx w \<and> e \<noteq> PgNoRows)\<rparr>)
           | (Inr x, d) \<Rightarrow> (Inr x, (tick w)\<lparr>db := d\<rparr>)))"

text \<open>A read leaves the data alone.\<close>

definition query :: "env \<Rightarrow> (nat \<Rightarrow> 'd \<Rightarrow> pgerror + 'a) \<Rightarrow> 'd world \<Rightarrow> (pgerror + 'a) \<times> 'd world" where
  "query \<Gamma> f = stmt \<Gamma> (\<lambda>n d. (f n d, d))"

text \<open>The result of a statement as the repositories return it: through \<open>translate\<close>.\<close>

definition io_translate :: "('d world \<Rightarrow> (pgerror + 'a) \<times> 'd world) \<Rightarrow> ('d, 'a) io" where
  "io_translate m = (\<lambda>w. case m w of (Inl e, w') \<Rightarrow> (Inl (translate e), w') | (Inr x, w') \<Rightarrow> (Inr x, w'))"

definition same_world :: "'d world \<Rightarrow> 'd world \<Rightarrow> bool" where
  "same_world w w' \<longleftrightarrow> db w' = db w \<and> in_tx w' = in_tx w \<and> aborted w' = aborted w"

lemma stmt_cases:
  "in_tx w \<and> aborted w \<Longrightarrow>
     stmt \<Gamma> f w = (Inl (PgError ''25P02'' '''' '''' ''current transaction is aborted''), tick w)"
  "\<not> (in_tx w \<and> aborted w) \<Longrightarrow> env_fault \<Gamma> (calls w) = Some flt \<Longrightarrow>
     stmt \<Gamma> f w = (Inl (fault_error flt), (tick w)\<lparr>aborted := aborted w \<or> in_tx w\<rparr>)"
  "\<not> (in_tx w \<and> aborted w) \<Longrightarrow> env_fault \<Gamma> (calls w) = None \<Longrightarrow> f (calls w) (db w) = (Inl e, d) \<Longrightarrow>
     stmt \<Gamma> f w = (Inl e, (tick w)\<lparr>db := d, aborted := aborted w \<or> (in_tx w \<and> e \<noteq> PgNoRows)\<rparr>)"
  "\<not> (in_tx w \<and> aborted w) \<Longrightarrow> env_fault \<Gamma> (calls w) = None \<Longrightarrow> f (calls w) (db w) = (Inr x, d) \<Longrightarrow>
     stmt \<Gamma> f w = (Inr x, (tick w)\<lparr>db := d\<rparr>)"
  by (simp_all only: stmt_def if_False if_True option.case prod.case sum.case simp_thms)

lemma stmt_exhaust:
  obtains (abort) "in_tx w \<and> aborted w"
  | (fault) e where "\<not> (in_tx w \<and> aborted w)" "env_fault \<Gamma> (calls w) = Some e"
  | (failed) e d where "\<not> (in_tx w \<and> aborted w)" "env_fault \<Gamma> (calls w) = None"
      "f (calls w) (db w) = (Inl e, d)"
  | (ran) x d where "\<not> (in_tx w \<and> aborted w)" "env_fault \<Gamma> (calls w) = None"
      "f (calls w) (db w) = (Inr x, d)"
  by (metis not_None_eq old.prod.exhaust sum.exhaust_sel)

lemma stmt_okE:
  assumes "stmt \<Gamma> f w = (Inr x, w')"
  obtains "f (calls w) (db w) = (Inr x, db w')" "in_tx w' = in_tx w" "aborted w' = aborted w"
    "\<not> (in_tx w \<and> aborted w)" "calls w' = Suc (calls w)"
  using assms by (cases rule: stmt_exhaust [where w = w and \<Gamma> = \<Gamma> and f = f]) (auto simp: stmt_cases)

lemma query_okE:
  assumes "query \<Gamma> f w = (Inr x, w')"
  obtains "f (calls w) (db w) = Inr x" "db w' = db w" "in_tx w' = in_tx w" "aborted w' = aborted w"
    "\<not> (in_tx w \<and> aborted w)" "calls w' = Suc (calls w)"
proof (rule stmt_okE [OF assms [unfolded query_def]])
  assume a: "(f (calls w) (db w), db w) = (Inr x, db w')" "in_tx w' = in_tx w"
    "aborted w' = aborted w" "\<not> (in_tx w \<and> aborted w)" "calls w' = Suc (calls w)"
  from a(1) have "f (calls w) (db w) = Inr x" "db w' = db w" by (auto simp only: prod.inject)
  from this a(2-) show thesis by (rule that)
qed

lemma query_db: "query \<Gamma> f w = (r, w') \<Longrightarrow> db w' = db w \<and> in_tx w' = in_tx w"
  unfolding query_def
  by (cases rule: stmt_exhaust [where w = w and \<Gamma> = \<Gamma> and f = "\<lambda>n d. (f n d, d)"]) (auto simp: stmt_cases)

text \<open>No row comes only from a read that found none.\<close>

lemma query_NoRows:
  assumes "query \<Gamma> f w = (Inl PgNoRows, w')"
  shows "f (calls w) (db w) = Inl PgNoRows \<and> same_world w w'"
  using assms unfolding query_def same_world_def
  by (cases rule: stmt_exhaust [where w = w and \<Gamma> = \<Gamma> and f = "\<lambda>n d. (f n d, d)"]) (auto simp: stmt_cases)

lemma translate_NotFound [simp]: "translate e = ErrNotFound \<longleftrightarrow> e = PgNoRows"
  by (cases e) (auto simp: NewConflict_def NewInvariantViolation_def)

lemma io_translate_okE:
  assumes "io_translate m w = (Inr x, w')"
  obtains "m w = (Inr x, w')"
  using assms by (auto simp: io_translate_def split: prod.splits sum.splits)

lemma io_translate_errE:
  assumes "io_translate m w = (Inl e, w')"
  obtains pe where "m w = (Inl pe, w')" "e = translate pe"
  using assms by (auto simp: io_translate_def split: prod.splits sum.splits)

lemma io_translate_world: "io_translate m w = (r, w') \<Longrightarrow> \<exists>q. m w = (q, w')"
  by (auto simp: io_translate_def split: prod.splits sum.splits)

lemma bindE_pure_world:
  assumes "bindE m f w = (r, w')" "\<And>x v. snd (f x v) = v"
  shows "\<exists>q. m w = (q, w')"
proof -
  obtain q w1 where m: "m w = (q, w1)" by (metis surj_pair)
  show ?thesis
  proof (cases q)
    case (Inl e)
    then show ?thesis using assms(1) m by (simp add: bindE_def)
  next
    case (Inr x)
    then have "f x w1 = (r, w')" using assms(1) m by (simp add: bindE_def)
    then show ?thesis using assms(2) [of x w1] m by simp
  qed
qed

text \<open>An environment in which nothing goes wrong, for concrete runs.\<close>

definition calm :: env where
  "calm = \<lparr>env_now = (\<lambda>n. \<lparr>instant = 1700000000000000000 + int n * 1000000, loc = LocUTC\<rparr>),
     env_uuid = (\<lambda>n. Some (''id'' @ replicate n CHR ''x'')), env_fault = (\<lambda>_. None),
     env_commit = (\<lambda>_. CommitDone), env_locked = (\<lambda>_ _. False), env_random = (\<lambda>_. 0),
     env_done = (\<lambda>_. False), env_publish = (\<lambda>_. None)\<rparr>"

text \<open>The calls that do not reach the database leave everything but the counter alone.\<close>

lemma same_world_refl [simp]: "same_world w w"
  by (simp add: same_world_def)

lemma same_world_tick [simp]: "same_world w (tick w)"
  by (simp add: same_world_def)

lemma same_world_trans: "same_world a b \<Longrightarrow> same_world b c \<Longrightarrow> same_world a c"
  by (simp add: same_world_def)

lemma clock_Now_eq: "clock_Now \<Gamma> w = (Inr (time_UTC (env_now \<Gamma> (calls w))), tick w)"
  by (simp add: clock_Now_def)

lemma clock_Now_same: "clock_Now \<Gamma> w = (r, w') \<Longrightarrow> same_world w w'"
  by (auto simp: clock_Now_def)

lemma ids_next_same: "ids_next \<Gamma> c w = (r, w') \<Longrightarrow> same_world w w'"
  by (auto simp: ids_next_def ctx_Err_def bindE_def same_world_def split: if_splits option.splits)

lemma ids_next_err: "ids_next \<Gamma> c w = (Inl e, w') \<Longrightarrow> as_domain e = None"
  by (auto simp: ids_next_def ctx_Err_def bindE_def split: if_splits option.splits)

lemma ids_same:
  "ids_NewWalletID \<Gamma> c w = (r1, w') \<Longrightarrow> same_world w w'"
  "ids_NewTransactionID \<Gamma> c w = (r2, w') \<Longrightarrow> same_world w w'"
  "ids_NewLedgerEntryID \<Gamma> c w = (r3, w') \<Longrightarrow> same_world w w'"
  "ids_NewEventID \<Gamma> c w = (r4, w') \<Longrightarrow> same_world w w'"
  by (auto simp: ids_NewWalletID_def ids_NewTransactionID_def ids_NewLedgerEntryID_def
      ids_NewEventID_def bindE_def dest: ids_next_same split: prod.splits sum.splits)

lemma ids_ok:
  "ids_NewWalletID \<Gamma> c w = (Inr i1, w') \<Longrightarrow> ident_ok i1"
  "ids_NewTransactionID \<Gamma> c w = (Inr i2, w') \<Longrightarrow> ident_ok i2"
  "ids_NewLedgerEntryID \<Gamma> c w = (Inr i3, w') \<Longrightarrow> ident_ok i3"
  by (auto simp: ids_NewWalletID_def ids_NewTransactionID_def ids_NewLedgerEntryID_def
      bindE_Inr_iff parse_id_defs parseIdentifier_iff)

end
