(* ===== verification/Schema.thy ===== *)
theory Schema
  imports Event World
begin

text \<open>
  The tables (\<open>migrations/\<close>): rows as their columns hold them, and what the constraints of
  the schema refuse.

  \<^item> \<open>TEXT\<close> is a byte string, \<open>CHAR(3)\<close> a string padded to three bytes, \<open>BIGINT\<close> a 64-bit
    word, a nullable column an option.
  \<^item> \<open>TIMESTAMPTZ\<close> counts microseconds: writing an instant drops what is finer.
  \<^item> A \<open>BIGSERIAL\<close> column draws from a counter that no rollback takes back.
  \<^item> An \<open>INSERT\<close> or \<open>UPDATE\<close> meets the \<open>CHECK\<close> constraints in the order of their names, then the
    unique indexes in the order they were created, then the foreign keys.
\<close>

section \<open>Columns\<close>

definition pg_time :: "gotime \<Rightarrow> int" where
  "pg_time t = instant t div 1000"

definition time_of_pg :: "int \<Rightarrow> gotime" where
  "time_of_pg n = \<lparr>instant = n * 1000, loc = LocNamed ''Local''\<rparr>"

definition char3 :: "string \<Rightarrow> string" where
  "char3 s = s @ replicate (3 - length s) CHR '' ''"

definition iso4217 :: "string \<Rightarrow> bool" where
  "iso4217 s \<longleftrightarrow> length s = 3 \<and> all_upper s"

text \<open>\<open>nullable\<close>, \<open>nullableTime\<close>, \<open>nullableMinor\<close> and their inverses (\<open>postgres/transaction.go\<close>).\<close>

definition nullable :: "string \<Rightarrow> string option" where
  "nullable s = (if s = '''' then None else Some s)"

definition nullableTime :: "gotime \<Rightarrow> int option" where
  "nullableTime t = (if time_IsZero t then None else Some (pg_time t))"

definition nullableMinor :: "money \<Rightarrow> i64 option" where
  "nullableMinor m = (if \<not> Money_IsInitialised m then None else Some (minor m))"

definition deref :: "string option \<Rightarrow> string" where
  "deref s = (case s of None \<Rightarrow> '''' | Some x \<Rightarrow> x)"

definition derefTime :: "int option \<Rightarrow> gotime" where
  "derefTime t = (case t of None \<Rightarrow> time_zero | Some n \<Rightarrow> time_of_pg n)"

section \<open>Rows\<close>

record wallet_row =
  wr_id :: string
  wr_player_id :: string
  wr_currency :: string
  wr_balance_minor :: i64
  wr_version :: i64
  wr_created_at :: int
  wr_updated_at :: int

record tx_row =
  tr_id :: string
  tr_origin :: string
  tr_kind :: string
  tr_status :: string
  tr_wallet_id :: string
  tr_player_id :: string
  tr_amount_minor :: i64
  tr_currency :: string
  tr_provider_id :: "string option"
  tr_external_id :: "string option"
  tr_idempotency_key :: "string option"
  tr_payload_hash :: "string option"
  tr_round_id :: "string option"
  tr_game_id :: "string option"
  tr_reference_external_id :: "string option"
  tr_resolved_reference_id :: "string option"
  tr_reference_attempts :: i64
  tr_reference_next_attempt_at :: "int option"
  tr_reference_deadline_at :: "int option"
  tr_failure_code :: "string option"
  tr_balance_after_minor :: "i64 option"
  tr_created_at :: int
  tr_updated_at :: int

record ledger_row =
  lr_seq :: nat
  lr_id :: string
  lr_wallet_id :: string
  lr_transaction_id :: string
  lr_direction :: string
  lr_amount_minor :: i64
  lr_balance_before_minor :: i64
  lr_balance_after_minor :: i64
  lr_currency :: string
  lr_created_at :: int

record inbox_row =
  ir_consumer_name :: string
  ir_message_id :: string
  ir_payload_hash :: string
  ir_received_at :: int
  ir_completed_at :: "int option"

record outbox_row =
  or_seq :: nat
  or_event_id :: string
  or_event_type :: event_type
  or_event_version :: nat
  or_aggregate_id :: string
  or_payload :: payload
  or_correlation_id :: "string option"
  or_causation_id :: "string option"
  or_occurred_at :: int
  or_attempts :: nat
  or_next_attempt_at :: int
  or_published_at :: "int option"
  or_last_error :: "string option"

record database =
  d_wallets :: "wallet_row list"
  d_transactions :: "tx_row list"
  d_ledger :: "ledger_row list"
  d_inbox :: "inbox_row list"
  d_outbox :: "outbox_row list"
  d_ledger_seq :: nat
  d_outbox_seq :: nat

section \<open>Constraints\<close>

text \<open>The name of the first rule that does not hold.\<close>

definition first_violated :: "(string \<times> bool) list \<Rightarrow> string option" where
  "first_violated rules = map_option fst (List.find (\<lambda>(n, ok). \<not> ok) rules)"

definition refusal ::
  "string \<Rightarrow> (string \<times> bool) list \<Rightarrow> (string \<times> bool) list \<Rightarrow> (string \<times> bool) list \<Rightarrow> pgerror option" where
  "refusal table checks uniques fkeys =
     (case first_violated checks of
        Some n \<Rightarrow> Some (PgError codeCheckViolation n table '''')
      | None \<Rightarrow>
          (case first_violated uniques of
             Some n \<Rightarrow> Some (PgError codeUniqueViolation n table '''')
           | None \<Rightarrow>
               (case first_violated fkeys of
                  Some n \<Rightarrow> Some (PgError codeForeignKeyViolation n table '''')
                | None \<Rightarrow> None)))"

definition wallet_checks :: "wallet_row \<Rightarrow> (string \<times> bool) list" where
  "wallet_checks r =
     [(''wallets_balance_non_negative'', 0 \<le> sint (wr_balance_minor r)),
      (''wallets_currency_iso4217'', iso4217 (wr_currency r)),
      (''wallets_version_positive'', 1 \<le> sint (wr_version r))]"

definition wallet_uniques :: "wallet_row list \<Rightarrow> wallet_row \<Rightarrow> (string \<times> bool) list" where
  "wallet_uniques others r =
     [(''wallets_pkey'', \<forall>o'\<in>set others. wr_id o' \<noteq> wr_id r),
      (''wallets_one_per_player_and_currency'',
         \<forall>o'\<in>set others. \<not> (wr_player_id o' = wr_player_id r \<and> wr_currency o' = wr_currency r))]"

definition tx_checks :: "tx_row \<Rightarrow> (string \<times> bool) list" where
  "tx_checks r =
     [(''wager_transactions_amount_policy'',
         (tr_kind r = ''LOSS'' \<and> tr_amount_minor r = 0)
         \<or> (tr_kind r \<noteq> ''LOSS'' \<and> 0 < sint (tr_amount_minor r))),
      (''wager_transactions_balance_after'',
         case tr_balance_after_minor r of None \<Rightarrow> True | Some b \<Rightarrow> 0 \<le> sint b),
      (''wager_transactions_currency'', iso4217 (tr_currency r)),
      (''wager_transactions_external_shape'',
         tr_origin r \<noteq> ''EXTERNAL'' \<or>
           (tr_kind r \<noteq> ''OPENING'' \<and> tr_provider_id r \<noteq> None \<and> tr_external_id r \<noteq> None
            \<and> tr_idempotency_key r \<noteq> None \<and> tr_payload_hash r \<noteq> None \<and> tr_round_id r \<noteq> None
            \<and> tr_game_id r \<noteq> None)),
      (''wager_transactions_failure_code'',
         (tr_status r \<in> {''REJECTED'', ''FAILED''} \<and> tr_failure_code r \<noteq> None)
         \<or> (tr_status r \<notin> {''REJECTED'', ''FAILED''} \<and> tr_failure_code r = None)),
      (''wager_transactions_internal_shape'',
         tr_origin r \<noteq> ''INTERNAL'' \<or>
           (tr_kind r = ''OPENING'' \<and> tr_provider_id r = None \<and> tr_external_id r = None
            \<and> tr_idempotency_key r = None \<and> tr_payload_hash r = None \<and> tr_round_id r = None
            \<and> tr_game_id r = None \<and> tr_reference_external_id r = None)),
      (''wager_transactions_kind'',
         tr_kind r \<in> {''OPENING'', ''BET'', ''WIN'', ''LOSS'', ''REFUND'', ''ROLLBACK''}),
      (''wager_transactions_origin'', tr_origin r \<in> {''INTERNAL'', ''EXTERNAL''}),
      (''wager_transactions_reference_attempts'', 0 \<le> sint (tr_reference_attempts r)),
      (''wager_transactions_reference_policy'',
         (tr_kind r \<in> {''REFUND'', ''ROLLBACK''} \<and> tr_reference_external_id r \<noteq> None)
         \<or> (tr_kind r \<notin> {''REFUND'', ''ROLLBACK''} \<and> tr_reference_external_id r = None)),
      (''wager_transactions_reference_wait'',
         (tr_status r = ''PENDING_REFERENCE'' \<and> tr_kind r \<in> {''REFUND'', ''ROLLBACK''}
          \<and> tr_reference_next_attempt_at r \<noteq> None \<and> tr_reference_deadline_at r \<noteq> None)
         \<or> tr_status r \<noteq> ''PENDING_REFERENCE''),
      (''wager_transactions_status'',
         tr_status r \<in> {''PENDING'', ''PENDING_REFERENCE'', ''PROCESSED'', ''REJECTED'', ''FAILED''})]"

text \<open>Two rows collide on nullable columns only where both hold a value.\<close>

definition same_value :: "'a option \<Rightarrow> 'a option \<Rightarrow> bool" where
  "same_value a b \<longleftrightarrow> a \<noteq> None \<and> a = b"

definition tx_uniques :: "tx_row list \<Rightarrow> tx_row \<Rightarrow> (string \<times> bool) list" where
  "tx_uniques others r =
     [(''wager_transactions_pkey'', \<forall>o'\<in>set others. tr_id o' \<noteq> tr_id r),
      (''wager_transactions_business_identity'',
         tr_origin r = ''EXTERNAL'' \<longrightarrow>
           (\<forall>o'\<in>set others. \<not> (tr_origin o' = ''EXTERNAL'' \<and> same_value (tr_provider_id o') (tr_provider_id r)
              \<and> same_value (tr_external_id o') (tr_external_id r)))),
      (''wager_transactions_idempotency_key'',
         tr_origin r = ''EXTERNAL'' \<longrightarrow>
           (\<forall>o'\<in>set others. \<not> (tr_origin o' = ''EXTERNAL'' \<and> same_value (tr_provider_id o') (tr_provider_id r)
              \<and> same_value (tr_idempotency_key o') (tr_idempotency_key r)))),
      (''wager_transactions_one_opening_per_wallet'',
         tr_kind r = ''OPENING'' \<longrightarrow>
           (\<forall>o'\<in>set others. \<not> (tr_kind o' = ''OPENING'' \<and> tr_wallet_id o' = tr_wallet_id r))),
      (''wager_transactions_one_reversal_per_operation'',
         tr_status r = ''PROCESSED'' \<longrightarrow>
           (\<forall>o'\<in>set others. \<not> (tr_status o' = ''PROCESSED''
              \<and> same_value (tr_resolved_reference_id o') (tr_resolved_reference_id r))))]"

definition tx_fkeys :: "database \<Rightarrow> tx_row \<Rightarrow> (string \<times> bool) list" where
  "tx_fkeys d r =
     [(''wager_transactions_wallet_id_fkey'', \<exists>w\<in>set (d_wallets d). wr_id w = tr_wallet_id r),
      (''wager_transactions_resolved_reference_id_fkey'',
         case tr_resolved_reference_id r of
           None \<Rightarrow> True
         | Some i \<Rightarrow> i = tr_id r \<or> (\<exists>t\<in>set (d_transactions d). tr_id t = i))]"

definition ledger_checks :: "ledger_row \<Rightarrow> (string \<times> bool) list" where
  "ledger_checks r =
     [(''ledger_amount_positive'', 0 < sint (lr_amount_minor r)),
      (''ledger_arithmetic'',
         (lr_direction r = ''DEBIT''
          \<and> sint (lr_balance_after_minor r) = sint (lr_balance_before_minor r) - sint (lr_amount_minor r))
         \<or> (lr_direction r = ''CREDIT''
          \<and> sint (lr_balance_after_minor r) = sint (lr_balance_before_minor r) + sint (lr_amount_minor r))),
      (''ledger_balances_non_negative'',
         0 \<le> sint (lr_balance_before_minor r) \<and> 0 \<le> sint (lr_balance_after_minor r)),
      (''ledger_currency'', iso4217 (lr_currency r)),
      (''ledger_direction'', lr_direction r \<in> {''DEBIT'', ''CREDIT''})]"

definition ledger_uniques :: "ledger_row list \<Rightarrow> ledger_row \<Rightarrow> (string \<times> bool) list" where
  "ledger_uniques others r =
     [(''wallet_ledger_entries_pkey'', \<forall>o'\<in>set others. lr_id o' \<noteq> lr_id r),
      (''wallet_ledger_entries_seq_key'', \<forall>o'\<in>set others. lr_seq o' \<noteq> lr_seq r),
      (''ledger_one_per_transaction_and_wallet'',
         \<forall>o'\<in>set others. \<not> (lr_wallet_id o' = lr_wallet_id r \<and> lr_transaction_id o' = lr_transaction_id r))]"

definition ledger_fkeys :: "database \<Rightarrow> ledger_row \<Rightarrow> (string \<times> bool) list" where
  "ledger_fkeys d r =
     [(''wallet_ledger_entries_wallet_id_fkey'', \<exists>w\<in>set (d_wallets d). wr_id w = lr_wallet_id r),
      (''wallet_ledger_entries_transaction_id_fkey'',
         \<exists>t\<in>set (d_transactions d). tr_id t = lr_transaction_id r)]"

section \<open>Statements\<close>

text \<open>A value too long for \<open>CHAR(3)\<close>; trailing blanks are cut silently.\<close>

definition too_long :: "string \<Rightarrow> bool" where
  "too_long s \<longleftrightarrow> (\<exists>c\<in>set (drop 3 s). c \<noteq> CHR '' '')"

definition string_data_right_truncation :: pgerror where
  "string_data_right_truncation = PgError ''22001'' '''' '''' ''value too long for type character(3)''"

definition insert_wallet :: "wallet_row \<Rightarrow> database \<Rightarrow> (pgerror + unit) \<times> database" where
  "insert_wallet r d =
     (if too_long (wr_currency r) then (Inl string_data_right_truncation, d)
      else
        let r = r\<lparr>wr_currency := char3 (take 3 (wr_currency r))\<rparr> in
        case refusal ''wallets'' (wallet_checks r) (wallet_uniques (d_wallets d) r) [] of
          Some e \<Rightarrow> (Inl e, d)
        | None \<Rightarrow> (Inr (), d\<lparr>d_wallets := d_wallets d @ [r]\<rparr>))"

text \<open>
  \<open>UPDATE ... SET ... WHERE\<close>: the rows that match, by position (a key matches one at most);
  the number of rows changed is the result.
\<close>

definition update_wallets ::
  "(wallet_row \<Rightarrow> bool) \<Rightarrow> (wallet_row \<Rightarrow> wallet_row) \<Rightarrow> database \<Rightarrow> (pgerror + nat) \<times> database" where
  "update_wallets p f d =
     (let hit = filter p (d_wallets d) in
      case first_violated (concat (map (\<lambda>r. wallet_checks (f r)) hit)) of
        Some n \<Rightarrow> (Inl (PgError codeCheckViolation n ''wallets'' ''''), d)
      | None \<Rightarrow> (Inr (length hit), d\<lparr>d_wallets := map (\<lambda>r. if p r then f r else r) (d_wallets d)\<rparr>))"

definition insert_tx :: "tx_row \<Rightarrow> database \<Rightarrow> (pgerror + unit) \<times> database" where
  "insert_tx r d =
     (if too_long (tr_currency r) then (Inl string_data_right_truncation, d)
      else
        let r = r\<lparr>tr_currency := char3 (take 3 (tr_currency r))\<rparr> in
        case refusal ''wager_transactions'' (tx_checks r) (tx_uniques (d_transactions d) r) (tx_fkeys d r) of
          Some e \<Rightarrow> (Inl e, d)
        | None \<Rightarrow> (Inr (), d\<lparr>d_transactions := d_transactions d @ [r]\<rparr>))"

text \<open>The update of one transaction row, found by its key.\<close>

definition update_tx ::
  "(tx_row \<Rightarrow> bool) \<Rightarrow> (tx_row \<Rightarrow> tx_row) \<Rightarrow> database \<Rightarrow> (pgerror + nat) \<times> database" where
  "update_tx p f d =
     (case List.find p (d_transactions d) of
        None \<Rightarrow> (Inr 0, d)
      | Some old \<Rightarrow>
          let new = f old; others = filter (\<lambda>t. tr_id t \<noteq> tr_id old) (d_transactions d) in
          (case refusal ''wager_transactions'' (tx_checks new) (tx_uniques others new) (tx_fkeys d new) of
             Some e \<Rightarrow> (Inl e, d)
           | None \<Rightarrow> (Inr 1, d\<lparr>d_transactions :=
               map (\<lambda>t. if tr_id t = tr_id old then new else t) (d_transactions d)\<rparr>)))"

text \<open>The sequence advances even when the row is refused.\<close>

definition insert_ledger :: "ledger_row \<Rightarrow> database \<Rightarrow> (pgerror + unit) \<times> database" where
  "insert_ledger r d =
     (if too_long (lr_currency r) then (Inl string_data_right_truncation, d)
      else
        let r = r\<lparr>lr_currency := char3 (take 3 (lr_currency r)), lr_seq := d_ledger_seq d\<rparr>;
            d = d\<lparr>d_ledger_seq := Suc (d_ledger_seq d)\<rparr> in
        case refusal ''wallet_ledger_entries'' (ledger_checks r) (ledger_uniques (d_ledger d) r) (ledger_fkeys d r) of
          Some e \<Rightarrow> (Inl e, d)
        | None \<Rightarrow> (Inr (), d\<lparr>d_ledger := d_ledger d @ [r]\<rparr>))"

text \<open>\<open>INSERT ... ON CONFLICT DO NOTHING\<close>: the number of rows inserted.\<close>

definition insert_inbox :: "inbox_row \<Rightarrow> database \<Rightarrow> (pgerror + nat) \<times> database" where
  "insert_inbox r d =
     (if \<exists>o'\<in>set (d_inbox d). ir_consumer_name o' = ir_consumer_name r \<and> ir_message_id o' = ir_message_id r
      then (Inr 0, d)
      else (Inr 1, d\<lparr>d_inbox := d_inbox d @ [r]\<rparr>))"

definition update_inbox ::
  "(inbox_row \<Rightarrow> bool) \<Rightarrow> (inbox_row \<Rightarrow> inbox_row) \<Rightarrow> database \<Rightarrow> (pgerror + nat) \<times> database" where
  "update_inbox p f d =
     (Inr (length (filter p (d_inbox d))),
      d\<lparr>d_inbox := map (\<lambda>r. if p r then f r else r) (d_inbox d)\<rparr>)"

definition outbox_checks :: "outbox_row \<Rightarrow> (string \<times> bool) list" where
  "outbox_checks r =
     [(''outbox_events_attempts_non_negative'', 0 \<le> or_attempts r),
      (''outbox_events_version_positive'', 1 \<le> or_event_version r)]"

definition insert_outbox :: "outbox_row \<Rightarrow> database \<Rightarrow> (pgerror + unit) \<times> database" where
  "insert_outbox r d =
     (let r = r\<lparr>or_seq := d_outbox_seq d\<rparr>; d = d\<lparr>d_outbox_seq := Suc (d_outbox_seq d)\<rparr> in
      case refusal ''outbox_events'' (outbox_checks r)
             [(''outbox_events_pkey'', \<forall>o'\<in>set (d_outbox d). or_event_id o' \<noteq> or_event_id r),
              (''outbox_events_seq_key'', \<forall>o'\<in>set (d_outbox d). or_seq o' \<noteq> or_seq r)] [] of
        Some e \<Rightarrow> (Inl e, d)
      | None \<Rightarrow> (Inr (), d\<lparr>d_outbox := d_outbox d @ [r]\<rparr>))"

definition update_outbox ::
  "(outbox_row \<Rightarrow> bool) \<Rightarrow> (outbox_row \<Rightarrow> outbox_row) \<Rightarrow> database \<Rightarrow> (pgerror + nat) \<times> database" where
  "update_outbox p f d =
     (Inr (length (filter p (d_outbox d))),
      d\<lparr>d_outbox := map (\<lambda>r. if p r then f r else r) (d_outbox d)\<rparr>)"

section \<open>Lemmas\<close>

lemma first_violated_None: "first_violated rules = None \<longleftrightarrow> (\<forall>(n, ok)\<in>set rules. ok)"
  by (auto simp: first_violated_def find_None_iff)

lemma refusal_None:
  "refusal t cs us fs = None \<longleftrightarrow> (\<forall>(n, ok)\<in>set (cs @ us @ fs). ok)"
proof -
  have "refusal t cs us fs = None \<longleftrightarrow>
      first_violated cs = None \<and> first_violated us = None \<and> first_violated fs = None"
    by (cases "first_violated cs"; cases "first_violated us"; cases "first_violated fs")
      (simp_all add: refusal_def)
  then show ?thesis by (simp add: first_violated_None ball_Un)
qed

lemma refusal_not_NoRows [simp]: "refusal t cs us fs \<noteq> Some PgNoRows"
  by (cases "first_violated cs"; cases "first_violated us"; cases "first_violated fs")
    (simp_all add: refusal_def)

end
