(* ===== verification/Store.thy ===== *)
theory Store
  imports Schema
begin

text \<open>
  The repositories (\<open>internal/adapter/postgres\<close>: \<open>wallet.go\<close>, \<open>ledger.go\<close>, \<open>transaction.go\<close>,
  \<open>inbox.go\<close>, \<open>outbox.go\<close>): one definition per method, its SQL statement run on the tables of
  \<open>Schema\<close>, its rows read back through the domain's own constructors.

  \<open>FOR UPDATE\<close> has no effect of its own in a sequential run; \<open>SKIP LOCKED\<close> leaves out the rows
  the environment says another session holds.
\<close>

type_synonym 'a pgio = "(database, 'a) io"

text \<open>\<open>fmt.Errorf("...: %w", err)\<close>.\<close>

definition wrap :: "'a res \<Rightarrow> 'a res" where
  "wrap r = (case r of Inl e \<Rightarrow> Inl (Wrapped e) | Inr x \<Rightarrow> Inr x)"

definition select_one :: "('r \<Rightarrow> bool) \<Rightarrow> 'r list \<Rightarrow> pgerror + 'r" where
  "select_one p rows = (case List.find p rows of None \<Rightarrow> Inl PgNoRows | Some r \<Rightarrow> Inr r)"

section \<open>Wallets\<close>

definition scanWallet :: "wallet_row \<Rightarrow> Wallet res" where
  "scanWallet r =
     andThen (wrap (ParseWalletID (wr_id r))) (\<lambda>i.
     andThen (wrap (ParsePlayerID (wr_player_id r))) (\<lambda>player.
     andThen (wrap (ParseCurrency (TrimSpace (wr_currency r)))) (\<lambda>cur.
     andThen (wrap (NewMoneyFromMinor (wr_balance_minor r) cur)) (\<lambda>balance.
       RehydrateWallet \<lparr>rw_id = i, rw_playerID = player, rw_balance = balance,
         rw_version = wr_version r, rw_createdAt = time_of_pg (wr_created_at r),
         rw_updatedAt = time_of_pg (wr_updated_at r)\<rparr>))))"

definition wallet_row_of :: "Wallet \<Rightarrow> wallet_row" where
  "wallet_row_of w =
     \<lparr>wr_id = ident_String (w_id w), wr_player_id = ident_String (w_playerID w),
      wr_currency = Currency_String (w_currency w), wr_balance_minor = minor (w_balance w),
      wr_version = w_version w, wr_created_at = pg_time (w_createdAt w),
      wr_updated_at = pg_time (w_updatedAt w)\<rparr>"

definition Wallets_FindByID :: "env \<Rightarrow> WalletID \<Rightarrow> Wallet pgio" where
  "Wallets_FindByID \<Gamma> i =
     bindE (io_translate (query \<Gamma> (\<lambda>_ d. select_one (\<lambda>r. wr_id r = ident_String i) (d_wallets d))))
       (\<lambda>r. lift (scanWallet r))"

definition Wallets_FindByPlayerAndCurrency :: "env \<Rightarrow> PlayerID \<Rightarrow> currency \<Rightarrow> Wallet pgio" where
  "Wallets_FindByPlayerAndCurrency \<Gamma> player cur =
     bindE (io_translate (query \<Gamma> (\<lambda>_ d.
         select_one (\<lambda>r. wr_player_id r = ident_String player \<and> wr_currency r = Currency_String cur) (d_wallets d))))
       (\<lambda>r. lift (scanWallet r))"

definition Wallets_FindByIDForUpdate :: "env \<Rightarrow> WalletID \<Rightarrow> Wallet pgio" where
  "Wallets_FindByIDForUpdate \<Gamma> i =
     bindE (io_translate (query \<Gamma> (\<lambda>_ d. select_one (\<lambda>r. wr_id r = ident_String i) (d_wallets d))))
       (\<lambda>r. lift (scanWallet r))"

definition Wallets_Insert :: "env \<Rightarrow> Wallet \<Rightarrow> unit pgio" where
  "Wallets_Insert \<Gamma> wallet =
     (if \<not> Wallet_IsInitialised wallet then throw (OtherErr ''inserting an uninitialised wallet'')
      else io_translate (stmt \<Gamma> (\<lambda>_. insert_wallet (wallet_row_of wallet))))"

definition Wallets_UpdateBalance :: "env \<Rightarrow> Wallet \<Rightarrow> i64 \<Rightarrow> unit pgio" where
  "Wallets_UpdateBalance \<Gamma> wallet expectedVersion =
     (if \<not> Wallet_IsInitialised wallet then throw (OtherErr ''updating an uninitialised wallet'')
      else
        bindE (io_translate (stmt \<Gamma> (\<lambda>_. update_wallets
            (\<lambda>r. wr_id r = ident_String (w_id wallet) \<and> wr_version r = expectedVersion)
            (\<lambda>r. r\<lparr>wr_balance_minor := minor (w_balance wallet), wr_version := w_version wallet,
                   wr_updated_at := pg_time (w_updatedAt wallet)\<rparr>))))
          (\<lambda>n. if n = 1 then ret ()
               else bindE (io_translate (query \<Gamma> (\<lambda>_ d.
                      select_one (\<lambda>r. wr_id r = ident_String (w_id wallet)) (d_wallets d))))
                 (\<lambda>_. throw (Wrapped ErrVersionMismatch))))"

section \<open>Ledger\<close>

definition ledger_row_of :: "LedgerEntry \<Rightarrow> ledger_row" where
  "ledger_row_of e =
     \<lparr>lr_seq = 0, lr_id = ident_String (e_id e), lr_wallet_id = ident_String (e_walletID e),
      lr_transaction_id = ident_String (e_transactionID e),
      lr_direction = string_of_direction (e_direction e), lr_amount_minor = minor (e_amount e),
      lr_balance_before_minor = minor (e_balanceBefore e),
      lr_balance_after_minor = minor (e_balanceAfter e),
      lr_currency = Currency_String (currency (e_amount e)), lr_created_at = pg_time (e_createdAt e)\<rparr>"

definition Ledger_Append :: "env \<Rightarrow> LedgerEntry \<Rightarrow> unit pgio" where
  "Ledger_Append \<Gamma> e = io_translate (stmt \<Gamma> (\<lambda>_. insert_ledger (ledger_row_of e)))"

definition scanLedgerEntry :: "ledger_row \<Rightarrow> (nat \<times> LedgerEntry) res" where
  "scanLedgerEntry r =
     andThen (wrap (ParseLedgerEntryID (lr_id r))) (\<lambda>i.
     andThen (wrap (ParseWalletID (lr_wallet_id r))) (\<lambda>wid.
     andThen (wrap (ParseTransactionID (lr_transaction_id r))) (\<lambda>tid.
     andThen (wrap (ParseCurrency (TrimSpace (lr_currency r)))) (\<lambda>cur.
     andThen (NewMoneyFromMinor (lr_amount_minor r) cur) (\<lambda>amount.
     andThen (NewMoneyFromMinor (lr_balance_before_minor r) cur) (\<lambda>before.
     andThen (NewMoneyFromMinor (lr_balance_after_minor r) cur) (\<lambda>after.
     andThen (NewLedgerEntry \<lparr>e_id = i, e_walletID = wid, e_transactionID = tid,
         e_direction = direction_of_string (lr_direction r), e_amount = amount,
         e_balanceBefore = before, e_balanceAfter = after,
         e_createdAt = time_of_pg (lr_created_at r)\<rparr>) (\<lambda>e. Inr (lr_seq r, e)))))))))"

record LedgerCursor = lc_after :: int

record LedgerPage =
  lp_entries :: "LedgerEntry list"
  lp_next :: LedgerCursor
  lp_hasMore :: bool

text \<open>The loop over the rows: it stops in front of the row past the page.\<close>

fun page_rows :: "nat \<Rightarrow> LedgerEntry list \<Rightarrow> int \<Rightarrow> ledger_row list \<Rightarrow> LedgerPage res" where
  "page_rows limit acc lastSeq [] =
     Inr \<lparr>lp_entries = acc, lp_next = \<lparr>lc_after = lastSeq\<rparr>, lp_hasMore = False\<rparr>"
| "page_rows limit acc lastSeq (r # rows) =
     (if length acc = limit
      then Inr \<lparr>lp_entries = acc, lp_next = \<lparr>lc_after = lastSeq\<rparr>, lp_hasMore = True\<rparr>
      else andThen (scanLedgerEntry r) (\<lambda>(s, e). page_rows limit (acc @ [e]) (int s) rows))"

definition wallet_ledger_rows :: "string \<Rightarrow> database \<Rightarrow> ledger_row list" where
  "wallet_ledger_rows wid d = sort_key lr_seq (filter (\<lambda>r. lr_wallet_id r = wid) (d_ledger d))"

definition Ledger_ListByWallet :: "env \<Rightarrow> WalletID \<Rightarrow> LedgerCursor \<Rightarrow> int \<Rightarrow> LedgerPage pgio" where
  "Ledger_ListByWallet \<Gamma> wid cursor limit =
     (if limit \<le> 0 then throw (OtherErr ''limit must be positive'')
      else bindE (io_translate (query \<Gamma> (\<lambda>_ d.
          Inr (take (nat limit + 1)
            (filter (\<lambda>r. lc_after cursor < int (lr_seq r)) (wallet_ledger_rows (ident_String wid) d))))))
        (\<lambda>rows. lift (page_rows (nat limit) [] (lc_after cursor) rows)))"

definition row_delta :: "ledger_row \<Rightarrow> int" where
  "row_delta r =
     (if lr_direction r = ''CREDIT'' then sint (lr_amount_minor r) else - sint (lr_amount_minor r))"

definition Ledger_SumByWallet :: "env \<Rightarrow> WalletID \<Rightarrow> currency \<Rightarrow> (money \<times> nat) pgio" where
  "Ledger_SumByWallet \<Gamma> wid cur =
     bindE (io_translate (query \<Gamma> (\<lambda>_ d.
         let rows = filter (\<lambda>r. lr_wallet_id r = ident_String wid) (d_ledger d);
             total = sum_list (map row_delta rows) in
         if fits64 total then Inr (word_of_int total :: i64, length rows)
         else Inl (PgError ''22003'' '''' '''' ''bigint out of range''))))
       (\<lambda>(total, count). bindE (lift (NewMoneyFromMinor total cur)) (\<lambda>m. ret (m, count)))"

section \<open>Transactions\<close>

definition parseOptional :: "string option \<Rightarrow> (string \<Rightarrow> 'k ident res) \<Rightarrow> 'k ident res" where
  "parseOptional raw parse =
     (case raw of
        None \<Rightarrow> Inr ident_zero
      | Some s \<Rightarrow> if s = '''' then Inr ident_zero else wrap (parse s))"

definition scan_balance_after :: "i64 option \<Rightarrow> currency \<Rightarrow> money res" where
  "scan_balance_after raw cur =
     (case raw of None \<Rightarrow> Inr Money_zero | Some b \<Rightarrow> wrap (NewMoneyFromMinor b cur))"

definition scanTransaction :: "tx_row \<Rightarrow> WagerTransaction res" where
  "scanTransaction r =
     andThen (wrap (ParseCurrency (TrimSpace (tr_currency r)))) (\<lambda>cur.
     andThen (wrap (NewMoneyFromMinor (tr_amount_minor r) cur)) (\<lambda>amount.
     andThen (wrap (ParseTransactionID (tr_id r))) (\<lambda>i.
     andThen (wrap (ParseWalletID (tr_wallet_id r))) (\<lambda>wid.
     andThen (wrap (ParsePlayerID (tr_player_id r))) (\<lambda>pid.
     andThen (parseOptional (tr_provider_id r) ParseProviderID) (\<lambda>provider.
     andThen (parseOptional (tr_external_id r) ParseExternalTransactionID) (\<lambda>ext.
     andThen (parseOptional (tr_idempotency_key r) ParseIdempotencyKey) (\<lambda>key.
     andThen (parseOptional (tr_payload_hash r) ParsePayloadHash) (\<lambda>hash.
     andThen (parseOptional (tr_round_id r) ParseRoundID) (\<lambda>rnd.
     andThen (parseOptional (tr_game_id r) ParseGameID) (\<lambda>game.
     andThen (parseOptional (tr_reference_external_id r) ParseExternalTransactionID) (\<lambda>ref.
     andThen (parseOptional (tr_resolved_reference_id r) ParseTransactionID) (\<lambda>resolved.
     andThen (scan_balance_after (tr_balance_after_minor r) cur) (\<lambda>after.
       RehydrateTransaction
         \<lparr>t_id = i, t_origin = origin_of_string (tr_origin r), t_kind = kind_of_string (tr_kind r),
          t_status = status_of_string (tr_status r), t_walletID = wid, t_playerID = pid,
          t_money = amount, t_providerID = provider, t_externalID = ext, t_idempotencyKey = key,
          t_payloadHash = hash, t_roundID = rnd, t_gameID = game, t_referenceExternalID = ref,
          t_resolvedReferenceID = resolved,
          t_failureCode = code_of_string (deref (tr_failure_code r)),
          t_referenceAttempts = tr_reference_attempts r,
          t_referenceNextAttemptAt = derefTime (tr_reference_next_attempt_at r),
          t_referenceDeadlineAt = derefTime (tr_reference_deadline_at r),
          t_balanceAfter = after, t_createdAt = time_of_pg (tr_created_at r),
          t_updatedAt = time_of_pg (tr_updated_at r)\<rparr>))))))))))))))"

definition tx_row_of :: "WagerTransaction \<Rightarrow> tx_row" where
  "tx_row_of t =
     \<lparr>tr_id = ident_String (t_id t), tr_origin = string_of_origin (t_origin t),
      tr_kind = string_of_kind (t_kind t), tr_status = string_of_status (t_status t),
      tr_wallet_id = ident_String (t_walletID t), tr_player_id = ident_String (t_playerID t),
      tr_amount_minor = minor (t_money t), tr_currency = Currency_String (currency (t_money t)),
      tr_provider_id = nullable (ident_String (t_providerID t)),
      tr_external_id = nullable (ident_String (t_externalID t)),
      tr_idempotency_key = nullable (ident_String (t_idempotencyKey t)),
      tr_payload_hash = nullable (ident_String (t_payloadHash t)),
      tr_round_id = nullable (ident_String (t_roundID t)),
      tr_game_id = nullable (ident_String (t_gameID t)),
      tr_reference_external_id = nullable (ident_String (t_referenceExternalID t)),
      tr_resolved_reference_id = nullable (ident_String (t_resolvedReferenceID t)),
      tr_reference_attempts = t_referenceAttempts t,
      tr_reference_next_attempt_at = nullableTime (t_referenceNextAttemptAt t),
      tr_reference_deadline_at = nullableTime (t_referenceDeadlineAt t),
      tr_failure_code = nullable (string_of_code (t_failureCode t)),
      tr_balance_after_minor = nullableMinor (t_balanceAfter t),
      tr_created_at = pg_time (t_createdAt t), tr_updated_at = pg_time (t_updatedAt t)\<rparr>"

text \<open>The attempts go into an \<open>INTEGER\<close>: the driver refuses to encode a wider number.\<close>

definition fits32 :: "i64 \<Rightarrow> bool" where
  "fits32 n \<longleftrightarrow> - (2 ^ 31) \<le> sint n \<and> sint n < 2 ^ 31"

definition Transactions_FindByID :: "env \<Rightarrow> TransactionID \<Rightarrow> WagerTransaction pgio" where
  "Transactions_FindByID \<Gamma> i =
     bindE (io_translate (query \<Gamma> (\<lambda>_ d. select_one (\<lambda>r. tr_id r = ident_String i) (d_transactions d))))
       (\<lambda>r. lift (scanTransaction r))"

definition Transactions_FindByBusinessID ::
  "env \<Rightarrow> ProviderID \<Rightarrow> ExternalTransactionID \<Rightarrow> WagerTransaction pgio" where
  "Transactions_FindByBusinessID \<Gamma> provider external =
     bindE (io_translate (query \<Gamma> (\<lambda>_ d.
         select_one (\<lambda>r. tr_provider_id r = Some (ident_String provider)
           \<and> tr_external_id r = Some (ident_String external)) (d_transactions d))))
       (\<lambda>r. lift (scanTransaction r))"

definition Transactions_FindProcessedReversalOf :: "env \<Rightarrow> TransactionID \<Rightarrow> WagerTransaction pgio" where
  "Transactions_FindProcessedReversalOf \<Gamma> reference =
     bindE (io_translate (query \<Gamma> (\<lambda>_ d.
         select_one (\<lambda>r. tr_resolved_reference_id r = Some (ident_String reference)
           \<and> tr_status r = ''PROCESSED'') (d_transactions d))))
       (\<lambda>r. lift (scanTransaction r))"

definition Transactions_Insert :: "env \<Rightarrow> WagerTransaction \<Rightarrow> unit pgio" where
  "Transactions_Insert \<Gamma> tx =
     (if \<not> Tx_IsInitialised tx then throw (OtherErr ''inserting an uninitialised transaction'')
      else if \<not> fits32 (t_referenceAttempts tx) then throw (OtherErr ''encoding int4'')
      else io_translate (stmt \<Gamma> (\<lambda>_. insert_tx (tx_row_of tx))))"

definition terminal_row :: "tx_row \<Rightarrow> bool" where
  "terminal_row r \<longleftrightarrow> tr_status r \<in> {''PROCESSED'', ''REJECTED'', ''FAILED''}"

definition set_tx_columns :: "tx_row \<Rightarrow> tx_row \<Rightarrow> tx_row" where
  "set_tx_columns new r =
     r\<lparr>tr_status := tr_status new, tr_resolved_reference_id := tr_resolved_reference_id new,
       tr_reference_attempts := tr_reference_attempts new,
       tr_reference_next_attempt_at := tr_reference_next_attempt_at new,
       tr_reference_deadline_at := tr_reference_deadline_at new,
       tr_failure_code := tr_failure_code new, tr_balance_after_minor := tr_balance_after_minor new,
       tr_updated_at := tr_updated_at new\<rparr>"

definition Transactions_Update :: "env \<Rightarrow> WagerTransaction \<Rightarrow> unit pgio" where
  "Transactions_Update \<Gamma> tx =
     (if \<not> Tx_IsInitialised tx then throw (OtherErr ''updating an uninitialised transaction'')
      else if \<not> fits32 (t_referenceAttempts tx) then throw (OtherErr ''encoding int4'')
      else
        bindE (io_translate (stmt \<Gamma> (\<lambda>_. update_tx
            (\<lambda>r. tr_id r = ident_String (t_id tx) \<and> \<not> terminal_row r)
            (set_tx_columns (tx_row_of tx)))))
          (\<lambda>n. if n = 1 then ret ()
               else bindE (io_translate (query \<Gamma> (\<lambda>_ d.
                      select_one (\<lambda>r. tr_id r = ident_String (t_id tx)) (d_transactions d))))
                 (\<lambda>_. throw (Wrapped ErrConflict))))"

fun scan_all :: "('r \<Rightarrow> 'a res) \<Rightarrow> 'r list \<Rightarrow> 'a list res" where
  "scan_all f [] = Inr []"
| "scan_all f (r # rows) = andThen (f r) (\<lambda>x. andThen (scan_all f rows) (\<lambda>xs. Inr (x # xs)))"

definition due_before :: "int option \<Rightarrow> int \<Rightarrow> bool" where
  "due_before t now = (case t of None \<Rightarrow> False | Some n \<Rightarrow> n \<le> now)"

definition Transactions_ClaimDueReferences :: "env \<Rightarrow> gotime \<Rightarrow> int \<Rightarrow> WagerTransaction list pgio" where
  "Transactions_ClaimDueReferences \<Gamma> now limit =
     (if limit \<le> 0 then throw (OtherErr ''limit must be positive'')
      else bindE (io_translate (query \<Gamma> (\<lambda>n d.
          Inr (take (nat limit)
            (sort_key (\<lambda>r. case tr_reference_next_attempt_at r of None \<Rightarrow> 0 | Some t \<Rightarrow> t)
              (filter (\<lambda>r. tr_status r = ''PENDING_REFERENCE''
                  \<and> due_before (tr_reference_next_attempt_at r) (pg_time now)
                  \<and> \<not> env_locked \<Gamma> n (tr_id r)) (d_transactions d)))))))
        (\<lambda>rows. lift (scan_all scanTransaction rows)))"

section \<open>Inbox\<close>

record InboxMessage =
  im_consumerName :: string
  im_messageID :: string
  im_payloadHash :: PayloadHash
  im_receivedAt :: gotime
  im_completedAt :: gotime

definition InboxMessage_Handled :: "InboxMessage \<Rightarrow> bool" where
  "InboxMessage_Handled m \<longleftrightarrow> \<not> time_IsZero (im_completedAt m)"

definition constraintInboxIdentity :: string where
  "constraintInboxIdentity = ''inbox_messages_identity''"

definition Inbox_Claim :: "env \<Rightarrow> InboxMessage \<Rightarrow> unit pgio" where
  "Inbox_Claim \<Gamma> m =
     bindE (io_translate (stmt \<Gamma> (\<lambda>_. insert_inbox
         \<lparr>ir_consumer_name = im_consumerName m, ir_message_id = im_messageID m,
          ir_payload_hash = ident_String (im_payloadHash m), ir_received_at = pg_time (im_receivedAt m),
          ir_completed_at = None\<rparr>)))
       (\<lambda>n. if n = 0 then throw (NewConflict constraintInboxIdentity) else ret ())"

definition inbox_key :: "string \<Rightarrow> string \<Rightarrow> inbox_row \<Rightarrow> bool" where
  "inbox_key consumer message r \<longleftrightarrow> ir_consumer_name r = consumer \<and> ir_message_id r = message"

definition Inbox_Complete :: "env \<Rightarrow> string \<Rightarrow> string \<Rightarrow> gotime \<Rightarrow> unit pgio" where
  "Inbox_Complete \<Gamma> consumer message at =
     bindE (io_translate (stmt \<Gamma> (\<lambda>_. update_inbox (inbox_key consumer message)
         (\<lambda>r. r\<lparr>ir_completed_at := Some (pg_time at)\<rparr>))))
       (\<lambda>n. if n \<noteq> 1 then throw ErrNotFound else ret ())"

definition Inbox_Find :: "env \<Rightarrow> string \<Rightarrow> string \<Rightarrow> InboxMessage pgio" where
  "Inbox_Find \<Gamma> consumer message =
     bindE (io_translate (query \<Gamma> (\<lambda>_ d. select_one (inbox_key consumer message) (d_inbox d))))
       (\<lambda>r. bindE (lift (wrap (ParsePayloadHash (ir_payload_hash r)))) (\<lambda>hash.
         ret \<lparr>im_consumerName = consumer, im_messageID = message, im_payloadHash = hash,
              im_receivedAt = time_of_pg (ir_received_at r),
              im_completedAt = derefTime (ir_completed_at r)\<rparr>))"

section \<open>Outbox\<close>

record OutboxRecord =
  ob_eventID :: string
  ob_event :: Event
  ob_correlationID :: string
  ob_causationID :: string
  ob_attempts :: nat
  ob_nextAttemptAt :: gotime
  ob_publishedAt :: gotime
  ob_lastError :: string

definition OutboxRecord_Published :: "OutboxRecord \<Rightarrow> bool" where
  "OutboxRecord_Published r \<longleftrightarrow> \<not> time_IsZero (ob_publishedAt r)"

definition outbox_row_of :: "OutboxRecord \<Rightarrow> outbox_row" where
  "outbox_row_of r =
     \<lparr>or_seq = 0, or_event_id = ob_eventID r, or_event_type = ev_type (ob_event r),
      or_event_version = ev_version (ob_event r), or_aggregate_id = ev_aggregateID (ob_event r),
      or_payload = ev_payload (ob_event r), or_correlation_id = nullable (ob_correlationID r),
      or_causation_id = nullable (ob_causationID r), or_occurred_at = pg_time (ev_occurredAt (ob_event r)),
      or_attempts = ob_attempts r, or_next_attempt_at = pg_time (ob_nextAttemptAt r),
      or_published_at = nullableTime (ob_publishedAt r), or_last_error = nullable (ob_lastError r)\<rparr>"

definition Outbox_Append :: "env \<Rightarrow> OutboxRecord \<Rightarrow> unit pgio" where
  "Outbox_Append \<Gamma> r = io_translate (stmt \<Gamma> (\<lambda>_. insert_outbox (outbox_row_of r)))"

definition scanOutbox :: "outbox_row \<Rightarrow> OutboxRecord" where
  "scanOutbox r =
     \<lparr>ob_eventID = or_event_id r,
      ob_event = \<lparr>ev_type = or_event_type r, ev_version = or_event_version r,
        ev_aggregateID = or_aggregate_id r, ev_occurredAt = time_of_pg (or_occurred_at r),
        ev_payload = or_payload r\<rparr>,
      ob_correlationID = deref (or_correlation_id r), ob_causationID = deref (or_causation_id r),
      ob_attempts = or_attempts r, ob_nextAttemptAt = time_of_pg (or_next_attempt_at r),
      ob_publishedAt = derefTime (or_published_at r), ob_lastError = deref (or_last_error r)\<rparr>"

definition Outbox_ClaimDue :: "env \<Rightarrow> gotime \<Rightarrow> int \<Rightarrow> OutboxRecord list pgio" where
  "Outbox_ClaimDue \<Gamma> now limit =
     (if limit \<le> 0 then throw (OtherErr ''limit must be positive'')
      else bindE (io_translate (query \<Gamma> (\<lambda>n d.
          Inr (take (nat limit)
            (sort_key or_seq
              (filter (\<lambda>r. or_published_at r = None \<and> or_next_attempt_at r \<le> pg_time now
                  \<and> \<not> env_locked \<Gamma> n (or_event_id r)) (d_outbox d)))))))
        (\<lambda>rows. ret (map scanOutbox rows)))"

definition unpublished :: "string \<Rightarrow> outbox_row \<Rightarrow> bool" where
  "unpublished eventID r \<longleftrightarrow> or_event_id r = eventID \<and> or_published_at r = None"

definition Outbox_MarkPublished :: "env \<Rightarrow> string \<Rightarrow> gotime \<Rightarrow> unit pgio" where
  "Outbox_MarkPublished \<Gamma> eventID at =
     bindE (io_translate (stmt \<Gamma> (\<lambda>_. update_outbox (unpublished eventID)
         (\<lambda>r. r\<lparr>or_published_at := Some (pg_time at), or_last_error := None\<rparr>))))
       (\<lambda>n. if n \<noteq> 1 then throw ErrNotFound else ret ())"

definition Outbox_Reschedule :: "env \<Rightarrow> string \<Rightarrow> gotime \<Rightarrow> string \<Rightarrow> unit pgio" where
  "Outbox_Reschedule \<Gamma> eventID nextAttemptAt cause =
     bindE (io_translate (stmt \<Gamma> (\<lambda>_. update_outbox (unpublished eventID)
         (\<lambda>r. r\<lparr>or_attempts := Suc (or_attempts r), or_next_attempt_at := pg_time nextAttemptAt,
                or_last_error := nullable cause\<rparr>))))
       (\<lambda>_. ret ())"

end
