(* ===== verification/Codec.thy ===== *)
theory Codec
  imports Store
begin

text \<open>
  What the repositories write, they read back. The interface \<open>table\<close> states the one law the
  lookups rest on: a value the program can hold survives the way through its row. It is
  interpreted for wallets, transactions and ledger entries; the instants survive to the
  microsecond, which is what \<open>TIMESTAMPTZ\<close> keeps.
\<close>

section \<open>Instants and identifiers\<close>

definition trunc_time :: "gotime \<Rightarrow> gotime" where
  "trunc_time t = \<lparr>instant = instant t div 1000 * 1000, loc = LocUTC\<rparr>"

definition stored_at :: "gotime \<Rightarrow> bool" where
  "stored_at t \<longleftrightarrow> loc t = LocUTC \<and> instant t mod 1000 = 0"

lemma stored_at_trunc [simp]: "stored_at (trunc_time t)"
  by (simp add: stored_at_def trunc_time_def)

lemma pg_time_trunc [simp]: "pg_time (trunc_time t) = pg_time t"
  by (simp add: pg_time_def trunc_time_def)

lemma time_of_pg_of_time: "stored_at t \<Longrightarrow> time_UTC (time_of_pg (pg_time t)) = t"
  by (auto simp: stored_at_def time_UTC_def time_of_pg_def pg_time_def intro!: gotime.equality)

lemma time_UTC_stored_at: "stored_at t \<Longrightarrow> time_UTC t = t"
  by (simp add: stored_at_def time_UTC_id)

lemma time_IsZero_of_pg: "stored_at t \<Longrightarrow> time_IsZero (time_of_pg (pg_time t)) = time_IsZero t"
  by (auto simp: stored_at_def time_IsZero_def time_of_pg_def pg_time_def)

lemma trunc_time_id: "stored_at t \<Longrightarrow> trunc_time t = t"
  by (auto simp: stored_at_def trunc_time_def intro!: gotime.equality)

lemma stored_at_zero [simp]: "stored_at time_zero"
  by (simp add: stored_at_def time_zero_def)

lemma stored_at_stored: "stored_at t \<Longrightarrow> stored_time t"
  by (simp add: stored_at_def stored_time_def)

text \<open>An instant that is still set after the truncation.\<close>

definition time_set :: "gotime \<Rightarrow> bool" where
  "time_set t \<longleftrightarrow> 1000 \<le> instant t"

lemma time_set_not_zero: "time_set t \<Longrightarrow> \<not> time_IsZero t"
  by (simp add: time_set_def time_IsZero_def)

lemma time_set_trunc: "time_set t \<Longrightarrow> \<not> time_IsZero (trunc_time t)"
  by (auto simp: time_set_def time_IsZero_def trunc_time_def)

lemma time_set_UTC [simp]: "time_set (time_UTC t) = time_set t"
  by (simp add: time_set_def)

lemma trunc_time_UTC [simp]: "trunc_time (time_UTC t) = trunc_time t"
  by (simp add: trunc_time_def)

lemma trunc_time_zero [simp]: "trunc_time time_zero = time_zero"
  by (simp add: trunc_time_def time_zero_def)

text \<open>An instant that the column does not turn into an unset one.\<close>

definition survives :: "gotime \<Rightarrow> bool" where
  "survives t \<longleftrightarrow> time_IsZero (trunc_time t) = time_IsZero t"

lemma survives_zero [simp]: "survives time_zero"
  by (simp add: survives_def)

lemma survives_UTC [simp]: "survives (time_UTC t) = survives t"
  by (simp add: survives_def)

lemma survives_stored_at: "stored_at t \<Longrightarrow> survives t"
  by (simp add: survives_def trunc_time_id)

lemma survives_time_set: "time_set t \<Longrightarrow> survives t"
  by (simp add: survives_def time_set_trunc time_set_not_zero)

definition optional_ok :: "'k ident \<Rightarrow> bool" where
  "optional_ok i \<longleftrightarrow> ident_IsZero i \<or> ident_ok i"

lemma optional_ok_zero [simp]: "optional_ok ident_zero"
  by (simp add: optional_ok_def)

lemma ident_ok_optional: "ident_ok i \<Longrightarrow> optional_ok i"
  by (simp add: optional_ok_def)

lemma wrap_Inr [simp]: "wrap (Inr x) = Inr x"
  by (simp add: wrap_def)

lemma parse_ok [simp]:
  "ident_ok a1 \<Longrightarrow> ParseWalletID (ident_String a1) = Inr a1"
  "ident_ok a2 \<Longrightarrow> ParsePlayerID (ident_String a2) = Inr a2"
  "ident_ok a3 \<Longrightarrow> ParseTransactionID (ident_String a3) = Inr a3"
  "ident_ok a4 \<Longrightarrow> ParseLedgerEntryID (ident_String a4) = Inr a4"
  "ident_ok a5 \<Longrightarrow> ParseProviderID (ident_String a5) = Inr a5"
  "ident_ok a6 \<Longrightarrow> ParseRoundID (ident_String a6) = Inr a6"
  "ident_ok a7 \<Longrightarrow> ParseGameID (ident_String a7) = Inr a7"
  "ident_ok a8 \<Longrightarrow> ParseExternalTransactionID (ident_String a8) = Inr a8"
  "ident_ok a9 \<Longrightarrow> ParseIdempotencyKey (ident_String a9) = Inr a9"
  "ident_ok a0 \<Longrightarrow> ParsePayloadHash (ident_String a0) = Inr a0"
  by (simp_all add: parse_id_defs)

lemma parseOptional_nullable:
  assumes "optional_ok i" "ident_ok i \<Longrightarrow> parse (ident_String i) = Inr i"
  shows "parseOptional (nullable (ident_String i)) parse = Inr i"
  using assms
  by (cases i) (auto simp: parseOptional_def nullable_def optional_ok_def)

section \<open>Currencies\<close>

lemma space_runes_ends:
  "p \<in> set space_runes \<Longrightarrow> \<not> (CHR ''A'' \<le> hd p \<and> hd p \<le> CHR ''Z'')"
  "p \<in> set space_runes \<Longrightarrow> \<not> (CHR ''A'' \<le> last p \<and> last p \<le> CHR ''Z'')"
proof -
  have "list_all (\<lambda>p. \<not> (CHR ''A'' \<le> hd p \<and> hd p \<le> CHR ''Z'')
      \<and> \<not> (CHR ''A'' \<le> last p \<and> last p \<le> CHR ''Z'')) space_runes"
    by code_simp
  then show "p \<in> set space_runes \<Longrightarrow> \<not> (CHR ''A'' \<le> hd p \<and> hd p \<le> CHR ''Z'')"
    "p \<in> set space_runes \<Longrightarrow> \<not> (CHR ''A'' \<le> last p \<and> last p \<le> CHR ''Z'')"
    by (auto simp: list_all_iff)
qed

lemma all_upper_iff: "all_upper s \<longleftrightarrow> (\<forall>c\<in>set s. CHR ''A'' \<le> c \<and> c \<le> CHR ''Z'')"
  by (induction s) (auto simp: not_less)

lemma TrimSpace_upper:
  assumes "all_upper s"
  shows "TrimSpace s = s"
proof (rule TrimSpace_id)
  have "take (length p) s \<noteq> p" if "p \<in> set space_runes" for p
  proof
    assume "take (length p) s = p"
    then have "hd p \<in> set s"
      using space_runes_not_Nil [OF that] by (metis hd_in_set set_take_subset subsetD)
    then show False using assms space_runes_ends(1) [OF that] by (auto simp: all_upper_iff)
  qed
  then show "strip_rune s = None"
    by (auto simp: strip_rune_def find_Some_iff split: option.splits)
  have "drop (length s - length p) s \<noteq> p" if "p \<in> set space_runes" for p
  proof
    assume "drop (length s - length p) s = p"
    then have "last p \<in> set s"
      using space_runes_not_Nil [OF that] by (metis last_in_set set_drop_subset subsetD)
    then show False using assms space_runes_ends(2) [OF that] by (auto simp: all_upper_iff)
  qed
  then show "strip_last_rune s = None"
    by (auto simp: strip_last_rune_def find_Some_iff split: option.splits)
qed

lemma currency_column:
  assumes "iso4217 s"
  shows "ParseCurrency (TrimSpace s) = Inr \<lparr>code_str = s\<rparr>" "char3 (take 3 s) = s" "\<not> too_long s"
    "\<not> Currency_IsZero \<lparr>code_str = s\<rparr>"
  using assms
  by (auto simp: iso4217_def TrimSpace_upper ParseCurrency_def char3_def too_long_def Currency_IsZero_def)

lemma ParseCurrency_iso: "ParseCurrency s = Inr c \<Longrightarrow> iso4217 (code_str c)"
  by (auto simp: ParseCurrency_def iso4217_def split: if_splits)

lemma external_money_currency: "ParseExternalMoney s cur = Inr m \<Longrightarrow> currency m = cur"
  by (auto simp: ParseExternalMoney_def ParseMoney_def andThen_Inr_iff split: if_splits)

section \<open>The interface of a table\<close>

locale table =
  fixes rows :: "database \<Rightarrow> 'r list"
    and row_of :: "'v \<Rightarrow> 'r"
    and scan :: "'r \<Rightarrow> 'v res"
    and storable :: "'v \<Rightarrow> bool"
  assumes scan_row: "storable v \<Longrightarrow> scan (row_of v) = Inr v"
begin

definition holds :: "database \<Rightarrow> 'v list \<Rightarrow> bool" where
  "holds d vs \<longleftrightarrow> rows d = map row_of vs \<and> (\<forall>v\<in>set vs. storable v)"

definition lookup :: "env \<Rightarrow> ('r \<Rightarrow> bool) \<Rightarrow> (database, 'v) io" where
  "lookup \<Gamma> p =
     bindE (io_translate (query \<Gamma> (\<lambda>_ d. select_one p (rows d)))) (\<lambda>r. lift (scan r))"

text \<open>A lookup that succeeds returns a stored value that matches, and writes nothing.\<close>

lemma lookup_ok:
  assumes "lookup \<Gamma> p w = (Inr v, w')" "holds (db w) vs"
  shows "v \<in> set vs \<and> p (row_of v) \<and> same_world w w'"
proof -
  obtain r where q: "query \<Gamma> (\<lambda>_ d. select_one p (rows d)) w = (Inr r, w')" and v: "scan r = Inr v"
    using assms(1) by (auto simp: lookup_def bindE_Inr_iff elim: io_translate_okE)
  from q have sel: "select_one p (rows (db w)) = Inr r" and same: "same_world w w'"
    by (auto elim!: query_okE simp: same_world_def)
  from sel have "r \<in> set (rows (db w))" "p r"
    by (auto simp: select_one_def find_Some_iff split: option.splits)
  then obtain u where "u \<in> set vs" "r = row_of u" using assms(2) by (auto simp: holds_def)
  moreover from this have "u = v" using assms(2) v scan_row by (auto simp: holds_def)
  ultimately show ?thesis using \<open>p r\<close> same by simp
qed

text \<open>A lookup that fails never fails as a business rule, and "not found" means that nothing matches.\<close>

lemma lookup_err:
  assumes "lookup \<Gamma> p w = (Inl e, w')" "holds (db w) vs"
  shows "as_domain e = None \<and> db w' = db w \<and> in_tx w' = in_tx w
    \<and> (errors_Is e ErrNotFound \<longrightarrow> (\<forall>v\<in>set vs. \<not> p (row_of v)) \<and> same_world w w')"
proof -
  have scanned: "scan r \<noteq> Inl x" if "select_one p (rows (db w)) = Inr r" for r x
    using that assms(2) scan_row
    by (auto simp: select_one_def holds_def find_Some_iff split: option.splits)
  obtain pe where q: "query \<Gamma> (\<lambda>_ d. select_one p (rows d)) w = (Inl pe, w')" and e: "e = translate pe"
    using assms(1) scanned
    by (auto simp: lookup_def bindE_Inl_iff elim!: io_translate_errE io_translate_okE query_okE)
  have "errors_Is e ErrNotFound \<longleftrightarrow> pe = PgNoRows"
    unfolding e by (cases pe) (auto simp: NewConflict_def NewInvariantViolation_def)
  moreover have "(\<forall>v\<in>set vs. \<not> p (row_of v)) \<and> same_world w w'" if "pe = PgNoRows"
    using query_NoRows [OF q [unfolded that]] assms(2)
    by (auto simp: select_one_def holds_def find_None_iff split: option.splits)
  ultimately show ?thesis using query_db [OF q] e by auto
qed

end

section \<open>Wallets\<close>

definition wallet_st :: "Wallet \<Rightarrow> bool" where
  "wallet_st w \<longleftrightarrow> wallet_ok w \<and> ident_ok (w_id w) \<and> ident_ok (w_playerID w)
     \<and> iso4217 (code_str (w_currency w)) \<and> stored_at (w_createdAt w) \<and> stored_at (w_updatedAt w)"

definition trunc_wallet :: "Wallet \<Rightarrow> Wallet" where
  "trunc_wallet w = w\<lparr>w_createdAt := trunc_time (w_createdAt w), w_updatedAt := trunc_time (w_updatedAt w)\<rparr>"

lemma scan_wallet_row: "wallet_st w \<Longrightarrow> scanWallet (wallet_row_of w) = Inr w"
proof -
  assume st: "wallet_st w"
  have "currency (w_balance w) = w_currency w" using st by (simp add: wallet_st_def wallet_ok_def)
  then have b: "NewMoneyFromMinor (minor (w_balance w)) (w_currency w) = Inr (w_balance w)"
    using st by (simp add: NewMoneyFromMinor_def wallet_st_def wallet_ok_def Money_IsInitialised_def)
  have c: "ParseCurrency (TrimSpace (code_str (w_currency w))) = Inr (w_currency w)"
    using st currency_column(1) [of "code_str (w_currency w)"] by (simp add: wallet_st_def)
  have "RehydrateWallet ((wallet_params w)\<lparr>rw_createdAt := time_of_pg (pg_time (w_createdAt w)),
      rw_updatedAt := time_of_pg (pg_time (w_updatedAt w))\<rparr>) = Inr w"
    using st RehydrateWallet_params [of w]
    by (simp add: RehydrateWallet_def wallet_params_def wallet_st_def time_IsZero_of_pg time_of_pg_of_time
        time_UTC_stored_at split: if_splits)
  then show ?thesis
    using st b c by (simp add: scanWallet_def wallet_row_of_def wallet_params_def wallet_st_def Currency_String_def)
qed

lemma wallet_row_trunc [simp]: "wallet_row_of (trunc_wallet w) = wallet_row_of w"
  by (simp add: wallet_row_of_def trunc_wallet_def)

interpretation wt: table d_wallets wallet_row_of scanWallet wallet_st
  by unfold_locales (rule scan_wallet_row)

section \<open>Ledger entries\<close>

definition entry_st :: "LedgerEntry \<Rightarrow> bool" where
  "entry_st e \<longleftrightarrow> entry_ok e \<and> ident_ok (e_id e) \<and> ident_ok (e_walletID e) \<and> ident_ok (e_transactionID e)
     \<and> iso4217 (code_str (currency (e_amount e))) \<and> stored_at (e_createdAt e)"

definition trunc_entry :: "LedgerEntry \<Rightarrow> LedgerEntry" where
  "trunc_entry e = e\<lparr>e_createdAt := trunc_time (e_createdAt e)\<rparr>"

definition numbered_row :: "nat \<times> LedgerEntry \<Rightarrow> ledger_row" where
  "numbered_row se = (ledger_row_of (snd se))\<lparr>lr_seq := fst se\<rparr>"

lemma entry_money:
  "entry_ok e \<Longrightarrow> NewMoneyFromMinor (minor (e_amount e)) (currency (e_amount e)) = Inr (e_amount e)"
  "entry_ok e \<Longrightarrow> NewMoneyFromMinor (minor (e_balanceBefore e)) (currency (e_amount e)) = Inr (e_balanceBefore e)"
  "entry_ok e \<Longrightarrow> NewMoneyFromMinor (minor (e_balanceAfter e)) (currency (e_amount e)) = Inr (e_balanceAfter e)"
  by (auto simp: NewMoneyFromMinor_def entry_ok_def Money_IsInitialised_def intro!: money.equality)

lemma scan_entry_row: "entry_st (snd se) \<Longrightarrow> scanLedgerEntry (numbered_row se) = Inr se"
proof -
  let ?e = "snd se"
  assume st: "entry_st ?e"
  then have ok: "entry_ok ?e" by (simp add: entry_st_def)
  have c: "ParseCurrency (TrimSpace (code_str (currency (e_amount ?e)))) = Inr (currency (e_amount ?e))"
    using st currency_column(1) [of "code_str (currency (e_amount ?e))"] by (simp add: entry_st_def)
  let ?p = "?e\<lparr>e_createdAt := time_of_pg (pg_time (e_createdAt ?e))\<rparr>"
  have "entry_ok ?p" using st by (simp add: entry_st_def entry_ok_def entry_delta_def time_IsZero_of_pg)
  then have "NewLedgerEntry ?p = Inr ?e"
    using st by (simp add: NewLedgerEntry_iff entry_st_def time_of_pg_of_time)
  moreover have "Direction_Valid (e_direction ?e)" using ok by (simp add: entry_ok_def)
  moreover have "?p = \<lparr>e_id = e_id ?e, e_walletID = e_walletID ?e, e_transactionID = e_transactionID ?e,
      e_direction = e_direction ?e, e_amount = e_amount ?e, e_balanceBefore = e_balanceBefore ?e,
      e_balanceAfter = e_balanceAfter ?e, e_createdAt = time_of_pg (pg_time (e_createdAt ?e))\<rparr>"
    by simp
  ultimately show ?thesis
    using st c entry_money [OF ok]
    by (simp add: scanLedgerEntry_def numbered_row_def ledger_row_of_def entry_st_def Currency_String_def)
qed

lemma numbered_row_trunc [simp]: "numbered_row (s, trunc_entry e) = (ledger_row_of e)\<lparr>lr_seq := s\<rparr>"
  by (simp add: numbered_row_def trunc_entry_def ledger_row_of_def)

interpretation lt: table d_ledger numbered_row scanLedgerEntry "\<lambda>se. entry_st (snd se)"
  by unfold_locales (rule scan_entry_row)

section \<open>Transactions\<close>

definition tx_ids_ok :: "WagerTransaction \<Rightarrow> bool" where
  "tx_ids_ok t \<longleftrightarrow> ident_ok (t_id t) \<and> ident_ok (t_walletID t) \<and> ident_ok (t_playerID t)
     \<and> optional_ok (t_providerID t) \<and> optional_ok (t_externalID t) \<and> optional_ok (t_idempotencyKey t)
     \<and> optional_ok (t_payloadHash t) \<and> optional_ok (t_roundID t) \<and> optional_ok (t_gameID t)
     \<and> optional_ok (t_referenceExternalID t) \<and> optional_ok (t_resolvedReferenceID t)"

definition tx_st :: "WagerTransaction \<Rightarrow> bool" where
  "tx_st t \<longleftrightarrow> tx_ok t \<and> tx_ids_ok t \<and> proper_code (t_failureCode t)
     \<and> iso4217 (code_str (currency (t_money t)))
     \<and> stored_at (t_createdAt t) \<and> stored_at (t_updatedAt t)
     \<and> stored_at (t_referenceNextAttemptAt t) \<and> stored_at (t_referenceDeadlineAt t)"

definition trunc_tx :: "WagerTransaction \<Rightarrow> WagerTransaction" where
  "trunc_tx t =
     t\<lparr>t_referenceNextAttemptAt := utcOrZero (trunc_time (t_referenceNextAttemptAt t)),
       t_referenceDeadlineAt := utcOrZero (trunc_time (t_referenceDeadlineAt t)),
       t_createdAt := trunc_time (t_createdAt t), t_updatedAt := trunc_time (t_updatedAt t)\<rparr>"

lemma optional_time_column:
  assumes "stored_at t"
  shows "utcOrZero (derefTime (nullableTime t)) = t"
proof (cases "time_IsZero t")
  case True
  then have "t = time_zero"
    using assms by (auto simp: time_IsZero_def stored_at_def time_zero_def intro!: gotime.equality)
  then show ?thesis by (simp add: nullableTime_def derefTime_def utcOrZero_def)
next
  case False
  then show ?thesis
    using assms
    by (simp add: nullableTime_def derefTime_def utcOrZero_def time_IsZero_of_pg time_of_pg_of_time)
qed

lemma code_column: "proper_code c \<Longrightarrow> code_of_string (deref (nullable (string_of_code c))) = c"
  by (auto simp: nullable_def deref_def proper_code_def)

lemma tx_balance_column:
  assumes "tx_life t" "Money_IsInitialised (t_money t)"
  shows "scan_balance_after (nullableMinor (t_balanceAfter t)) (currency (t_money t)) = Inr (t_balanceAfter t)"
  using assms
  by (auto simp: scan_balance_after_def tx_life_def nullableMinor_def NewMoneyFromMinor_def Money_IsInitialised_def Money_zero_def
      Currency_zero_def Currency_IsZero_def wrap_def intro!: money.equality split: if_splits)

lemma tx_scan_money:
  assumes "tx_st t"
  shows "ParseCurrency (TrimSpace (code_str (currency (t_money t)))) = Inr (currency (t_money t))"
    "NewMoneyFromMinor (minor (t_money t)) (currency (t_money t)) = Inr (t_money t)"
    "scan_balance_after (nullableMinor (t_balanceAfter t)) (currency (t_money t)) = Inr (t_balanceAfter t)"
proof -
  have i: "Money_IsInitialised (t_money t)"
    using assms by (simp add: tx_st_def tx_ok_def tx_shape_def amount_ok_def)
  show "ParseCurrency (TrimSpace (code_str (currency (t_money t)))) = Inr (currency (t_money t))"
    using assms currency_column(1) [of "code_str (currency (t_money t))"] by (simp add: tx_st_def)
  show "NewMoneyFromMinor (minor (t_money t)) (currency (t_money t)) = Inr (t_money t)"
    using i by (simp add: NewMoneyFromMinor_def Money_IsInitialised_def)
  show "scan_balance_after (nullableMinor (t_balanceAfter t)) (currency (t_money t)) = Inr (t_balanceAfter t)"
    using assms i by (intro tx_balance_column) (simp_all add: tx_st_def tx_ok_def)
qed

text \<open>What the scan hands to \<open>RehydrateTransaction\<close>: the transaction with its raw instants.\<close>

definition raw_times :: "WagerTransaction \<Rightarrow> WagerTransaction" where
  "raw_times t =
     t\<lparr>t_referenceNextAttemptAt := derefTime (nullableTime (t_referenceNextAttemptAt t)),
       t_referenceDeadlineAt := derefTime (nullableTime (t_referenceDeadlineAt t)),
       t_createdAt := time_of_pg (pg_time (t_createdAt t)),
       t_updatedAt := time_of_pg (pg_time (t_updatedAt t))\<rparr>"

lemma rehydrate_raw_times:
  assumes "tx_st t"
  shows "RehydrateTransaction (raw_times t) = Inr t"
proof -
  have "RehydrateTransaction t = Inr t"
    using assms by (intro RehydrateTransaction_shape) (simp add: tx_st_def tx_ok_def)
  moreover have "utcOrZero (t_referenceNextAttemptAt t) = t_referenceNextAttemptAt t"
      "utcOrZero (t_referenceDeadlineAt t) = t_referenceDeadlineAt t"
      "time_UTC (t_createdAt t) = t_createdAt t" "time_UTC (t_updatedAt t) = t_updatedAt t"
    using assms by (simp_all add: tx_st_def utcOrZero_id stored_at_stored stored_time_UTC)
  ultimately show ?thesis
    using assms
    unfolding RehydrateTransaction_def raw_times_def
    by (auto simp add: optional_time_column time_IsZero_of_pg time_of_pg_of_time tx_st_def
        andThen_Inr_iff split: if_splits origin.splits)
qed

lemma scan_tx_row:
  assumes st: "tx_st t"
  shows "scanTransaction (tx_row_of t) = Inr t"
proof -
  have enums: "origin_of_string (string_of_origin (t_origin t)) = t_origin t"
    "kind_of_string (string_of_kind (t_kind t)) = t_kind t"
    "status_of_string (string_of_status (t_status t)) = t_status t"
    using st by (auto simp: tx_st_def tx_ok_def tx_shape_def tx_metadata_ok_def origin_of_string_def
        split: if_splits)
  have ids: "tx_ids_ok t" using st by (simp add: tx_st_def)
  have "RehydrateTransaction (raw_times t) = Inr t" by (rule rehydrate_raw_times [OF st])
  then show ?thesis
    using ids enums tx_scan_money [OF st] code_column [of "t_failureCode t"] st
    by (cases t) (simp add: scanTransaction_def tx_row_of_def tx_ids_ok_def parseOptional_nullable
        raw_times_def Currency_String_def tx_st_def)
qed

interpretation tt: table d_transactions tx_row_of scanTransaction tx_st
  by unfold_locales (rule scan_tx_row)

lemma nullableTime_trunc:
  "survives t \<Longrightarrow> nullableTime (utcOrZero (trunc_time t)) = nullableTime t"
  by (auto simp: nullableTime_def utcOrZero_def survives_def time_IsZero_def pg_time_def time_zero_def
      time_UTC_def trunc_time_def)

lemma tx_row_trunc:
  assumes "survives (t_referenceNextAttemptAt t)" "survives (t_referenceDeadlineAt t)"
  shows "tx_row_of (trunc_tx t) = tx_row_of t"
  using assms by (simp add: tx_row_of_def trunc_tx_def nullableTime_trunc)

end
