(* ===== verification/Bank.thy ===== *)
theory Bank
  imports Codec
begin

text \<open>
  The abstract state of the service and what a commit may do to it.

  A \<open>bank\<close> is the three financial tables read as domain values; \<open>represents\<close> ties it to the
  stored rows. \<open>commit\<close> is the specification: the four ways the program changes a bank. Its
  invariant \<open>bank_ok\<close> says that every balance is the sum of its ledger, that the ledger of a
  wallet is one unbroken chain, that every processed operation that moves money has exactly
  one entry, in its own direction, and that no operation is reversed twice.
\<close>

record bank =
  b_wallets :: "Wallet list"
  b_txs :: "WagerTransaction list"
  b_entries :: "(nat \<times> LedgerEntry) list"

definition empty_bank :: bank where
  "empty_bank = \<lparr>b_wallets = [], b_txs = [], b_entries = []\<rparr>"

section \<open>Operations on the abstract state\<close>

definition put_tx :: "WagerTransaction list \<Rightarrow> WagerTransaction \<Rightarrow> WagerTransaction list" where
  "put_tx ts t =
     (if \<exists>x\<in>set ts. t_id x = t_id t then map (\<lambda>x. if t_id x = t_id t then t else x) ts else ts @ [t])"

definition put_wallet :: "Wallet list \<Rightarrow> Wallet \<Rightarrow> Wallet list" where
  "put_wallet ws w = map (\<lambda>x. if w_id x = w_id w then w else x) ws"

definition entries_of :: "bank \<Rightarrow> WalletID \<Rightarrow> LedgerEntry list" where
  "entries_of b i = filter (\<lambda>e. e_walletID e = i) (map snd (b_entries b))"

section \<open>The invariant\<close>

text \<open>Two transactions that may stand side by side: what the unique indexes of the schema demand.\<close>

definition tx_compat :: "WagerTransaction \<Rightarrow> WagerTransaction \<Rightarrow> bool" where
  "tx_compat x y \<longleftrightarrow>
     t_id x \<noteq> t_id y
     \<and> \<not> (\<not> ident_IsZero (t_providerID x) \<and> t_providerID x = t_providerID y \<and> t_externalID x = t_externalID y)
     \<and> \<not> (\<not> ident_IsZero (t_providerID x) \<and> t_providerID x = t_providerID y
          \<and> t_idempotencyKey x = t_idempotencyKey y)
     \<and> \<not> (t_kind x = KindOpening \<and> t_kind y = KindOpening \<and> t_walletID x = t_walletID y)
     \<and> \<not> (t_status x = StatusProcessed \<and> t_status y = StatusProcessed
          \<and> \<not> ident_IsZero (t_resolvedReferenceID x) \<and> t_resolvedReferenceID x = t_resolvedReferenceID y)"

text \<open>The operation a processed reversal undoes: processed, reversible by it, of the same amount on the same wallet.\<close>

definition reverses :: "WagerTransaction list \<Rightarrow> WagerTransaction \<Rightarrow> direction \<Rightarrow> bool" where
  "reverses ts t d \<longleftrightarrow>
     (\<exists>ref\<in>set ts. t_id ref = t_resolvedReferenceID t \<and> t_id ref \<noteq> t_id t \<and> t_status ref = StatusProcessed
        \<and> Kind_CanReverse (t_kind t) (t_kind ref) \<and> t_money ref = t_money t
        \<and> t_walletID ref = t_walletID t \<and> ReversalDirection (t_kind ref) = Inr d)"

definition directed :: "WagerTransaction list \<Rightarrow> WagerTransaction \<Rightarrow> direction \<Rightarrow> bool" where
  "directed ts t d =
     (case t_kind t of
        KindBet \<Rightarrow> d = Debit
      | KindWin \<Rightarrow> d = Credit
      | KindOpening \<Rightarrow> d = Credit
      | _ \<Rightarrow> Kind_IsReversal (t_kind t) \<and> reverses ts t d)"

definition moved_money :: "WagerTransaction \<Rightarrow> bool" where
  "moved_money t \<longleftrightarrow> t_status t = StatusProcessed \<and> Kind_MovesMoney (t_kind t)"

definition posted_as :: "WagerTransaction list \<Rightarrow> WagerTransaction \<Rightarrow> LedgerEntry \<Rightarrow> bool" where
  "posted_as ts t e \<longleftrightarrow>
     moved_money t \<and> t_id t = e_transactionID e \<and> e_walletID e = t_walletID t \<and> e_amount e = t_money t
     \<and> e_balanceAfter e = t_balanceAfter t \<and> directed ts t (e_direction e)"

fun chain :: "int \<Rightarrow> LedgerEntry list \<Rightarrow> int \<Rightarrow> bool" where
  "chain a [] z \<longleftrightarrow> a = z"
| "chain a (e # es) z \<longleftrightarrow> balance_value (e_balanceBefore e) = a \<and> chain (balance_value (e_balanceAfter e)) es z"

definition opening_ids :: "WagerTransaction list \<Rightarrow> TransactionID set" where
  "opening_ids ts = t_id ` {t \<in> set ts. t_kind t = KindOpening}"

definition wallets_ok :: "bank \<Rightarrow> bool" where
  "wallets_ok b \<longleftrightarrow>
     (\<forall>w\<in>set (b_wallets b). wallet_st w) \<and> distinct (map w_id (b_wallets b))
     \<and> distinct (map (\<lambda>w. (w_playerID w, w_currency w)) (b_wallets b))"

definition txs_ok :: "bank \<Rightarrow> bool" where
  "txs_ok b \<longleftrightarrow>
     (\<forall>t\<in>set (b_txs b). tx_st t) \<and> distinct (map t_id (b_txs b))
     \<and> (\<forall>x\<in>set (b_txs b). \<forall>y\<in>set (b_txs b). x \<noteq> y \<longrightarrow> tx_compat x y)
     \<and> t_walletID ` set (b_txs b) \<subseteq> w_id ` set (b_wallets b)"

definition entries_ok :: "bank \<Rightarrow> bool" where
  "entries_ok b \<longleftrightarrow>
     (\<forall>e\<in>snd ` set (b_entries b). entry_st e \<and> (\<exists>t\<in>set (b_txs b). posted_as (b_txs b) t e))
     \<and> sorted_wrt (<) (map fst (b_entries b))
     \<and> distinct (map (\<lambda>se. e_transactionID (snd se)) (b_entries b))
     \<and> (\<forall>t\<in>set (b_txs b). moved_money t \<longrightarrow> t_id t \<in> e_transactionID ` snd ` set (b_entries b))"

definition balanced :: "bank \<Rightarrow> Wallet \<Rightarrow> bool" where
  "balanced b w \<longleftrightarrow>
     chain 0 (entries_of b (w_id w)) (balance_value (w_balance w))
     \<and> (\<forall>e\<in>set (entries_of b (w_id w)). currency (e_amount e) = w_currency w)
     \<and> sint (w_version w) =
         1 + int (length (filter (\<lambda>e. e_transactionID e \<notin> opening_ids (b_txs b)) (entries_of b (w_id w))))"

definition bank_ok :: "bank \<Rightarrow> bool" where
  "bank_ok b \<longleftrightarrow> wallets_ok b \<and> txs_ok b \<and> entries_ok b \<and> (\<forall>w\<in>set (b_wallets b). balanced b w)"

section \<open>The specification of a commit\<close>

text \<open>A transaction row that may be written: new, or the next state of one that is not terminal.\<close>

definition writable :: "bank \<Rightarrow> WagerTransaction \<Rightarrow> bool" where
  "writable b t \<longleftrightarrow>
     tx_st t \<and> t_walletID t \<in> w_id ` set (b_wallets b)
     \<and> (\<forall>x\<in>set (b_txs b). t_id x \<noteq> t_id t \<longrightarrow> tx_compat x t \<and> tx_compat t x)
     \<and> (\<forall>x\<in>set (b_txs b). t_id x = t_id t \<longrightarrow> \<not> Tx_IsTerminal x \<and> same_request x t)"

inductive commit :: "bank \<Rightarrow> bank \<Rightarrow> bool" where
  opened_empty:
    "wallet_st w \<Longrightarrow> w_version w = 1 \<Longrightarrow> balance_value (w_balance w) = 0
     \<Longrightarrow> w_id w \<notin> w_id ` set (b_wallets b)
     \<Longrightarrow> (w_playerID w, w_currency w) \<notin> (\<lambda>x. (w_playerID x, w_currency x)) ` set (b_wallets b)
     \<Longrightarrow> commit b (b\<lparr>b_wallets := b_wallets b @ [w]\<rparr>)"
| opened_funded:
    "wallet_st w \<Longrightarrow> w_version w = 1
     \<Longrightarrow> w_id w \<notin> w_id ` set (b_wallets b)
     \<Longrightarrow> (w_playerID w, w_currency w) \<notin> (\<lambda>x. (w_playerID x, w_currency x)) ` set (b_wallets b)
     \<Longrightarrow> b1 = b\<lparr>b_wallets := b_wallets b @ [w]\<rparr>
     \<Longrightarrow> writable b1 t \<Longrightarrow> t_id t \<notin> t_id ` set (b_txs b)
     \<Longrightarrow> t_kind t = KindOpening \<Longrightarrow> t_walletID t = w_id w
     \<Longrightarrow> posted_as [t] t e \<Longrightarrow> entry_st e
     \<Longrightarrow> balance_value (e_balanceBefore e) = 0 \<Longrightarrow> e_balanceAfter e = w_balance w
     \<Longrightarrow> \<forall>n\<in>fst ` set (b_entries b). n < s
     \<Longrightarrow> commit b \<lparr>b_wallets = b_wallets b @ [w], b_txs = b_txs b @ [t], b_entries = b_entries b @ [(s, e)]\<rparr>"
| recorded:
    "writable b t \<Longrightarrow> \<not> moved_money t \<Longrightarrow> t_kind t \<noteq> KindOpening
     \<Longrightarrow> commit b (b\<lparr>b_txs := put_tx (b_txs b) t\<rparr>)"
| posted:
    "writable b t \<Longrightarrow> t_kind t \<noteq> KindOpening \<Longrightarrow> w \<in> set (b_wallets b)
     \<Longrightarrow> w_id w' = w_id w \<Longrightarrow> w_playerID w' = w_playerID w \<Longrightarrow> w_currency w' = w_currency w
     \<Longrightarrow> wallet_st w' \<Longrightarrow> sint (w_version w') = sint (w_version w) + 1
     \<Longrightarrow> t_walletID t = w_id w \<Longrightarrow> posted_as (put_tx (b_txs b) t) t e \<Longrightarrow> entry_st e
     \<Longrightarrow> e_balanceBefore e = w_balance w \<Longrightarrow> e_balanceAfter e = w_balance w'
     \<Longrightarrow> \<forall>n\<in>fst ` set (b_entries b). n < s
     \<Longrightarrow> commit b \<lparr>b_wallets = put_wallet (b_wallets b) w', b_txs = put_tx (b_txs b) t,
                   b_entries = b_entries b @ [(s, e)]\<rparr>"

section \<open>Lemmas on the operations\<close>

lemma set_put_tx: "set (put_tx ts t) = insert t {x \<in> set ts. t_id x \<noteq> t_id t}"
  by (auto simp: put_tx_def)

lemma put_tx_new: "t_id t \<notin> t_id ` set ts \<Longrightarrow> put_tx ts t = ts @ [t]"
  unfolding put_tx_def by (metis image_eqI)

lemma map_id_put_tx:
  "map t_id (put_tx ts t) = (if t_id t \<in> t_id ` set ts then map t_id ts else map t_id ts @ [t_id t])"
proof (cases "t_id t \<in> t_id ` set ts")
  case True
  then have "\<exists>x\<in>set ts. t_id x = t_id t" by force
  then show ?thesis using True by (auto simp: put_tx_def comp_def intro!: map_cong)
next
  case False
  then show ?thesis by (simp add: put_tx_new)
qed

lemma distinct_put_tx: "distinct (map t_id ts) \<Longrightarrow> distinct (map t_id (put_tx ts t))"
  by (auto simp: map_id_put_tx)

lemma map_put_wallet:
  assumes "w \<in> set ws" "distinct (map w_id ws)" "w_id w' = w_id w" "f w' = f w"
  shows "map f (put_wallet ws w') = map f ws"
proof -
  have "x = w" if "x \<in> set ws" "w_id x = w_id w" for x
    using that assms(1,2) by (auto simp: distinct_map inj_on_def)
  then show ?thesis using assms(3,4) by (auto simp: put_wallet_def intro!: map_cong)
qed

lemma set_put_wallet:
  assumes "w \<in> set ws" "w_id w' = w_id w"
  shows "set (put_wallet ws w') = insert w' {x \<in> set ws. w_id x \<noteq> w_id w}"
  using assms by (force simp: put_wallet_def)

lemma chain_append: "chain a (es @ fs) z \<longleftrightarrow> (\<exists>m. chain a es m \<and> chain m fs z)"
  by (induction es arbitrary: a) auto

text \<open>The chain makes the balance the sum of the signed movements.\<close>

lemma chain_sum:
  "chain a es z \<Longrightarrow> \<forall>e\<in>set es. entry_ok e \<Longrightarrow> z = a + sum_list (map entry_delta es)"
proof (induction es arbitrary: a)
  case Nil
  then show ?case by simp
next
  case (Cons e es)
  then have "z = balance_value (e_balanceAfter e) + sum_list (map entry_delta es)"
    by (intro Cons.IH) auto
  moreover have "balance_value (e_balanceAfter e) = a + entry_delta e"
    using Cons.prems by (simp add: entry_ok_def)
  ultimately show ?case by simp
qed

lemma entries_of_append:
  "entries_of \<lparr>b_wallets = ws, b_txs = ts, b_entries = b_entries b @ [(s, e)]\<rparr> i =
     (if e_walletID e = i then entries_of b i @ [e] else entries_of b i)"
  by (simp add: entries_of_def)

lemma entries_of_update [simp]:
  "entries_of (b\<lparr>b_txs := ts\<rparr>) i = entries_of b i" "entries_of (b\<lparr>b_wallets := ws\<rparr>) i = entries_of b i"
  by (simp_all add: entries_of_def)

section \<open>Writing a transaction keeps what others rest on\<close>

lemma opening_ids_put_tx:
  assumes "writable b t" "t_kind t \<noteq> KindOpening"
  shows "opening_ids (put_tx (b_txs b) t) = opening_ids (b_txs b)"
proof -
  have "t_kind x \<noteq> KindOpening" if "x \<in> set (b_txs b)" "t_id x = t_id t" for x
    using that assms by (auto simp: writable_def same_request_def)
  then show ?thesis using assms(2) by (auto simp: opening_ids_def set_put_tx)
qed

text \<open>A processed transaction is not touched, and what it refers to stays.\<close>

lemma processed_kept:
  "writable b t \<Longrightarrow> x \<in> set (b_txs b) \<Longrightarrow> t_status x = StatusProcessed \<Longrightarrow> x \<in> set (put_tx (b_txs b) t)"
  by (auto simp: writable_def set_put_tx Tx_IsTerminal_def)

lemma reverses_put_tx:
  assumes "writable b t" "reverses (b_txs b) x d"
  shows "reverses (put_tx (b_txs b) t) x d"
  using assms processed_kept [OF assms(1)] unfolding reverses_def by blast

lemma posted_as_put_tx:
  assumes "writable b t" "posted_as (b_txs b) x e"
  shows "posted_as (put_tx (b_txs b) t) x e"
  using assms reverses_put_tx [OF assms(1)]
  by (auto simp: posted_as_def directed_def split: kind.splits)

lemma txs_ok_put:
  assumes "txs_ok b" "writable b t" "w_id ` set ws = w_id ` set (b_wallets b)"
  shows "txs_ok \<lparr>b_wallets = ws, b_txs = put_tx (b_txs b) t, b_entries = es\<rparr>"
  using assms
  by (auto simp: txs_ok_def writable_def set_put_tx distinct_put_tx)

lemma entries_kept:
  assumes "writable b t" "\<forall>e\<in>snd ` set (b_entries b). entry_st e \<and> (\<exists>x\<in>set (b_txs b). posted_as (b_txs b) x e)"
  shows "\<forall>e\<in>snd ` set (b_entries b). entry_st e
    \<and> (\<exists>x\<in>set (put_tx (b_txs b) t). posted_as (put_tx (b_txs b) t) x e)"
proof
  fix e assume "e \<in> snd ` set (b_entries b)"
  then obtain x where "entry_st e" "x \<in> set (b_txs b)" "posted_as (b_txs b) x e" using assms(2) by blast
  moreover from this have "x \<in> set (put_tx (b_txs b) t)"
    using processed_kept [OF assms(1)] by (simp add: posted_as_def moved_money_def)
  ultimately show "entry_st e \<and> (\<exists>x\<in>set (put_tx (b_txs b) t). posted_as (put_tx (b_txs b) t) x e)"
    using posted_as_put_tx [OF assms(1)] by blast
qed


section \<open>Every commit keeps the invariant\<close>

lemma recorded_ok:
  assumes ok: "bank_ok b" and wr: "writable b t" "\<not> moved_money t" "t_kind t \<noteq> KindOpening"
  shows "bank_ok (b\<lparr>b_txs := put_tx (b_txs b) t\<rparr>)"
proof -
  let ?b = "b\<lparr>b_txs := put_tx (b_txs b) t\<rparr>"
  have "wallets_ok ?b" using ok by (simp add: bank_ok_def wallets_ok_def)
  moreover have "txs_ok ?b"
    using txs_ok_put [OF _ wr(1), of "b_wallets b" "b_entries b"] ok
    by (cases b) (simp add: bank_ok_def)
  moreover have "entries_ok ?b"
  proof -
    have "\<forall>f\<in>snd ` set (b_entries b). entry_st f
        \<and> (\<exists>x\<in>set (put_tx (b_txs b) t). posted_as (put_tx (b_txs b) t) x f)"
      by (rule entries_kept [OF wr(1)]) (use ok in \<open>simp add: bank_ok_def entries_ok_def\<close>)
    moreover have "\<forall>x\<in>set (put_tx (b_txs b) t). moved_money x \<longrightarrow>
        t_id x \<in> e_transactionID ` snd ` set (b_entries b)"
      using ok wr(2) by (simp add: set_put_tx bank_ok_def entries_ok_def)
    ultimately show ?thesis using ok by (simp add: bank_ok_def entries_ok_def)
  qed
  moreover have "balanced ?b w" if "balanced b w" for w
    using that opening_ids_put_tx [OF wr(1,3)] by (simp add: balanced_def)
  ultimately show ?thesis using ok by (simp add: bank_ok_def)
qed

lemma entry_posted:
  assumes "entries_ok b" "e \<in> snd ` set (b_entries b)"
  obtains t where "t \<in> set (b_txs b)" "posted_as (b_txs b) t e" "entry_st e"
proof -
  have "\<forall>e\<in>snd ` set (b_entries b). entry_st e \<and> (\<exists>t\<in>set (b_txs b). posted_as (b_txs b) t e)"
    using assms(1) by (simp add: entries_ok_def)
  from bspec [OF this assms(2)] show ?thesis using that by blast
qed

text \<open>A posted transaction is new to the ledger.\<close>

lemma posted_fresh:
  assumes "entries_ok b" "writable b t"
  shows "t_id t \<notin> e_transactionID ` snd ` set (b_entries b)"
proof
  assume "t_id t \<in> e_transactionID ` snd ` set (b_entries b)"
  then obtain x e where "x \<in> set (b_txs b)" "posted_as (b_txs b) x e" "t_id t = e_transactionID e"
    using assms(1) by (auto simp: entries_ok_def)
  then show False
    using assms(2) by (auto simp: posted_as_def moved_money_def writable_def Tx_IsTerminal_def)
qed

lemma posted_entries_ok:
  assumes ok: "entries_ok b" and wr: "writable b t"
    and e: "posted_as (put_tx (b_txs b) t) t e" "entry_st e" "\<forall>n\<in>fst ` set (b_entries b). n < s"
  shows "entries_ok \<lparr>b_wallets = ws, b_txs = put_tx (b_txs b) t, b_entries = b_entries b @ [(s, e)]\<rparr>"
proof -
  have fresh: "e_transactionID e \<notin> e_transactionID ` snd ` set (b_entries b)"
    using posted_fresh [OF ok wr] e(1) by (simp add: posted_as_def)
  have "distinct (map (\<lambda>se. e_transactionID (snd se)) (b_entries b @ [(s, e)]))"
    using ok fresh by (auto simp: entries_ok_def image_image)
  moreover have "sorted_wrt (<) (map fst (b_entries b @ [(s, e)]))"
    using ok e(3) by (auto simp: entries_ok_def sorted_wrt_append)
  moreover have "\<forall>x\<in>set (put_tx (b_txs b) t). moved_money x \<longrightarrow>
      t_id x \<in> e_transactionID ` snd ` set (b_entries b @ [(s, e)])"
    using ok e(1) by (auto simp: set_put_tx entries_ok_def posted_as_def)
  moreover have "\<forall>f\<in>snd ` set (b_entries b @ [(s, e)]). entry_st f
      \<and> (\<exists>x\<in>set (put_tx (b_txs b) t). posted_as (put_tx (b_txs b) t) x f)"
  proof -
    have "\<forall>f\<in>snd ` set (b_entries b). entry_st f
        \<and> (\<exists>x\<in>set (put_tx (b_txs b) t). posted_as (put_tx (b_txs b) t) x f)"
      by (rule entries_kept [OF wr]) (use ok in \<open>simp add: entries_ok_def\<close>)
    moreover have "t \<in> set (put_tx (b_txs b) t)" by (simp add: set_put_tx)
    ultimately show ?thesis using e(1,2) by (simp add: image_Un ball_Un) blast
  qed
  ultimately show ?thesis by (simp add: entries_ok_def)
qed

lemma posted_ok:
  assumes ok: "bank_ok b" and wr: "writable b t" "t_kind t \<noteq> KindOpening"
    and w: "w \<in> set (b_wallets b)" "w_id w' = w_id w" "w_playerID w' = w_playerID w"
      "w_currency w' = w_currency w" "wallet_st w'" "sint (w_version w') = sint (w_version w) + 1"
    and e: "t_walletID t = w_id w" "posted_as (put_tx (b_txs b) t) t e" "entry_st e"
      "e_balanceBefore e = w_balance w" "e_balanceAfter e = w_balance w'"
      "\<forall>n\<in>fst ` set (b_entries b). n < s"
  shows "bank_ok \<lparr>b_wallets = put_wallet (b_wallets b) w', b_txs = put_tx (b_txs b) t,
    b_entries = b_entries b @ [(s, e)]\<rparr>" (is "bank_ok ?b")
proof -
  have d: "distinct (map w_id (b_wallets b))" using ok by (simp add: bank_ok_def wallets_ok_def)
  have ids: "map w_id (put_wallet (b_wallets b) w') = map w_id (b_wallets b)"
    by (rule map_put_wallet [OF w(1) d w(2)]) (use w in simp)
  have pc: "map (\<lambda>x. (w_playerID x, w_currency x)) (put_wallet (b_wallets b) w')
      = map (\<lambda>x. (w_playerID x, w_currency x)) (b_wallets b)"
    by (rule map_put_wallet [OF w(1) d w(2)]) (use w in simp)
  have "wallets_ok ?b"
    using ok ids pc w set_put_wallet [OF w(1,2)] by (auto simp: bank_ok_def wallets_ok_def)
  moreover have "txs_ok ?b"
    using txs_ok_put [OF _ wr(1), of "put_wallet (b_wallets b) w'"] ok ids
    by (metis bank_ok_def list.set_map)
  moreover have "entries_ok ?b"
    by (rule posted_entries_ok [OF _ wr(1) e(2,3,6)]) (use ok in \<open>simp add: bank_ok_def\<close>)
  moreover have "balanced ?b x" if x: "x \<in> set (b_wallets b)" "w_id x \<noteq> w_id w" for x
  proof -
    have "e_walletID e \<noteq> w_id x" using x(2) e(1,2) by (simp add: posted_as_def)
    then have "entries_of ?b (w_id x) = entries_of b (w_id x)" by (simp add: entries_of_append)
    then show ?thesis
      using ok x(1) opening_ids_put_tx [OF wr] by (simp add: bank_ok_def balanced_def)
  qed
  moreover have "balanced ?b w'"
  proof -
    have bal: "balanced b w" using ok w(1) by (simp add: bank_ok_def)
    have "e_walletID e = w_id w" using e(1,2) by (simp add: posted_as_def)
    then have es: "entries_of ?b (w_id w') = entries_of b (w_id w) @ [e]"
      using w(2) by (simp add: entries_of_append)
    have "e_transactionID e \<notin> opening_ids (b_txs b)"
    proof
      assume "e_transactionID e \<in> opening_ids (b_txs b)"
      then obtain x where "x \<in> set (b_txs b)" "t_id x = t_id t" "t_kind x = KindOpening"
        using e(2) by (auto simp: opening_ids_def posted_as_def)
      then show False using wr by (auto simp: writable_def same_request_def)
    qed
    moreover have "currency (e_amount e) = w_currency w"
      using e(3,4) ok w(1)
      by (auto simp: entry_st_def entry_ok_def bank_ok_def wallets_ok_def wallet_st_def wallet_ok_def)
    ultimately show ?thesis
      using bal w e es opening_ids_put_tx [OF wr] by (simp add: balanced_def chain_append)
  qed
  ultimately show ?thesis
    using set_put_wallet [OF w(1,2)] by (auto simp: bank_ok_def)
qed

text \<open>A wallet that was not there has no ledger.\<close>

lemma no_entries:
  assumes "bank_ok b" "i \<notin> w_id ` set (b_wallets b)"
  shows "entries_of b i = []"
proof (rule ccontr)
  assume "entries_of b i \<noteq> []"
  then obtain e where "e \<in> snd ` set (b_entries b)" "e_walletID e = i"
    by (auto simp: entries_of_def filter_empty_conv)
  then obtain t where "t \<in> set (b_txs b)" "t_walletID t = i"
    using assms(1) by (auto simp: bank_ok_def entries_ok_def posted_as_def)
  then show False using assms by (auto simp: bank_ok_def txs_ok_def)
qed

lemma opened_empty_ok:
  assumes ok: "bank_ok b" and w: "wallet_st w" "w_version w = 1" "balance_value (w_balance w) = 0"
      "w_id w \<notin> w_id ` set (b_wallets b)"
      "(w_playerID w, w_currency w) \<notin> (\<lambda>x. (w_playerID x, w_currency x)) ` set (b_wallets b)"
  shows "bank_ok (b\<lparr>b_wallets := b_wallets b @ [w]\<rparr>)"
  using assms no_entries [OF ok w(4)]
  by (auto simp: bank_ok_def wallets_ok_def txs_ok_def entries_ok_def balanced_def)

lemma opened_funded_ok:
  assumes ok: "bank_ok b" and w: "wallet_st w" "w_version w = 1" 
      "w_id w \<notin> w_id ` set (b_wallets b)"
      "(w_playerID w, w_currency w) \<notin> (\<lambda>x. (w_playerID x, w_currency x)) ` set (b_wallets b)"
    and t: "b1 = b\<lparr>b_wallets := b_wallets b @ [w]\<rparr>" "writable b1 t" "t_id t \<notin> t_id ` set (b_txs b)"
      "t_kind t = KindOpening" "t_walletID t = w_id w"
    and e: "posted_as [t] t e" "entry_st e" "balance_value (e_balanceBefore e) = 0"
      "e_balanceAfter e = w_balance w" "\<forall>n\<in>fst ` set (b_entries b). n < s"
  shows "bank_ok \<lparr>b_wallets = b_wallets b @ [w], b_txs = b_txs b @ [t], b_entries = b_entries b @ [(s, e)]\<rparr>"
    (is "bank_ok ?b")
proof -
  have put: "put_tx (b_txs b) t = b_txs b @ [t]" by (rule put_tx_new [OF t(3)])
  have wr: "writable (b\<lparr>b_wallets := ws\<rparr>) t" if "w_id w \<in> w_id ` set ws" for ws
    using t that by (auto simp: writable_def)
  have post: "posted_as (put_tx (b_txs b) t) t e"
    using e(1) t(4) by (simp add: posted_as_def directed_def)
  have "wallets_ok ?b" using ok w by (auto simp: bank_ok_def wallets_ok_def)
  moreover have "txs_ok ?b"
  proof -
    have "tx_compat x t \<and> tx_compat t x" if "x \<in> set (b_txs b)" for x
    proof -
      have "t_id x \<noteq> t_id t" using that t(3) by (metis imageI)
      then show ?thesis using that t(1,2) by (simp add: writable_def)
    qed
    then show ?thesis using ok t by (auto simp: bank_ok_def txs_ok_def writable_def)
  qed
  moreover have "entries_ok ?b"
  proof -
    have "entries_ok b1" using ok t(1) by (simp add: bank_ok_def entries_ok_def)
    from posted_entries_ok [OF this t(2), of e s "b_wallets b @ [w]"] post e(2,5) show ?thesis
      by (simp add: t(1) put)
  qed
  moreover have "balanced ?b x" if x: "x \<in> set (b_wallets b)" for x
  proof -
    have "e_walletID e \<noteq> w_id x" using x w(3) e(1) t(5) by (auto simp: posted_as_def)
    then have es: "entries_of ?b (w_id x) = entries_of b (w_id x)" by (simp add: entries_of_append)
    have "f \<in> snd ` set (b_entries b)" if "f \<in> set (entries_of b (w_id x))" for f
      using that by (auto simp: entries_of_def)
    moreover have "e_transactionID f \<in> t_id ` set (b_txs b)" if f: "f \<in> snd ` set (b_entries b)" for f
    proof -
      obtain y where "y \<in> set (b_txs b)" "posted_as (b_txs b) y f"
        using entry_posted [OF _ f] ok by (auto simp: bank_ok_def)
      then have "e_transactionID f = t_id y" by (simp add: posted_as_def)
      with \<open>y \<in> set (b_txs b)\<close> show ?thesis by simp
    qed
    ultimately have "e_transactionID f \<noteq> t_id t" if "f \<in> set (entries_of b (w_id x))" for f
      using that t(3) by metis
    then have "filter (\<lambda>f. e_transactionID f \<notin> opening_ids (b_txs b @ [t])) (entries_of b (w_id x))
        = filter (\<lambda>f. e_transactionID f \<notin> opening_ids (b_txs b)) (entries_of b (w_id x))"
      by (intro filter_cong) (auto simp: opening_ids_def)
    then show ?thesis using ok x es by (simp add: bank_ok_def balanced_def)
  qed
  moreover have "balanced ?b w"
  proof -
    have "entries_of ?b (w_id w) = [e]"
      using no_entries [OF ok w(3)] e(1) t(5) by (simp add: entries_of_append posted_as_def)
    moreover have "e_transactionID e \<in> opening_ids (b_txs b @ [t])"
      using e(1) t(4) by (auto simp: opening_ids_def posted_as_def intro!: image_eqI [of _ _ t])
    moreover have "currency (e_amount e) = w_currency w"
      using e(2,4) w(1) by (auto simp: entry_st_def entry_ok_def wallet_st_def wallet_ok_def)
    ultimately show ?thesis using e w by (simp add: balanced_def)
  qed
  ultimately show ?thesis by (simp add: bank_ok_def)
qed

lemma commit_ok: "commit b b' \<Longrightarrow> bank_ok b \<Longrightarrow> bank_ok b'"
  by (induction rule: commit.induct)
    (auto intro: opened_empty_ok opened_funded_ok recorded_ok posted_ok)

lemma empty_bank_ok: "bank_ok empty_bank"
  by (simp add: bank_ok_def empty_bank_def wallets_ok_def txs_ok_def entries_ok_def)

end
