(* ===== verification/Repos.thy ===== *)
theory Repos
  imports Bank
begin

text \<open>
  What the repositories promise of the abstract state: a database \<open>represents\<close> a bank, and each
  write of a repository, when it succeeds, is the corresponding write of the bank, together
  with what the constraints of the schema guarantee about it. A repository never reports a
  business rule.
\<close>

definition represents :: "database \<Rightarrow> bank \<Rightarrow> bool" where
  "represents d b \<longleftrightarrow>
     wt.holds d (b_wallets b) \<and> tt.holds d (b_txs b) \<and> lt.holds d (b_entries b)
     \<and> (\<forall>n\<in>fst ` set (b_entries b). n < d_ledger_seq d)"

definition empty_db :: database where
  "empty_db = \<lparr>d_wallets = [], d_transactions = [], d_ledger = [], d_inbox = [], d_outbox = [],
     d_ledger_seq = 1, d_outbox_seq = 1\<rparr>"

lemma represents_empty: "represents empty_db empty_bank"
  by (simp add: represents_def empty_db_def empty_bank_def wt.holds_def tt.holds_def lt.holds_def)

text \<open>The financial tables are untouched.\<close>

definition same_bank :: "database \<Rightarrow> database \<Rightarrow> bool" where
  "same_bank d d' \<longleftrightarrow> d_wallets d' = d_wallets d \<and> d_transactions d' = d_transactions d
     \<and> d_ledger d' = d_ledger d \<and> d_ledger_seq d \<le> d_ledger_seq d'"

lemma same_bank_refl [simp]: "same_bank d d"
  by (simp add: same_bank_def)

lemma represents_same_bank: "represents d b \<Longrightarrow> same_bank d d' \<Longrightarrow> represents d' b"
  by (fastforce simp: represents_def same_bank_def wt.holds_def tt.holds_def lt.holds_def)

lemma ident_String_inj [simp]: "ident_String a = ident_String b \<longleftrightarrow> a = b"
  by (cases a; cases b) simp

section \<open>Reading\<close>

lemma find_wallet_eq:
  "Wallets_FindByID \<Gamma> i = wt.lookup \<Gamma> (\<lambda>r. wr_id r = ident_String i)"
  "Wallets_FindByIDForUpdate \<Gamma> i = wt.lookup \<Gamma> (\<lambda>r. wr_id r = ident_String i)"
  by (simp_all add: Wallets_FindByID_def Wallets_FindByIDForUpdate_def wt.lookup_def)

lemma find_tx_eq:
  "Transactions_FindByID \<Gamma> j = tt.lookup \<Gamma> (\<lambda>r. tr_id r = ident_String j)"
  "Transactions_FindByBusinessID \<Gamma> p x = tt.lookup \<Gamma> (\<lambda>r. tr_provider_id r = Some (ident_String p)
     \<and> tr_external_id r = Some (ident_String x))"
  "Transactions_FindProcessedReversalOf \<Gamma> j = tt.lookup \<Gamma> (\<lambda>r. tr_resolved_reference_id r = Some (ident_String j)
     \<and> tr_status r = ''PROCESSED'')"
  by (simp_all add: Transactions_FindByID_def Transactions_FindByBusinessID_def
      Transactions_FindProcessedReversalOf_def tt.lookup_def)

lemma nullable_Some [simp]:
  "nullable s = Some t \<longleftrightarrow> s = t \<and> t \<noteq> ''''"
  by (auto simp: nullable_def)

lemma find_wallet_ok:
  assumes "Wallets_FindByIDForUpdate \<Gamma> i w = (Inr x, w')" "represents (db w) b"
  shows "x \<in> set (b_wallets b) \<and> w_id x = i \<and> wallet_st x \<and> same_world w w'"
  using wt.lookup_ok [of \<Gamma> "\<lambda>r. wr_id r = ident_String i" w x w' "b_wallets b"] assms
  by (auto simp: find_wallet_eq represents_def wallet_row_of_def wt.holds_def)

lemma find_wallet_err:
  assumes "Wallets_FindByIDForUpdate \<Gamma> i w = (Inl e, w')" "represents (db w) b"
  shows "as_domain e = None"
  using wt.lookup_err [of \<Gamma> "\<lambda>r. wr_id r = ident_String i" w e w' "b_wallets b"] assms
  by (auto simp: find_wallet_eq represents_def)

lemma find_business_ok:
  assumes "Transactions_FindByBusinessID \<Gamma> p x w = (Inr t, w')" "represents (db w) b"
  shows "t \<in> set (b_txs b) \<and> t_providerID t = p \<and> t_externalID t = x \<and> tx_st t \<and> same_world w w'"
  using tt.lookup_ok [of \<Gamma> "\<lambda>r. tr_provider_id r = Some (ident_String p) \<and> tr_external_id r = Some (ident_String x)"
      w t w' "b_txs b"] assms
  by (auto simp: find_tx_eq represents_def tx_row_of_def tt.holds_def)

lemma find_business_err:
  assumes "Transactions_FindByBusinessID \<Gamma> p x w = (Inl e, w')" "represents (db w) b"
  shows "as_domain e = None \<and> db w' = db w \<and> in_tx w' = in_tx w
    \<and> (errors_Is e ErrNotFound \<longrightarrow> same_world w w'
       \<and> (\<not> ident_IsZero p \<and> \<not> ident_IsZero x \<longrightarrow> (\<forall>t\<in>set (b_txs b). \<not> (t_providerID t = p \<and> t_externalID t = x))))"
  using tt.lookup_err [of \<Gamma> "\<lambda>r. tr_provider_id r = Some (ident_String p) \<and> tr_external_id r = Some (ident_String x)"
      w e w' "b_txs b"] assms
  by (auto simp: find_tx_eq represents_def tx_row_of_def tt.holds_def)

lemma find_reversal_ok:
  assumes "Transactions_FindProcessedReversalOf \<Gamma> j w = (Inr t, w')" "represents (db w) b"
  shows "t \<in> set (b_txs b) \<and> t_resolvedReferenceID t = j \<and> t_status t = StatusProcessed \<and> same_world w w'"
proof -
  have "t \<in> set (b_txs b) \<and> t_resolvedReferenceID t = j \<and> string_of_status (t_status t) = ''PROCESSED''
      \<and> same_world w w' \<and> tx_st t"
    using tt.lookup_ok [of \<Gamma> "\<lambda>r. tr_resolved_reference_id r = Some (ident_String j) \<and> tr_status r = ''PROCESSED''"
        w t w' "b_txs b"] assms
    by (auto simp: find_tx_eq represents_def tx_row_of_def tt.holds_def)
  then show ?thesis
    by (cases "t_status t") (auto simp: tx_st_def tx_ok_def tx_shape_def)
qed

lemma find_reversal_err:
  assumes "Transactions_FindProcessedReversalOf \<Gamma> j w = (Inl e, w')" "represents (db w) b"
  shows "as_domain e = None \<and> db w' = db w \<and> in_tx w' = in_tx w
    \<and> (errors_Is e ErrNotFound \<longrightarrow> same_world w w'
       \<and> (\<not> ident_IsZero j \<longrightarrow> (\<forall>t\<in>set (b_txs b). \<not> (t_resolvedReferenceID t = j \<and> t_status t = StatusProcessed))))"
  using tt.lookup_err [of \<Gamma> "\<lambda>r. tr_resolved_reference_id r = Some (ident_String j) \<and> tr_status r = ''PROCESSED''"
      w e w' "b_txs b"] assms
  by (auto simp: find_tx_eq represents_def tx_row_of_def tt.holds_def)

section \<open>Writing wallets and entries\<close>

lemma Wallets_Insert_ok:
  assumes "Wallets_Insert \<Gamma> x w = (Inr u, w')" "represents (db w) b" "wallet_st (trunc_wallet x)"
  shows "represents (db w') (b\<lparr>b_wallets := b_wallets b @ [trunc_wallet x]\<rparr>)
    \<and> w_id x \<notin> w_id ` set (b_wallets b)
    \<and> (w_playerID x, w_currency x) \<notin> (\<lambda>y. (w_playerID y, w_currency y)) ` set (b_wallets b)
    \<and> in_tx w' = in_tx w \<and> aborted w' = aborted w"
proof -
  have "stmt \<Gamma> (\<lambda>_. insert_wallet (wallet_row_of x)) w = (Inr u, w')"
    using assms(1) by (auto simp: Wallets_Insert_def elim!: io_translate_okE split: if_splits)
  then have ins: "insert_wallet (wallet_row_of x) (db w) = (Inr u, db w')"
    and st: "in_tx w' = in_tx w" "aborted w' = aborted w"
    by (auto elim: stmt_okE)
  have iso: "iso4217 (code_str (w_currency x))" using assms(3) by (simp add: wallet_st_def trunc_wallet_def)
  then have row: "(wallet_row_of x)\<lparr>wr_currency := char3 (take 3 (wr_currency (wallet_row_of x)))\<rparr> = wallet_row_of x"
    and "\<not> too_long (wr_currency (wallet_row_of x))"
    by (simp_all add: wallet_row_of_def Currency_String_def currency_column)
  with ins have ref: "refusal ''wallets'' (wallet_checks (wallet_row_of x))
        (wallet_uniques (d_wallets (db w)) (wallet_row_of x)) [] = None"
    and d: "db w' = (db w)\<lparr>d_wallets := d_wallets (db w) @ [wallet_row_of x]\<rparr>"
    by (auto simp: insert_wallet_def Let_def row split: option.splits)
  have rows: "d_wallets (db w) = map wallet_row_of (b_wallets b)"
    using assms(2) by (simp add: represents_def wt.holds_def)
  have "w_id x \<notin> w_id ` set (b_wallets b)"
    "(w_playerID x, w_currency x) \<notin> (\<lambda>y. (w_playerID y, w_currency y)) ` set (b_wallets b)"
    using ref by (auto simp: refusal_None wallet_uniques_def rows wallet_row_of_def Currency_String_def)
  moreover have "represents (db w') (b\<lparr>b_wallets := b_wallets b @ [trunc_wallet x]\<rparr>)"
    using assms(2,3) d
    by (auto simp: represents_def wt.holds_def tt.holds_def lt.holds_def)
  ultimately show ?thesis using st by simp
qed

lemma Ledger_Append_ok:
  assumes "Ledger_Append \<Gamma> e w = (Inr u, w')" "represents (db w) b" "entry_st (trunc_entry e)"
  shows "represents (db w') (b\<lparr>b_entries := b_entries b @ [(d_ledger_seq (db w), trunc_entry e)]\<rparr>)
    \<and> (\<forall>n\<in>fst ` set (b_entries b). n < d_ledger_seq (db w))
    \<and> in_tx w' = in_tx w \<and> aborted w' = aborted w"
proof -
  have "stmt \<Gamma> (\<lambda>_. insert_ledger (ledger_row_of e)) w = (Inr u, w')"
    using assms(1) by (auto simp: Ledger_Append_def elim!: io_translate_okE)
  then have ins: "insert_ledger (ledger_row_of e) (db w) = (Inr u, db w')"
    and st: "in_tx w' = in_tx w" "aborted w' = aborted w"
    by (auto elim: stmt_okE)
  have iso: "iso4217 (code_str (currency (e_amount e)))"
    using assms(3) by (simp add: entry_st_def trunc_entry_def)
  let ?s = "d_ledger_seq (db w)"
  have row: "(ledger_row_of e)\<lparr>lr_currency := char3 (take 3 (lr_currency (ledger_row_of e))), lr_seq := ?s\<rparr>
      = numbered_row (?s, trunc_entry e)"
    and "\<not> too_long (lr_currency (ledger_row_of e))"
    using iso by (simp_all add: ledger_row_of_def Currency_String_def currency_column)
  with ins have d: "db w' = (db w)\<lparr>d_ledger_seq := Suc ?s, d_ledger := d_ledger (db w) @ [numbered_row (?s, trunc_entry e)]\<rparr>"
    unfolding insert_ledger_def Let_def row by (auto split: option.splits)
  have "represents (db w') (b\<lparr>b_entries := b_entries b @ [(?s, trunc_entry e)]\<rparr>)"
    using assms(2,3) unfolding d
    by (auto simp: represents_def wt.holds_def tt.holds_def lt.holds_def less_Suc_eq)
  moreover have "\<forall>n\<in>fst ` set (b_entries b). n < ?s" using assms(2) by (simp add: represents_def)
  ultimately show ?thesis using st by simp
qed

text \<open>The conditional update of a balance: it hits the wallet at the version it was read at.\<close>

lemma Wallets_UpdateBalance_ok:
  assumes "Wallets_UpdateBalance \<Gamma> x v w = (Inr u, w')" "represents (db w) b"
    and old: "y \<in> set (b_wallets b)" "distinct (map w_id (b_wallets b))" "w_id x = w_id y"
      "w_playerID x = w_playerID y" "w_currency x = w_currency y" "w_createdAt x = w_createdAt y"
    and st: "1 \<le> sint (w_version x) \<Longrightarrow> wallet_st (trunc_wallet x)"
  shows "represents (db w') (b\<lparr>b_wallets := put_wallet (b_wallets b) (trunc_wallet x)\<rparr>)
    \<and> w_version y = v \<and> 1 \<le> sint (w_version x) \<and> in_tx w' = in_tx w \<and> aborted w' = aborted w"
proof -
  let ?p = "\<lambda>r. wr_id r = ident_String (w_id x) \<and> wr_version r = v"
  let ?f = "\<lambda>r. r\<lparr>wr_balance_minor := minor (w_balance x), wr_version := w_version x,
                   wr_updated_at := pg_time (w_updatedAt x)\<rparr>"
  have s: "stmt \<Gamma> (\<lambda>_. update_wallets ?p ?f) w = (Inr 1, w')"
    using assms(1)
    by (auto simp: Wallets_UpdateBalance_def bindE_Inr_iff elim!: io_translate_okE split: if_splits)
  then have upd: "update_wallets ?p ?f (db w) = (Inr 1, db w')"
    and ab: "in_tx w' = in_tx w" "aborted w' = aborted w"
    by (auto elim: stmt_okE)
  let ?hit = "filter ?p (d_wallets (db w))"
  have fv: "first_violated (concat (map (\<lambda>r. wallet_checks (?f r)) ?hit)) = None" and len: "length ?hit = 1"
    and d: "db w' = (db w)\<lparr>d_wallets := map (\<lambda>r. if ?p r then ?f r else r) (d_wallets (db w))\<rparr>"
    using upd by (auto simp: update_wallets_def Let_def split: option.splits)
  have rows: "d_wallets (db w) = map wallet_row_of (b_wallets b)"
    using assms(2) by (simp add: represents_def wt.holds_def)
  obtain r where r: "?hit = [r]" using len by (auto simp: length_Suc_conv)
  then have "r \<in> set ?hit" by simp
  then obtain z where z: "z \<in> set (b_wallets b)" "r = wallet_row_of z" "?p (wallet_row_of z)"
    by (auto simp: rows)
  then have zy: "z = y"
    using old by (auto simp: wallet_row_of_def distinct_map inj_on_def)
  have ver: "w_version y = v" using z zy by (simp add: wallet_row_of_def)
  have chk: "1 \<le> sint (w_version x)"
    using fv r by (simp add: first_violated_None wallet_checks_def)
  have new: "?f (wallet_row_of y) = wallet_row_of (trunc_wallet x)"
    using old by (simp add: wallet_row_of_def trunc_wallet_def)
  have "(if ?p (wallet_row_of q) then ?f (wallet_row_of q) else wallet_row_of q)
      = wallet_row_of (if w_id q = w_id (trunc_wallet x) then trunc_wallet x else q)"
    if "q \<in> set (b_wallets b)" for q
  proof (cases "w_id q = w_id x")
    case True
    then have "q = y" using that old by (auto simp: distinct_map inj_on_def)
    then show ?thesis using z zy new old by (simp add: trunc_wallet_def)
  next
    case False
    then show ?thesis by (simp add: wallet_row_of_def trunc_wallet_def)
  qed
  then have "d_wallets (db w') = map wallet_row_of (put_wallet (b_wallets b) (trunc_wallet x))"
    unfolding d by (simp add: rows put_wallet_def)
  moreover have "\<forall>q\<in>set (put_wallet (b_wallets b) (trunc_wallet x)). wallet_st q"
    using assms(2) st [OF chk] by (auto simp: put_wallet_def represents_def wt.holds_def)
  ultimately have "represents (db w') (b\<lparr>b_wallets := put_wallet (b_wallets b) (trunc_wallet x)\<rparr>)"
    using assms(2) d by (simp add: represents_def wt.holds_def tt.holds_def lt.holds_def)
  then show ?thesis using ver chk ab by simp
qed


section \<open>Writing transactions\<close>

lemma string_of_status_eq:
  "Status_Valid s \<Longrightarrow> string_of_status s = ''PROCESSED'' \<longleftrightarrow> s = StatusProcessed"
  by (cases s) auto

lemma string_of_kind_eq: "Kind_Valid k \<Longrightarrow> string_of_kind k = ''OPENING'' \<longleftrightarrow> k = KindOpening"
  by (cases k) auto

lemma terminal_row_iff: "Status_Valid (t_status t) \<Longrightarrow> terminal_row (tx_row_of t) \<longleftrightarrow> Tx_IsTerminal t"
  by (cases "t_status t") (simp_all add: terminal_row_def tx_row_of_def Tx_IsTerminal_def)

lemma same_value_nullable [simp]:
  "same_value (nullable (ident_String a)) (nullable (ident_String b)) \<longleftrightarrow> a = b \<and> \<not> ident_IsZero a"
  by (auto simp: same_value_def nullable_def)

lemma tx_st_valid:
  assumes "tx_st t"
  shows "Status_Valid (t_status t)" "Kind_Valid (t_kind t)"
    "\<not> ident_IsZero (t_providerID t) \<longleftrightarrow> t_kind t \<noteq> KindOpening"
    "\<not> ident_IsZero (t_externalID t) \<longleftrightarrow> t_kind t \<noteq> KindOpening"
    "\<not> ident_IsZero (t_idempotencyKey t) \<longleftrightarrow> t_kind t \<noteq> KindOpening"
    "string_of_origin (t_origin t) = ''EXTERNAL'' \<longleftrightarrow> t_kind t \<noteq> KindOpening"
  using assms by (auto simp: tx_st_def tx_ok_def tx_shape_def tx_metadata_ok_def split: if_splits)

text \<open>What the unique indexes let through is compatible.\<close>

lemma compat_of_uniques:
  assumes x: "tx_st x" and t: "tx_st t"
    and u: "\<forall>(n, ok)\<in>set (tx_uniques others (tx_row_of t)). ok" and o: "tx_row_of x \<in> set others"
  shows "tx_compat x t"
proof -
  note sel = tx_row_of_def tx_row.select_convs
  have id: "t_id x \<noteq> t_id t"
    and ext: "tr_origin (tx_row_of t) = ''EXTERNAL'' \<longrightarrow>
      \<not> (tr_origin (tx_row_of x) = ''EXTERNAL''
         \<and> same_value (tr_provider_id (tx_row_of x)) (tr_provider_id (tx_row_of t))
         \<and> same_value (tr_external_id (tx_row_of x)) (tr_external_id (tx_row_of t)))"
    and key: "tr_origin (tx_row_of t) = ''EXTERNAL'' \<longrightarrow>
      \<not> (tr_origin (tx_row_of x) = ''EXTERNAL''
         \<and> same_value (tr_provider_id (tx_row_of x)) (tr_provider_id (tx_row_of t))
         \<and> same_value (tr_idempotency_key (tx_row_of x)) (tr_idempotency_key (tx_row_of t)))"
    and opn: "\<not> (tr_kind (tx_row_of t) = ''OPENING'' \<and> tr_kind (tx_row_of x) = ''OPENING''
      \<and> tr_wallet_id (tx_row_of x) = tr_wallet_id (tx_row_of t))"
    and rev: "\<not> (tr_status (tx_row_of t) = ''PROCESSED'' \<and> tr_status (tx_row_of x) = ''PROCESSED''
      \<and> same_value (tr_resolved_reference_id (tx_row_of x)) (tr_resolved_reference_id (tx_row_of t)))"
    using u o unfolding tx_uniques_def by (auto simp: sel(1))
  note vx = tx_st_valid [OF x] and vt = tx_st_valid [OF t]
  have "\<not> (\<not> ident_IsZero (t_providerID x) \<and> t_providerID x = t_providerID t \<and> t_externalID x = t_externalID t)"
    using ext vx(3,4,6) vt(3,4,6) unfolding sel same_value_nullable by metis
  moreover have "\<not> (\<not> ident_IsZero (t_providerID x) \<and> t_providerID x = t_providerID t
      \<and> t_idempotencyKey x = t_idempotencyKey t)"
    using key vx(3,5,6) vt(3,5,6) unfolding sel same_value_nullable by metis
  moreover have "\<not> (t_kind x = KindOpening \<and> t_kind t = KindOpening \<and> t_walletID x = t_walletID t)"
    using opn unfolding sel by auto
  moreover have "\<not> (t_status x = StatusProcessed \<and> t_status t = StatusProcessed
      \<and> \<not> ident_IsZero (t_resolvedReferenceID x) \<and> t_resolvedReferenceID x = t_resolvedReferenceID t)"
    using rev unfolding sel same_value_nullable by auto
  ultimately show ?thesis using id by (simp add: tx_compat_def)
qed

lemma tx_compat_sym: "tx_compat x y \<Longrightarrow> tx_compat y x"
  by (auto simp: tx_compat_def)

text \<open>A transaction whose optional instants survive the column.\<close>

definition tx_storable :: "WagerTransaction \<Rightarrow> bool" where
  "tx_storable t \<longleftrightarrow> tx_ok t \<and> tx_ids_ok t \<and> proper_code (t_failureCode t)
     \<and> iso4217 (code_str (currency (t_money t)))
     \<and> survives (t_createdAt t) \<and> survives (t_updatedAt t)
     \<and> survives (t_referenceNextAttemptAt t) \<and> survives (t_referenceDeadlineAt t)"

lemma trunc_tx_simps [simp]:
  "t_id (trunc_tx t) = t_id t" "t_kind (trunc_tx t) = t_kind t" "t_status (trunc_tx t) = t_status t"
  "t_walletID (trunc_tx t) = t_walletID t" "t_money (trunc_tx t) = t_money t"
  "t_playerID (trunc_tx t) = t_playerID t" "t_providerID (trunc_tx t) = t_providerID t"
  "t_externalID (trunc_tx t) = t_externalID t" "t_origin (trunc_tx t) = t_origin t"
  "t_balanceAfter (trunc_tx t) = t_balanceAfter t"
  "t_resolvedReferenceID (trunc_tx t) = t_resolvedReferenceID t"
  "t_idempotencyKey (trunc_tx t) = t_idempotencyKey t" "t_payloadHash (trunc_tx t) = t_payloadHash t"
  "t_roundID (trunc_tx t) = t_roundID t" "t_gameID (trunc_tx t) = t_gameID t"
  "t_referenceExternalID (trunc_tx t) = t_referenceExternalID t"
  "t_failureCode (trunc_tx t) = t_failureCode t" "t_referenceAttempts (trunc_tx t) = t_referenceAttempts t"
  "t_createdAt (trunc_tx t) = trunc_time (t_createdAt t)" "t_updatedAt (trunc_tx t) = trunc_time (t_updatedAt t)"
  by (simp_all add: trunc_tx_def)

lemma tx_storable_row: "tx_storable t \<Longrightarrow> tx_row_of (trunc_tx t) = tx_row_of t"
  by (simp add: tx_row_trunc tx_storable_def)

lemma trunc_tx_times:
  "t_referenceNextAttemptAt (trunc_tx t) = utcOrZero (trunc_time (t_referenceNextAttemptAt t))"
  "t_referenceDeadlineAt (trunc_tx t) = utcOrZero (trunc_time (t_referenceDeadlineAt t))"
  by (simp_all add: trunc_tx_def)

lemma stored_at_utcOrZero [simp]: "stored_at (utcOrZero (trunc_time t))"
  by (simp add: utcOrZero_def stored_at_def trunc_time_def time_zero_def)

lemma tx_storable_st:
  assumes "tx_storable t"
  shows "tx_st (trunc_tx t)"
proof -
  have "tx_shape (trunc_tx t)"
    using assms by (simp add: tx_storable_def tx_ok_def tx_shape_def survives_def tx_metadata_ok_def
        stored_at_stored trunc_tx_times)
  moreover have "tx_life (trunc_tx t)"
    using assms by (simp add: tx_storable_def tx_ok_def tx_life_def survives_def trunc_tx_times)
  moreover have "tx_ids_ok (trunc_tx t)"
    using assms by (simp add: tx_storable_def tx_ids_ok_def)
  ultimately show ?thesis
    using assms by (simp add: tx_st_def tx_ok_def tx_storable_def trunc_tx_times)
qed

lemma tx_st_storable: "tx_st t \<Longrightarrow> tx_storable t"
  by (simp add: tx_st_def tx_storable_def survives_stored_at)

lemma Transactions_Insert_ok:
  assumes "Transactions_Insert \<Gamma> t w = (Inr u, w')" "represents (db w) b" "tx_storable t"
  shows "represents (db w') (b\<lparr>b_txs := b_txs b @ [trunc_tx t]\<rparr>)
    \<and> writable b (trunc_tx t) \<and> t_id t \<notin> t_id ` set (b_txs b)
    \<and> in_tx w' = in_tx w \<and> aborted w' = aborted w"
proof -
  let ?t = "trunc_tx t"
  have "stmt \<Gamma> (\<lambda>_. insert_tx (tx_row_of t)) w = (Inr u, w')"
    using assms(1) by (auto simp: Transactions_Insert_def elim!: io_translate_okE split: if_splits)
  then have ins: "insert_tx (tx_row_of t) (db w) = (Inr u, db w')"
    and ab: "in_tx w' = in_tx w" "aborted w' = aborted w"
    by (auto elim: stmt_okE)
  have st: "tx_st ?t" and row: "tx_row_of t = tx_row_of ?t"
    using tx_storable_st [OF assms(3)] tx_storable_row [OF assms(3)] by simp_all
  have "iso4217 (code_str (currency (t_money t)))" using st by (simp add: tx_st_def)
  then have cur: "(tx_row_of ?t)\<lparr>tr_currency := char3 (take 3 (tr_currency (tx_row_of ?t)))\<rparr> = tx_row_of ?t"
    "\<not> too_long (tr_currency (tx_row_of ?t))"
    by (simp_all add: tx_row_of_def Currency_String_def currency_column)
  with ins have ref: "refusal ''wager_transactions'' (tx_checks (tx_row_of ?t))
        (tx_uniques (d_transactions (db w)) (tx_row_of ?t)) (tx_fkeys (db w) (tx_row_of ?t)) = None"
    and d: "db w' = (db w)\<lparr>d_transactions := d_transactions (db w) @ [tx_row_of ?t]\<rparr>"
    unfolding insert_tx_def Let_def row cur(1) by (auto split: option.splits)
  have rows: "d_transactions (db w) = map tx_row_of (b_txs b)" "d_wallets (db w) = map wallet_row_of (b_wallets b)"
    and sts: "\<And>x. x \<in> set (b_txs b) \<Longrightarrow> tx_st x"
    using assms(2) by (auto simp: represents_def wt.holds_def tt.holds_def)
  have uniq: "\<forall>(n, ok)\<in>set (tx_uniques (d_transactions (db w)) (tx_row_of ?t)). ok"
    and fk: "\<forall>(n, ok)\<in>set (tx_fkeys (db w) (tx_row_of ?t)). ok"
    using ref by (auto simp: refusal_None)
  have compat: "tx_compat x ?t" if "x \<in> set (b_txs b)" for x
    using compat_of_uniques [OF sts [OF that] st uniq] that by (simp add: rows)
  have "\<exists>q\<in>set (d_wallets (db w)). wr_id q = tr_wallet_id (tx_row_of ?t)"
    using fk by (simp add: tx_fkeys_def)
  then have wal: "t_walletID t \<in> w_id ` set (b_wallets b)"
    unfolding rows by (auto simp: tx_row_of_def wallet_row_of_def) (metis imageI)
  have fresh: "t_id t \<notin> t_id ` set (b_txs b)"
    using compat by (force simp: tx_compat_def)
  have "t_id x \<noteq> t_id ?t" if "x \<in> set (b_txs b)" for x
    using fresh that by (metis imageI trunc_tx_simps(1))
  then have "writable b ?t"
    unfolding writable_def using st wal compat tx_compat_sym by auto
  moreover have "represents (db w') (b\<lparr>b_txs := b_txs b @ [?t]\<rparr>)"
    using assms(2) d st by (simp add: represents_def wt.holds_def tt.holds_def lt.holds_def)
  ultimately show ?thesis using fresh ab by simp
qed

lemma set_columns_same:
  assumes "same_request x t"
  shows "set_tx_columns (tx_row_of t) (tx_row_of x) = tx_row_of t"
  using assms by (simp add: set_tx_columns_def tx_row_of_def same_request_def)

lemma Transactions_Update_ok:
  assumes "Transactions_Update \<Gamma> t w = (Inr u, w')" "represents (db w) b" "tx_storable t"
    and x: "x \<in> set (b_txs b)" "t_id x = t_id t" "same_request x t" and dist: "distinct (map t_id (b_txs b))"
    and wal: "t_walletID t \<in> w_id ` set (b_wallets b)"
  shows "represents (db w') (b\<lparr>b_txs := put_tx (b_txs b) (trunc_tx t)\<rparr>)
    \<and> writable b (trunc_tx t) \<and> in_tx w' = in_tx w \<and> aborted w' = aborted w"
proof -
  let ?t = "trunc_tx t"
  let ?p = "\<lambda>r. tr_id r = ident_String (t_id t) \<and> \<not> terminal_row r"
  have "stmt \<Gamma> (\<lambda>_. update_tx ?p (set_tx_columns (tx_row_of t))) w = (Inr 1, w')"
    using assms(1)
    by (auto simp: Transactions_Update_def bindE_Inr_iff elim!: io_translate_okE split: if_splits)
  then have upd: "update_tx ?p (set_tx_columns (tx_row_of t)) (db w) = (Inr 1, db w')"
    and ab: "in_tx w' = in_tx w" "aborted w' = aborted w"
    by (auto elim: stmt_okE)
  then obtain old where old: "List.find ?p (d_transactions (db w)) = Some old"
    by (auto simp: update_tx_def split: option.splits)
  have rows: "d_transactions (db w) = map tx_row_of (b_txs b)"
    and sts: "\<And>x. x \<in> set (b_txs b) \<Longrightarrow> tx_st x"
    using assms(2) by (auto simp: represents_def tt.holds_def)
  have the_x: "y = x" if "y \<in> set (b_txs b)" "t_id y = t_id t" for y
    using that x dist by (auto simp: distinct_map inj_on_def)
  have "old \<in> set (d_transactions (db w))" "?p old"
    using old by (auto simp: find_Some_iff)
  then obtain y where y: "y \<in> set (b_txs b)" "old = tx_row_of y" "?p (tx_row_of y)"
    by (auto simp: rows)
  then have "y = x" using the_x by (simp add: tx_row_of_def)
  have st: "tx_st ?t" and row: "tx_row_of t = tx_row_of ?t"
    using tx_storable_st [OF assms(3)] tx_storable_row [OF assms(3)] by simp_all
  have nt: "\<not> Tx_IsTerminal x"
    using y \<open>y = x\<close> terminal_row_iff tx_st_valid(1) [OF sts [OF x(1)]] by auto
  have new: "set_tx_columns (tx_row_of t) old = tx_row_of ?t"
    using set_columns_same [OF x(3)] row y(2) \<open>y = x\<close> by simp
  let ?others = "filter (\<lambda>r. tr_id r \<noteq> tr_id old) (d_transactions (db w))"
  have ref: "refusal ''wager_transactions'' (tx_checks (tx_row_of ?t)) (tx_uniques ?others (tx_row_of ?t))
        (tx_fkeys (db w) (tx_row_of ?t)) = None"
    and d: "db w' = (db w)\<lparr>d_transactions :=
      map (\<lambda>r. if tr_id r = tr_id old then tx_row_of ?t else r) (d_transactions (db w))\<rparr>"
    using upd unfolding update_tx_def old Let_def option.case new by (auto split: option.splits)
  have oid: "tr_id old = ident_String (t_id t)" using y by simp
  have compat: "tx_compat z ?t" if "z \<in> set (b_txs b)" "t_id z \<noteq> t_id t" for z
  proof (rule compat_of_uniques [OF sts [OF that(1)] st])
    show "\<forall>(n, ok)\<in>set (tx_uniques ?others (tx_row_of ?t)). ok" using ref by (auto simp: refusal_None)
    show "tx_row_of z \<in> set ?others" using that by (simp add: rows oid tx_row_of_def)
  qed
  have "stored_at (t_createdAt x)" using sts [OF x(1)] by (simp add: tx_st_def)
  then have "same_request x ?t" using x(3) by (simp add: same_request_def trunc_time_id)
  then have "writable b ?t"
    unfolding writable_def using st wal compat nt the_x tx_compat_sym by auto
  moreover have "represents (db w') (b\<lparr>b_txs := put_tx (b_txs b) ?t\<rparr>)"
  proof -
    have ex: "\<exists>z\<in>set (b_txs b). t_id z = t_id ?t" using x by auto
    have "(if tr_id (tx_row_of z) = tr_id old then tx_row_of ?t else tx_row_of z)
        = tx_row_of (if t_id z = t_id ?t then ?t else z)" for z
      by (simp add: oid, simp add: tx_row_of_def)
    then have "d_transactions (db w') = map tx_row_of (put_tx (b_txs b) ?t)"
      using ex by (simp add: d rows put_tx_def comp_def)
    moreover have "\<forall>z\<in>set (put_tx (b_txs b) ?t). tx_st z" using sts st by (auto simp: set_put_tx)
    ultimately show ?thesis using assms(2) d by (simp add: represents_def wt.holds_def tt.holds_def lt.holds_def)
  qed
  ultimately show ?thesis using ab by simp
qed

section \<open>Errors of the writes\<close>

text \<open>A repository fails with an infrastructure error, never with a business rule.\<close>

lemma io_translate_error: "io_translate m w = (Inl e, w') \<Longrightarrow> as_domain e = None"
  by (auto elim: io_translate_errE)

lemma write_errors:
  "Wallets_Insert \<Gamma> x w = (Inl e, w') \<Longrightarrow> as_domain e = None"
  "Wallets_UpdateBalance \<Gamma> x v w = (Inl e, w') \<Longrightarrow> as_domain e = None"
  "Ledger_Append \<Gamma> l w = (Inl e, w') \<Longrightarrow> as_domain e = None"
  "Transactions_Insert \<Gamma> t w = (Inl e, w') \<Longrightarrow> as_domain e = None"
  "Transactions_Update \<Gamma> t w = (Inl e, w') \<Longrightarrow> as_domain e = None"
  "Outbox_Append \<Gamma> r w = (Inl e, w') \<Longrightarrow> as_domain e = None"
  "Inbox_Claim \<Gamma> m w = (Inl e, w') \<Longrightarrow> as_domain e = None"
  "Inbox_Complete \<Gamma> cn mi at w = (Inl e, w') \<Longrightarrow> as_domain e = None"
  unfolding Wallets_Insert_def Wallets_UpdateBalance_def Ledger_Append_def Transactions_Insert_def
    Transactions_Update_def Outbox_Append_def Inbox_Claim_def Inbox_Complete_def NewConflict_def
  by (auto elim!: bindE_errE dest!: io_translate_error split: if_splits)

section \<open>The messaging tables\<close>

lemma stmt_same_bank:
  assumes "io_translate (stmt \<Gamma> f) w = (Inr x, w')" "\<And>n d. same_bank d (snd (f n d))"
  shows "same_bank (db w) (db w') \<and> in_tx w' = in_tx w \<and> aborted w' = aborted w"
proof -
  have "stmt \<Gamma> f w = (Inr x, w')" using assms(1) by (auto elim: io_translate_okE)
  then have "f (calls w) (db w) = (Inr x, db w') \<and> in_tx w' = in_tx w \<and> aborted w' = aborted w"
    by (auto elim: stmt_okE)
  then show ?thesis using assms(2) [of "db w" "calls w"] by simp
qed

lemma insert_outbox_same_bank: "same_bank d (snd (insert_outbox r d))"
  by (simp add: insert_outbox_def same_bank_def Let_def split: option.splits)

lemma update_outbox_same_bank: "same_bank d (snd (update_outbox p f d))"
  by (simp add: update_outbox_def same_bank_def Let_def split: option.splits)

lemma insert_inbox_same_bank: "same_bank d (snd (insert_inbox r d))"
  by (simp add: insert_inbox_def same_bank_def Let_def split: option.splits)

lemma update_inbox_same_bank: "same_bank d (snd (update_inbox p f d))"
  by (simp add: update_inbox_def same_bank_def Let_def split: option.splits)

lemma messaging_same_bank:
  "Outbox_Append \<Gamma> r w = (Inr u, w') \<Longrightarrow> same_bank (db w) (db w') \<and> in_tx w' = in_tx w \<and> aborted w' = aborted w"
  "Inbox_Claim \<Gamma> m w = (Inr u, w') \<Longrightarrow> same_bank (db w) (db w') \<and> in_tx w' = in_tx w \<and> aborted w' = aborted w"
  "Inbox_Complete \<Gamma> cn mi at w = (Inr u, w') \<Longrightarrow>
     same_bank (db w) (db w') \<and> in_tx w' = in_tx w \<and> aborted w' = aborted w"
  "Outbox_MarkPublished \<Gamma> ei at w = (Inr u, w') \<Longrightarrow>
     same_bank (db w) (db w') \<and> in_tx w' = in_tx w \<and> aborted w' = aborted w"
  "Outbox_Reschedule \<Gamma> ei at ca w = (Inr u, w') \<Longrightarrow>
     same_bank (db w) (db w') \<and> in_tx w' = in_tx w \<and> aborted w' = aborted w"
  unfolding Outbox_Append_def Inbox_Claim_def Inbox_Complete_def Outbox_MarkPublished_def
    Outbox_Reschedule_def
  by (auto elim!: bindE_okE dest!: stmt_same_bank split: if_splits
      intro: insert_outbox_same_bank update_outbox_same_bank insert_inbox_same_bank update_inbox_same_bank)

section \<open>Posting a movement\<close>

lemma sint_version_Suc:
  "1 \<le> sint (v :: i64) \<Longrightarrow> 1 \<le> sint (v + 1) \<Longrightarrow> sint (v + 1) = sint v + 1"
  using sint64_add_fits [of v 1] sint64_range [of v] sint64_add [of v 1] by (auto simp: fits64_def split: if_splits)

lemma movement_st:
  assumes mv: "Wallet_move x d eid tid amount at = Inr mv" and st: "wallet_st x" "ident_ok eid" "ident_ok tid" "time_set at"
  shows "entry_st (trunc_entry (mv_entry mv))"
    "1 \<le> sint (w_version (mv_wallet mv)) \<Longrightarrow> wallet_st (trunc_wallet (mv_wallet mv))"
proof -
  have ok: "wallet_ok x" using st(1) by (simp add: wallet_st_def)
  note eff = Wallet_move_effect [OF mv ok]
  have cur: "currency amount = w_currency x" and en: "e_amount (mv_entry mv) = amount"
    "e_createdAt (mv_entry mv) = time_UTC at" "w_updatedAt (mv_wallet mv) = time_UTC at"
    using mv by (auto elim!: Wallet_move_okE)
  show "entry_st (trunc_entry (mv_entry mv))"
    using eff(9,10,11,12) cur en st time_set_trunc [OF st(4)]
    by (simp add: entry_st_def trunc_entry_def entry_ok_def wallet_st_def entry_delta_def)
  assume v: "1 \<le> sint (w_version (mv_wallet mv))"
  have "sint (w_version x) < 2 ^ 63 - 1"
    using v eff(5) ok sint_version_Suc [of "w_version x"] sint64_range [of "w_version x + 1"] by (auto simp: wallet_ok_def)
  then have "wallet_ok (mv_wallet mv)" by (rule wallet_ok_move [OF mv ok])
  then show "wallet_st (trunc_wallet (mv_wallet mv))"
    using eff(1-4) en st time_set_trunc [OF st(4)]
    by (simp add: wallet_st_def trunc_wallet_def wallet_ok_def trunc_time_id)
      (simp add: trunc_time_def)
qed

lemma trunc_entry_simps [simp]:
  "e_id (trunc_entry e) = e_id e" "e_walletID (trunc_entry e) = e_walletID e"
  "e_transactionID (trunc_entry e) = e_transactionID e" "e_direction (trunc_entry e) = e_direction e"
  "e_amount (trunc_entry e) = e_amount e" "e_balanceBefore (trunc_entry e) = e_balanceBefore e"
  "e_balanceAfter (trunc_entry e) = e_balanceAfter e"
  by (simp_all add: trunc_entry_def)

lemma trunc_wallet_simps [simp]:
  "w_id (trunc_wallet w) = w_id w" "w_playerID (trunc_wallet w) = w_playerID w"
  "w_currency (trunc_wallet w) = w_currency w" "w_balance (trunc_wallet w) = w_balance w"
  "w_version (trunc_wallet w) = w_version w"
  by (simp_all add: trunc_wallet_def)

text \<open>The wallet and ledger writes that follow the write of a processed transaction.\<close>

lemma post_movement:
  assumes ok: "bank_ok b" and x: "x \<in> set (b_wallets b)"
    and mv: "Wallet_move x d eid (t_id t) (t_money t) at = Inr mv" "ident_ok eid" "time_set at"
    and t: "writable b t" "t_kind t \<noteq> KindOpening" "moved_money t"
      "t_balanceAfter t = w_balance (mv_wallet mv)" "t_walletID t = w_id x" "directed (put_tx (b_txs b) t) t d"
    and rep: "represents (db w1) (b\<lparr>b_txs := put_tx (b_txs b) t\<rparr>)"
    and upd: "Wallets_UpdateBalance \<Gamma> (mv_wallet mv) (w_version x) w1 = (Inr u, w2)"
    and app: "Ledger_Append \<Gamma> (mv_entry mv) w2 = (Inr u', w3)"
  shows "\<exists>b'. represents (db w3) b' \<and> commit b b' \<and> b_txs b' = put_tx (b_txs b) t
    \<and> in_tx w3 = in_tx w1 \<and> aborted w3 = aborted w1"
proof -
  let ?x' = "trunc_wallet (mv_wallet mv)" and ?e = "trunc_entry (mv_entry mv)"
  let ?b1 = "b\<lparr>b_txs := put_tx (b_txs b) t\<rparr>"
  have st: "wallet_st x" and dist: "distinct (map w_id (b_wallets b))"
    using ok x by (auto simp: bank_ok_def wallets_ok_def)
  have tid: "ident_ok (t_id t)" using t(1) by (simp add: writable_def tx_st_def tx_ids_ok_def)
  have xok: "wallet_ok x" using st by (simp add: wallet_st_def)
  note eff = Wallet_move_effect [OF mv(1) xok] and mst = movement_st [OF mv(1) st mv(2) tid mv(3)]
  have r2: "represents (db w2) (?b1\<lparr>b_wallets := put_wallet (b_wallets b) ?x'\<rparr>)"
    and v: "1 \<le> sint (w_version (mv_wallet mv))" and s2: "in_tx w2 = in_tx w1" "aborted w2 = aborted w1"
    using Wallets_UpdateBalance_ok [OF upd rep, of x] x dist eff(1-4) mst(2) by auto
  let ?s = "d_ledger_seq (db w2)"
  have r3: "represents (db w3) (?b1\<lparr>b_wallets := put_wallet (b_wallets b) ?x', b_entries := b_entries b @ [(?s, ?e)]\<rparr>)"
    and seq: "\<forall>n\<in>fst ` set (b_entries b). n < ?s" and s3: "in_tx w3 = in_tx w2" "aborted w3 = aborted w2"
    using Ledger_Append_ok [OF app r2 mst(1)] by auto
  have "posted_as (put_tx (b_txs b) t) t ?e"
    using t eff(10,11,14) mv(1) by (auto simp: posted_as_def elim!: Wallet_move_okE)
  moreover have "sint (w_version ?x') = sint (w_version x) + 1"
    using v xok eff(5) sint_version_Suc [of "w_version x"] by (simp add: wallet_ok_def)
  ultimately have "commit b \<lparr>b_wallets = put_wallet (b_wallets b) ?x', b_txs = put_tx (b_txs b) t,
      b_entries = b_entries b @ [(?s, ?e)]\<rparr>"
    using t x eff(1-3,13,14) mst(1) mst(2) [OF v] seq by (intro commit.posted [of b t x]) auto
  moreover have eq: "?b1\<lparr>b_wallets := put_wallet (b_wallets b) ?x', b_entries := b_entries b @ [(?s, ?e)]\<rparr>
      = \<lparr>b_wallets = put_wallet (b_wallets b) ?x', b_txs = put_tx (b_txs b) t, b_entries = b_entries b @ [(?s, ?e)]\<rparr>"
    by simp
  ultimately show ?thesis
    using r3 [unfolded eq] s2 s3 by (intro exI [of _ "\<lparr>b_wallets = put_wallet (b_wallets b) ?x', b_txs = put_tx (b_txs b) t,
      b_entries = b_entries b @ [(?s, ?e)]\<rparr>"]) simp
qed

end
