(* ===== verification/Policy.thy ===== *)
theory Policy
  imports Schema "HOL-Library.Signed_Division"
begin

text \<open>
  How long the program waits: \<open>ReferencePolicy\<close> (\<open>internal/app/reference_worker.go\<close>),
  \<open>PublisherPolicy\<close> (\<open>internal/app/events.go\<close>), their \<open>nextAttemptAt\<close>, and \<open>RetryPolicy\<close>
  with \<open>backoff\<close> (\<open>internal/adapter/postgres/uow.go\<close>).

  A \<open>time.Duration\<close> is an \<open>int64\<close> of nanoseconds, so the doubling is a shift that can
  overflow; \<open>rand.Int64N\<close> panics on an argument that is not positive and a shift panics on a
  negative count. Both are errors here.

  What the two policies of the application layer have in common is the locale \<open>capped\<close>: it
  turns normalised settings into a wait that never panics and stays between half the base
  and the cap.
\<close>

section \<open>The shared arithmetic\<close>

text \<open>\<open>base << min(attempt-1, 16)\<close>, capped.\<close>

definition capped_window :: "duration \<Rightarrow> duration \<Rightarrow> i64 \<Rightarrow> duration" where
  "capped_window base cap attempt =
     (let shift = (if attempt - 1 <s 16 then attempt - 1 else 16);
          window = push_bit (nat (sint shift)) base in
      if cap <s window \<or> window \<le>s 0 then cap else window)"

text \<open>\<open>window/2 + rand.Int64N(window/2 + 1)\<close>.\<close>

definition jitter :: "env \<Rightarrow> duration \<Rightarrow> ('d, duration) io" where
  "jitter \<Gamma> window =
     (let half = word_of_int (sint window sdiv 2) in
      if half + 1 \<le>s 0 then throw (OtherErr ''panic: invalid argument to Int64N'')
      else bindE (rand_Int64N \<Gamma> (nat (sint (half + 1)))) (\<lambda>r. ret (half + of_nat r)))"

section \<open>ReferencePolicy\<close>

record ReferencePolicy =
  rp_MaxAttempts :: i64
  rp_BaseBackoff :: duration
  rp_MaxBackoff :: duration
  rp_TTL :: duration
  rp_BatchSize :: i64
  rp_Interval :: duration

definition second :: duration where "second = 1000000000"

definition DefaultReferencePolicy :: ReferencePolicy where
  "DefaultReferencePolicy =
     \<lparr>rp_MaxAttempts = 8, rp_BaseBackoff = second, rp_MaxBackoff = 30 * second, rp_TTL = 120 * second,
      rp_BatchSize = 20, rp_Interval = second\<rparr>"

definition smax :: "i64 \<Rightarrow> i64 \<Rightarrow> i64" where
  "smax a b = (if a <s b then b else a)"

definition ReferencePolicy_normalised :: "ReferencePolicy \<Rightarrow> ReferencePolicy" where
  "ReferencePolicy_normalised p =
     (let d = DefaultReferencePolicy;
          p = (if rp_MaxAttempts p <s 1 then p\<lparr>rp_MaxAttempts := rp_MaxAttempts d\<rparr> else p);
          p = (if rp_BaseBackoff p \<le>s 0 then p\<lparr>rp_BaseBackoff := rp_BaseBackoff d\<rparr> else p);
          p = (if rp_MaxBackoff p <s rp_BaseBackoff p
               then p\<lparr>rp_MaxBackoff := smax (rp_MaxBackoff d) (rp_BaseBackoff p)\<rparr> else p);
          p = (if rp_TTL p \<le>s 0 then p\<lparr>rp_TTL := rp_TTL d\<rparr> else p);
          p = (if rp_BatchSize p <s 1 then p\<lparr>rp_BatchSize := rp_BatchSize d\<rparr> else p) in
      (if rp_Interval p \<le>s 0 then p\<lparr>rp_Interval := rp_Interval d\<rparr> else p))"

definition ReferencePolicy_nextAttemptAt ::
  "env \<Rightarrow> ReferencePolicy \<Rightarrow> gotime \<Rightarrow> i64 \<Rightarrow> ('d, gotime) io" where
  "ReferencePolicy_nextAttemptAt \<Gamma> p now attempt =
     (if attempt - 1 <s 0 then throw (OtherErr ''panic: negative shift amount'')
      else bindE (jitter \<Gamma> (capped_window (rp_BaseBackoff p) (rp_MaxBackoff p) attempt))
             (\<lambda>wait. ret (time_Add now wait)))"

section \<open>PublisherPolicy\<close>

record PublisherPolicy =
  pp_BatchSize :: i64
  pp_Interval :: duration
  pp_BaseBackoff :: duration
  pp_MaxBackoff :: duration
  pp_PublishTimeout :: duration

definition DefaultPublisherPolicy :: PublisherPolicy where
  "DefaultPublisherPolicy =
     \<lparr>pp_BatchSize = 50, pp_Interval = 500000000, pp_BaseBackoff = second,
      pp_MaxBackoff = 60 * second, pp_PublishTimeout = 10 * second\<rparr>"

definition PublisherPolicy_normalised :: "PublisherPolicy \<Rightarrow> PublisherPolicy" where
  "PublisherPolicy_normalised p =
     (let d = DefaultPublisherPolicy;
          p = (if pp_BatchSize p <s 1 then p\<lparr>pp_BatchSize := pp_BatchSize d\<rparr> else p);
          p = (if pp_Interval p \<le>s 0 then p\<lparr>pp_Interval := pp_Interval d\<rparr> else p);
          p = (if pp_BaseBackoff p \<le>s 0 then p\<lparr>pp_BaseBackoff := pp_BaseBackoff d\<rparr> else p);
          p = (if pp_MaxBackoff p <s pp_BaseBackoff p
               then p\<lparr>pp_MaxBackoff := smax (pp_MaxBackoff d) (pp_BaseBackoff p)\<rparr> else p) in
      (if pp_PublishTimeout p \<le>s 0 then p\<lparr>pp_PublishTimeout := pp_PublishTimeout d\<rparr> else p))"

definition Publisher_nextAttemptAt ::
  "env \<Rightarrow> PublisherPolicy \<Rightarrow> gotime \<Rightarrow> i64 \<Rightarrow> ('d, gotime) io" where
  "Publisher_nextAttemptAt \<Gamma> p now attempt =
     (if attempt - 1 <s 0 then throw (OtherErr ''panic: negative shift amount'')
      else bindE (jitter \<Gamma> (capped_window (pp_BaseBackoff p) (pp_MaxBackoff p) attempt))
             (\<lambda>wait. ret (time_Add now wait)))"

section \<open>RetryPolicy\<close>

record RetryPolicy =
  ry_MaxAttempts :: i64
  ry_BaseBackoff :: duration

definition DefaultRetryPolicy :: RetryPolicy where
  "DefaultRetryPolicy = \<lparr>ry_MaxAttempts = 3, ry_BaseBackoff = 5000000\<rparr>"

definition RetryPolicy_normalised :: "RetryPolicy \<Rightarrow> RetryPolicy" where
  "RetryPolicy_normalised p =
     (let p = (if ry_MaxAttempts p <s 1 then p\<lparr>ry_MaxAttempts := ry_MaxAttempts DefaultRetryPolicy\<rparr> else p) in
      (if ry_BaseBackoff p \<le>s 0 then p\<lparr>ry_BaseBackoff := ry_BaseBackoff DefaultRetryPolicy\<rparr> else p))"

text \<open>The shift here has no cap; waiting ends with the timer or with the context.\<close>

definition backoff :: "env \<Rightarrow> ctx \<Rightarrow> RetryPolicy \<Rightarrow> i64 \<Rightarrow> ('d, unit) io" where
  "backoff \<Gamma> c p attempt =
     (let window = push_bit (nat (sint (attempt - 1))) (ry_BaseBackoff p) in
      bindE (jitter \<Gamma> window) (\<lambda>wait. ctx_Err \<Gamma> c))"

section \<open>Normalised settings\<close>

lemma sless_iff: "a <s b \<longleftrightarrow> sint a < sint (b :: i64)"
  by (simp add: word_sless_alt)

lemma sle_iff: "a \<le>s b \<longleftrightarrow> sint a \<le> sint (b :: i64)"
  by (simp add: word_sle_eq)

lemmas signed_defs = sless_iff sle_iff smax_def

lemma ReferencePolicy_normal:
  "1 \<le> sint (rp_MaxAttempts (ReferencePolicy_normalised p))
   \<and> 0 < sint (rp_BaseBackoff (ReferencePolicy_normalised p))
   \<and> sint (rp_BaseBackoff (ReferencePolicy_normalised p)) \<le> sint (rp_MaxBackoff (ReferencePolicy_normalised p))
   \<and> 0 < sint (rp_TTL (ReferencePolicy_normalised p))
   \<and> 1 \<le> sint (rp_BatchSize (ReferencePolicy_normalised p))
   \<and> 0 < sint (rp_Interval (ReferencePolicy_normalised p))"
  by (auto simp: ReferencePolicy_normalised_def DefaultReferencePolicy_def second_def Let_def signed_defs)

lemma PublisherPolicy_normal:
  "1 \<le> sint (pp_BatchSize (PublisherPolicy_normalised p))
   \<and> 0 < sint (pp_Interval (PublisherPolicy_normalised p))
   \<and> 0 < sint (pp_BaseBackoff (PublisherPolicy_normalised p))
   \<and> sint (pp_BaseBackoff (PublisherPolicy_normalised p)) \<le> sint (pp_MaxBackoff (PublisherPolicy_normalised p))
   \<and> 0 < sint (pp_PublishTimeout (PublisherPolicy_normalised p))"
  by (auto simp: PublisherPolicy_normalised_def DefaultPublisherPolicy_def second_def Let_def signed_defs)

lemma RetryPolicy_normal:
  "1 \<le> sint (ry_MaxAttempts (RetryPolicy_normalised p)) \<and> 0 < sint (ry_BaseBackoff (RetryPolicy_normalised p))"
  by (auto simp: RetryPolicy_normalised_def DefaultRetryPolicy_def Let_def signed_defs)

lemma RetryPolicy_normalised_idem [simp]:
  "RetryPolicy_normalised (RetryPolicy_normalised p) = RetryPolicy_normalised p"
  by (auto simp: RetryPolicy_normalised_def DefaultRetryPolicy_def Let_def signed_defs)

section \<open>The window and the jitter\<close>

lemma capped_window_cap:
  assumes "0 < sint base" "sint base \<le> sint cap"
  shows "0 < sint (capped_window base cap attempt) \<and> sint (capped_window base cap attempt) \<le> sint cap"
  using assms by (auto simp: capped_window_def Let_def signed_defs)

lemma jitter_ok:
  assumes "0 < sint window"
  shows "\<exists>wait. jitter \<Gamma> window w = (Inr wait, tick w) \<and> sint window div 2 \<le> sint wait \<and> sint wait \<le> sint window"
proof -
  let ?h = "word_of_int (sint window sdiv 2) :: i64" and ?n = "sint window"
  have n: "0 < ?n" "?n < 2 ^ 63" "0 \<le> ?n div 2" "?n div 2 < 2 ^ 62"
    using assms sint64_range [of window] by auto
  have h: "sint ?h = ?n div 2"
    using n by (simp add: signed_divide_int_def sint_of_int64 fits64_def sgn_if)
  have h1: "sint (?h + 1) = ?n div 2 + 1"
  proof -
    have "?h + 1 = word_of_int (?n div 2 + 1)" using n by (simp add: signed_divide_int_def sgn_if)
    moreover have "fits64 (?n div 2 + 1)" using n by (simp add: fits64_def)
    ultimately show ?thesis using sint_of_int64 by metis
  qed
  define r where "r = env_random \<Gamma> (calls w) mod nat (?n div 2 + 1)"
  have "r < nat (?n div 2 + 1)" using n unfolding r_def by (intro mod_less_divisor) simp
  then have r: "int r \<le> ?n div 2" using n by linarith
  have s: "sint (?h + of_nat r) = ?n div 2 + int r"
  proof -
    have "?h + of_nat r = word_of_int (?n div 2 + int r)" using n by (simp add: signed_divide_int_def sgn_if)
    moreover have "fits64 (?n div 2 + int r)" using n r by (simp add: fits64_def)
    ultimately show ?thesis using sint_of_int64 by metis
  qed
  have "jitter \<Gamma> window w = (Inr (?h + of_nat r), tick w)"
    using n by (simp add: jitter_def Let_def signed_defs h1 rand_Int64N_def bindE_def r_def)
  then show ?thesis using s r n by auto
qed

text \<open>Short of an overflow the window doubles with every attempt until it meets the cap.\<close>

lemma sint_push_bit:
  assumes "0 \<le> sint (x :: i64)" "sint x * 2 ^ n < 2 ^ 63"
  shows "sint (push_bit n x) = sint x * 2 ^ n"
proof -
  have "push_bit n x = word_of_int (sint x * 2 ^ n)" by (simp add: push_bit_eq_mult)
  moreover have "fits64 (sint x * 2 ^ n)" using assms by (auto simp: fits64_def intro: order_trans [of _ 0])
  ultimately show ?thesis using sint_of_int64 by metis
qed

lemma capped_window_doubles:
  assumes "0 < sint base" "sint base \<le> sint cap" "sint base < 2 ^ 47" "1 \<le> sint attempt"
  shows "sint (capped_window base cap attempt) = min (sint cap) (sint base * 2 ^ nat (min (sint attempt - 1) 16))"
proof -
  let ?k = "nat (min (sint attempt - 1) 16)"
  have a: "sint (attempt - 1) = sint attempt - 1"
    using assms(4) sint64_range [of attempt] by (subst sint64_sub_fits) (simp_all add: fits64_def)
  have "?k \<le> 16" by simp
  then have "(2::int) ^ ?k \<le> 2 ^ 16" by (rule power_increasing) simp
  then have "sint base * 2 ^ ?k \<le> (2 ^ 47 - 1) * 2 ^ 16" using assms(1,3) by (intro mult_mono) auto
  then have big: "sint base * 2 ^ ?k < 2 ^ 63" by simp
  have k: "nat (sint (if attempt - 1 <s 16 then attempt - 1 else 16)) = ?k"
    by (simp add: signed_defs a)
  have s: "sint (push_bit ?k base) = sint base * 2 ^ ?k"
    using assms(1) big by (intro sint_push_bit) auto
  moreover have "0 < sint base * 2 ^ ?k" using assms(1) by simp
  ultimately show ?thesis unfolding capped_window_def Let_def k by (simp add: signed_defs)
qed

section \<open>Capped policies\<close>

locale capped =
  fixes normalised :: "'p \<Rightarrow> 'p"
    and base :: "'p \<Rightarrow> duration"
    and cap :: "'p \<Rightarrow> duration"
    and next_at :: "env \<Rightarrow> 'p \<Rightarrow> gotime \<Rightarrow> i64 \<Rightarrow> (database, gotime) io"
  assumes base_pos: "0 < sint (base (normalised p))"
    and base_le_cap: "sint (base (normalised p)) \<le> sint (cap (normalised p))"
    and next_at_eq: "1 \<le> sint attempt \<Longrightarrow>
      next_at \<Gamma> p now attempt =
        bindE (jitter \<Gamma> (capped_window (base p) (cap p) attempt)) (\<lambda>wait. ret (time_Add now wait))"
begin

text \<open>The schedule is always in the future by at most the cap, and computing it cannot fail.\<close>

lemma next_at_ok:
  assumes "1 \<le> sint attempt"
  shows "\<exists>t. next_at \<Gamma> (normalised p) now attempt w = (Inr t, tick w) \<and> loc t = loc now
    \<and> instant now \<le> instant t \<and> instant t \<le> instant now + sint (cap (normalised p))"
proof -
  let ?win = "capped_window (base (normalised p)) (cap (normalised p)) attempt"
  have win: "0 < sint ?win" "sint ?win \<le> sint (cap (normalised p))"
    using capped_window_cap [OF base_pos base_le_cap] by auto
  obtain wait where "jitter \<Gamma> ?win w = (Inr wait, tick w)" "sint ?win div 2 \<le> sint wait" "sint wait \<le> sint ?win"
    using jitter_ok [OF win(1)] by blast
  then show ?thesis
    using win assms by (auto simp: next_at_eq bindE_def time_Add_def)
qed

text \<open>Below 39 hours the base cannot overflow, and the wait grows with the attempts.\<close>

lemma next_at_doubles:
  assumes "1 \<le> sint attempt" "sint (base (normalised p)) < 2 ^ 47"
  shows "\<exists>t. next_at \<Gamma> (normalised p) now attempt w = (Inr t, tick w)
    \<and> (let window = min (sint (cap (normalised p))) (sint (base (normalised p)) * 2 ^ nat (min (sint attempt - 1) 16))
       in instant now + window div 2 \<le> instant t \<and> instant t \<le> instant now + window)"
proof -
  let ?win = "capped_window (base (normalised p)) (cap (normalised p)) attempt"
  have win: "0 < sint ?win" using capped_window_cap [OF base_pos base_le_cap] by auto
  obtain wait where "jitter \<Gamma> ?win w = (Inr wait, tick w)" "sint ?win div 2 \<le> sint wait" "sint wait \<le> sint ?win"
    using jitter_ok [OF win] by blast
  then show ?thesis
    using assms(1) capped_window_doubles [OF base_pos base_le_cap assms(2,1)]
    by (auto simp: next_at_eq bindE_def time_Add_def Let_def)
qed

end

lemma attempt_shift: "1 \<le> sint (attempt :: i64) \<Longrightarrow> \<not> attempt - 1 <s 0"
  using sint64_range [of attempt] sint64_sub_fits [of attempt 1] by (simp add: fits64_def signed_defs)

interpretation ref_policy: capped ReferencePolicy_normalised rp_BaseBackoff rp_MaxBackoff ReferencePolicy_nextAttemptAt
  by unfold_locales (auto simp: ReferencePolicy_normal ReferencePolicy_nextAttemptAt_def attempt_shift)

interpretation pub_policy: capped PublisherPolicy_normalised pp_BaseBackoff pp_MaxBackoff Publisher_nextAttemptAt
  by unfold_locales (auto simp: PublisherPolicy_normal Publisher_nextAttemptAt_def attempt_shift)

section \<open>Properties\<close>



end
