(* ===== verification/UnitOfWork.thy ===== *)
theory UnitOfWork
  imports Repos Policy
begin

text \<open>
  The transactional boundary (\<open>internal/adapter/postgres/uow.go\<close>, \<open>snapshot.go\<close>): begin, run
  the callback on repositories bound to the transaction, commit or roll back, and retry while
  the failure is transient.

  A callback is a Go closure: besides its error it may assign variables of its caller, which
  keep their value from one attempt to the next. They are the \<open>'v\<close> it takes and returns. A
  rollback restores every table; the sequences, which only advance, keep what they handed out,
  as PostgreSQL's do.
\<close>

type_synonym 'v callback = "ctx \<Rightarrow> 'v \<Rightarrow> database world \<Rightarrow> unit res \<times> 'v \<times> database world"

section \<open>One attempt\<close>

definition undo :: "database \<Rightarrow> database \<Rightarrow> database" where
  "undo d0 d = d0\<lparr>d_ledger_seq := max (d_ledger_seq d0) (d_ledger_seq d),
                  d_outbox_seq := max (d_outbox_seq d0) (d_outbox_seq d)\<rparr>"

definition pool_Begin :: "env \<Rightarrow> database world \<Rightarrow> (pgerror + unit) \<times> database world" where
  "pool_Begin \<Gamma> w =
     (case env_fault \<Gamma> (calls w) of
        Some e \<Rightarrow> (Inl (fault_error e), tick w)
      | None \<Rightarrow> (Inr (), (tick w)\<lparr>in_tx := True, aborted := False\<rparr>))"

definition tx_closed :: "database world \<Rightarrow> database world" where
  "tx_closed w = (tick w)\<lparr>in_tx := False, aborted := False\<rparr>"

definition tx_Rollback :: "database \<Rightarrow> database world \<Rightarrow> database world" where
  "tx_Rollback d0 w = (tx_closed w)\<lparr>db := undo d0 (db w)\<rparr>"

text \<open>
  Committing an aborted transaction rolls it back, which the driver reports. Whatever it
  returns, the transaction is closed, and the deferred rollback has nothing left to do.
\<close>

definition tx_Commit :: "env \<Rightarrow> database \<Rightarrow> database world \<Rightarrow> (pgerror + unit) \<times> database world" where
  "tx_Commit \<Gamma> d0 w =
     (if aborted w then (Inl (PgOther ''commit unexpectedly resulted in rollback''), tx_Rollback d0 w)
      else case env_commit \<Gamma> (calls w) of
        CommitDone \<Rightarrow> (Inr (), tx_closed w)
      | CommitRefused f \<Rightarrow> (Inl (fault_error f), tx_Rollback d0 w)
      | CommitUnknown s applied \<Rightarrow> (Inl (PgOther s), if applied then tx_closed w else tx_Rollback d0 w))"

definition attempt :: "env \<Rightarrow> ctx \<Rightarrow> 'v callback \<Rightarrow> 'v \<Rightarrow> database world \<Rightarrow> unit res \<times> 'v \<times> database world" where
  "attempt \<Gamma> c fn v w =
     (case pool_Begin \<Gamma> w of
        (Inl e, w1) \<Rightarrow> (Inl (translate e), v, w1)
      | (Inr _, w1) \<Rightarrow>
          (case fn (c\<lparr>c_insideUnitOfWork := True\<rparr>) v w1 of
             (Inl e, v', w2) \<Rightarrow> (Inl e, v', tx_Rollback (db w) w2)
           | (Inr _, v', w2) \<Rightarrow>
               (case tx_Commit \<Gamma> (db w) w2 of
                  (Inl e, w3) \<Rightarrow> (Inl (translate e), v', w3)
                | (Inr _, w3) \<Rightarrow> (Inr (), v', w3))))"

section \<open>Retrying\<close>

definition transient :: "goerror \<Rightarrow> bool" where
  "transient e \<longleftrightarrow> errors_Is e ErrSerializationFailure \<or> errors_Is e ErrVersionMismatch"

lemma sint_Suc_below: "\<not> m \<le>s (n :: i64) \<Longrightarrow> sint (n + 1) = sint n + 1"
  using sint64_range [of m] sint64_range [of n] sint64_add_fits [of n 1] by (simp add: sle_iff fits64_def)

function do_loop ::
  "env \<Rightarrow> RetryPolicy \<Rightarrow> ctx \<Rightarrow> 'v callback \<Rightarrow> i64 \<Rightarrow> 'v \<Rightarrow> database world \<Rightarrow> unit res \<times> 'v \<times> database world" where
  "do_loop \<Gamma> p c fn n v w =
     (case attempt \<Gamma> c fn v w of
        (Inr _, v', w') \<Rightarrow> (Inr (), v', w')
      | (Inl e, v', w') \<Rightarrow>
          if \<not> transient e \<or> ry_MaxAttempts p \<le>s n then (Inl e, v', w')
          else (case backoff \<Gamma> c p n w' of
                  (Inl waitErr, w'') \<Rightarrow> (Inl e, v', w'')
                | (Inr _, w'') \<Rightarrow> do_loop \<Gamma> p c fn (n + 1) v' w''))"
  by pat_completeness auto

termination
proof (relation "measure (\<lambda>(\<Gamma>, p, c, fn, n, v, w). nat (sint (ry_MaxAttempts p) - sint n))", goal_cases)
  case 1
  show ?case by simp
next
  case (2 \<Gamma> p c fn n v w)
  then have "\<not> ry_MaxAttempts p \<le>s n" by blast
  then show ?case using sint_Suc_below [of "ry_MaxAttempts p" n] by (simp add: sle_iff)
qed

declare do_loop.simps [simp del]

definition UnitOfWork_Do ::
  "env \<Rightarrow> RetryPolicy \<Rightarrow> ctx \<Rightarrow> 'v callback \<Rightarrow> 'v \<Rightarrow> database world \<Rightarrow> unit res \<times> 'v \<times> database world" where
  "UnitOfWork_Do \<Gamma> retry c fn v w =
     (if c_insideUnitOfWork c then (Inl ErrNestedUnitOfWork, v, w)
      else do_loop \<Gamma> (RetryPolicy_normalised retry) c fn 1 v w)"

text \<open>A callback that only returns a value assigns it to a variable of its caller.\<close>

definition assigning :: "(ctx \<Rightarrow> 'v pgio) \<Rightarrow> 'v \<Rightarrow> 'v callback" where
  "assigning m zero c v w =
     (case m c w of (Inl e, w') \<Rightarrow> (Inl e, zero, w') | (Inr x, w') \<Rightarrow> (Inr (), x, w'))"

definition Snapshot_Do :: "env \<Rightarrow> ctx \<Rightarrow> (ctx \<Rightarrow> 'a pgio) \<Rightarrow> 'a pgio" where
  "Snapshot_Do \<Gamma> c fn w =
     (case pool_Begin \<Gamma> w of
        (Inl e, w1) \<Rightarrow> (Inl (translate e), w1)
      | (Inr _, w1) \<Rightarrow> (case fn c w1 of (r, w2) \<Rightarrow> (r, tx_Rollback (db w) w2)))"

section \<open>Atomicity of one attempt\<close>

text \<open>The stored data is the same; only sequence numbers may have been used up.\<close>

definition same_data :: "database \<Rightarrow> database \<Rightarrow> bool" where
  "same_data d d' \<longleftrightarrow> undo d d' = d'"

lemma same_data_iff:
  "same_data d d' \<longleftrightarrow>
     d_wallets d' = d_wallets d \<and> d_transactions d' = d_transactions d \<and> d_ledger d' = d_ledger d
     \<and> d_inbox d' = d_inbox d \<and> d_outbox d' = d_outbox d
     \<and> d_ledger_seq d \<le> d_ledger_seq d' \<and> d_outbox_seq d \<le> d_outbox_seq d'"
  by (cases d; cases d') (auto simp: same_data_def undo_def)

lemma same_data_refl [simp]: "same_data d d"
  by (simp add: same_data_iff)

lemma same_data_trans: "same_data a b \<Longrightarrow> same_data b c \<Longrightarrow> same_data a c"
  by (simp add: same_data_iff)

lemma same_data_undo [simp]: "same_data d (undo d d')"
  by (simp add: same_data_iff undo_def)

lemma same_data_bank: "same_data d d' \<Longrightarrow> same_bank d d'"
  by (simp add: same_data_iff same_bank_def)

lemma tx_world [simp]:
  "db (tx_closed w) = db w" "in_tx (tx_closed w) = False" "aborted (tx_closed w) = False"
  "db (tx_Rollback d w) = undo d (db w)" "in_tx (tx_Rollback d w) = False" "aborted (tx_Rollback d w) = False"
  by (simp_all add: tx_closed_def tx_Rollback_def)

text \<open>No transaction is open.\<close>

definition idle :: "database world \<Rightarrow> bool" where
  "idle w \<longleftrightarrow> \<not> in_tx w \<and> \<not> aborted w"

text \<open>A read outside a transaction.\<close>

lemma query_idle: "query \<Gamma> f w = (r, w') \<Longrightarrow> idle w \<Longrightarrow> idle w' \<and> db w' = db w"
  unfolding query_def idle_def
  by (cases rule: stmt_exhaust [where w = w and \<Gamma> = \<Gamma> and f = "\<lambda>n d. (f n d, d)"]) (auto simp: stmt_cases)

lemma read_idle:
  assumes "bindE (io_translate (query \<Gamma> f)) (\<lambda>x. lift (g x)) w = (r, w')" "idle w"
  shows "idle w' \<and> db w' = db w"
proof -
  obtain q w1 where q: "query \<Gamma> f w = (q, w1)" by (metis surj_pair)
  then have "w' = w1" using assms(1) by (cases q) (auto simp: bindE_def io_translate_def)
  then show ?thesis using query_idle [OF q assms(2)] by simp
qed

text \<open>An attempt ends in one of three ways.\<close>

lemma attempt_cases:
  assumes "attempt \<Gamma> c fn v w = (r, v', w')" "idle w"
  obtains (committed) w1 w2 where "r = Inr ()" "in_tx w1" "\<not> aborted w1" "db w1 = db w"
      "fn (c\<lparr>c_insideUnitOfWork := True\<rparr>) v w1 = (Inr (), v', w2)" "\<not> aborted w2" "db w' = db w2" "idle w'"
  | (failed) e where "r = Inl e" "same_data (db w) (db w')" "idle w'"
  | (unknown) s w1 w2 where "r = Inl (OtherErr s)" "in_tx w1" "\<not> aborted w1" "db w1 = db w"
      "fn (c\<lparr>c_insideUnitOfWork := True\<rparr>) v w1 = (Inr (), v', w2)" "\<not> aborted w2" "db w' = db w2" "idle w'"
      "env_commit \<Gamma> (calls w2) = CommitUnknown s True"
proof (cases "env_fault \<Gamma> (calls w)")
  case (Some e)
  then have "r = Inl (translate (fault_error e))" "w' = tick w"
    using assms(1) by (auto simp: attempt_def pool_Begin_def)
  then show ?thesis using assms(2) by (intro failed) (auto simp: idle_def)
next
  case None
  let ?w1 = "(tick w)\<lparr>in_tx := True, aborted := False\<rparr>"
  have beg: "pool_Begin \<Gamma> w = (Inr (), ?w1)" using None by (simp add: pool_Begin_def)
  obtain r2 v2 w2 where fn: "fn (c\<lparr>c_insideUnitOfWork := True\<rparr>) v ?w1 = (r2, v2, w2)" by (metis prod_cases3)
  show ?thesis
  proof (cases r2)
    case (Inl e)
    then have "r = Inl e" "w' = tx_Rollback (db w) w2"
      using assms(1) fn by (simp_all add: attempt_def beg)
    then show ?thesis by (intro failed) (auto simp: idle_def)
  next
    case (Inr u)
    then have att: "attempt \<Gamma> c fn v w =
        (case tx_Commit \<Gamma> (db w) w2 of (Inl e, w3) \<Rightarrow> (Inl (translate e), v2, w3) | (Inr _, w3) \<Rightarrow> (Inr (), v2, w3))"
      using fn by (simp add: attempt_def beg)
    show ?thesis
    proof (cases "aborted w2")
      case True
      then show ?thesis using assms(1) att by (intro failed) (auto simp: tx_Commit_def idle_def)
    next
      case False
      show ?thesis
      proof (cases "env_commit \<Gamma> (calls w2)")
        case CommitDone
        then show ?thesis
          using assms(1) att False fn Inr by (intro committed [of ?w1 w2]) (auto simp: tx_Commit_def idle_def)
      next
        case (CommitRefused f)
        then show ?thesis using assms(1) att False by (intro failed) (auto simp: tx_Commit_def idle_def)
      next
        case (CommitUnknown s applied)
        show ?thesis
        proof (cases applied)
          case True
          then show ?thesis
            using CommitUnknown assms(1) att False fn Inr
            by (intro unknown [of s ?w1 w2]) (auto simp: tx_Commit_def idle_def)
        next
          case fresh: False
          then show ?thesis
            using CommitUnknown assms(1) att False by (intro failed) (auto simp: tx_Commit_def idle_def)
        qed
      qed
    qed
  qed
qed

section \<open>The retry loop\<close>

text \<open>
  \<open>tried n\<close>: the callback was attempted \<open>n\<close> times, each attempt but the last failed with a
  transient error, and the last one gave the result.
\<close>

inductive tried ::
  "env \<Rightarrow> ctx \<Rightarrow> 'v callback \<Rightarrow> nat \<Rightarrow> 'v \<Rightarrow> database world \<Rightarrow> unit res \<times> 'v \<times> database world \<Rightarrow> bool"
  for \<Gamma> c fn where
  last: "attempt \<Gamma> c fn v w = (r, v', w1) \<Longrightarrow> same_world w1 w' \<Longrightarrow> tried \<Gamma> c fn 1 v w (r, v', w')"
| again: "attempt \<Gamma> c fn v w = (Inl e, v1, w1) \<Longrightarrow> transient e \<Longrightarrow> same_world w1 w2
    \<Longrightarrow> tried \<Gamma> c fn n v1 w2 out \<Longrightarrow> tried \<Gamma> c fn (Suc n) v w out"

lemma jitter_same: "jitter \<Gamma> x w = (r, w') \<Longrightarrow> same_world w w'"
  by (auto simp: jitter_def rand_Int64N_def Let_def bindE_def same_world_def split: if_splits)

lemma backoff_same: "backoff \<Gamma> c p n w = (r, w') \<Longrightarrow> same_world w w'"
  by (auto simp: backoff_def Let_def bindE_def ctx_Err_def dest!: jitter_same
      intro: same_world_trans split: if_splits prod.splits sum.splits)

lemma do_loop_tried:
  "sint n \<le> sint (ry_MaxAttempts p) \<Longrightarrow>
   \<exists>k. tried \<Gamma> c fn k v w (do_loop \<Gamma> p c fn n v w) \<and> 1 \<le> k \<and> int k \<le> sint (ry_MaxAttempts p) - sint n + 1"
proof (induction \<Gamma> p c fn n v w rule: do_loop.induct)
  case (1 \<Gamma> p c fn n v w)
  let ?m = "sint (ry_MaxAttempts p)"
  obtain r v1 w1 where att: "attempt \<Gamma> c fn v w = (r, v1, w1)" by (metis prod_cases3)
  have once: "\<exists>k. tried \<Gamma> c fn k v w (r, v1, w') \<and> 1 \<le> k \<and> int k \<le> ?m - sint n + 1"
    if "same_world w1 w'" for w'
    using tried.last [of \<Gamma> c fn v w r v1 w1 w', OF att that] "1.prems" by (intro exI [of _ 1]) simp
  show ?case
  proof (cases "\<exists>e. r = Inl e \<and> transient e \<and> \<not> ry_MaxAttempts p \<le>s n")
    case False
    then have "do_loop \<Gamma> p c fn n v w = (r, v1, w1)"
      using att by (cases r) (auto simp: do_loop.simps [of \<Gamma> p c fn n v w])
    then show ?thesis using once by simp
  next
    case True
    then obtain e where e: "r = Inl e" "transient e" "\<not> ry_MaxAttempts p \<le>s n" by blast
    obtain b w2 where b: "backoff \<Gamma> c p n w1 = (b, w2)" by (metis surj_pair)
    have same: "same_world w1 w2" using b by (rule backoff_same)
    show ?thesis
    proof (cases b)
      case (Inl we)
      then have "do_loop \<Gamma> p c fn n v w = (r, v1, w2)"
        using att b e by (simp add: do_loop.simps [of \<Gamma> p c fn n v w])
      then show ?thesis using once same by simp
    next
      case (Inr u)
      then have step: "do_loop \<Gamma> p c fn n v w = do_loop \<Gamma> p c fn (n + 1) v1 w2"
        using att b e by (simp add: do_loop.simps [of \<Gamma> p c fn n v w])
      have inc: "sint (n + 1) = sint n + 1" using e(3) by (rule sint_Suc_below)
      have "\<exists>k. tried \<Gamma> c fn k v1 w2 (do_loop \<Gamma> p c fn (n + 1) v1 w2) \<and> 1 \<le> k \<and> int k \<le> ?m - sint (n + 1) + 1"
        using att b e Inr inc by (intro "1.IH") (auto simp: sle_iff)
      then obtain k where k: "tried \<Gamma> c fn k v1 w2 (do_loop \<Gamma> p c fn n v w)" "1 \<le> k" "int k \<le> ?m - sint n"
        using step inc by auto
      have "tried \<Gamma> c fn (Suc k) v w (do_loop \<Gamma> p c fn n v w)"
        using tried.again [OF att [unfolded e(1)] e(2) same k(1)] .
      then show ?thesis using k by (intro exI [of _ "Suc k"]) auto
    qed
  qed
qed

lemma transient_OtherErr [simp]: "\<not> transient (OtherErr s)"
  by (simp add: transient_def)

lemma same_world_idle: "same_world w w' \<Longrightarrow> idle w' = idle w"
  by (simp add: same_world_def idle_def)

text \<open>Only the last attempt has an effect.\<close>

lemma tried_effect:
  assumes "tried \<Gamma> c fn n v w out" "idle w"
  shows "\<exists>v0 w0 w1. same_data (db w) (db w0) \<and> idle w0 \<and> attempt \<Gamma> c fn v0 w0 = (fst out, fst (snd out), w1)
    \<and> same_world w1 (snd (snd out))"
  using assms
proof (induction rule: tried.induct)
  case (last v w r v' w1 w')
  then show ?case by (intro exI [of _ v] exI [of _ w] exI [of _ w1]) auto
next
  case (again v w e v1 w1 w2 n out)
  have "same_data (db w) (db w1) \<and> idle w1"
    using again.hyps(1) again.prems
  proof (cases rule: attempt_cases)
    case (unknown s w3 w4)
    have "\<not> transient e" using unknown(1) by simp
    with again.hyps(2) show ?thesis by contradiction
  qed simp_all
  then have w2: "same_data (db w) (db w2)" "idle w2"
    using again.hyps(3) by (simp_all add: idle_def same_world_def)
  with again.IH show ?case by (meson same_data_trans)
qed

section \<open>Whole calls\<close>

definition start :: "database \<Rightarrow> database world" where
  "start d = \<lparr>db = d, in_tx = False, aborted = False, calls = 0\<rparr>"

definition no_caller :: ctx where
  "no_caller = \<lparr>c_identity = None, c_correlationID = '''', c_insideUnitOfWork = False, c_cancellable = True\<rparr>"

lemma idle_start [simp]: "idle (start d)"
  by (simp add: start_def idle_def)

text \<open>The effect of one committed run of a callback, from the data the unit of work started on.\<close>

definition ran_once :: "ctx \<Rightarrow> 'v callback \<Rightarrow> database \<Rightarrow> 'v \<Rightarrow> database \<Rightarrow> bool" where
  "ran_once c fn d v' d' \<longleftrightarrow>
     (\<exists>v0 w1 w2. same_data d (db w1) \<and> in_tx w1 \<and> \<not> aborted w1
        \<and> fn (c\<lparr>c_insideUnitOfWork := True\<rparr>) v0 w1 = (Inr (), v', w2) \<and> \<not> aborted w2 \<and> d' = db w2)"

lemma do_effect:
  assumes "UnitOfWork_Do \<Gamma> retry c fn v w = (r, v', w')" "idle w"
  shows "idle w' \<and>
    (case r of
       Inr _ \<Rightarrow> ran_once c fn (db w) v' (db w')
     | Inl e \<Rightarrow> same_data (db w) (db w')
         \<or> (\<exists>s n. e = OtherErr s \<and> env_commit \<Gamma> n = CommitUnknown s True \<and> ran_once c fn (db w) v' (db w')))"
proof (cases "c_insideUnitOfWork c")
  case True
  then show ?thesis using assms by (auto simp: UnitOfWork_Do_def)
next
  case False
  then have loop: "do_loop \<Gamma> (RetryPolicy_normalised retry) c fn 1 v w = (r, v', w')"
    using assms(1) by (simp add: UnitOfWork_Do_def)
  obtain k where "tried \<Gamma> c fn k v w (r, v', w')"
    using do_loop_tried [of 1 "RetryPolicy_normalised retry" \<Gamma> c fn v w] RetryPolicy_normal loop by auto
  then obtain v0 w0 w1 where a: "same_data (db w) (db w0)" "idle w0" "attempt \<Gamma> c fn v0 w0 = (r, v', w1)"
    "same_world w1 w'"
    using tried_effect [of \<Gamma> c fn k v w "(r, v', w')"] assms(2) by auto
  have same: "db w' = db w1" "idle w' = idle w1" using a(4) by (simp_all add: same_world_def idle_def)
  from a(3,2) show ?thesis
  proof (cases rule: attempt_cases)
    case (committed w2 w3)
    then have "ran_once c fn (db w) v' (db w')" unfolding ran_once_def using a(1) same by metis
    then show ?thesis using committed(1,8) same by simp
  next
    case (failed e)
    then show ?thesis using a(1) same by (auto intro: same_data_trans)
  next
    case (unknown s w2 w3)
    then have "ran_once c fn (db w) v' (db w')" unfolding ran_once_def using a(1) same by metis
    then show ?thesis using unknown(1,8,9) same by auto
  qed
qed

text \<open>A relation between the stored data and the variables that every attempt keeps holds at the end.\<close>

lemma tried_keeps:
  assumes "tried \<Gamma> c fn n v w out" "idle w" "I v" "same_data d (db w)"
    and step: "\<And>c v w r v' w'. I v \<Longrightarrow> same_data d (db w) \<Longrightarrow> fn c v w = (r, v', w') \<Longrightarrow> I v'"
  shows "I (fst (snd out))"
  using assms(1-4)
proof (induction rule: tried.induct)
  case (last v w r v' w1 w')
  have "I v'"
  proof (cases "env_fault \<Gamma> (calls w)")
    case (Some e)
    then show ?thesis using last by (auto simp: attempt_def pool_Begin_def)
  next
    case None
    then obtain q x w2 where q: "fn (c\<lparr>c_insideUnitOfWork := True\<rparr>) v ((tick w)\<lparr>in_tx := True, aborted := False\<rparr>) = (q, x, w2)"
      by (metis prod_cases3)
    have "x = v'"
      using last(1) None q by (auto simp: attempt_def pool_Begin_def split: sum.splits prod.splits)
    then show ?thesis using step [OF last(4) _ q] last(5) by simp
  qed
  then show ?case by simp
next
  case (again v w e v1 w1 w2 n out)
  have sd: "same_data (db w) (db w1) \<and> idle w1"
    using again.hyps(1) again.prems(1)
  proof (cases rule: attempt_cases)
    case (unknown s w3 w4)
    then show ?thesis using again.hyps(2) by simp
  qed simp_all
  have "I v1"
  proof (cases "env_fault \<Gamma> (calls w)")
    case (Some x)
    then show ?thesis using again by (auto simp: attempt_def pool_Begin_def)
  next
    case None
    then obtain q x w2 where q: "fn (c\<lparr>c_insideUnitOfWork := True\<rparr>) v ((tick w)\<lparr>in_tx := True, aborted := False\<rparr>) = (q, x, w2)"
      by (metis prod_cases3)
    have "x = v1"
      using again(1) None q by (auto simp: attempt_def pool_Begin_def split: sum.splits prod.splits)
    then show ?thesis using step [OF again.prems(2) _ q] again.prems(3) by simp
  qed
  then show ?case
    using again.IH sd again.hyps(3) again.prems(3) same_data_trans
    by (metis same_world_def same_world_idle)
qed

text \<open>The database answers and every commit is confirmed; the broker may still refuse.\<close>

definition healthy :: "env \<Rightarrow> bool" where
  "healthy \<Gamma> \<longleftrightarrow> (\<forall>n. env_fault \<Gamma> n = None \<and> env_commit \<Gamma> n = CommitDone)"

lemma healthy_stmt:
  "healthy \<Gamma> \<Longrightarrow> \<not> aborted w \<Longrightarrow> f (calls w) (db w) = (Inr x, d) \<Longrightarrow> stmt \<Gamma> f w = (Inr x, (tick w)\<lparr>db := d\<rparr>)"
  by (rule stmt_cases(4)) (auto simp: healthy_def)

section \<open>Callbacks that keep the books\<close>

text \<open>The clock of the host is past the first microsecond of year 1.\<close>

definition clock_ok :: "env \<Rightarrow> bool" where
  "clock_ok \<Gamma> \<longleftrightarrow> (\<forall>n. 1000 \<le> instant (env_now \<Gamma> n))"

lemma clock_okD: "clock_ok \<Gamma> \<Longrightarrow> time_set (env_now \<Gamma> n)"
  by (simp add: clock_ok_def time_set_def)

text \<open>The stored books went through these commits of the specification.\<close>

definition evolves :: "(bank \<Rightarrow> bank \<Rightarrow> bool) \<Rightarrow> database \<Rightarrow> database \<Rightarrow> bool" where
  "evolves R d d' \<longleftrightarrow> (\<forall>b. represents d b \<longrightarrow> bank_ok b \<longrightarrow> (\<exists>b'. represents d' b' \<and> R b b'))"

lemma evolves_same_bank: "same_bank d d' \<Longrightarrow> evolves commit\<^sup>=\<^sup>= d d'"
  unfolding evolves_def using represents_same_bank by blast

lemma evolves_star: "evolves commit\<^sup>=\<^sup>= d d' \<Longrightarrow> evolves commit\<^sup>*\<^sup>* d d'"
  unfolding evolves_def by blast

lemma commits_ok: "commit\<^sup>*\<^sup>* b b' \<Longrightarrow> bank_ok b \<Longrightarrow> bank_ok b'"
  by (induction rule: rtranclp_induct) (auto intro: commit_ok)

lemma evolves_trans: "evolves commit\<^sup>*\<^sup>* d d1 \<Longrightarrow> evolves commit\<^sup>*\<^sup>* d1 d2 \<Longrightarrow> evolves commit\<^sup>*\<^sup>* d d2"
  unfolding evolves_def by (meson commits_ok rtranclp_trans)

text \<open>
  What a use case promises of the callback it hands to the unit of work: a run that succeeds
  on sound books is at most one commit of the specification. The unit of work then gives the
  same for the whole call, retries, failures and lost answers included.
\<close>

locale bookkeeping =
  fixes body :: "env \<Rightarrow> 'v callback"
  assumes body_commits: "clock_ok \<Gamma> \<Longrightarrow> represents (db w) b \<Longrightarrow> bank_ok b \<Longrightarrow>
    body \<Gamma> c v w = (Inr (), v', w') \<Longrightarrow> \<exists>b'. represents (db w') b' \<and> commit\<^sup>=\<^sup>= b b'"
begin

lemma ran_once_evolves:
  assumes "ran_once c (body \<Gamma>) d v d'" "clock_ok \<Gamma>"
  shows "evolves commit\<^sup>=\<^sup>= d d'"
proof (unfold evolves_def, intro allI impI)
  fix b
  assume b: "represents d b" "bank_ok b"
  obtain v0 w1 w2 where "same_data d (db w1)" and run: "body \<Gamma> (c\<lparr>c_insideUnitOfWork := True\<rparr>) v0 w1 = (Inr (), v, w2)"
    and d': "d' = db w2"
    using assms(1) by (auto simp: ran_once_def)
  then have "represents (db w1) b" using b(1) represents_same_bank same_data_bank by blast
  then show "\<exists>b'. represents d' b' \<and> commit\<^sup>=\<^sup>= b b'"
    using body_commits [OF assms(2) _ b(2) run] d' by blast
qed

lemma do_evolves:
  assumes "UnitOfWork_Do \<Gamma> retry c (body \<Gamma>) v w = (r, v', w')" "idle w" "clock_ok \<Gamma>"
  shows "idle w' \<and> evolves commit\<^sup>=\<^sup>= (db w) (db w')"
proof -
  note eff = do_effect [OF assms(1,2)]
  consider "ran_once c (body \<Gamma>) (db w) v' (db w')" | "same_data (db w) (db w')"
    using eff by (cases r) auto
  then have "evolves commit\<^sup>=\<^sup>= (db w) (db w')"
    using ran_once_evolves [OF _ assms(3)] evolves_same_bank same_data_bank by cases blast+
  then show ?thesis using eff by simp
qed

end

lemma assigning_ok:
  "assigning m z c v w = (Inr (), v', w') \<longleftrightarrow> m c w = (Inr v', w')"
  by (auto simp: assigning_def split: prod.splits sum.splits)

section \<open>Atomicity and retries\<close>

text \<open>
  C14. A unit of work is all or nothing. Started with no transaction open, it leaves none open.
  When it reports success, the stored data is the result of exactly one complete, committed
  run of the callback on the data it started from, however many attempts it took. When it
  reports an error, the stored data is what it was, sequence numbers apart; the only
  exception is a commit whose answer was lost, and then the effect is again one complete run.
\<close>

theorem unit_of_work_atomic:
  assumes "idle w"
  shows "case UnitOfWork_Do \<Gamma> retry c fn v w of (r, v', w') \<Rightarrow>
    idle w' \<and>
    (case r of
       Inr _ \<Rightarrow> ran_once c fn (db w) v' (db w')
     | Inl e \<Rightarrow> same_data (db w) (db w')
         \<or> (\<exists>s n. e = OtherErr s \<and> env_commit \<Gamma> n = CommitUnknown s True \<and> ran_once c fn (db w) v' (db w')))"
proof -
  obtain r v' w' where "UnitOfWork_Do \<Gamma> retry c fn v w = (r, v', w')" by (metis prod_cases3)
  then show ?thesis using do_effect [OF _ assms] by simp
qed

definition refusing :: "unit callback" where
  "refusing c v w = (Inl (DomainErr CodeInsufficientFunds), (), w\<lparr>db := (db w)\<lparr>d_inbox := []\<rparr>, aborted := True\<rparr>)"

theorem unit_of_work_atomic_witness:
  "idle (start empty_db) \<and>
   (case UnitOfWork_Do calm DefaultRetryPolicy no_caller refusing () (start empty_db) of (r, _, w') \<Rightarrow>
      r = Inl (DomainErr CodeInsufficientFunds) \<and> same_data empty_db (db w'))"
proof -
  have r: "fst (UnitOfWork_Do calm DefaultRetryPolicy no_caller refusing () (start empty_db)) = Inl (DomainErr CodeInsufficientFunds)"
    by (simp add: UnitOfWork_Do_def no_caller_def do_loop.simps attempt_def pool_Begin_def refusing_def calm_def
        start_def transient_def)
  show ?thesis
    using unit_of_work_atomic [where w = "start empty_db" and \<Gamma> = calm and retry = DefaultRetryPolicy
        and c = no_caller and fn = refusing and v = "()"] r
    by (auto simp: start_def idle_def split: prod.splits)
qed

text \<open>
  C15. Retrying is bounded and only for transient failures. A unit of work inside another is
  refused at once. Otherwise the callback is attempted at least once and at most
  \<open>MaxAttempts\<close> times (three by default), every attempt but the last having failed with a
  serialization failure, a deadlock or a version mismatch; so an error that is none of these, a
  business rejection in particular, is never answered by trying again.
\<close>

theorem unit_of_work_retries_bounded:
  "(c_insideUnitOfWork c \<longrightarrow> UnitOfWork_Do \<Gamma> retry c fn v w = (Inl ErrNestedUnitOfWork, v, w)) \<and>
   (\<not> c_insideUnitOfWork c \<longrightarrow>
      (\<exists>k. tried \<Gamma> c fn k v w (UnitOfWork_Do \<Gamma> retry c fn v w)
         \<and> 1 \<le> k \<and> int k \<le> sint (ry_MaxAttempts (RetryPolicy_normalised retry)))) \<and>
   (\<not> c_insideUnitOfWork c \<longrightarrow> attempt \<Gamma> c fn v w = (Inl e, v1, w1) \<longrightarrow> as_domain e = Some code \<longrightarrow>
      UnitOfWork_Do \<Gamma> retry c fn v w = (Inl e, v1, w1))"
proof (intro conjI impI)
  assume "c_insideUnitOfWork c"
  then show "UnitOfWork_Do \<Gamma> retry c fn v w = (Inl ErrNestedUnitOfWork, v, w)"
    by (simp add: UnitOfWork_Do_def)
next
  assume "\<not> c_insideUnitOfWork c"
  then show "\<exists>k. tried \<Gamma> c fn k v w (UnitOfWork_Do \<Gamma> retry c fn v w)
      \<and> 1 \<le> k \<and> int k \<le> sint (ry_MaxAttempts (RetryPolicy_normalised retry))"
    using do_loop_tried [of 1 "RetryPolicy_normalised retry" \<Gamma> c fn v w] RetryPolicy_normal
    by (auto simp: UnitOfWork_Do_def)
next
  assume "\<not> c_insideUnitOfWork c" "attempt \<Gamma> c fn v w = (Inl e, v1, w1)" "as_domain e = Some code"
  moreover from this have "\<not> transient e" using domain_not_transient by (simp add: transient_def)
  ultimately show "UnitOfWork_Do \<Gamma> retry c fn v w = (Inl e, v1, w1)"
    by (simp add: UnitOfWork_Do_def do_loop.simps)
qed

theorem unit_of_work_retries_bounded_witness:
  "\<not> c_insideUnitOfWork no_caller \<and>
   (\<exists>k. tried calm no_caller refusing k () (start empty_db)
       (UnitOfWork_Do calm DefaultRetryPolicy no_caller refusing () (start empty_db)) \<and> 1 \<le> k \<and> k \<le> 3)"
proof -
  have m: "sint (ry_MaxAttempts (RetryPolicy_normalised DefaultRetryPolicy)) = 3" by code_simp
  have n: "\<not> c_insideUnitOfWork no_caller" by (simp add: no_caller_def)
  then show ?thesis
    using unit_of_work_retries_bounded [where w = "start empty_db" and \<Gamma> = calm and retry = DefaultRetryPolicy
        and c = no_caller and fn = refusing and v = "()"] m
    by auto
qed

end
