(* ===== verification/Recorder.thy ===== *)
theory Recorder
  imports UnitOfWork
begin

text \<open>
  Recording the events of an outcome (\<open>internal/app/events.go\<close>): which events a finished
  operation produces, and their append to the outbox in the transaction that caused them.
\<close>

section \<open>Model\<close>

definition no_wallet :: Wallet where
  "no_wallet = \<lparr>w_id = ident_zero, w_playerID = ident_zero, w_currency = Currency_zero,
     w_balance = Money_zero, w_version = 0, w_createdAt = time_zero, w_updatedAt = time_zero\<rparr>"

definition no_entry :: LedgerEntry where
  "no_entry = \<lparr>e_id = ident_zero, e_walletID = ident_zero, e_transactionID = ident_zero,
     e_direction = DirectionOther '''', e_amount = Money_zero, e_balanceBefore = Money_zero,
     e_balanceAfter = Money_zero, e_createdAt = time_zero\<rparr>"

definition CorrelationIDFrom :: "ctx \<Rightarrow> string" where
  "CorrelationIDFrom c = c_correlationID c"

fun record_loop :: "env \<Rightarrow> ctx \<Rightarrow> gotime \<Rightarrow> Event list \<Rightarrow> unit pgio" where
  "record_loop \<Gamma> c now [] = ret ()"
| "record_loop \<Gamma> c now (event # events) =
     bindE (ids_NewEventID \<Gamma> c) (\<lambda>eventID.
     bindE (Outbox_Append \<Gamma> \<lparr>ob_eventID = eventID, ob_event = event, ob_correlationID = CorrelationIDFrom c,
              ob_causationID = '''', ob_attempts = 0, ob_nextAttemptAt = now, ob_publishedAt = time_zero,
              ob_lastError = ''''\<rparr>) (\<lambda>_.
       record_loop \<Gamma> c now events))"

definition eventRecorder_record :: "env \<Rightarrow> ctx \<Rightarrow> Event list \<Rightarrow> unit pgio" where
  "eventRecorder_record \<Gamma> c events =
     (if events = [] then ret ()
      else bindE (clock_Now \<Gamma>) (\<lambda>now. record_loop \<Gamma> c now events))"

definition eventsForOutcome :: "WagerTransaction \<Rightarrow> Wallet \<Rightarrow> LedgerEntry \<Rightarrow> bool \<Rightarrow> Event list res" where
  "eventsForOutcome t wallet entry moved =
     (case t_status t of
        StatusProcessed \<Rightarrow>
          andThen (NewWagerTransactionProcessed t) (\<lambda>processed.
            if moved then andThen (NewWalletBalanceChanged wallet entry) (\<lambda>changed. Inr [processed, changed])
            else Inr [processed])
      | StatusRejected \<Rightarrow> andThen (NewWagerTransactionRejected t) (\<lambda>rejected. Inr [rejected])
      | StatusPendingReference \<Rightarrow>
          andThen (NewWagerTransactionPendingReference t) (\<lambda>waiting. Inr [waiting])
      | _ \<Rightarrow> Inr [])"

definition emit :: "env \<Rightarrow> ctx \<Rightarrow> WagerTransaction \<Rightarrow> Wallet \<Rightarrow> LedgerEntry \<Rightarrow> bool \<Rightarrow> unit pgio" where
  "emit \<Gamma> c t wallet entry moved =
     bindE (lift (eventsForOutcome t wallet entry moved)) (eventRecorder_record \<Gamma> c)"

section \<open>What is recorded\<close>

text \<open>An outbox row that carries an event and waits to be published.\<close>

definition carries :: "ctx \<Rightarrow> Event \<Rightarrow> outbox_row \<Rightarrow> bool" where
  "carries c e r \<longleftrightarrow> or_event_type r = ev_type e \<and> or_aggregate_id r = ev_aggregateID e
     \<and> or_payload r = ev_payload e \<and> or_published_at r = None \<and> or_attempts r = 0
     \<and> or_correlation_id r = nullable (c_correlationID c)"

text \<open>The outbox grew by these events, in their order, and no financial table changed.\<close>

definition recorded_events :: "ctx \<Rightarrow> Event list \<Rightarrow> database world \<Rightarrow> database world \<Rightarrow> bool" where
  "recorded_events c events w w' \<longleftrightarrow>
     same_bank (db w) (db w') \<and> d_inbox (db w') = d_inbox (db w)
     \<and> in_tx w' = in_tx w \<and> aborted w' = aborted w
     \<and> (\<exists>rows. d_outbox (db w') = d_outbox (db w) @ rows \<and> list_all2 (carries c) events rows)"

lemma same_bank_trans: "same_bank a b \<Longrightarrow> same_bank b c \<Longrightarrow> same_bank a c"
  by (simp add: same_bank_def)

lemma recorded_refl: "same_world w w' \<Longrightarrow> recorded_events c [] w w'"
  by (simp add: recorded_events_def same_world_def)

lemma Outbox_Append_ok:
  assumes "Outbox_Append \<Gamma> r w = (Inr u, w')" "ob_attempts r = 0" "ob_publishedAt r = time_zero"
    "ob_correlationID r = c_correlationID c"
  shows "recorded_events c [ob_event r] w w'"
proof -
  have "stmt \<Gamma> (\<lambda>_. insert_outbox (outbox_row_of r)) w = (Inr u, w')"
    using assms(1) by (auto simp: Outbox_Append_def elim: io_translate_okE)
  then have ins: "insert_outbox (outbox_row_of r) (db w) = (Inr u, db w')"
    by (auto elim: stmt_okE)
  let ?row = "(outbox_row_of r)\<lparr>or_seq := d_outbox_seq (db w)\<rparr>"
  have "db w' = (db w)\<lparr>d_outbox_seq := Suc (d_outbox_seq (db w)), d_outbox := d_outbox (db w) @ [?row]\<rparr>"
    using ins unfolding insert_outbox_def Let_def by (auto split: option.splits)
  then have "d_outbox (db w') = d_outbox (db w) @ [?row]" "d_inbox (db w') = d_inbox (db w)" by simp_all
  moreover have "carries c (ob_event r) ?row"
    using assms by (simp add: carries_def outbox_row_of_def nullableTime_def)
  ultimately show ?thesis
    using messaging_same_bank(1) [OF assms(1)] by (auto simp: recorded_events_def)
qed

lemma recorded_append:
  assumes "recorded_events c es w1 w2" "recorded_events c fs w2 w3"
  shows "recorded_events c (es @ fs) w1 w3"
proof -
  obtain r1 r2 where "d_outbox (db w2) = d_outbox (db w1) @ r1" "list_all2 (carries c) es r1"
    "d_outbox (db w3) = d_outbox (db w2) @ r2" "list_all2 (carries c) fs r2"
    using assms by (auto simp: recorded_events_def)
  then have "\<exists>rows. d_outbox (db w3) = d_outbox (db w1) @ rows \<and> list_all2 (carries c) (es @ fs) rows"
    by (intro exI [of _ "r1 @ r2"]) (auto intro: list_all2_appendI)
  then show ?thesis
    using assms by (auto simp: recorded_events_def intro: same_bank_trans)
qed

lemma record_loop_ok:
  "record_loop \<Gamma> c now events w = (Inr u, w') \<Longrightarrow> recorded_events c events w w'"
proof (induction events arbitrary: w)
  case Nil
  then show ?case by (auto intro: recorded_refl)
next
  case (Cons e es)
  obtain eid w1 u2 w2 where a: "ids_NewEventID \<Gamma> c w = (Inr eid, w1)"
    "Outbox_Append \<Gamma> \<lparr>ob_eventID = eid, ob_event = e, ob_correlationID = CorrelationIDFrom c,
       ob_causationID = '''', ob_attempts = 0, ob_nextAttemptAt = now, ob_publishedAt = time_zero,
       ob_lastError = ''''\<rparr> w1 = (Inr u2, w2)"
    "record_loop \<Gamma> c now es w2 = (Inr u, w')"
    using Cons.prems by (auto elim!: bindE_okE)
  have "recorded_events c [] w w1" using ids_same(4) [OF a(1)] by (rule recorded_refl)
  moreover have "recorded_events c [e] w1 w2"
    using Outbox_Append_ok [OF a(2), of c] by (simp add: CorrelationIDFrom_def)
  moreover have "recorded_events c es w2 w'" by (rule Cons.IH [OF a(3)])
  ultimately show ?case using recorded_append by (metis append_Cons append_Nil)
qed

lemma record_ok:
  assumes "eventRecorder_record \<Gamma> c events w = (Inr u, w')"
  shows "recorded_events c events w w'"
proof (cases "events = []")
  case True
  then show ?thesis using assms by (auto simp: eventRecorder_record_def intro: recorded_refl)
next
  case False
  then obtain now w1 where "clock_Now \<Gamma> w = (Inr now, w1)" "record_loop \<Gamma> c now events w1 = (Inr u, w')"
    using assms by (auto simp: eventRecorder_record_def elim: bindE_okE)
  then show ?thesis
    using recorded_append [OF recorded_refl record_loop_ok] clock_Now_same by (metis append_Nil)
qed

lemma emit_ok:
  assumes "emit \<Gamma> c t wallet entry moved w = (Inr u, w')"
  shows "\<exists>events. eventsForOutcome t wallet entry moved = Inr events \<and> recorded_events c events w w'"
  using assms by (auto simp: emit_def bindE_Inr_iff intro: record_ok)

lemma emit_same_bank:
  "emit \<Gamma> c t wallet entry moved w = (Inr u, w') \<Longrightarrow>
     same_bank (db w) (db w') \<and> in_tx w' = in_tx w \<and> aborted w' = aborted w"
  using emit_ok by (fastforce simp: recorded_events_def)

text \<open>Building the events of a well-formed outcome cannot fail.\<close>

lemma eventsForOutcome_ok:
  assumes "tx_ok t" "moved \<longrightarrow> \<not> ident_IsZero (w_id wallet) \<and> entry_ok entry
      \<and> e_walletID entry = w_id wallet \<and> e_balanceAfter entry = w_balance wallet"
  shows "\<exists>events. eventsForOutcome t wallet entry moved = Inr events"
proof (cases "t_status t")
  case StatusProcessed
  then show ?thesis
    using processed_event_ok [OF assms(1)] balance_event_ok [of wallet entry] assms(2)
    by (cases moved) (auto simp: eventsForOutcome_def)
next
  case StatusRejected
  then show ?thesis using rejected_event_ok [OF assms(1)] by (auto simp: eventsForOutcome_def)
next
  case StatusPendingReference
  then show ?thesis using pending_event_ok [OF assms(1)] by (auto simp: eventsForOutcome_def)
qed (simp_all add: eventsForOutcome_def)

lemma record_loop_error: "record_loop \<Gamma> c now events w = (Inl e, w') \<Longrightarrow> as_domain e = None"
proof (induction events arbitrary: w)
  case (Cons ev evs)
  then show ?case
    by (auto simp: ids_NewEventID_def elim!: bindE_errE dest: ids_next_err write_errors(6) split: prod.splits)
qed simp

lemma emit_error:
  assumes "emit \<Gamma> c t wallet entry moved w = (Inl e, w')" "\<exists>events. eventsForOutcome t wallet entry moved = Inr events"
  shows "as_domain e = None"
  using assms
  by (auto simp: emit_def eventRecorder_record_def clock_Now_def elim!: bindE_errE dest: record_loop_error
      split: if_splits)

end
