(* ===== verification/Samples.thy ===== *)
theory Samples
  imports UnitOfWork
begin

text \<open>
  Concrete data for the examples: a wallet at zero with one reversal parked on it, stored in a
  database, and the facts the examples need about them.
\<close>

lemma clock_ok_calm [simp]: "clock_ok calm"
  by (simp add: clock_ok_def calm_def)

definition demo_time :: gotime where
  "demo_time = \<lparr>instant = 1700000000000000000, loc = LocUTC\<rparr>"

definition demo_wallet :: Wallet where
  "demo_wallet = \<lparr>w_id = Identifier ''w1'', w_playerID = Identifier ''p1'', w_currency = \<lparr>code_str = ''BRL''\<rparr>,
     w_balance = \<lparr>minor = 0, currency = \<lparr>code_str = ''BRL''\<rparr>\<rparr>, w_version = 1, w_createdAt = demo_time,
     w_updatedAt = demo_time\<rparr>"

definition demo_pending :: WagerTransaction where
  "demo_pending = \<lparr>t_id = Identifier ''t1'', t_origin = OriginExternal, t_kind = KindRollback,
     t_status = StatusPendingReference, t_walletID = Identifier ''w1'', t_playerID = Identifier ''p1'',
     t_money = \<lparr>minor = 500, currency = \<lparr>code_str = ''BRL''\<rparr>\<rparr>, t_providerID = Identifier ''prov'',
     t_externalID = Identifier ''x2'', t_idempotencyKey = Identifier ''k2'', t_payloadHash = Identifier ''h2'',
     t_roundID = Identifier ''r1'', t_gameID = Identifier ''g1'', t_referenceExternalID = Identifier ''x1'',
     t_resolvedReferenceID = ident_zero, t_failureCode = CodeOther '''', t_referenceAttempts = 1,
     t_referenceNextAttemptAt = demo_time, t_referenceDeadlineAt = \<lparr>instant = 1700000120000000000, loc = LocUTC\<rparr>,
     t_balanceAfter = Money_zero, t_createdAt = demo_time, t_updatedAt = demo_time\<rparr>"

definition demo_bank :: bank where
  "demo_bank = \<lparr>b_wallets = [demo_wallet], b_txs = [demo_pending], b_entries = []\<rparr>"

definition demo_db :: database where
  "demo_db = empty_db\<lparr>d_wallets := [wallet_row_of demo_wallet], d_transactions := [tx_row_of demo_pending]\<rparr>"

lemma demo_stored: "wallet_st demo_wallet" "tx_st demo_pending"
  by (code_simp, code_simp)

lemma demo_represents: "represents demo_db demo_bank"
  using demo_stored
  by (simp add: represents_def wt.holds_def tt.holds_def lt.holds_def demo_db_def demo_bank_def empty_db_def)

lemma demo_bank_ok: "bank_ok demo_bank"
proof -
  have f: "balance_value (w_balance demo_wallet) = 0" "w_version demo_wallet = 1" "t_walletID demo_pending = w_id demo_wallet"
    "t_status demo_pending = StatusPendingReference"
    by (simp_all add: demo_wallet_def demo_pending_def)
  then show ?thesis
    using demo_stored
    by (simp add: bank_ok_def wallets_ok_def txs_ok_def entries_ok_def balanced_def demo_bank_def entries_of_def
        moved_money_def)
qed

definition demo_late :: gotime where
  "demo_late = \<lparr>instant = 1700000200000000000, loc = LocUTC\<rparr>"

lemma calm_stmt:
  "\<not> (in_tx w \<and> aborted w) \<Longrightarrow> stmt calm f w =
     (case f (calls w) (db w) of
        (Inl e, d) \<Rightarrow> (Inl e, (tick w)\<lparr>db := d, aborted := aborted w \<or> (in_tx w \<and> e \<noteq> PgNoRows)\<rparr>)
      | (Inr x, d) \<Rightarrow> (Inr x, (tick w)\<lparr>db := d\<rparr>))"
  by (auto simp: stmt_def calm_def split: prod.splits sum.splits)

lemma demo_rows: "wr_id (wallet_row_of demo_wallet) = ''w1''" "ident_String (t_walletID demo_pending) = ''w1''"
  "tr_provider_id (tx_row_of demo_pending) = Some ''prov''" "tr_external_id (tx_row_of demo_pending) = Some ''x2''"
   "tr_id (tx_row_of demo_pending) = ''t1''"
  by (simp_all add: wallet_row_of_def tx_row_of_def demo_wallet_def demo_pending_def ident_String_def nullable_def)

end
