(* ===== verification/Open_Wallet.thy ===== *)
theory Open_Wallet
  imports Recorder Samples
begin

text \<open>
  \<open>OpenWallet\<close> (\<open>internal/app/openwallet.go\<close>): creating a wallet and, when it opens with
  money, the opening transaction and its ledger entry, all in one unit of work.
\<close>

section \<open>Model\<close>

record OpenWalletCommand =
  oc_playerID :: string
  oc_amount :: string
  oc_currency :: string

text \<open>The identities of the opening are minted only when there is money to open with.\<close>

definition opening_ids_for :: "env \<Rightarrow> ctx \<Rightarrow> money \<Rightarrow> (TransactionID \<times> LedgerEntryID) pgio" where
  "opening_ids_for \<Gamma> c initial =
     (if Money_IsPositive initial
      then bindE (io_wrap (ids_NewTransactionID \<Gamma> c)) (\<lambda>t.
           bindE (io_wrap (ids_NewLedgerEntryID \<Gamma> c)) (\<lambda>e. ret (t, e)))
      else ret (ident_zero, ident_zero))"

definition opening_transaction :: "OpenWalletParams \<Rightarrow> WagerTransaction option res" where
  "opening_transaction p =
     (if Money_IsPositive (ow_initialBalance p)
      then andThen (NewOpeningTransaction \<lparr>ot_id = ow_openingTransactionID p, ot_walletID = ow_id p,
             ot_playerID = ow_playerID p, ot_money = ow_initialBalance p, ot_createdAt = ow_createdAt p\<rparr>)
             (\<lambda>t. Inr (Some t))
      else Inr None)"

fun append_all :: "env \<Rightarrow> LedgerEntry list \<Rightarrow> unit pgio" where
  "append_all \<Gamma> [] = ret ()"
| "append_all \<Gamma> (e # es) = bindE (Ledger_Append \<Gamma> e) (\<lambda>_. append_all \<Gamma> es)"

text \<open>
  The body of the unit of work. \<open>opening.Entries[0]\<close> is read only behind an opening
  transaction, and then there is one.
\<close>

definition write_opening :: "env \<Rightarrow> Opening \<Rightarrow> WagerTransaction option \<Rightarrow> ctx \<Rightarrow> unit pgio" where
  "write_opening \<Gamma> opening openingTx c =
     bindE (Wallets_Insert \<Gamma> (op_wallet opening)) (\<lambda>_.
     bindE (case openingTx of None \<Rightarrow> ret () | Some t \<Rightarrow> Transactions_Insert \<Gamma> t) (\<lambda>_.
     bindE (append_all \<Gamma> (op_entries opening)) (\<lambda>_.
       case openingTx of
         None \<Rightarrow> ret ()
       | Some t \<Rightarrow>
           (case op_entries opening of
              [] \<Rightarrow> throw (OtherErr ''panic: index out of range'')
            | e # _ \<Rightarrow>
                bindE (lift (eventsForOutcome t (op_wallet opening) e True)) (eventRecorder_record \<Gamma> c)))))"

text \<open>
  The part of \<open>Execute\<close> in front of the unit of work: it authorises, parses, mints and builds.
\<close>

definition prepare_opening ::
  "env \<Rightarrow> ctx \<Rightarrow> OpenWalletCommand \<Rightarrow> (OpenWalletParams \<times> Opening \<times> WagerTransaction option) pgio" where
  "prepare_opening \<Gamma> c cmd =
     bindE (lift (caller c ScopeWallets)) (\<lambda>_.
     bindE (lift (ParsePlayerID (oc_playerID cmd))) (\<lambda>player.
     bindE (lift (ParseCurrency (oc_currency cmd))) (\<lambda>cur.
     bindE (lift (ParseExternalMoney (oc_amount cmd) cur)) (\<lambda>initial.
     bindE (io_wrap (ids_NewWalletID \<Gamma> c)) (\<lambda>wid.
     bindE (clock_Now \<Gamma>) (\<lambda>at.
     bindE (opening_ids_for \<Gamma> c initial) (\<lambda>(txID, entryID).
       let params = \<lparr>ow_id = wid, ow_playerID = player, ow_initialBalance = initial,
                     ow_openingTransactionID = txID, ow_openingEntryID = entryID, ow_createdAt = at\<rparr> in
       bindE (lift (OpenWallet params)) (\<lambda>opening.
       bindE (lift (opening_transaction params)) (\<lambda>openingTx. ret (params, opening, openingTx))))))))))"

definition OpenWallet_Execute :: "env \<Rightarrow> RetryPolicy \<Rightarrow> ctx \<Rightarrow> OpenWalletCommand \<Rightarrow> Wallet pgio" where
  "OpenWallet_Execute \<Gamma> retry c cmd =
     bindE (prepare_opening \<Gamma> c cmd) (\<lambda>(params, opening, openingTx) w.
       case UnitOfWork_Do \<Gamma> retry c (assigning (write_opening \<Gamma> opening openingTx) ()) () w of
         (Inl e, _, w') \<Rightarrow> (Inl e, w')
       | (Inr _, _, w') \<Rightarrow> (Inr (op_wallet opening), w'))"

section \<open>The body of the unit of work is a commit\<close>

definition opening_inputs_ok :: "OpenWalletParams \<Rightarrow> bool" where
  "opening_inputs_ok p \<longleftrightarrow> ident_ok (ow_id p) \<and> ident_ok (ow_playerID p)
     \<and> iso4217 (code_str (currency (ow_initialBalance p))) \<and> time_set (ow_createdAt p)
     \<and> (Money_IsPositive (ow_initialBalance p) \<longrightarrow>
          ident_ok (ow_openingTransactionID p) \<and> ident_ok (ow_openingEntryID p))"

lemma opened_wallet_st:
  assumes "OpenWallet p = Inr opening" "opening_inputs_ok p"
  shows "wallet_st (trunc_wallet (op_wallet opening))"
proof -
  have "wallet_ok (op_wallet opening)" "w_id (op_wallet opening) = ow_id p" "w_playerID (op_wallet opening) = ow_playerID p"
    using assms(1) by (auto elim: OpenWallet_okE)
  moreover have "w_createdAt (op_wallet opening) = time_UTC (ow_createdAt p)"
    "w_updatedAt (op_wallet opening) = time_UTC (ow_createdAt p)"
    "w_currency (op_wallet opening) = currency (ow_initialBalance p)"
    using assms(1) by (auto simp: OpenWallet_def andThen_Inr_iff Let_def split: if_splits)
  ultimately show ?thesis
    using assms(2) time_set_trunc [of "ow_createdAt p"]
    by (simp add: wallet_st_def trunc_wallet_def opening_inputs_ok_def wallet_ok_def)
      (simp add: trunc_time_def)
qed

lemma opening_tx_storable:
  assumes "opening_transaction p = Inr (Some t)" "opening_inputs_ok p"
  shows "tx_storable t" "t_kind t = KindOpening" "t_status t = StatusProcessed" "t_walletID t = ow_id p"
    "t_id t = ow_openingTransactionID p" "t_money t = ow_initialBalance p" "t_balanceAfter t = ow_initialBalance p"
    "Money_IsPositive (ow_initialBalance p)"
proof -
  show pos: "Money_IsPositive (ow_initialBalance p)"
    using assms(1) by (auto simp: opening_transaction_def split: if_splits)
  have new: "NewOpeningTransaction \<lparr>ot_id = ow_openingTransactionID p, ot_walletID = ow_id p,
      ot_playerID = ow_playerID p, ot_money = ow_initialBalance p, ot_createdAt = ow_createdAt p\<rparr> = Inr t"
    using assms(1) by (auto simp: opening_transaction_def andThen_Inr_iff split: if_splits)
  note ok = NewOpeningTransaction_ok [OF new]
  have f: "t_id t = ow_openingTransactionID p" "t_walletID t = ow_id p" "t_playerID t = ow_playerID p"
    "t_money t = ow_initialBalance p" "t_balanceAfter t = ow_initialBalance p"
    "t_createdAt t = time_UTC (ow_createdAt p)" "t_updatedAt t = time_UTC (ow_createdAt p)"
    "t_referenceNextAttemptAt t = time_zero" "t_referenceDeadlineAt t = time_zero"
    "t_failureCode t = CodeOther ''''" "t_providerID t = ident_zero" "t_externalID t = ident_zero"
    "t_idempotencyKey t = ident_zero" "t_payloadHash t = ident_zero" "t_roundID t = ident_zero"
    "t_gameID t = ident_zero" "t_referenceExternalID t = ident_zero" "t_resolvedReferenceID t = ident_zero"
    using new by (auto simp: NewOpeningTransaction_def andThen_Inr_iff Let_def split: if_splits)
  show "tx_storable t"
    using ok(1) f assms(2) pos
    by (simp add: tx_storable_def tx_ids_ok_def opening_inputs_ok_def optional_ok_def survives_time_set)
  show "t_kind t = KindOpening" "t_status t = StatusProcessed" by (fact ok)+
  show "t_walletID t = ow_id p" "t_id t = ow_openingTransactionID p" "t_money t = ow_initialBalance p"
    "t_balanceAfter t = ow_initialBalance p" by (fact f)+
qed

lemma write_opening_ok:
  assumes run: "write_opening \<Gamma> opening otx c w = (Inr u, w')" and rep: "represents (db w) b"
    and p: "OpenWallet p = Inr opening" "opening_transaction p = Inr otx" "opening_inputs_ok p"
  shows "(\<exists>b'. represents (db w') b' \<and> commit b b' \<and> b_wallets b' = b_wallets b @ [trunc_wallet (op_wallet opening)])
    \<and> in_tx w' = in_tx w \<and> aborted w' = aborted w"
proof -
  let ?W = "op_wallet opening"
  obtain u1 w1 where ins: "Wallets_Insert \<Gamma> ?W w = (Inr u1, w1)"
    using run by (auto simp: write_opening_def elim: bindE_okE)
  note wst = opened_wallet_st [OF p(1,3)] and wi = Wallets_Insert_ok [OF ins rep opened_wallet_st [OF p(1,3)]]
  let ?b1 = "b\<lparr>b_wallets := b_wallets b @ [trunc_wallet ?W]\<rparr>"
  have W: "w_version ?W = 1" "w_balance ?W = ow_initialBalance p" "w_id ?W = ow_id p"
    "op_entries opening = [] \<longleftrightarrow> balance_value (ow_initialBalance p) = 0"
    using p(1) by (auto elim: OpenWallet_okE)
  show ?thesis
  proof (cases otx)
    case None
    then have z: "balance_value (ow_initialBalance p) = 0"
      using p(1,2) by (auto simp: opening_transaction_def OpenWallet_def IsPositive_iff IsNegative_iff andThen_Inr_iff
          split: if_splits)
    then have "w' = w1" using run None W(4) by (auto simp: write_opening_def bindE_def ins)
    moreover have "commit b ?b1"
      using wi wst W z by (intro commit.opened_empty) auto
    ultimately show ?thesis using wi by auto
  next
    case (Some t)
    note ot = opening_tx_storable [OF p(2) [unfolded Some] p(3)]
    obtain e where e: "op_entries opening = [e]" "entry_ok e" "e_walletID e = ow_id p"
      "e_transactionID e = ow_openingTransactionID p" "e_id e = ow_openingEntryID p" "e_direction e = Credit"
      "e_amount e = ow_initialBalance p" "balance_value (e_balanceBefore e) = 0" "e_balanceAfter e = ow_initialBalance p"
    proof -
      obtain e0 es where "op_entries opening = e0 # es"
        using W(4) ot(8) by (cases "op_entries opening") (auto simp: IsPositive_iff)
      then show ?thesis using p(1) that by (elim OpenWallet_okE) (metis list.set_intros(1))
    qed
    have ec: "e_createdAt e = time_UTC (ow_createdAt p)"
      using p(1) e(1) by (auto simp: OpenWallet_def andThen_Inr_iff Let_def NewLedgerEntry_iff split: if_splits)
    have est: "entry_st (trunc_entry e)"
      using e p(3) ec ot(8) time_set_trunc [of "ow_createdAt p"]
      by (simp add: entry_st_def trunc_entry_def entry_ok_def opening_inputs_ok_def entry_delta_def direction_sign_def)
    obtain u2 w2 u3 w3 ev where ti: "Transactions_Insert \<Gamma> t w1 = (Inr u2, w2)" and la: "Ledger_Append \<Gamma> e w2 = (Inr u3, w3)"
      and ro: "eventRecorder_record \<Gamma> c ev w3 = (Inr u, w')"
      using run Some e(1) by (auto simp: write_opening_def bindE_def [of "Wallets_Insert \<Gamma> ?W"] ins elim!: bindE_okE)
    note tx = Transactions_Insert_ok [OF ti wi [THEN conjunct1] ot(1)]
    note lg = Ledger_Append_ok [OF la tx [THEN conjunct1] est]
    let ?b' = "\<lparr>b_wallets = b_wallets b @ [trunc_wallet ?W], b_txs = b_txs b @ [trunc_tx t],
      b_entries = b_entries b @ [(d_ledger_seq (db w2), trunc_entry e)]\<rparr>"
    have "?b1\<lparr>b_txs := b_txs ?b1 @ [trunc_tx t], b_entries := b_entries (?b1\<lparr>b_txs := b_txs ?b1 @ [trunc_tx t]\<rparr>)
        @ [(d_ledger_seq (db w2), trunc_entry e)]\<rparr> = ?b'" by simp
    then have r3: "represents (db w3) ?b'" using lg by metis
    have "posted_as [trunc_tx t] (trunc_tx t) (trunc_entry e)"
      using e ot by (simp add: posted_as_def moved_money_def Kind_MovesMoney_def directed_def)
    then have "commit b ?b'"
      using wst W wi tx lg e ot est by (intro commit.opened_funded [of _ _ ?b1]) auto
    moreover have "represents (db w') ?b'" "in_tx w' = in_tx w" "aborted w' = aborted w"
      using r3 record_ok [OF ro] wi tx lg represents_same_bank by (auto simp: recorded_events_def)
    ultimately show ?thesis by (intro conjI exI [of _ ?b']) simp_all
  qed
qed

section \<open>The use case\<close>

lemma opening_bookkeeping:
  assumes "OpenWallet p = Inr opening" "opening_transaction p = Inr otx" "opening_inputs_ok p"
  shows "bookkeeping (\<lambda>\<Gamma>. assigning (write_opening \<Gamma> opening otx) ())"
proof
  fix \<Gamma> and w :: "database world" and b c v v' w'
  assume "represents (db w) b" "assigning (write_opening \<Gamma> opening otx) () c v w = (Inr (), v', w')"
  then show "\<exists>b'. represents (db w') b' \<and> commit\<^sup>=\<^sup>= b b'"
    using write_opening_ok [OF _ _ assms] unfolding assigning_ok by (metis sup2I1)
qed

lemma opening_ids_for_same: "opening_ids_for \<Gamma> c m w = (r, w') \<Longrightarrow> same_world w w'"
  by (auto simp: opening_ids_for_def bindE_def io_wrap_def split: if_splits prod.splits sum.splits
      dest!: ids_same(2) ids_same(3) intro: same_world_trans)

lemma opening_ids_for_ok:
  "opening_ids_for \<Gamma> c m w = (Inr (t, e), w') \<Longrightarrow> Money_IsPositive m \<Longrightarrow> ident_ok t \<and> ident_ok e"
  by (auto simp: opening_ids_for_def elim!: bindE_okE io_wrap_okE dest: ids_ok(2) ids_ok(3))

lemma prepare_opening_same: "prepare_opening \<Gamma> c cmd w = (r, w') \<Longrightarrow> same_world w w'"
  unfolding prepare_opening_def
  by (auto simp: bindE_def io_wrap_def Let_def split: prod.splits sum.splits
      dest!: ids_same(1) clock_Now_same opening_ids_for_same intro: same_world_trans)

lemma prepare_opening_ok:
  assumes "prepare_opening \<Gamma> c cmd w = (Inr (p, opening, otx), w')" "clock_ok \<Gamma>"
  shows "OpenWallet p = Inr opening \<and> opening_transaction p = Inr otx \<and> opening_inputs_ok p
    \<and> (\<exists>i. caller c ScopeWallets = Inr i) \<and> ParsePlayerID (oc_playerID cmd) = Inr (ow_playerID p)
    \<and> (\<exists>cur. ParseCurrency (oc_currency cmd) = Inr cur \<and> ParseExternalMoney (oc_amount cmd) cur = Inr (ow_initialBalance p))"
proof -
  obtain i player cur initial wid at w1 txID entryID w2 w3 where
    c: "caller c ScopeWallets = Inr i" "ParsePlayerID (oc_playerID cmd) = Inr player"
      "ParseCurrency (oc_currency cmd) = Inr cur" "ParseExternalMoney (oc_amount cmd) cur = Inr initial"
    and ids: "ids_NewWalletID \<Gamma> c w = (Inr wid, w1)" "clock_Now \<Gamma> w1 = (Inr at, w2)"
      "opening_ids_for \<Gamma> c initial w2 = (Inr (txID, entryID), w3)"
    and p: "p = \<lparr>ow_id = wid, ow_playerID = player, ow_initialBalance = initial,
        ow_openingTransactionID = txID, ow_openingEntryID = entryID, ow_createdAt = at\<rparr>"
      "OpenWallet p = Inr opening" "opening_transaction p = Inr otx"
    using assms(1) by (auto simp: prepare_opening_def Let_def elim!: bindE_okE io_wrap_okE)
  have "currency initial = cur" using c(4) by (rule external_money_currency)
  then have "opening_inputs_ok p"
    using c ids_ok(1) [OF ids(1)] opening_ids_for_ok [OF ids(3)] ids(2) clock_okD [OF assms(2)] ParseCurrency_iso [OF c(3)]
    by (auto simp: p(1) opening_inputs_ok_def clock_Now_def ParsePlayerID_def parseIdentifier_iff)
  then show ?thesis using c p by auto
qed

lemma OpenWallet_Execute_ok:
  assumes run: "OpenWallet_Execute \<Gamma> retry c cmd w = (r, w')" and w: "idle w" and clock: "clock_ok \<Gamma>"
  shows "idle w' \<and> evolves commit\<^sup>=\<^sup>= (db w) (db w')"
proof -
  obtain q w1 where prep: "prepare_opening \<Gamma> c cmd w = (q, w1)" by (metis surj_pair)
  have s: "same_world w w1" by (rule prepare_opening_same [OF prep])
  then have w1: "idle w1" "db w1 = db w" using w by (simp_all add: idle_def same_world_def)
  show ?thesis
  proof (cases q)
    case (Inl e)
    then have "w' = w1" using run prep by (simp add: OpenWallet_Execute_def bindE_def)
    then show ?thesis using w1 evolves_same_bank by simp
  next
    case (Inr x)
    obtain p og otx where x: "x = (p, og, otx)" by (cases x)
    obtain r2 v2 w2 where dd: "UnitOfWork_Do \<Gamma> retry c (assigning (write_opening \<Gamma> og otx) ()) () w1 = (r2, v2, w2)"
      by (metis prod_cases3)
    then have "w' = w2" using run prep Inr x by (auto simp: OpenWallet_Execute_def bindE_def split: sum.splits)
    moreover have bk: "bookkeeping (\<lambda>\<Gamma>. assigning (write_opening \<Gamma> og otx) ())"
      using prepare_opening_ok [OF prep [unfolded Inr x] clock] by (auto intro: opening_bookkeeping)
    have "idle w2 \<and> evolves commit\<^sup>=\<^sup>= (db w1) (db w2)"
      by (rule bookkeeping.do_evolves [OF bk _ w1(1) clock]) (rule dd)
    ultimately show ?thesis using w1(2) by simp
  qed
qed

section \<open>Properties\<close>


definition house :: ctx where
  "house = \<lparr>c_identity = Some \<lparr>i_subject = ''house'', i_providerID = ident_zero, i_scopes = [ScopeWallets]\<rparr>,
     c_correlationID = '''', c_insideUnitOfWork = False, c_cancellable = True\<rparr>"

definition open_p1 :: OpenWalletCommand where
  "open_p1 = \<lparr>oc_playerID = ''p1'', oc_amount = ''10.00'', oc_currency = ''BRL''\<rparr>"

lemma open_p1_runs:
  "case OpenWallet_Execute calm DefaultRetryPolicy house open_p1 (start empty_db) of
     (Inr x, w') \<Rightarrow> balance_value (w_balance x) = 1000 | _ \<Rightarrow> False"
  by code_simp


end
