(* ===== verification/Reversal.thy ===== *)
theory Reversal
  imports Recorder
begin

text \<open>
  Reversals (\<open>internal/app/reversal.go\<close>, and \<open>applyReversal\<close>, \<open>writeReversal\<close> of
  \<open>internal/app/submit.go\<close>): finding the operation a reversal undoes, deciding what can be done
  about it, and moving the money back. \<open>decision\<close> is the table of
  \<open>docs/adr/0008-reversals.md\<close> as a function of the stored transactions;
  \<open>resolveReference\<close> refines it.
\<close>

section \<open>Model\<close>

text \<open>The \<open>detail\<close> of a rejection is only logged text and is left out.\<close>

datatype resolution =
    ResolveWait
  | ResolveApply (res_reference: WagerTransaction) (res_direction: direction)
  | ResolveReject (res_code: code)

definition disagreement :: "WagerTransaction \<Rightarrow> WagerTransaction \<Rightarrow> string" where
  "disagreement reversal reference =
     (if t_playerID reversal \<noteq> t_playerID reference
        then ''the reversal and its reference name different players''
      else if t_walletID reversal \<noteq> t_walletID reference
        then ''the reversal and its reference name different wallets''
      else if currency (t_money reversal) \<noteq> currency (t_money reference)
        then ''the reversal and its reference are in different currencies''
      else if t_roundID reversal \<noteq> t_roundID reference
        then ''the reversal and its reference belong to different rounds''
      else '''')"

definition decide_found :: "env \<Rightarrow> WagerTransaction \<Rightarrow> WagerTransaction \<Rightarrow> resolution pgio" where
  "decide_found \<Gamma> reversal reference =
     (if t_status reference = StatusPending \<or> t_status reference = StatusPendingReference then ret ResolveWait
      else if t_status reference = StatusRejected \<or> t_status reference = StatusFailed
        then ret (ResolveReject CodeReferenceNotReversible)
      else if \<not> Kind_CanReverse (t_kind reversal) (t_kind reference)
        then ret (ResolveReject CodeReferenceNotReversible)
      else if disagreement reversal reference \<noteq> '''' then ret (ResolveReject CodeReferenceMismatch)
      else if t_money reversal \<noteq> t_money reference then ret (ResolveReject CodeReferenceAmountMismatch)
      else handle (Transactions_FindProcessedReversalOf \<Gamma> (t_id reference)) (\<lambda>r.
        case r of
          Inr existing \<Rightarrow> ret (ResolveReject CodeAlreadyReversed)
        | Inl e \<Rightarrow>
            if \<not> errors_Is e ErrNotFound then throw e
            else bindE (lift (ReversalDirection (t_kind reference))) (\<lambda>d. ret (ResolveApply reference d))))"

definition resolveReference :: "env \<Rightarrow> WagerTransaction \<Rightarrow> resolution pgio" where
  "resolveReference \<Gamma> reversal =
     handle (Transactions_FindByBusinessID \<Gamma> (t_providerID reversal) (t_referenceExternalID reversal)) (\<lambda>r.
       case r of
         Inl e \<Rightarrow> if errors_Is e ErrNotFound then ret ResolveWait else throw e
       | Inr reference \<Rightarrow> decide_found \<Gamma> reversal reference)"

text \<open>Money already handed over that cannot be taken back has a code of its own.\<close>

definition reversal_movement ::
  "Wallet \<Rightarrow> direction \<Rightarrow> LedgerEntryID \<Rightarrow> WagerTransaction \<Rightarrow> gotime \<Rightarrow> Movement res" where
  "reversal_movement wallet d entryID reversal at =
     (case d of
        Credit \<Rightarrow> Wallet_Credit wallet entryID (t_id reversal) (t_money reversal) at
      | _ \<Rightarrow>
          (case Wallet_Debit wallet entryID (t_id reversal) (t_money reversal) at of
             Inr m \<Rightarrow> Inr m
           | Inl e \<Rightarrow>
               if errors_Is e (DomainErr CodeInsufficientFunds) then fail CodeReversalExceedsBalance
               else Inl e))"

definition writeReversal :: "env \<Rightarrow> WagerTransaction \<Rightarrow> Movement \<Rightarrow> i64 \<Rightarrow> unit pgio" where
  "writeReversal \<Gamma> applied movement expectedVersion =
     bindE (if 0 <s t_referenceAttempts applied then Transactions_Update \<Gamma> applied
            else Transactions_Insert \<Gamma> applied) (\<lambda>_.
     bindE (Wallets_UpdateBalance \<Gamma> (mv_wallet movement) expectedVersion) (\<lambda>_.
       Ledger_Append \<Gamma> (mv_entry movement)))"

definition applyReversal ::
  "env \<Rightarrow> ctx \<Rightarrow> WagerTransaction \<Rightarrow> WagerTransaction \<Rightarrow> direction \<Rightarrow> Wallet \<Rightarrow> gotime
     \<Rightarrow> (WagerTransaction \<times> Movement) pgio" where
  "applyReversal \<Gamma> c reversal reference d wallet at =
     bindE (ids_NewLedgerEntryID \<Gamma> c) (\<lambda>entryID.
     bindE (lift (reversal_movement wallet d entryID reversal at)) (\<lambda>movement.
     bindE (lift (Tx_ResolveReference reversal (t_id reference) at)) (\<lambda>resolved.
     bindE (lift (Tx_MarkProcessed resolved (w_balance (mv_wallet movement)) at)) (\<lambda>applied.
     bindE (writeReversal \<Gamma> applied movement (w_version wallet)) (\<lambda>_.
       ret (applied, movement))))))"

section \<open>The decision table\<close>

definition reversed_by :: "WagerTransaction list \<Rightarrow> TransactionID \<Rightarrow> bool" where
  "reversed_by ts i \<longleftrightarrow> (\<exists>x\<in>set ts. t_resolvedReferenceID x = i \<and> t_status x = StatusProcessed)"

definition decision :: "WagerTransaction list \<Rightarrow> WagerTransaction \<Rightarrow> resolution" where
  "decision ts r =
     (case List.find (\<lambda>x. t_providerID x = t_providerID r \<and> t_externalID x = t_referenceExternalID r) ts of
        None \<Rightarrow> ResolveWait
      | Some ref \<Rightarrow>
          if \<not> Tx_IsTerminal ref then ResolveWait
          else if t_status ref \<noteq> StatusProcessed then ResolveReject CodeReferenceNotReversible
          else if \<not> Kind_CanReverse (t_kind r) (t_kind ref) then ResolveReject CodeReferenceNotReversible
          else if (t_playerID ref, t_walletID ref, currency (t_money ref), t_roundID ref)
                  \<noteq> (t_playerID r, t_walletID r, currency (t_money r), t_roundID r)
            then ResolveReject CodeReferenceMismatch
          else if t_money ref \<noteq> t_money r then ResolveReject CodeReferenceAmountMismatch
          else if reversed_by ts (t_id ref) then ResolveReject CodeAlreadyReversed
          else ResolveApply ref (if t_kind ref = KindBet then Credit else Debit))"

lemma disagreement_iff:
  "disagreement r ref = '''' \<longleftrightarrow>
     t_playerID r = t_playerID ref \<and> t_walletID r = t_walletID ref
     \<and> currency (t_money r) = currency (t_money ref) \<and> t_roundID r = t_roundID ref"
  by (simp add: disagreement_def)

lemma CanReverse_direction:
  "Kind_CanReverse k j \<Longrightarrow> ReversalDirection j = Inr (if j = KindBet then Credit else Debit)"
  by (cases j; cases k) (simp_all add: Kind_CanReverse_def ReversalDirection_def Direction_Opposite_def)

text \<open>The business identity finds at most one transaction.\<close>

lemma business_unique:
  assumes "txs_ok b" "x \<in> set (b_txs b)" "\<not> ident_IsZero (t_providerID x)"
  shows "List.find (\<lambda>y. t_providerID y = t_providerID x \<and> t_externalID y = t_externalID x) (b_txs b) = Some x"
proof -
  let ?p = "\<lambda>y. t_providerID y = t_providerID x \<and> t_externalID y = t_externalID x"
  obtain y where y: "List.find ?p (b_txs b) = Some y"
    using assms(2) by (cases "List.find ?p (b_txs b)") (auto simp: find_None_iff)
  then have "y \<in> set (b_txs b)" "?p y" by (auto simp: find_Some_iff)
  moreover have "y = x \<or> tx_compat y x" using assms(1,2) calculation(1) by (auto simp: txs_ok_def)
  ultimately have "y = x" using assms(3) by (auto simp: tx_compat_def)
  then show ?thesis using y by simp
qed

lemma decide_found_ok:
  assumes "decide_found \<Gamma> r ref w = (Inr dec, w')" "represents (db w) b" "ref \<in> set (b_txs b)" "tx_st ref"
  shows "same_world w w' \<and>
    dec = (if \<not> Tx_IsTerminal ref then ResolveWait
           else if t_status ref \<noteq> StatusProcessed then ResolveReject CodeReferenceNotReversible
           else if \<not> Kind_CanReverse (t_kind r) (t_kind ref) then ResolveReject CodeReferenceNotReversible
           else if (t_playerID ref, t_walletID ref, currency (t_money ref), t_roundID ref)
                  \<noteq> (t_playerID r, t_walletID r, currency (t_money r), t_roundID r)
             then ResolveReject CodeReferenceMismatch
           else if t_money ref \<noteq> t_money r then ResolveReject CodeReferenceAmountMismatch
           else if reversed_by (b_txs b) (t_id ref) then ResolveReject CodeAlreadyReversed
           else ResolveApply ref (if t_kind ref = KindBet then Credit else Debit))"
proof -
  have valid: "Status_Valid (t_status ref)" and idr: "\<not> ident_IsZero (t_id ref)"
    using assms(4) by (auto simp: tx_st_def tx_ok_def tx_shape_def)
  have fin: "\<not> Tx_IsTerminal ref \<longleftrightarrow> t_status ref = StatusPending \<or> t_status ref = StatusPendingReference"
    "t_status ref = StatusRejected \<or> t_status ref = StatusFailed \<longleftrightarrow> Tx_IsTerminal ref \<and> t_status ref \<noteq> StatusProcessed"
    using valid by (cases "t_status ref"; simp add: Tx_IsTerminal_def)+
  note run = assms(1) [unfolded decide_found_def fin(1) [symmetric] fin(2)]
  have agree: "(t_playerID ref, t_walletID ref, currency (t_money ref), t_roundID ref)
      = (t_playerID r, t_walletID r, currency (t_money r), t_roundID r) \<longleftrightarrow> disagreement r ref = ''''"
    unfolding disagreement_iff by auto
  consider (unfinished) "\<not> Tx_IsTerminal ref" | (dead) "Tx_IsTerminal ref" "t_status ref \<noteq> StatusProcessed"
    | (kind) "Tx_IsTerminal ref" "t_status ref = StatusProcessed" "\<not> Kind_CanReverse (t_kind r) (t_kind ref)"
    | (party) "Tx_IsTerminal ref" "t_status ref = StatusProcessed" "Kind_CanReverse (t_kind r) (t_kind ref)"
        "disagreement r ref \<noteq> ''''"
    | (amount) "Tx_IsTerminal ref" "t_status ref = StatusProcessed" "Kind_CanReverse (t_kind r) (t_kind ref)"
        "disagreement r ref = ''''" "t_money r \<noteq> t_money ref"
    | (fitting) "Tx_IsTerminal ref" "t_status ref = StatusProcessed" "Kind_CanReverse (t_kind r) (t_kind ref)"
        "disagreement r ref = ''''" "t_money r = t_money ref" by blast
  then show ?thesis
  proof cases
    case unfinished
    then show ?thesis using run by simp
  next
    case dead
    then show ?thesis using run by simp
  next
    case kind
    then show ?thesis using run by simp
  next
    case party
    then show ?thesis using run unfolding agree by simp
  next
    case amount
    then show ?thesis using run unfolding agree by simp
  next
    case fitting
    note c = fitting
    obtain q w1 where q: "Transactions_FindProcessedReversalOf \<Gamma> (t_id ref) w = (q, w1)" by (metis surj_pair)
    have run2: "decide_found \<Gamma> r ref w =
        (case q of
           Inr existing \<Rightarrow> ret (ResolveReject CodeAlreadyReversed)
         | Inl e \<Rightarrow>
             if \<not> errors_Is e ErrNotFound then throw e
             else bindE (lift (ReversalDirection (t_kind ref))) (\<lambda>d. ret (ResolveApply ref d))) w1"
      using c by (simp add: decide_found_def handle_def q)
    show ?thesis
    proof (cases q)
      case (Inr existing)
      then have "reversed_by (b_txs b) (t_id ref)" "same_world w w1"
        using find_reversal_ok [OF q [unfolded Inr] assms(2)] by (auto simp: reversed_by_def)
      then show ?thesis using assms(1) run2 Inr c unfolding agree by simp
    next
      case (Inl e)
      then have nf: "errors_Is e ErrNotFound" using assms(1) run2 by (auto split: if_splits)
      then have "\<not> reversed_by (b_txs b) (t_id ref)" "same_world w w1"
        using find_reversal_err [OF q [unfolded Inl] assms(2)] idr by (auto simp: reversed_by_def)
      then show ?thesis
        using assms(1) run2 Inl nf c unfolding agree by (simp add: CanReverse_direction [OF c(3)])
    qed
  qed
qed

lemma resolveReference_ok:
  assumes "resolveReference \<Gamma> r w = (Inr dec, w')" "represents (db w) b" "txs_ok b"
    "\<not> ident_IsZero (t_providerID r)" "\<not> ident_IsZero (t_referenceExternalID r)"
  shows "same_world w w' \<and> dec = decision (b_txs b) r"
proof -
  let ?p = "\<lambda>x. t_providerID x = t_providerID r \<and> t_externalID x = t_referenceExternalID r"
  obtain q w1 where q: "Transactions_FindByBusinessID \<Gamma> (t_providerID r) (t_referenceExternalID r) w = (q, w1)"
    by (metis surj_pair)
  show ?thesis
  proof (cases q)
    case (Inl e)
    then have nf: "errors_Is e ErrNotFound" and "w' = w1" "dec = ResolveWait"
      using assms(1) by (auto simp: resolveReference_def handle_def q split: if_splits)
    moreover have "same_world w w1" "List.find ?p (b_txs b) = None"
      using find_business_err [OF q [unfolded Inl] assms(2)] nf assms(4,5) by (auto simp: find_None_iff)
    ultimately show ?thesis by (simp add: decision_def)
  next
    case (Inr ref)
    then have run: "decide_found \<Gamma> r ref w1 = (Inr dec, w')"
      using assms(1) by (simp add: resolveReference_def handle_def q)
    have ref: "ref \<in> set (b_txs b)" "?p ref" "tx_st ref" and same: "same_world w w1"
      using find_business_ok [OF q [unfolded Inr] assms(2)] by auto
    have "represents (db w1) b" using assms(2) same by (simp add: same_world_def)
    note d = decide_found_ok [OF run this ref(1,3)]
    have "List.find ?p (b_txs b) = Some ref"
      using business_unique [OF assms(3) ref(1)] ref(2) assms(4) by simp
    then show ?thesis using d same by (simp add: decision_def same_world_trans [OF same])
  qed
qed

text \<open>No reversal reports a business rule while it looks for its reference.\<close>

lemma resolveReference_err:
  assumes "resolveReference \<Gamma> r w = (Inl e, w')" "represents (db w) b"
  shows "as_domain e = None"
proof -
  obtain q w1 where q: "Transactions_FindByBusinessID \<Gamma> (t_providerID r) (t_referenceExternalID r) w = (q, w1)"
    by (metis surj_pair)
  show ?thesis
  proof (cases q)
    case (Inl x)
    then show ?thesis
      using assms(1) find_business_err [OF q [unfolded Inl] assms(2)]
      by (auto simp: resolveReference_def handle_def q split: if_splits)
  next
    case (Inr ref)
    then have run: "decide_found \<Gamma> r ref w1 = (Inl e, w')"
      using assms(1) by (simp add: resolveReference_def handle_def q)
    have rep: "represents (db w1) b"
      using find_business_ok [OF q [unfolded Inr] assms(2)] assms(2) by (simp add: same_world_def)
    obtain q2 w2 where q2: "Transactions_FindProcessedReversalOf \<Gamma> (t_id ref) w1 = (q2, w2)" by (metis surj_pair)
    have "\<exists>x. q2 = Inl x \<and> e = x"
      using run CanReverse_direction [of "t_kind r" "t_kind ref"]
      by (auto simp: decide_found_def handle_def q2 bindE_def split: if_splits sum.splits)
    then show ?thesis using find_reversal_err [of \<Gamma> "t_id ref" w1 e w2 b] q2 rep by auto
  qed
qed

section \<open>Saving a transaction\<close>

lemma tx_storable_step:
  assumes "tx_storable t" "tx_ok t'" "same_request t t'" "proper_code (t_failureCode t')"
    "optional_ok (t_resolvedReferenceID t')" "survives (t_updatedAt t')"
    "survives (t_referenceNextAttemptAt t')" "survives (t_referenceDeadlineAt t')"
  shows "tx_storable t'"
  using assms by (simp add: tx_storable_def tx_ids_ok_def same_request_def)

text \<open>An operation in hand: new, or read back from the store and not finished.\<close>

definition in_hand :: "bank \<Rightarrow> WagerTransaction \<Rightarrow> bool" where
  "in_hand b t \<longleftrightarrow> tx_storable t \<and> t_kind t \<noteq> KindOpening \<and> (t \<in> set (b_txs b) \<or> t_referenceAttempts t = 0)"

lemma Update_in_hand:
  assumes "Transactions_Update \<Gamma> t' w = (Inr u, w')" "represents (db w) b" "txs_ok b"
    "t \<in> set (b_txs b)" "same_request t t'" "tx_storable t'"
  shows "represents (db w') (b\<lparr>b_txs := put_tx (b_txs b) (trunc_tx t')\<rparr>) \<and> writable b (trunc_tx t')
    \<and> in_tx w' = in_tx w \<and> aborted w' = aborted w"
proof (rule Transactions_Update_ok [OF assms(1,2,6,4)])
  show "t_id t = t_id t'" "same_request t t'" using assms(5) by (auto simp: same_request_def)
  show "distinct (map t_id (b_txs b))" using assms(3) by (simp add: txs_ok_def)
  show "t_walletID t' \<in> w_id ` set (b_wallets b)"
    using assms(3,4,5) by (auto simp: txs_ok_def same_request_def)
qed

lemma Insert_new:
  assumes "Transactions_Insert \<Gamma> t w = (Inr u, w')" "represents (db w) b" "tx_storable t"
  shows "represents (db w') (b\<lparr>b_txs := put_tx (b_txs b) (trunc_tx t)\<rparr>) \<and> writable b (trunc_tx t)
    \<and> in_tx w' = in_tx w \<and> aborted w' = aborted w"
  using Transactions_Insert_ok [OF assms] by (simp add: put_tx_new)

lemma save_in_hand:
  assumes "(if 0 <s t_referenceAttempts t' then Transactions_Update \<Gamma> t' else Transactions_Insert \<Gamma> t') w = (Inr u, w')"
    "represents (db w) b" "txs_ok b" "in_hand b t" "same_request t t'" "tx_storable t'"
    "t_referenceAttempts t' = t_referenceAttempts t"
  shows "represents (db w') (b\<lparr>b_txs := put_tx (b_txs b) (trunc_tx t')\<rparr>) \<and> writable b (trunc_tx t')
    \<and> in_tx w' = in_tx w \<and> aborted w' = aborted w"
proof (cases "0 <s t_referenceAttempts t'")
  case True
  then have "t \<in> set (b_txs b)" using assms(4,7) by (auto simp: in_hand_def sless_iff)
  then show ?thesis using Update_in_hand [OF _ assms(2,3) _ assms(5,6)] assms(1) True by simp
next
  case False
  then show ?thesis using Insert_new [OF _ assms(2,6)] assms(1) by simp
qed

section \<open>Applying a reversal\<close>

lemma reversal_movement_okE:
  assumes "reversal_movement x d eid r at = Inr mv" "d = Credit \<or> d = Debit"
  shows "Wallet_move x d eid (t_id r) (t_money r) at = Inr mv"
  using assms by (auto simp: reversal_movement_def Wallet_Credit_def Wallet_Debit_def split: sum.splits if_splits)

lemma decision_apply:
  assumes "decision ts r = ResolveApply ref d"
  shows "ref \<in> set ts" "t_status ref = StatusProcessed" "Kind_CanReverse (t_kind r) (t_kind ref)"
    "t_money ref = t_money r" "t_walletID ref = t_walletID r" "\<not> reversed_by ts (t_id ref)"
    "ReversalDirection (t_kind ref) = Inr d" "d = Credit \<or> d = Debit"
proof -
  let ?p = "\<lambda>x. t_providerID x = t_providerID r \<and> t_externalID x = t_referenceExternalID r"
  have f: "List.find ?p ts = Some ref" "d = (if t_kind ref = KindBet then Credit else Debit)"
    and c: "t_status ref = StatusProcessed" "Kind_CanReverse (t_kind r) (t_kind ref)" "t_money ref = t_money r"
      "t_walletID ref = t_walletID r" "\<not> reversed_by ts (t_id ref)"
    using assms by (auto simp: decision_def split: option.splits if_splits)
  show "ref \<in> set ts" using f(1) by (auto simp: find_Some_iff)
  show "t_status ref = StatusProcessed" "Kind_CanReverse (t_kind r) (t_kind ref)" "t_money ref = t_money r"
    "t_walletID ref = t_walletID r" "\<not> reversed_by ts (t_id ref)" by (fact c)+
  show "ReversalDirection (t_kind ref) = Inr d" using CanReverse_direction [OF c(2)] f(2) by simp
  show "d = Credit \<or> d = Debit" using f(2) by simp
qed

lemma applyReversal_ok:
  assumes run: "applyReversal \<Gamma> c r ref d x at w = (Inr (t, mv), w')"
    and rep: "represents (db w) b" "bank_ok b" and x: "x \<in> set (b_wallets b)" "w_id x = t_walletID r"
    and r: "in_hand b r" and dec: "decision (b_txs b) r = ResolveApply ref d" and at: "time_set at"
  shows "(\<exists>b'. represents (db w') b' \<and> commit b b' \<and> b_txs b' = put_tx (b_txs b) (trunc_tx t))
    \<and> in_tx w' = in_tx w \<and> aborted w' = aborted w \<and> same_request r t \<and> tx_ok t \<and> t_status t = StatusProcessed
    \<and> (\<exists>eid. Wallet_move x d eid (t_id r) (t_money r) at = Inr mv)
    \<and> t_balanceAfter t = w_balance (mv_wallet mv) \<and> t_resolvedReferenceID t = t_id ref"
proof -
  obtain eid w1 rs u where ids: "ids_NewLedgerEntryID \<Gamma> c w = (Inr eid, w1)"
    and mvr: "reversal_movement x d eid r at = Inr mv"
    and res: "Tx_ResolveReference r (t_id ref) at = Inr rs"
    and pr: "Tx_MarkProcessed rs (w_balance (mv_wallet mv)) at = Inr t"
    and wr: "writeReversal \<Gamma> t mv (w_version x) w1 = (Inr u, w')"
    using run by (auto simp: applyReversal_def elim!: bindE_okE)
  note da = decision_apply [OF dec]
  have mv: "Wallet_move x d eid (t_id r) (t_money r) at = Inr mv"
    by (rule reversal_movement_okE [OF mvr da(8)])
  have same1: "same_world w w1" and eid: "ident_ok eid" using ids_same(3) [OF ids] ids_ok(3) [OF ids] by auto
  have steps: "tx_step r rs" "tx_step rs t" using res pr by (auto intro: tx_step.intros)
  have sr: "same_request r t" using steps tx_step_same_request same_request_trans by blast
  have tok: "tx_ok t" using steps r tx_ok_step by (auto simp: in_hand_def tx_storable_def)
  have t: "t = r\<lparr>t_resolvedReferenceID := t_id ref, t_updatedAt := time_UTC at, t_status := StatusProcessed,
      t_balanceAfter := w_balance (mv_wallet mv)\<rparr>"
    using res pr by (auto elim!: ResolveReference_okE MarkProcessed_okE)
  have refst: "tx_st ref" using rep(2) da(1) by (auto simp: bank_ok_def txs_ok_def)
  have stor: "tx_storable t"
    using r t refst at survives_time_set
    by (intro tx_storable_step [OF _ tok sr])
      (auto simp: in_hand_def tx_storable_def tx_st_def tx_ids_ok_def optional_ok_def)
  obtain u1 w2 u2 w3 where save: "(if 0 <s t_referenceAttempts t then Transactions_Update \<Gamma> t else Transactions_Insert \<Gamma> t) w1 = (Inr u1, w2)"
    and upd: "Wallets_UpdateBalance \<Gamma> (mv_wallet mv) (w_version x) w2 = (Inr u2, w3)"
    and app: "Ledger_Append \<Gamma> (mv_entry mv) w3 = (Inr u, w')"
    using wr by (auto simp: writeReversal_def elim!: bindE_okE)
  have rep1: "represents (db w1) b" using rep(1) same1 by (simp add: same_world_def)
  have s2: "represents (db w2) (b\<lparr>b_txs := put_tx (b_txs b) (trunc_tx t)\<rparr>)" "writable b (trunc_tx t)"
    "in_tx w2 = in_tx w1" "aborted w2 = aborted w1"
    using save_in_hand [OF save rep1 _ r sr stor] rep(2) t by (auto simp: bank_ok_def)
  have kind: "Kind_IsReversal (t_kind r)" using res by (auto elim: ResolveReference_okE)
  have "t_id ref \<noteq> t_id t"
    using s2(2) da(1,2) by (auto simp: writable_def Tx_IsTerminal_def)
  moreover from this have "ref \<in> set (put_tx (b_txs b) (trunc_tx t))" using da(1) by (simp add: set_put_tx)
  ultimately have "reverses (put_tx (b_txs b) (trunc_tx t)) (trunc_tx t) d"
    unfolding reverses_def using da(2-5,7) t by (intro bexI [of _ ref]) auto
  then have dir: "directed (put_tx (b_txs b) (trunc_tx t)) (trunc_tx t) d"
    using kind t by (cases "t_kind r") (auto simp: directed_def)
  have "\<exists>b'. represents (db w') b' \<and> commit b b' \<and> b_txs b' = put_tx (b_txs b) (trunc_tx t)
      \<and> in_tx w' = in_tx w2 \<and> aborted w' = aborted w2"
  proof (rule post_movement [OF rep(2) x(1) _ eid at s2(2) _ _ _ _ dir s2(1) upd app])
    show "Wallet_move x d eid (t_id (trunc_tx t)) (t_money (trunc_tx t)) at = Inr mv" using mv t by simp
    show "t_kind (trunc_tx t) \<noteq> KindOpening" using r t by (simp add: in_hand_def)
    show "moved_money (trunc_tx t)" using kind t by (cases "t_kind r") (auto simp: moved_money_def Kind_MovesMoney_def)
    show "t_balanceAfter (trunc_tx t) = w_balance (mv_wallet mv)" "t_walletID (trunc_tx t) = w_id x"
      using t x by simp_all
  qed
  then show ?thesis using s2 same1 sr tok t mv by (auto simp: same_world_def)
qed

section \<open>What the financial writes leave alone\<close>

definition same_messages :: "database world \<Rightarrow> database world \<Rightarrow> bool" where
  "same_messages w w' \<longleftrightarrow> d_outbox (db w') = d_outbox (db w) \<and> d_inbox (db w') = d_inbox (db w)"

lemma same_messages_trans: "same_messages a b \<Longrightarrow> same_messages b c \<Longrightarrow> same_messages a c"
  by (simp add: same_messages_def)

lemma same_world_messages: "same_world w w' \<Longrightarrow> same_messages w w'"
  by (simp add: same_messages_def same_world_def)

lemma stmt_messages:
  assumes "io_translate (stmt \<Gamma> f) w = (Inr x, w')"
    "\<And>n d. d_outbox (snd (f n d)) = d_outbox d \<and> d_inbox (snd (f n d)) = d_inbox d"
  shows "same_messages w w'"
proof -
  have "stmt \<Gamma> f w = (Inr x, w')" using assms(1) by (auto elim: io_translate_okE)
  then have "f (calls w) (db w) = (Inr x, db w')" by (auto elim: stmt_okE)
  then show ?thesis using assms(2) [of "calls w" "db w"] by (simp add: same_messages_def)
qed

lemma financial_same_messages:
  "Wallets_Insert \<Gamma> x w = (Inr u, w') \<Longrightarrow> same_messages w w'"
  "Transactions_Insert \<Gamma> t w = (Inr u, w') \<Longrightarrow> same_messages w w'"
  "Ledger_Append \<Gamma> l w = (Inr u, w') \<Longrightarrow> same_messages w w'"
  unfolding Wallets_Insert_def Transactions_Insert_def Ledger_Append_def
  by (auto split: if_splits elim!: stmt_messages
      simp: insert_wallet_def insert_tx_def insert_ledger_def Let_def split: option.splits)

lemma update_same_messages:
  "Wallets_UpdateBalance \<Gamma> x v w = (Inr u, w') \<Longrightarrow> same_messages w w'"
  "Transactions_Update \<Gamma> t w = (Inr u, w') \<Longrightarrow> same_messages w w'"
  unfolding Wallets_UpdateBalance_def Transactions_Update_def
  by (auto split: if_splits elim!: bindE_okE stmt_messages
      simp: update_wallets_def update_tx_def Let_def split: option.splits)

lemma applyReversal_messages:
  "applyReversal \<Gamma> c r ref d x at w = (Inr y, w') \<Longrightarrow> same_messages w w'"
  unfolding applyReversal_def writeReversal_def
  by (auto elim!: bindE_okE split: if_splits
      dest!: ids_same(3) same_world_messages financial_same_messages update_same_messages)
    (simp_all add: same_messages_def)

text \<open>A business rule that stops a reversal stops it before anything is written.\<close>

lemma applyReversal_domain_err:
  assumes "applyReversal \<Gamma> c r ref d x at w = (Inl e, w')" "as_domain e = Some code"
  shows "same_world w w'"
proof -
  have "as_domain e = None" if "writeReversal \<Gamma> t mv v w1 = (Inl e, w')" for t mv v w1
    using that by (auto simp: writeReversal_def elim!: bindE_errE dest: write_errors split: if_splits)
  then show ?thesis
    using assms by (auto simp: applyReversal_def elim!: bindE_errE dest: ids_same(3))
qed

text \<open>Every code of a rejection is one of the constants.\<close>

lemma decision_code: "decision ts r = ResolveReject code \<Longrightarrow> code \<in> set all_codes"
  by (auto simp: decision_def all_codes_def split: option.splits if_splits)

end
