(* ===== verification/Idempotency.thy ===== *)
theory Idempotency
  imports Event Sha256 "HOL-Library.List_Lexorder"
begin

text \<open>
  \<open>internal/app/idempotency.go\<close>: the command as it arrived and the fingerprint of its
  business fields. The Go map of fields is an association list with distinct keys; the
  rendering sorts the keys byte-wise, as \<open>sort.Strings\<close> does, so the order of the list does
  not matter.
\<close>

record SubmitCommand =
  sc_idempotencyKey :: string
  sc_providerID :: string
  sc_externalID :: string
  sc_playerID :: string
  sc_walletID :: string
  sc_roundID :: string
  sc_gameID :: string
  sc_kind :: string
  sc_amount :: string
  sc_currency :: string
  sc_referenceExternalID :: string

definition hashPrefix :: string where
  "hashPrefix = ''sha256:''"

definition canonical_field :: "string \<Rightarrow> string \<Rightarrow> string" where
  "canonical_field key v =
     utoa (length key) @ '':'' @ key @ ''='' @ utoa (length v) @ '':'' @ v @ '';''"

definition canonicalise :: "(string \<times> string) list \<Rightarrow> string" where
  "canonicalise flds =
     concat (map (\<lambda>key. canonical_field key (case map_of flds key of Some v \<Rightarrow> v | None \<Rightarrow> ''''))
                 (sort (map fst flds)))"

definition hashed_amount :: "SubmitCommand \<Rightarrow> string" where
  "hashed_amount c =
     (case ParseCurrency (sc_currency c) of
        Inl _ \<Rightarrow> sc_amount c
      | Inr cur \<Rightarrow>
          (case ParseMoney (sc_amount c) cur of
             Inl _ \<Rightarrow> sc_amount c
           | Inr m \<Rightarrow> Money_String m))"

definition hashed_fields :: "SubmitCommand \<Rightarrow> (string \<times> string) list" where
  "hashed_fields c =
     [(''providerId'', sc_providerID c), (''externalId'', sc_externalID c),
      (''playerId'', sc_playerID c), (''walletId'', sc_walletID c), (''roundId'', sc_roundID c),
      (''gameId'', sc_gameID c), (''kind'', sc_kind c), (''amount'', hashed_amount c),
      (''currency'', sc_currency c)]
     @ (if sc_referenceExternalID c \<noteq> ''''
        then [(''referenceExternalId'', sc_referenceExternalID c)] else [])"

definition SubmitCommand_PayloadHash :: "SubmitCommand \<Rightarrow> PayloadHash res" where
  "SubmitCommand_PayloadHash c =
     ParsePayloadHash (hashPrefix @ EncodeToString (Sum256 (canonicalise (hashed_fields c))))"

section \<open>Lemmas\<close>

text \<open>The hash of a command always exists: it has 71 bytes.\<close>

lemma PayloadHash_eq:
  "SubmitCommand_PayloadHash c =
     Inr (Identifier (hashPrefix @ EncodeToString (Sum256 (canonicalise (hashed_fields c)))))"
  by (simp add: SubmitCommand_PayloadHash_def ParsePayloadHash_def parseIdentifier_def
      hashPrefix_def maxIdentifierLength_def)

text \<open>A decimal number followed by a colon determines the number and what follows.\<close>

lemma utoa_colon_inj:
  assumes "utoa m @ CHR '':'' # s = utoa n @ CHR '':'' # t"
  shows "m = n \<and> s = t"
proof -
  have colon: "\<not> is_digit CHR '':''" by (simp add: is_digit_def less_eq_char_def)
  have split: "takeWhile is_digit (utoa k @ CHR '':'' # u) = utoa k
      \<and> dropWhile is_digit (utoa k @ CHR '':'' # u) = CHR '':'' # u" for k u
    using colon by (simp add: takeWhile_append dropWhile_append3 utoa_digits)
  have "utoa m = utoa n"
    using arg_cong [OF assms, of "takeWhile is_digit"] split [of m s] split [of n t] by simp
  moreover have "s = t"
    using arg_cong [OF assms, of "dropWhile is_digit"] split [of m s] split [of n t] by simp
  ultimately have "utoa m = utoa n" "s = t" by simp_all
  then show ?thesis by (simp add: utoa_inj)
qed

lemma canonical_field_inj:
  assumes "canonical_field k v @ s = canonical_field k' v' @ s'"
  shows "k = k' \<and> v = v' \<and> s = s'"
proof -
  have "utoa (length k) @ CHR '':'' # k @ CHR ''='' # utoa (length v) @ CHR '':'' # v @ CHR '';'' # s
      = utoa (length k') @ CHR '':'' # k' @ CHR ''='' # utoa (length v') @ CHR '':'' # v' @ CHR '';'' # s'"
    using assms by (simp add: canonical_field_def)
  from utoa_colon_inj [OF this] have k: "k = k'"
    and r: "utoa (length v) @ CHR '':'' # v @ CHR '';'' # s = utoa (length v') @ CHR '':'' # v' @ CHR '';'' # s'"
    by auto
  from utoa_colon_inj [OF r] k show ?thesis by auto
qed

lemma canonical_field_not_Nil [simp]: "canonical_field k v \<noteq> []"
  by (simp add: canonical_field_def)

lemma canonical_list_inj:
  "concat (map (\<lambda>(k, v). canonical_field k v) ps) = concat (map (\<lambda>(k, v). canonical_field k v) qs)
     \<Longrightarrow> ps = qs"
proof (induction ps arbitrary: qs)
  case Nil
  then show ?case by (cases qs) auto
next
  case (Cons p ps)
  then obtain q qs' where qs: "qs = q # qs'" by (cases qs; cases p) auto
  with Cons.prems canonical_field_inj [of "fst p" "snd p" _ "fst q" "snd q"]
  have "p = q" "concat (map (\<lambda>(k, v). canonical_field k v) ps) = concat (map (\<lambda>(k, v). canonical_field k v) qs')"
    by (auto simp: case_prod_unfold prod_eq_iff)
  with Cons.IH qs show ?case by simp
qed

text \<open>The rendering of a map determines the map.\<close>

lemma canonicalise_inj:
  assumes "canonicalise f = canonicalise g"
  shows "map_of f = map_of g"
proof -
  let ?val = "\<lambda>h key. case map_of h key of Some v \<Rightarrow> v | None \<Rightarrow> ''''"
  let ?pairs = "\<lambda>h. map (\<lambda>key. (key, ?val h key)) (sort (map fst h))"
  have "canonicalise h = concat (map (\<lambda>(k, v). canonical_field k v) (?pairs h))" for h
    by (simp add: canonicalise_def comp_def)
  with assms have eq: "?pairs f = ?pairs g" by (intro canonical_list_inj) simp
  then have "map fst (?pairs f) = map fst (?pairs g)" by simp
  then have keys: "set (map fst f) = set (map fst g)"
    by (metis (no_types, lifting) comp_def fst_conv list.map_comp map_ident set_sort map_idI)
  have vals: "?val f key = ?val g key" if "key \<in> set (map fst f)" for key
  proof -
    have L: "sort (map fst f) = sort (map fst g)" using \<open>map fst (?pairs f) = map fst (?pairs g)\<close>
      by (simp add: comp_def)
    from eq have "map (\<lambda>key. (key, ?val f key)) (sort (map fst f)) = map (\<lambda>key. (key, ?val g key)) (sort (map fst f))"
      unfolding L .
    then have "\<forall>key \<in> set (sort (map fst f)). (key, ?val f key) = (key, ?val g key)"
      by (simp only: map_eq_conv)
    with that show ?thesis by auto
  qed
  show ?thesis
  proof
    fix key
    show "map_of f key = map_of g key"
    proof (cases "key \<in> set (map fst f)")
      case True
      then obtain a b where "map_of f key = Some a" "map_of g key = Some b"
        using keys by (metis map_of_eq_None_iff not_None_eq list.set_map)
      with vals [OF True] show ?thesis by simp
    next
      case False
      then have "map_of f key = None" "map_of g key = None"
        using keys by (simp_all add: map_of_eq_None_iff)
      then show ?thesis by simp
    qed
  qed
qed

text \<open>What the hashed text says of a command: the business fields with the amount normalised.\<close>

definition same_business :: "SubmitCommand \<Rightarrow> SubmitCommand \<Rightarrow> bool" where
  "same_business c d \<longleftrightarrow>
     sc_providerID c = sc_providerID d \<and> sc_externalID c = sc_externalID d
     \<and> sc_playerID c = sc_playerID d \<and> sc_walletID c = sc_walletID d
     \<and> sc_roundID c = sc_roundID d \<and> sc_gameID c = sc_gameID d \<and> sc_kind c = sc_kind d
     \<and> sc_currency c = sc_currency d \<and> hashed_amount c = hashed_amount d
     \<and> sc_referenceExternalID c = sc_referenceExternalID d"

lemma hashed_fields_lookup:
  "map_of (hashed_fields c) ''providerId'' = Some (sc_providerID c)"
  "map_of (hashed_fields c) ''externalId'' = Some (sc_externalID c)"
  "map_of (hashed_fields c) ''playerId'' = Some (sc_playerID c)"
  "map_of (hashed_fields c) ''walletId'' = Some (sc_walletID c)"
  "map_of (hashed_fields c) ''roundId'' = Some (sc_roundID c)"
  "map_of (hashed_fields c) ''gameId'' = Some (sc_gameID c)"
  "map_of (hashed_fields c) ''kind'' = Some (sc_kind c)"
  "map_of (hashed_fields c) ''amount'' = Some (hashed_amount c)"
  "map_of (hashed_fields c) ''currency'' = Some (sc_currency c)"
  "map_of (hashed_fields c) ''referenceExternalId'' =
     (if sc_referenceExternalID c = '''' then None else Some (sc_referenceExternalID c))"
  by (simp_all add: hashed_fields_def)

lemma hashed_text_iff:
  "canonicalise (hashed_fields c) = canonicalise (hashed_fields d) \<longleftrightarrow> same_business c d"
proof
  assume "canonicalise (hashed_fields c) = canonicalise (hashed_fields d)"
  then have eq: "map_of (hashed_fields c) = map_of (hashed_fields d)" by (rule canonicalise_inj)
  show "same_business c d"
    unfolding same_business_def
    using hashed_fields_lookup [of c] hashed_fields_lookup [of d] unfolding eq
    by (metis option.inject option.distinct(1))
next
  assume "same_business c d"
  then have "hashed_fields c = hashed_fields d" by (simp add: same_business_def hashed_fields_def)
  then show "canonicalise (hashed_fields c) = canonicalise (hashed_fields d)" by simp
qed

lemma hashed_amount_value:
  assumes "ParseCurrency (sc_currency c) = Inr cur" "ParseMoney (sc_amount c) cur = Inr m"
  shows "hashed_amount c = Money_String m"
  using assms by (simp add: hashed_amount_def)

section \<open>Properties\<close>



text \<open>
  Two spellings of one amount hash alike: commands that differ only in how a well-formed
  amount is written, \<open>25\<close>, \<open>25.0\<close> or \<open>025.00\<close>, have the same fingerprint, and amounts that
  denote different numbers are told apart by the hashed text.
\<close>

lemma payload_hash_amount_spelling:
  assumes "ParseCurrency (sc_currency c) = Inr cur"
    "decimal_value (sc_amount c) = Some n" "decimal_value a = Some n'" "fits64 n" "fits64 n'"
  shows "(canonicalise (hashed_fields (c\<lparr>sc_amount := a\<rparr>)) = canonicalise (hashed_fields c) \<longleftrightarrow> n = n')
    \<and> (n = n' \<longrightarrow> SubmitCommand_PayloadHash (c\<lparr>sc_amount := a\<rparr>) = SubmitCommand_PayloadHash c)"
proof -
  let ?m = "\<lambda>k. \<lparr>minor = word_of_int k, currency = cur\<rparr>"
  have cur: "\<not> Currency_IsZero cur" using ParseCurrency_Inr [OF assms(1)] by simp
  have "ParseMoney (sc_amount c) cur = Inr (?m n)" "ParseMoney a cur = Inr (?m n')"
    using assms cur by (simp_all add: ParseMoney_iff sint_of_int64)
  then have "hashed_amount c = Money_String (?m n)" "hashed_amount (c\<lparr>sc_amount := a\<rparr>) = Money_String (?m n')"
    using assms(1) by (simp_all add: hashed_amount_def)
  moreover have "Money_String (?m n) = Money_String (?m n') \<longleftrightarrow> n = n'"
    using assms(4,5) by (metis Money_String_inj money.select_convs(1) sint_of_int64)
  ultimately have "same_business (c\<lparr>sc_amount := a\<rparr>) c \<longleftrightarrow> n = n'"
    by (auto simp: same_business_def)
  then show ?thesis
    using hashed_text_iff [of "c\<lparr>sc_amount := a\<rparr>" c] by (auto simp: PayloadHash_eq)
qed

lemma payload_hash_amount_spelling_witness:
  "\<exists>c. sc_amount c = ''25'' \<and>
     SubmitCommand_PayloadHash (c\<lparr>sc_amount := ''025.0''\<rparr>) = SubmitCommand_PayloadHash c"
proof -
  let ?c = "\<lparr>sc_idempotencyKey = ''k1'', sc_providerID = ''prov'', sc_externalID = ''e1'',
    sc_playerID = ''p1'', sc_walletID = ''w1'', sc_roundID = ''r1'', sc_gameID = ''g1'',
    sc_kind = ''BET'', sc_amount = ''25'', sc_currency = ''BRL'', sc_referenceExternalID = ''''\<rparr>"
  have "decimal_value ''25'' = Some 2500" "decimal_value ''025.0'' = Some 2500"
    by (simp_all add: decimal_value_def magnitude_value_def is_digit_def less_eq_char_def digit_val_def Let_def)
  moreover have "ParseCurrency ''BRL'' = Inr \<lparr>code_str = ''BRL''\<rparr>"
    by (simp add: ParseCurrency_def)
  ultimately have "SubmitCommand_PayloadHash (?c\<lparr>sc_amount := ''025.0''\<rparr>) = SubmitCommand_PayloadHash ?c"
    using payload_hash_amount_spelling [of ?c _ 2500 "''025.0''" 2500] by (simp add: fits64_def)
  then show ?thesis by (intro exI [of _ ?c]) simp
qed

end
