(* ===== verification/Submit.thy ===== *)
theory Submit
  imports Reversal Idempotency
begin

text \<open>
  \<open>SubmitTransaction\<close> (\<open>internal/app/submit.go\<close>): applying a provider's operation exactly
  once. \<open>ExecuteIn\<close> runs inside a transaction its caller owns; \<open>execute\<close> opens one with the
  unit of work and turns a lost race into a replay. Both ports, HTTP and queue, go through
  it. The result carries the outcome in the transaction's status: a business rejection is a
  recorded result, not an error.
\<close>

section \<open>Parsing\<close>

record parsedSubmit =
  ps_key :: IdempotencyKey
  ps_hash :: PayloadHash
  ps_providerID :: ProviderID
  ps_externalID :: ExternalTransactionID
  ps_playerID :: PlayerID
  ps_walletID :: WalletID
  ps_roundID :: RoundID
  ps_gameID :: GameID
  ps_kind :: kind
  ps_money :: money
  ps_reference :: ExternalTransactionID

definition Submit_parse :: "SubmitCommand \<Rightarrow> parsedSubmit res" where
  "Submit_parse cmd =
     andThen (SubmitCommand_PayloadHash cmd) (\<lambda>hash.
     andThen (ParseIdempotencyKey (sc_idempotencyKey cmd)) (\<lambda>key.
     andThen (ParseProviderID (sc_providerID cmd)) (\<lambda>provider.
     andThen (ParseExternalTransactionID (sc_externalID cmd)) (\<lambda>ext.
     andThen (ParsePlayerID (sc_playerID cmd)) (\<lambda>player.
     andThen (ParseWalletID (sc_walletID cmd)) (\<lambda>wallet.
     andThen (ParseRoundID (sc_roundID cmd)) (\<lambda>rnd.
     andThen (ParseGameID (sc_gameID cmd)) (\<lambda>game.
       if \<not> Kind_Valid (kind_of_string (sc_kind cmd)) then Inl (Wrapped (DomainErr CodeInvalidKind))
       else
         andThen (ParseCurrency (sc_currency cmd)) (\<lambda>cur.
         andThen (ParseExternalMoney (sc_amount cmd) cur) (\<lambda>money.
         andThen (if sc_referenceExternalID cmd \<noteq> ''''
                  then ParseExternalTransactionID (sc_referenceExternalID cmd) else Inr ident_zero) (\<lambda>ref.
           Inr \<lparr>ps_key = key, ps_hash = hash, ps_providerID = provider, ps_externalID = ext,
                ps_playerID = player, ps_walletID = wallet, ps_roundID = rnd, ps_gameID = game,
                ps_kind = kind_of_string (sc_kind cmd), ps_money = money, ps_reference = ref\<rparr>)))))))))))"

section \<open>Results\<close>

record SubmitResult =
  sr_transaction :: WagerTransaction
  sr_balance :: money
  sr_replay :: bool

definition answer :: "WagerTransaction \<Rightarrow> money \<Rightarrow> SubmitResult" where
  "answer t m = \<lparr>sr_transaction = t, sr_balance = m, sr_replay = False\<rparr>"

text \<open>Both refusals are \<open>fmt.Errorf("%w: ...", ErrConflict)\<close>.\<close>

definition Submit_replay :: "WagerTransaction \<Rightarrow> parsedSubmit \<Rightarrow> SubmitResult res" where
  "Submit_replay stored p =
     (if t_payloadHash stored \<noteq> ps_hash p then Inl (Wrapped ErrConflict)
      else if t_idempotencyKey stored \<noteq> ps_key p then Inl (Wrapped ErrConflict)
      else Inr \<lparr>sr_transaction = stored, sr_balance = t_balanceAfter stored, sr_replay = True\<rparr>)"

section \<open>Applying an operation\<close>

text \<open>The movement of a kind; \<open>None\<close> when no money moves.\<close>

definition Submit_movement ::
  "env \<Rightarrow> ctx \<Rightarrow> Wallet \<Rightarrow> WagerTransaction \<Rightarrow> TransactionID \<Rightarrow> gotime \<Rightarrow> Movement option pgio" where
  "Submit_movement \<Gamma> c wallet t txID at =
     (if \<not> Kind_MovesMoney (t_kind t) then ret None
      else bindE (io_wrap (ids_NewLedgerEntryID \<Gamma> c)) (\<lambda>entryID.
        case t_kind t of
          KindBet \<Rightarrow> bindE (lift (Wallet_Debit wallet entryID txID (t_money t) at)) (\<lambda>m. ret (Some m))
        | KindWin \<Rightarrow> bindE (lift (Wallet_Credit wallet entryID txID (t_money t) at)) (\<lambda>m. ret (Some m))
        | _ \<Rightarrow> throw (Wrapped ErrNotImplemented)))"

definition Submit_reject :: "WagerTransaction \<Rightarrow> goerror \<Rightarrow> gotime \<Rightarrow> WagerTransaction res" where
  "Submit_reject t cause at =
     (case as_domain cause of
        None \<Rightarrow> Inl cause
      | Some c \<Rightarrow> Tx_Reject t c at)"

definition balanceAfter :: "Wallet \<Rightarrow> Movement option \<Rightarrow> money" where
  "balanceAfter wallet movement =
     (case movement of None \<Rightarrow> w_balance wallet | Some m \<Rightarrow> w_balance (mv_wallet m))"

text \<open>Store an outcome that moved nothing, with its event.\<close>

definition record_unmoved :: "env \<Rightarrow> ctx \<Rightarrow> WagerTransaction \<Rightarrow> Wallet \<Rightarrow> SubmitResult pgio" where
  "record_unmoved \<Gamma> c t wallet =
     bindE (Transactions_Insert \<Gamma> t) (\<lambda>_.
     bindE (emit \<Gamma> c t wallet no_entry False) (\<lambda>_.
       ret (answer t (w_balance wallet))))"

definition recordReversalRejection ::
  "env \<Rightarrow> ctx \<Rightarrow> WagerTransaction \<Rightarrow> code \<Rightarrow> Wallet \<Rightarrow> gotime \<Rightarrow> SubmitResult pgio" where
  "recordReversalRejection \<Gamma> c reversal rc wallet at =
     bindE (lift (Tx_Reject reversal rc at)) (\<lambda>rejected. record_unmoved \<Gamma> c rejected wallet)"

definition Submit_resolve ::
  "env \<Rightarrow> ReferencePolicy \<Rightarrow> ctx \<Rightarrow> WagerTransaction \<Rightarrow> Wallet \<Rightarrow> gotime \<Rightarrow> SubmitResult pgio" where
  "Submit_resolve \<Gamma> waiting c reversal wallet at =
     bindE (resolveReference \<Gamma> reversal) (\<lambda>decision.
       case decision of
         ResolveWait \<Rightarrow>
           bindE (ReferencePolicy_nextAttemptAt \<Gamma> waiting at 1) (\<lambda>next.
           bindE (lift (Tx_MarkPendingReference reversal at next (time_Add at (rp_TTL waiting)))) (\<lambda>parked.
             record_unmoved \<Gamma> c parked wallet))
       | ResolveReject rc \<Rightarrow> recordReversalRejection \<Gamma> c reversal rc wallet at
       | ResolveApply reference d \<Rightarrow>
           handle (applyReversal \<Gamma> c reversal reference d wallet at) (\<lambda>r.
             case r of
               Inl e \<Rightarrow>
                 (case as_domain e of
                    None \<Rightarrow> throw e
                  | Some rc \<Rightarrow> recordReversalRejection \<Gamma> c reversal rc wallet at)
             | Inr (applied, movement) \<Rightarrow>
                 bindE (emit \<Gamma> c applied (mv_wallet movement) (mv_entry movement) True) (\<lambda>_.
                   ret (answer applied (w_balance (mv_wallet movement))))))"

text \<open>The rest of \<open>apply\<close> for an operation that is no reversal.\<close>

definition apply_movement ::
  "env \<Rightarrow> ctx \<Rightarrow> WagerTransaction \<Rightarrow> Wallet \<Rightarrow> TransactionID \<Rightarrow> gotime \<Rightarrow> SubmitResult pgio" where
  "apply_movement \<Gamma> c t wallet txID at =
     handle (Submit_movement \<Gamma> c wallet t txID at) (\<lambda>r.
       case r of
         Inl cause \<Rightarrow>
           bindE (lift (Submit_reject t cause at)) (\<lambda>rejected. record_unmoved \<Gamma> c rejected wallet)
       | Inr movement \<Rightarrow>
           bindE (lift (Tx_MarkProcessed t (balanceAfter wallet movement) at)) (\<lambda>applied.
             case movement of
               None \<Rightarrow> record_unmoved \<Gamma> c applied wallet
             | Some m \<Rightarrow>
                 bindE (Transactions_Insert \<Gamma> applied) (\<lambda>_.
                 bindE (Wallets_UpdateBalance \<Gamma> (mv_wallet m) (w_version wallet)) (\<lambda>_.
                 bindE (Ledger_Append \<Gamma> (mv_entry m)) (\<lambda>_.
                 bindE (emit \<Gamma> c applied (mv_wallet m) (mv_entry m) True) (\<lambda>_.
                   ret (answer applied (w_balance (mv_wallet m)))))))))"

definition external_params :: "parsedSubmit \<Rightarrow> TransactionID \<Rightarrow> gotime \<Rightarrow> ExternalTransactionParams" where
  "external_params p txID at =
     \<lparr>x_id = txID, x_kind = ps_kind p, x_providerID = ps_providerID p, x_externalID = ps_externalID p,
      x_idempotencyKey = ps_key p, x_payloadHash = ps_hash p, x_walletID = ps_walletID p,
      x_playerID = ps_playerID p, x_roundID = ps_roundID p, x_gameID = ps_gameID p,
      x_money = ps_money p, x_referenceExternalID = ps_reference p, x_createdAt = at\<rparr>"

definition Submit_apply :: "env \<Rightarrow> ReferencePolicy \<Rightarrow> ctx \<Rightarrow> parsedSubmit \<Rightarrow> SubmitResult pgio" where
  "Submit_apply \<Gamma> waiting c p =
     bindE (io_wrap (ids_NewTransactionID \<Gamma> c)) (\<lambda>txID.
     bindE (clock_Now \<Gamma>) (\<lambda>at.
     bindE (lift (NewExternalTransaction (external_params p txID at))) (\<lambda>t.
     bindE (Wallets_FindByIDForUpdate \<Gamma> (ps_walletID p)) (\<lambda>wallet.
       if w_playerID wallet \<noteq> ps_playerID p then throw (Wrapped ErrInvalidInput)
       else if Kind_IsReversal (t_kind t) then Submit_resolve \<Gamma> waiting c t wallet at
       else apply_movement \<Gamma> c t wallet txID at))))"

definition ExecuteIn :: "env \<Rightarrow> ReferencePolicy \<Rightarrow> SubmitCommand \<Rightarrow> ctx \<Rightarrow> SubmitResult pgio" where
  "ExecuteIn \<Gamma> waiting cmd c =
     bindE (lift (caller c ScopeSubmit)) (\<lambda>identity.
     bindE (lift (Submit_parse cmd)) (\<lambda>p.
     bindE (lift (Identity_mayActAs identity (ps_providerID p))) (\<lambda>_.
       handle (Transactions_FindByBusinessID \<Gamma> (ps_providerID p) (ps_externalID p)) (\<lambda>r.
         case r of
           Inr existing \<Rightarrow> lift (Submit_replay existing p)
         | Inl e \<Rightarrow> if \<not> errors_Is e ErrNotFound then throw e else Submit_apply \<Gamma> waiting c p))))"

section \<open>The HTTP path\<close>

definition constraintIdempotencyKey :: string where
  "constraintIdempotencyKey = ''wager_transactions_idempotency_key''"

definition no_result :: SubmitResult where
  "no_result = \<lparr>sr_transaction = \<lparr>t_id = ident_zero, t_origin = OriginOther '''', t_kind = KindOther '''',
       t_status = StatusOther '''', t_walletID = ident_zero, t_playerID = ident_zero, t_money = Money_zero,
       t_providerID = ident_zero, t_externalID = ident_zero, t_idempotencyKey = ident_zero,
       t_payloadHash = ident_zero, t_roundID = ident_zero, t_gameID = ident_zero,
       t_referenceExternalID = ident_zero, t_resolvedReferenceID = ident_zero,
       t_failureCode = CodeOther '''', t_referenceAttempts = 0, t_referenceNextAttemptAt = time_zero,
       t_referenceDeadlineAt = time_zero, t_balanceAfter = Money_zero, t_createdAt = time_zero,
       t_updatedAt = time_zero\<rparr>, sr_balance = Money_zero, sr_replay = False\<rparr>"

definition Submit_execute ::
  "env \<Rightarrow> RetryPolicy \<Rightarrow> ReferencePolicy \<Rightarrow> ctx \<Rightarrow> SubmitCommand \<Rightarrow> SubmitResult pgio" where
  "Submit_execute \<Gamma> retry waiting c cmd w =
     (case UnitOfWork_Do \<Gamma> retry c (assigning (ExecuteIn \<Gamma> waiting cmd) no_result) no_result w of
        (Inr _, result, w') \<Rightarrow> (Inr result, w')
      | (Inl e, _, w') \<Rightarrow>
          if \<not> errors_Is e ErrConflict then (Inl e, w')
          else if as_constraint e = Some constraintIdempotencyKey then (Inl (Wrapped ErrConflict), w')
          else
            (case Submit_parse cmd of
               Inl parseErr \<Rightarrow> (Inl parseErr, w')
             | Inr p \<Rightarrow>
                 (case Transactions_FindByBusinessID \<Gamma> (ps_providerID p) (ps_externalID p) w' of
                    (Inl readErr, w'') \<Rightarrow> (Inl e, w'')
                  | (Inr existing, w'') \<Rightarrow> (Submit_replay existing p, w''))))"

text \<open>What \<open>Settled\<close> reports to the meters; the elapsed time is not modelled.\<close>

datatype metric =
    OperationLatency string
  | WalletContention
  | OperationSettled string string string

definition Submit_Settled :: "string \<Rightarrow> SubmitResult \<Rightarrow> goerror option \<Rightarrow> metric list" where
  "Submit_Settled source result err =
     OperationLatency source #
     (case err of
        Some e \<Rightarrow> if errors_Is e ErrVersionMismatch then [WalletContention] else []
      | None \<Rightarrow> [OperationSettled source (string_of_kind (t_kind (sr_transaction result)))
                  (string_of_status (t_status (sr_transaction result)))])"

definition Submit_Execute ::
  "env \<Rightarrow> RetryPolicy \<Rightarrow> ReferencePolicy \<Rightarrow> ctx \<Rightarrow> SubmitCommand \<Rightarrow> database world
     \<Rightarrow> SubmitResult res \<times> metric list \<times> database world" where
  "Submit_Execute \<Gamma> retry waiting c cmd w =
     (case Submit_execute \<Gamma> retry waiting c cmd w of
        (Inr result, w') \<Rightarrow> (Inr result, Submit_Settled ''http'' result None, w')
      | (Inl e, w') \<Rightarrow> (Inl e, Submit_Settled ''http'' no_result (Some e), w'))"

section \<open>What parsing establishes\<close>

definition parsed_ok :: "parsedSubmit \<Rightarrow> bool" where
  "parsed_ok p \<longleftrightarrow> ident_ok (ps_key p) \<and> ident_ok (ps_hash p) \<and> ident_ok (ps_providerID p)
     \<and> ident_ok (ps_externalID p) \<and> ident_ok (ps_playerID p) \<and> ident_ok (ps_walletID p)
     \<and> ident_ok (ps_roundID p) \<and> ident_ok (ps_gameID p) \<and> optional_ok (ps_reference p)
     \<and> iso4217 (code_str (currency (ps_money p)))"

lemma parse_identifier_ok: "parseIdentifier s = Inr i \<Longrightarrow> ident_ok i"
  by (auto simp: parseIdentifier_iff)

lemma payload_hash_ok: "SubmitCommand_PayloadHash cmd = Inr h \<Longrightarrow> ident_ok h"
  unfolding SubmitCommand_PayloadHash_def ParsePayloadHash_def by (rule parse_identifier_ok)

lemma external_money_iso:
  "ParseExternalMoney a cur = Inr m \<Longrightarrow> ParseCurrency s = Inr cur \<Longrightarrow> iso4217 (code_str (currency m))"
  using external_money_currency ParseCurrency_iso by blast

lemma Submit_parse_ok:
  assumes "Submit_parse cmd = Inr p"
  shows "parsed_ok p \<and> SubmitCommand_PayloadHash cmd = Inr (ps_hash p)"
  using assms
  by (auto simp: Submit_parse_def andThen_Inr_iff parsed_ok_def parse_id_defs optional_ok_def
      dest!: parse_identifier_ok dest: payload_hash_ok external_money_iso split: if_splits)

section \<open>A new operation\<close>

lemma new_tx:
  assumes "NewExternalTransaction (external_params p txID at) = Inr t" "parsed_ok p" "ident_ok txID" "time_set at"
  shows "tx_storable t \<and> t_status t = StatusPending \<and> t_referenceAttempts t = 0 \<and> t_kind t \<noteq> KindOpening
    \<and> t_id t = txID \<and> t_walletID t = ps_walletID p \<and> t_playerID t = ps_playerID p \<and> t_money t = ps_money p
    \<and> t_providerID t = ps_providerID p \<and> t_externalID t = ps_externalID p \<and> t_payloadHash t = ps_hash p
    \<and> t_idempotencyKey t = ps_key p \<and> t_kind t = ps_kind p \<and> \<not> ident_IsZero (t_providerID t)
    \<and> (Kind_IsReversal (t_kind t) \<longrightarrow> \<not> ident_IsZero (t_referenceExternalID t))"
proof -
  have "tx_ok t" and k: "t_kind t \<noteq> KindOpening" using NewExternalTransaction_ok [OF assms(1)] by auto
  moreover have f: "t_id t = txID" "t_walletID t = ps_walletID p" "t_playerID t = ps_playerID p"
    "t_money t = ps_money p" "t_providerID t = ps_providerID p" "t_externalID t = ps_externalID p"
    "t_payloadHash t = ps_hash p" "t_idempotencyKey t = ps_key p" "t_kind t = ps_kind p"
    "t_roundID t = ps_roundID p" "t_gameID t = ps_gameID p" "t_referenceExternalID t = ps_reference p"
    "t_status t = StatusPending" "t_referenceAttempts t = 0" "t_resolvedReferenceID t = ident_zero"
    "t_failureCode t = CodeOther ''''" "t_createdAt t = time_UTC at" "t_updatedAt t = time_UTC at"
    "t_referenceNextAttemptAt t = time_zero" "t_referenceDeadlineAt t = time_zero"
    using assms(1)
    by (auto simp: NewExternalTransaction_def external_params_def andThen_Inr_iff Let_def split: if_splits)
  moreover have "tx_ids_ok t"
    using assms(2,3) f by (simp add: tx_ids_ok_def parsed_ok_def optional_ok_def)
  ultimately have "tx_storable t"
    using assms(2,4) by (simp add: tx_storable_def parsed_ok_def survives_time_set)
  moreover have "\<not> ident_IsZero (t_providerID t)" "Kind_IsReversal (t_kind t) \<longrightarrow> \<not> ident_IsZero (t_referenceExternalID t)"
    using \<open>tx_ok t\<close> k by (auto simp: tx_ok_def tx_shape_def tx_metadata_ok_def)
  ultimately show ?thesis using f k by simp
qed

section \<open>Every branch is a commit of the specification\<close>

text \<open>
  The outcome of an operation: one commit of the abstract state that stores the transaction,
  and the events of that outcome, no more and no fewer, added to the outbox.
\<close>

definition settles :: "ctx \<Rightarrow> bank \<Rightarrow> WagerTransaction \<Rightarrow> database world \<Rightarrow> database world \<Rightarrow> bool" where
  "settles c b t w w' \<longleftrightarrow>
     (\<exists>b'. represents (db w') b' \<and> commit b b' \<and> b_txs b' = put_tx (b_txs b) (trunc_tx t))
     \<and> in_tx w' = in_tx w \<and> aborted w' = aborted w \<and> d_inbox (db w') = d_inbox (db w)
     \<and> (\<exists>wallet entry moved events rows. eventsForOutcome t wallet entry moved = Inr events
          \<and> (moved \<longleftrightarrow> moved_money t)
          \<and> d_outbox (db w') = d_outbox (db w) @ rows \<and> list_all2 (carries c) events rows)"

lemma settles_same_world:
  "same_world w w1 \<Longrightarrow> settles c b t w1 w' \<Longrightarrow> settles c b t w w'"
  by (simp add: settles_def same_world_def)

lemma settlesI:
  assumes "represents (db w1) b'" "commit b b'" "b_txs b' = put_tx (b_txs b) (trunc_tx t)"
    "in_tx w1 = in_tx w" "aborted w1 = aborted w" "same_messages w w1"
    and em: "emit \<Gamma> c t wallet entry moved w1 = (Inr u, w')" "moved \<longleftrightarrow> moved_money t"
  shows "settles c b t w w'"
proof -
  obtain events where "eventsForOutcome t wallet entry moved = Inr events" "recorded_events c events w1 w'"
    using emit_ok [OF em(1)] by blast
  moreover from this have "represents (db w') b'"
    using assms(1) represents_same_bank by (auto simp: recorded_events_def)
  ultimately show ?thesis
    unfolding settles_def using assms by (auto simp: recorded_events_def same_messages_def)
qed

lemma record_unmoved_ok:
  assumes run: "record_unmoved \<Gamma> c t x w = (Inr res, w')" and rep: "represents (db w) b"
    and t: "tx_storable t" "\<not> moved_money t" "t_kind t \<noteq> KindOpening"
  shows "settles c b t w w' \<and> res = answer t (w_balance x)"
proof -
  obtain u w1 u' where ins: "Transactions_Insert \<Gamma> t w = (Inr u, w1)" and em: "emit \<Gamma> c t x no_entry False w1 = (Inr u', w')"
    and res: "res = answer t (w_balance x)"
    using run by (auto simp: record_unmoved_def elim!: bindE_okE)
  note i = Insert_new [OF ins rep t(1)]
  have "commit b (b\<lparr>b_txs := put_tx (b_txs b) (trunc_tx t)\<rparr>)"
    using i t(2,3) by (intro commit.recorded) (auto simp: moved_money_def)
  then have "settles c b t w w'"
    using i t(2) by (intro settlesI [OF _ _ _ _ _ financial_same_messages(2) [OF ins] em]) auto
  then show ?thesis using res by simp
qed

lemma rejected_tx:
  assumes "Tx_Reject t rc at = Inr t'" "tx_storable t" "time_set at" "proper_code rc"
  shows "tx_storable t' \<and> \<not> moved_money t' \<and> t_kind t' = t_kind t \<and> same_request t t' \<and> t_status t' = StatusRejected
    \<and> t_failureCode t' = rc"
proof -
  have st: "tx_step t t'" using assms(1) by (rule tx_step.reject)
  have t': "t' = t\<lparr>t_status := StatusRejected, t_updatedAt := time_UTC at, t_failureCode := rc\<rparr>"
    using assms(1) by (auto elim: Reject_okE)
  have "tx_storable t'"
    using assms t' tx_ok_step [OF st] tx_step_same_request [OF st] survives_time_set
    by (intro tx_storable_step [OF assms(2)]) (auto simp: tx_storable_def tx_ids_ok_def)
  then show ?thesis using t' tx_step_same_request [OF st] by (simp add: moved_money_def)
qed

lemma recordReversalRejection_ok:
  assumes "recordReversalRejection \<Gamma> c r rc x at w = (Inr res, w')" "represents (db w) b"
    "tx_storable r" "t_kind r \<noteq> KindOpening" "time_set at" "proper_code rc"
  shows "settles c b (sr_transaction res) w w' \<and> \<not> sr_replay res \<and> same_request r (sr_transaction res)
    \<and> sr_balance res = w_balance x \<and> t_status (sr_transaction res) = StatusRejected
    \<and> t_failureCode (sr_transaction res) = rc"
proof -
  obtain t where t: "Tx_Reject r rc at = Inr t" "record_unmoved \<Gamma> c t x w = (Inr res, w')"
    using assms(1) by (auto simp: recordReversalRejection_def elim!: bindE_okE)
  note rt = rejected_tx [OF t(1) assms(3,5,6)]
  show ?thesis
    using record_unmoved_ok [OF t(2) assms(2)] rt assms(4) by (auto simp: answer_def)
qed

section \<open>The codes of refusals\<close>

text \<open>The code a refusal carries is one of the constants of the domain.\<close>

definition coded :: "goerror \<Rightarrow> bool" where
  "coded e \<longleftrightarrow> (\<forall>rc. as_domain e = Some rc \<longrightarrow> proper_code rc)"

lemma coded_DomainErr: "rc \<in> set all_codes \<Longrightarrow> coded (DomainErr rc)"
  by (simp add: coded_def proper_code_constants)

lemma coded_consts [simp]:
  "coded (DomainErr CodeInvalidIdentifier)" "coded (DomainErr CodeInvalidTimestamp)"
  "coded (DomainErr CodeNonPositiveAmount)" "coded (DomainErr CodeCurrencyMismatch)"
  "coded (DomainErr CodeInsufficientFunds)" "coded (DomainErr CodeAmountOverflow)"
  "coded (DomainErr CodeInvalidCurrency)" "coded (DomainErr CodeInvalidDirection)"
  "coded (DomainErr CodeInconsistentEntry)" "coded (DomainErr CodeReversalExceedsBalance)"
  "coded (DomainErr CodeUnexpectedReference)" "coded (DomainErr CodeInvalidTransition)"
  "coded (DomainErr CodeNegativeAmount)"
  by (rule coded_DomainErr, simp add: all_codes_def)+

lemma coded_Wrapped [simp]: "coded (Wrapped e) = coded e"
  by (simp add: coded_def)

lemma coded_infra: "as_domain e = None \<Longrightarrow> coded e"
  by (simp add: coded_def)

lemma applyDirection_coded: "applyDirection d a m = Inl e \<Longrightarrow> coded e"
  by (cases d) (auto simp: Money_Add_def Money_Sub_def Money_requireComparable_def andThen_Inl_iff Let_def
      split: if_splits)

lemma NewLedgerEntry_coded: "NewLedgerEntry p = Inl e \<Longrightarrow> coded e"
  by (auto simp: NewLedgerEntry_def andThen_Inl_iff Let_def dest: applyDirection_coded split: if_splits)

lemma Wallet_move_coded: "Wallet_move x d eid tid m at = Inl e \<Longrightarrow> coded e"
  by (auto simp: Wallet_move_def andThen_Inl_iff dest: applyDirection_coded NewLedgerEntry_coded split: if_splits)

lemma ids_NewLedgerEntryID_coded: "ids_NewLedgerEntryID \<Gamma> c w = (Inl e, w') \<Longrightarrow> coded e"
  by (auto simp: ids_NewLedgerEntryID_def ParseLedgerEntryID_def parseIdentifier_def elim!: bindE_errE
      dest!: ids_next_err intro: coded_infra split: if_splits)

lemma reversal_movement_coded: "reversal_movement x d eid r at = Inl e \<Longrightarrow> coded e"
  by (auto simp: reversal_movement_def Wallet_Credit_def Wallet_Debit_def dest: Wallet_move_coded
      split: direction.splits sum.splits if_splits)

lemma applyReversal_coded:
  assumes "applyReversal \<Gamma> c r ref d x at w = (Inl e, w')"
  shows "coded e"
proof -
  have "coded e" if "writeReversal \<Gamma> t mv v w1 = (Inl e, w')" for t mv v w1
    using that by (auto simp: writeReversal_def elim!: bindE_errE dest: write_errors split: if_splits intro: coded_infra)
  moreover have "coded e" if "Tx_ResolveReference r i at = Inl e" for i
    using that by (auto simp: Tx_ResolveReference_def split: if_splits)
  moreover have "coded e" if "Tx_MarkProcessed t m at = Inl e" for t m
    using that by (auto simp: Tx_MarkProcessed_def Tx_transition_def split: if_splits)
  ultimately show ?thesis
    using assms by (auto simp: applyReversal_def elim!: bindE_errE
        dest: ids_NewLedgerEntryID_coded reversal_movement_coded)
qed

lemma Submit_movement_err:
  assumes "Submit_movement \<Gamma> c x t tid at w = (Inl e, w')"
  shows "coded e \<and> same_world w w'"
proof -
  let ?k = "\<lambda>eid. case t_kind t of
          KindBet \<Rightarrow> bindE (lift (Wallet_Debit x eid tid (t_money t) at)) (\<lambda>m. ret (Some m))
        | KindWin \<Rightarrow> bindE (lift (Wallet_Credit x eid tid (t_money t) at)) (\<lambda>m. ret (Some m))
        | _ \<Rightarrow> throw (Wrapped ErrNotImplemented)"
  have "bindE (io_wrap (ids_NewLedgerEntryID \<Gamma> c)) ?k w = (Inl e, w')"
    using assms by (auto simp: Submit_movement_def split: if_splits)
  then show ?thesis
  proof (cases rule: bindE_errE)
    case first
    then show ?thesis using ids_NewLedgerEntryID_coded ids_same(3) by (auto elim!: io_wrap_errE)
  next
    case (rest eid w1)
    have "coded e \<and> w1 = w'"
      using rest(2) by (cases "t_kind t") (auto simp: Wallet_Debit_def Wallet_Credit_def coded_infra
          elim!: bindE_errE dest: Wallet_move_coded)
    then show ?thesis using rest(1) ids_same(3) by (auto elim!: io_wrap_okE)
  qed
qed

lemma Submit_movement_ok:
  assumes "Submit_movement \<Gamma> c x t tid at w = (Inr m, w')" "t_kind t \<noteq> KindOpening" "\<not> Kind_IsReversal (t_kind t)"
    "Kind_Valid (t_kind t)"
  shows "same_world w w' \<and>
    (case m of
       None \<Rightarrow> t_kind t = KindLoss
     | Some mv \<Rightarrow> \<exists>eid d. ident_ok eid \<and> Wallet_move x d eid tid (t_money t) at = Inr mv
         \<and> (t_kind t = KindBet \<and> d = Debit \<or> t_kind t = KindWin \<and> d = Credit))"
proof (cases "t_kind t")
  case KindBet
  then obtain eid mv where "ids_NewLedgerEntryID \<Gamma> c w = (Inr eid, w')" "m = Some mv"
    "Wallet_move x Debit eid tid (t_money t) at = Inr mv"
    using assms(1) by (auto simp: Submit_movement_def Kind_MovesMoney_def Wallet_Debit_def elim!: bindE_okE io_wrap_okE)
  then show ?thesis using KindBet ids_same(3) ids_ok(3) by (simp, blast)
next
  case KindWin
  then obtain eid mv where "ids_NewLedgerEntryID \<Gamma> c w = (Inr eid, w')" "m = Some mv"
    "Wallet_move x Credit eid tid (t_money t) at = Inr mv"
    using assms(1) by (auto simp: Submit_movement_def Kind_MovesMoney_def Wallet_Credit_def elim!: bindE_okE io_wrap_okE)
  then show ?thesis using KindWin ids_same(3) ids_ok(3) by (simp, blast)
next
  case KindLoss
  then show ?thesis using assms(1) by (auto simp: Submit_movement_def Kind_MovesMoney_def)
qed (use assms in auto)

section \<open>Applying\<close>

text \<open>What a first submission produced: its outcome, settled, and what was asked.\<close>

definition outcome_of :: "ctx \<Rightarrow> bank \<Rightarrow> WagerTransaction \<Rightarrow> SubmitResult \<Rightarrow> database world \<Rightarrow> database world \<Rightarrow> bool" where
  "outcome_of c b t res w w' \<longleftrightarrow>
     settles c b (sr_transaction res) w w' \<and> \<not> sr_replay res \<and> same_request t (sr_transaction res)
     \<and> t_status (sr_transaction res) \<in> {StatusProcessed, StatusRejected, StatusPendingReference}"

lemma processed_tx:
  assumes "Tx_MarkProcessed t m at = Inr t'" "tx_storable t" "time_set at"
  shows "tx_storable t' \<and> same_request t t' \<and> t_status t' = StatusProcessed \<and> t_balanceAfter t' = m
    \<and> t_resolvedReferenceID t' = t_resolvedReferenceID t \<and> t_referenceAttempts t' = t_referenceAttempts t"
proof -
  have st: "tx_step t t'" using assms(1) by (rule tx_step.processed)
  have t': "t' = t\<lparr>t_status := StatusProcessed, t_updatedAt := time_UTC at, t_balanceAfter := m\<rparr>"
    using assms(1) by (auto elim: MarkProcessed_okE)
  have "tx_storable t'"
    using assms t' tx_ok_step [OF st] tx_step_same_request [OF st] survives_time_set
    by (intro tx_storable_step [OF assms(2)]) (auto simp: tx_storable_def tx_ids_ok_def)
  then show ?thesis using t' tx_step_same_request [OF st] by simp
qed

lemma apply_movement_ok:
  assumes run: "apply_movement \<Gamma> c t x (t_id t) at w = (Inr res, w')"
    and rep: "represents (db w) b" "bank_ok b" and x: "x \<in> set (b_wallets b)" "w_id x = t_walletID t"
    and t: "tx_storable t" "t_kind t \<noteq> KindOpening" "\<not> Kind_IsReversal (t_kind t)" and at: "time_set at"
  shows "outcome_of c b t res w w'"
proof -
  have kv: "Kind_Valid (t_kind t)" using t(1) by (simp add: tx_storable_def tx_ok_def tx_shape_def)
  obtain r w1 where m: "Submit_movement \<Gamma> c x t (t_id t) at w = (r, w1)" by (metis surj_pair)
  show ?thesis
  proof (cases r)
    case (Inl cause)
    then obtain t' where rj: "Submit_reject t cause at = Inr t'" "record_unmoved \<Gamma> c t' x w1 = (Inr res, w')"
      using run by (auto simp: apply_movement_def handle_def m elim!: bindE_okE)
    have e: "coded cause" "same_world w w1" using Submit_movement_err [OF m [unfolded Inl]] by auto
    obtain rc where "as_domain cause = Some rc" "Tx_Reject t rc at = Inr t'"
      using rj(1) by (auto simp: Submit_reject_def split: option.splits)
    then have rt: "tx_storable t' \<and> \<not> moved_money t' \<and> t_kind t' = t_kind t \<and> same_request t t' \<and> t_status t' = StatusRejected"
      using rejected_tx [OF _ t(1) at] e(1) by (auto simp: coded_def)
    have "represents (db w1) b" using rep(1) e(2) by (simp add: same_world_def)
    then have "settles c b t' w1 w' \<and> res = answer t' (w_balance x)"
      using record_unmoved_ok [OF rj(2)] rt t(2) by simp
    then show ?thesis
      using settles_same_world [OF e(2)] rt by (simp add: outcome_of_def answer_def)
  next
    case (Inr movement)
    note mv = Submit_movement_ok [OF m [unfolded Inr] t(2,3) kv]
    have rep1: "represents (db w1) b" using rep(1) mv by (simp add: same_world_def)
    obtain t' where pr: "Tx_MarkProcessed t (balanceAfter x movement) at = Inr t'"
      using run by (auto simp: apply_movement_def handle_def m Inr elim!: bindE_okE)
    note pt = processed_tx [OF pr t(1) at]
    show ?thesis
    proof (cases movement)
      case None
      then have ru: "record_unmoved \<Gamma> c t' x w1 = (Inr res, w')"
        using run pr by (simp add: apply_movement_def handle_def m Inr)
      have "\<not> moved_money t'" using mv None pt by (simp add: moved_money_def same_request_def Kind_MovesMoney_def)
      then have "settles c b t' w1 w' \<and> res = answer t' (w_balance x)"
        using record_unmoved_ok [OF ru rep1] pt t(2) by (simp add: same_request_def)
      then show ?thesis
        using settles_same_world mv pt by (auto simp: outcome_of_def answer_def)
    next
      case (Some y)
      then obtain eid d where y: "ident_ok eid" "Wallet_move x d eid (t_id t) (t_money t) at = Inr y"
        "t_kind t = KindBet \<and> d = Debit \<or> t_kind t = KindWin \<and> d = Credit" and same: "same_world w w1"
        using mv by auto
      obtain u1 w2 u2 w3 u3 w4 u4 where ins: "Transactions_Insert \<Gamma> t' w1 = (Inr u1, w2)"
        and upd: "Wallets_UpdateBalance \<Gamma> (mv_wallet y) (w_version x) w2 = (Inr u2, w3)"
        and app: "Ledger_Append \<Gamma> (mv_entry y) w3 = (Inr u3, w4)"
        and em: "emit \<Gamma> c t' (mv_wallet y) (mv_entry y) True w4 = (Inr u4, w')"
        and res: "res = answer t' (w_balance (mv_wallet y))"
        using run pr by (auto simp: apply_movement_def handle_def m Inr Some elim!: bindE_okE)
      note i = Insert_new [OF ins rep1] and sr = pt [THEN conjunct2, THEN conjunct1, unfolded same_request_def]
      have k: "t_kind t' = t_kind t" "t_id t' = t_id t" "t_money t' = t_money t" "t_walletID t' = t_walletID t"
        using sr by simp_all
      have moved: "moved_money t'" using pt y(3) k by (auto simp: moved_money_def Kind_MovesMoney_def)
      have "\<exists>b'. represents (db w4) b' \<and> commit b b' \<and> b_txs b' = put_tx (b_txs b) (trunc_tx t')
          \<and> in_tx w4 = in_tx w2 \<and> aborted w4 = aborted w2"
      proof (rule post_movement [OF rep(2) x(1) _ y(1) at _ _ _ _ _ _ _ upd app])
        show "Wallet_move x d eid (t_id (trunc_tx t')) (t_money (trunc_tx t')) at = Inr y" using y(2) k by simp
        show "writable b (trunc_tx t')" "represents (db w2) (b\<lparr>b_txs := put_tx (b_txs b) (trunc_tx t')\<rparr>)"
          using i pt by auto
        show "t_kind (trunc_tx t') \<noteq> KindOpening" "moved_money (trunc_tx t')" "t_walletID (trunc_tx t') = w_id x"
          using t(2) k moved x by (simp_all add: moved_money_def)
        show "t_balanceAfter (trunc_tx t') = w_balance (mv_wallet y)" using pt Some by (simp add: balanceAfter_def)
        show "directed (put_tx (b_txs b) (trunc_tx t')) (trunc_tx t') d" using y(3) k by (auto simp: directed_def)
      qed
      then obtain b' where b': "represents (db w4) b'" "commit b b'" "b_txs b' = put_tx (b_txs b) (trunc_tx t')"
        and fl: "in_tx w4 = in_tx w2" "aborted w4 = aborted w2" by blast
      have "same_messages w1 w4"
        using financial_same_messages(2) [OF ins] update_same_messages(1) [OF upd] financial_same_messages(3) [OF app]
        by (simp add: same_messages_def)
      then have "settles c b t' w1 w'"
        using fl i pt moved by (intro settlesI [OF b' _ _ _ em]) auto
      then show ?thesis
        using settles_same_world [OF same] pt res by (simp add: outcome_of_def answer_def)
    qed
  qed
qed

lemma parked_tx:
  assumes "Tx_MarkPendingReference t at n dl = Inr t'" "tx_storable t" "time_set at" "time_set n" "time_set dl"
  shows "tx_storable t' \<and> same_request t t' \<and> t_status t' = StatusPendingReference"
proof -
  have st: "tx_step t t'" using assms(1) by (rule tx_step.park)
  have t': "t' = t\<lparr>t_status := StatusPendingReference, t_updatedAt := time_UTC at,
       t_referenceAttempts := t_referenceAttempts t + 1,
       t_referenceNextAttemptAt := time_UTC n, t_referenceDeadlineAt := time_UTC dl\<rparr>"
    using assms(1) by (auto elim: MarkPendingReference_okE)
  have "tx_storable t'"
    using assms t' tx_ok_step [OF st] tx_step_same_request [OF st] survives_time_set
    by (intro tx_storable_step [OF assms(2)]) (auto simp: tx_storable_def tx_ids_ok_def)
  then show ?thesis using t' tx_step_same_request [OF st] by simp
qed

lemma time_set_later: "time_set t \<Longrightarrow> instant t \<le> instant t' \<Longrightarrow> time_set t'"
  by (simp add: time_set_def)

lemma nextAttemptAt_ok:
  assumes "ReferencePolicy_nextAttemptAt \<Gamma> (ReferencePolicy_normalised p) at n (w :: database world) = (Inr next, w')"
    "1 \<le> sint n" "time_set at"
  shows "time_set next \<and> same_world w w'"
proof -
  obtain t where t: "ReferencePolicy_nextAttemptAt \<Gamma> (ReferencePolicy_normalised p) at n w = (Inr t, tick w)"
    "instant at \<le> instant t"
    using ref_policy.next_at_ok [OF assms(2), of \<Gamma> p at w] by blast
  then have "next = t" "w' = tick w" using assms(1) by simp_all
  then show ?thesis using t(2) assms(3) by (auto intro: time_set_later)
qed

lemma deadline_set:
  "time_set at \<Longrightarrow> time_set (time_Add at (rp_TTL (ReferencePolicy_normalised p)))"
  using ReferencePolicy_normal [of p] by (simp add: time_set_def time_Add_def)

lemma Submit_resolve_ok:
  assumes run: "Submit_resolve \<Gamma> (ReferencePolicy_normalised pol) c r x at w = (Inr res, w')"
    and rep: "represents (db w) b" "bank_ok b" and x: "x \<in> set (b_wallets b)" "w_id x = t_walletID r"
    and r: "tx_storable r" "t_kind r \<noteq> KindOpening" "t_referenceAttempts r = 0"
      "\<not> ident_IsZero (t_providerID r)" "\<not> ident_IsZero (t_referenceExternalID r)" and at: "time_set at"
  shows "outcome_of c b r res w w'"
proof -
  have txs: "txs_ok b" using rep(2) by (simp add: bank_ok_def)
  obtain dec w1 where d: "resolveReference \<Gamma> r w = (Inr dec, w1)"
    using run by (auto simp: Submit_resolve_def elim: bindE_okE)
  have same: "same_world w w1" and dec: "dec = decision (b_txs b) r"
    using resolveReference_ok [OF d rep(1) txs r(4,5)] by auto
  have rep1: "represents (db w1) b" using rep(1) same by (simp add: same_world_def)
  have rejected: ?thesis
    if "recordReversalRejection \<Gamma> c r rc x at w2 = (Inr res, w')" "same_world w1 w2" "proper_code rc" for rc w2
  proof -
    have "represents (db w2) b" "same_world w w2"
      using rep1 that(2) same by (auto simp: same_world_def)
    then show ?thesis
      using recordReversalRejection_ok [OF that(1) _ r(1,2) at that(3)] settles_same_world
      by (auto simp: outcome_of_def)
  qed
  show ?thesis
  proof (cases dec)
    case ResolveWait
    then obtain nx w2 t' where n: "ReferencePolicy_nextAttemptAt \<Gamma> (ReferencePolicy_normalised pol) at 1 w1 = (Inr nx, w2)"
      and p: "Tx_MarkPendingReference r at nx (time_Add at (rp_TTL (ReferencePolicy_normalised pol))) = Inr t'"
      and ru: "record_unmoved \<Gamma> c t' x w2 = (Inr res, w')"
      using run by (auto simp: Submit_resolve_def bindE_def [of "resolveReference \<Gamma> r"] d elim!: bindE_okE)
    have ns: "time_set nx" "same_world w1 w2" using nextAttemptAt_ok [OF n _ at] by simp_all
    note pt = parked_tx [OF p r(1) at ns(1) deadline_set [OF at]]
    have "represents (db w2) b" using rep1 ns(2) by (simp add: same_world_def)
    then have "settles c b t' w2 w' \<and> res = answer t' (w_balance x)"
      using record_unmoved_ok [OF ru] pt r(2) by (simp add: moved_money_def same_request_def)
    then show ?thesis
      using settles_same_world [OF same_world_trans [OF same ns(2)]] pt by (simp add: outcome_of_def answer_def)
  next
    case (ResolveReject rc)
    then have "recordReversalRejection \<Gamma> c r rc x at w1 = (Inr res, w')"
      using run by (simp add: Submit_resolve_def bindE_def d)
    moreover have "proper_code rc"
      using decision_code [of "b_txs b" r rc] dec ResolveReject proper_code_constants by simp
    ultimately show ?thesis using rejected same_world_refl by blast
  next
    case (ResolveApply ref dir)
    obtain q w2 where q: "applyReversal \<Gamma> c r ref dir x at w1 = (q, w2)" by (metis surj_pair)
    note run2 = run [unfolded Submit_resolve_def bindE_def [of "resolveReference \<Gamma> r"] d prod.case sum.case
        ResolveApply resolution.case handle_def q]
    show ?thesis
    proof (cases q)
      case (Inl e)
      then obtain rc where "as_domain e = Some rc" "recordReversalRejection \<Gamma> c r rc x at w2 = (Inr res, w')"
        using run2 by (auto split: option.splits)
      then show ?thesis
        using rejected applyReversal_domain_err [OF q [unfolded Inl]] applyReversal_coded [OF q [unfolded Inl]]
        by (auto simp: coded_def)
    next
      case (Inr am)
      obtain t' mv where am: "am = (t', mv)" by (cases am)
      obtain u where em: "emit \<Gamma> c t' (mv_wallet mv) (mv_entry mv) True w2 = (Inr u, w')"
        and res: "res = answer t' (w_balance (mv_wallet mv))"
        using run2 Inr am by (auto elim!: bindE_okE)
      note q' = q [unfolded Inr am]
      have "in_hand b r" using r by (simp add: in_hand_def)
      moreover have "decision (b_txs b) r = ResolveApply ref dir" using dec ResolveApply by simp
      ultimately have a: "(\<exists>b'. represents (db w2) b' \<and> commit b b' \<and> b_txs b' = put_tx (b_txs b) (trunc_tx t'))"
        "in_tx w2 = in_tx w1" "aborted w2 = aborted w1" "same_request r t'" "t_status t' = StatusProcessed"
        using applyReversal_ok [OF q' rep1 rep(2) x _ _ at] by auto
      then obtain b' where b': "represents (db w2) b'" "commit b b'" "b_txs b' = put_tx (b_txs b) (trunc_tx t')" by blast
      have "moved_money t'"
        using a(4,5) decision_apply(3) [of "b_txs b" r ref dir] dec ResolveApply
        by (auto simp: moved_money_def same_request_def Kind_MovesMoney_def Kind_CanReverse_def split: kind.splits)
      then have "settles c b t' w1 w'"
        using a(2,3) applyReversal_messages [OF q'] by (intro settlesI [OF b' _ _ _ em]) auto
      then show ?thesis
        using settles_same_world [OF same] a(4,5) res by (simp add: outcome_of_def answer_def)
    qed
  qed
qed

lemma Submit_apply_ok:
  assumes run: "Submit_apply \<Gamma> (ReferencePolicy_normalised pol) c p w = (Inr res, w')"
    and rep: "represents (db w) b" "bank_ok b" and p: "parsed_ok p"
    and clock: "\<And>n. time_set (env_now \<Gamma> n)"
  shows "\<exists>t. outcome_of c b t res w w' \<and> t_providerID t = ps_providerID p \<and> t_externalID t = ps_externalID p
    \<and> t_payloadHash t = ps_hash p \<and> t_idempotencyKey t = ps_key p \<and> t_kind t = ps_kind p
    \<and> t_money t = ps_money p \<and> t_walletID t = ps_walletID p \<and> t_playerID t = ps_playerID p
    \<and> (\<exists>x\<in>set (b_wallets b). w_id x = ps_walletID p \<and> w_playerID x = ps_playerID p)"
proof -
  obtain txID w1 at w2 t x w3 where
    id: "ids_NewTransactionID \<Gamma> c w = (Inr txID, w1)" and now: "clock_Now \<Gamma> w1 = (Inr at, w2)"
    and t: "NewExternalTransaction (external_params p txID at) = Inr t"
    and f: "Wallets_FindByIDForUpdate \<Gamma> (ps_walletID p) w2 = (Inr x, w3)"
    and own: "w_playerID x = ps_playerID p"
    and br: "(if Kind_IsReversal (t_kind t) then Submit_resolve \<Gamma> (ReferencePolicy_normalised pol) c t x at
       else apply_movement \<Gamma> c t x txID at) w3 = (Inr res, w')"
    using run by (auto simp: Submit_apply_def elim!: bindE_okE io_wrap_okE split: if_splits)
  have at: "time_set at" using now clock by (auto simp: clock_Now_def)
  have s: "same_world w w1" "same_world w1 w2"
    using ids_same(2) [OF id] clock_Now_same [OF now] by auto
  note nt = new_tx [OF t p ids_ok(2) [OF id] at]
  have rep2: "represents (db w2) b" using rep(1) s by (simp add: same_world_def)
  have x: "x \<in> set (b_wallets b)" "w_id x = ps_walletID p" "same_world w2 w3"
    using find_wallet_ok [OF f rep2] by auto
  have sw: "same_world w w3" using s x(3) same_world_trans by blast
  have rep3: "represents (db w3) b" using rep(1) sw by (simp add: same_world_def)
  have "outcome_of c b t res w3 w'"
  proof (cases "Kind_IsReversal (t_kind t)")
    case True
    then have "Submit_resolve \<Gamma> (ReferencePolicy_normalised pol) c t x at w3 = (Inr res, w')" using br by simp
    then show ?thesis by (rule Submit_resolve_ok [OF _ rep3 rep(2) x(1) _ _ _ _ _ _ at]) (use nt x(2) True in auto)
  next
    case False
    then have "apply_movement \<Gamma> c t x (t_id t) at w3 = (Inr res, w')" using br nt by simp
    then show ?thesis by (rule apply_movement_ok [OF _ rep3 rep(2) x(1) _ _ _ _ at]) (use nt x(2) False in auto)
  qed
  then have "outcome_of c b t res w w'" using settles_same_world [OF sw] by (simp add: outcome_of_def)
  then show ?thesis using nt own x(1,2) by blast
qed

text \<open>A submission answered without an error: a replay, or a first outcome.\<close>

definition replayed :: "bank \<Rightarrow> parsedSubmit \<Rightarrow> SubmitResult \<Rightarrow> bool" where
  "replayed b p res \<longleftrightarrow>
     sr_replay res \<and> sr_transaction res \<in> set (b_txs b) \<and> sr_balance res = t_balanceAfter (sr_transaction res)
     \<and> t_providerID (sr_transaction res) = ps_providerID p \<and> t_externalID (sr_transaction res) = ps_externalID p
     \<and> t_payloadHash (sr_transaction res) = ps_hash p \<and> t_idempotencyKey (sr_transaction res) = ps_key p"

definition requested :: "parsedSubmit \<Rightarrow> WagerTransaction \<Rightarrow> bool" where
  "requested p t \<longleftrightarrow>
     t_providerID t = ps_providerID p \<and> t_externalID t = ps_externalID p \<and> t_payloadHash t = ps_hash p
     \<and> t_idempotencyKey t = ps_key p \<and> t_kind t = ps_kind p \<and> t_money t = ps_money p
     \<and> t_walletID t = ps_walletID p \<and> t_playerID t = ps_playerID p"

definition business_new :: "bank \<Rightarrow> parsedSubmit \<Rightarrow> bool" where
  "business_new b p \<longleftrightarrow>
     (\<forall>t\<in>set (b_txs b). \<not> (t_providerID t = ps_providerID p \<and> t_externalID t = ps_externalID p))"

definition submitted :: "ctx \<Rightarrow> bank \<Rightarrow> parsedSubmit \<Rightarrow> SubmitResult \<Rightarrow> database world \<Rightarrow> database world \<Rightarrow> bool" where
  "submitted c b p res w w' \<longleftrightarrow>
     (if sr_replay res then replayed b p res \<and> same_world w w'
      else business_new b p \<and> settles c b (sr_transaction res) w w' \<and> requested p (sr_transaction res)
        \<and> t_status (sr_transaction res) \<in> {StatusProcessed, StatusRejected, StatusPendingReference}
        \<and> (\<exists>x\<in>set (b_wallets b). w_id x = ps_walletID p \<and> w_playerID x = ps_playerID p))"

lemma ExecuteIn_ok:
  assumes run: "ExecuteIn \<Gamma> (ReferencePolicy_normalised pol) cmd c w = (Inr res, w')"
    and rep: "represents (db w) b" "bank_ok b" and clock: "\<And>n. time_set (env_now \<Gamma> n)"
  shows "\<exists>p i. Submit_parse cmd = Inr p \<and> c_identity c = Some i \<and> ScopeSubmit \<in> set (i_scopes i)
    \<and> i_providerID i = ps_providerID p \<and> submitted c b p res w w'"
proof -
  obtain i p u where i: "caller c ScopeSubmit = Inr i" and p: "Submit_parse cmd = Inr p"
    and act: "Identity_mayActAs i (ps_providerID p) = Inr u"
    and cont: "handle (Transactions_FindByBusinessID \<Gamma> (ps_providerID p) (ps_externalID p)) (\<lambda>r.
         case r of
           Inr existing \<Rightarrow> lift (Submit_replay existing p)
         | Inl e \<Rightarrow> if \<not> errors_Is e ErrNotFound then throw e
             else Submit_apply \<Gamma> (ReferencePolicy_normalised pol) c p) w = (Inr res, w')"
    using run by (auto simp: ExecuteIn_def elim!: bindE_okE)
  have pok: "parsed_ok p" using Submit_parse_ok [OF p] by simp
  obtain q w1 where q: "Transactions_FindByBusinessID \<Gamma> (ps_providerID p) (ps_externalID p) w = (q, w1)"
    by (metis surj_pair)
  have "submitted c b p res w w'"
  proof (cases q)
    case (Inr existing)
    then have "Submit_replay existing p = Inr res" "w' = w1" using cont by (simp_all add: handle_def q)
    then show ?thesis
      using find_business_ok [OF q [unfolded Inr] rep(1)]
      by (auto simp: submitted_def replayed_def Submit_replay_def split: if_splits)
  next
    case (Inl e)
    then have nf: "errors_Is e ErrNotFound"
      and ap: "Submit_apply \<Gamma> (ReferencePolicy_normalised pol) c p w1 = (Inr res, w')"
      using cont by (auto simp: handle_def q split: if_splits)
    have s: "same_world w w1" and fresh: "business_new b p"
      using find_business_err [OF q [unfolded Inl] rep(1)] nf pok
      by (auto simp: business_new_def parsed_ok_def ident_ok_def ident_IsZero_def)
    have "represents (db w1) b" using rep(1) s by (simp add: same_world_def)
    from Submit_apply_ok [OF ap this rep(2) pok clock] obtain t where t: "outcome_of c b t res w1 w'"
      "requested p t" "\<exists>x\<in>set (b_wallets b). w_id x = ps_walletID p \<and> w_playerID x = ps_playerID p"
      by (auto simp: requested_def)
    then have "requested p (sr_transaction res)" by (auto simp: outcome_of_def requested_def same_request_def)
    then show ?thesis
      using t fresh settles_same_world [OF s] by (simp add: submitted_def outcome_of_def)
  qed
  then show ?thesis using i p act by (auto elim: caller_okE simp: mayActAs_iff)
qed

section \<open>Whole submissions\<close>

interpretation submit_books: bookkeeping "\<lambda>\<Gamma>. assigning (ExecuteIn \<Gamma> (ReferencePolicy_normalised pol) cmd) no_result"
proof
  fix \<Gamma> and w :: "database world" and b c v v' w'
  assume a: "clock_ok \<Gamma>" "represents (db w) b" "bank_ok b"
    "assigning (ExecuteIn \<Gamma> (ReferencePolicy_normalised pol) cmd) no_result c v w = (Inr (), v', w')"
  then have "ExecuteIn \<Gamma> (ReferencePolicy_normalised pol) cmd c w = (Inr v', w')" by (simp add: assigning_ok)
  then obtain p where "submitted c b p v' w w'" using ExecuteIn_ok [OF _ a(2,3) clock_okD [OF a(1)]] by blast
  then show "\<exists>b'. represents (db w') b' \<and> commit\<^sup>=\<^sup>= b b'"
    using a(2) by (auto simp: submitted_def settles_def same_world_def split: if_splits)
qed

lemma find_business_idle:
  "Transactions_FindByBusinessID \<Gamma> p x w = (r, w') \<Longrightarrow> idle w \<Longrightarrow> idle w' \<and> db w' = db w"
  unfolding Transactions_FindByBusinessID_def by (rule read_idle)

lemma Submit_execute_books:
  assumes "Submit_execute \<Gamma> retry (ReferencePolicy_normalised pol) c cmd w = (r, w')" "idle w" "clock_ok \<Gamma>"
  shows "idle w' \<and> evolves commit\<^sup>=\<^sup>= (db w) (db w')"
proof -
  let ?fn = "assigning (ExecuteIn \<Gamma> (ReferencePolicy_normalised pol) cmd) no_result"
  obtain q v w1 where d: "UnitOfWork_Do \<Gamma> retry c ?fn no_result w = (q, v, w1)" by (metis prod_cases3)
  have e: "idle w1 \<and> evolves commit\<^sup>=\<^sup>= (db w) (db w1)" by (rule submit_books.do_evolves [OF d assms(2,3)])
  have "idle w' \<and> db w' = db w1"
  proof (cases q)
    case (Inr u)
    then show ?thesis using assms(1) d e by (simp add: Submit_execute_def)
  next
    case (Inl x)
    show ?thesis
    proof (cases "\<not> errors_Is x ErrConflict \<or> as_constraint x = Some constraintIdempotencyKey")
      case True
      then show ?thesis using assms(1) d e Inl by (auto simp: Submit_execute_def split: if_splits)
    next
      case False
      show ?thesis
      proof (cases "Submit_parse cmd")
        case (Inl pe)
        then show ?thesis using assms(1) d e \<open>q = Inl x\<close> False by (simp add: Submit_execute_def)
      next
        case (Inr p)
        obtain f w2 where f: "Transactions_FindByBusinessID \<Gamma> (ps_providerID p) (ps_externalID p) w1 = (f, w2)"
          by (metis surj_pair)
        then have "w' = w2" using assms(1) d \<open>q = Inl x\<close> False Inr by (cases f) (auto simp: Submit_execute_def)
        then show ?thesis using find_business_idle [OF f] e by simp
      qed
    qed
  qed
  then show ?thesis using e by simp
qed

end
