(* ===== verification/Reference_Worker.thy ===== *)
theory Reference_Worker
  imports Submit Samples
begin

text \<open>
  \<open>ReferenceWorker\<close> (\<open>internal/app/reference_worker.go\<close>): reversals that wait for the operation
  they undo. \<open>RunOnce\<close> works through one batch, a unit of work per item; each visit applies the
  reversal, rejects it, or reschedules it, and the attempts and the deadline bound the wait.
\<close>

section \<open>Model\<close>

definition Worker_reject :: "env \<Rightarrow> ctx \<Rightarrow> WagerTransaction \<Rightarrow> code \<Rightarrow> gotime \<Rightarrow> unit pgio" where
  "Worker_reject \<Gamma> c pending rc now =
     bindE (lift (Tx_Reject pending rc now)) (\<lambda>rejected.
     bindE (Transactions_Update \<Gamma> rejected) (\<lambda>_.
       emit \<Gamma> c rejected no_wallet no_entry False))"

definition still_waiting :: "env \<Rightarrow> ReferencePolicy \<Rightarrow> ctx \<Rightarrow> WagerTransaction \<Rightarrow> gotime \<Rightarrow> unit pgio" where
  "still_waiting \<Gamma> policy c pending now =
     (if Tx_ReferenceDeadlinePassed pending now \<or> rp_MaxAttempts policy \<le>s t_referenceAttempts pending
      then Worker_reject \<Gamma> c pending CodeReferenceNotFound now
      else bindE (ReferencePolicy_nextAttemptAt \<Gamma> policy now (t_referenceAttempts pending + 1)) (\<lambda>next.
           bindE (lift (Tx_RescheduleReference pending now next)) (\<lambda>rescheduled.
             Transactions_Update \<Gamma> rescheduled)))"

definition handle_pending :: "env \<Rightarrow> ReferencePolicy \<Rightarrow> ctx \<Rightarrow> WagerTransaction \<Rightarrow> gotime \<Rightarrow> unit pgio" where
  "handle_pending \<Gamma> policy c pending now =
     bindE (Wallets_FindByIDForUpdate \<Gamma> (t_walletID pending)) (\<lambda>wallet.
     bindE (resolveReference \<Gamma> pending) (\<lambda>decision.
       case decision of
         ResolveApply reference d \<Rightarrow>
           handle (applyReversal \<Gamma> c pending reference d wallet now) (\<lambda>r.
             case r of
               Inl e \<Rightarrow>
                 (case as_domain e of
                    None \<Rightarrow> throw e
                  | Some rc \<Rightarrow> Worker_reject \<Gamma> c pending rc now)
             | Inr (applied, movement) \<Rightarrow> emit \<Gamma> c applied (mv_wallet movement) (mv_entry movement) True)
       | ResolveReject rc \<Rightarrow> Worker_reject \<Gamma> c pending rc now
       | ResolveWait \<Rightarrow> still_waiting \<Gamma> policy c pending now))"

definition claim_one :: "env \<Rightarrow> (gotime \<times> WagerTransaction list) pgio" where
  "claim_one \<Gamma> =
     bindE (clock_Now \<Gamma>) (\<lambda>now.
     bindE (Transactions_ClaimDueReferences \<Gamma> now 1) (\<lambda>due. ret (now, due)))"

text \<open>The callback of \<open>handleOne\<close>; the variable it assigns is \<open>worked\<close>.\<close>

definition worker_body :: "ReferencePolicy \<Rightarrow> env \<Rightarrow> bool callback" where
  "worker_body policy \<Gamma> c worked w =
     (case claim_one \<Gamma> w of
        (Inl e, w') \<Rightarrow> (Inl e, worked, w')
      | (Inr (now, []), w') \<Rightarrow> (Inr (), worked, w')
      | (Inr (now, pending # _), w') \<Rightarrow>
          (case handle_pending \<Gamma> policy c pending now w' of (r, w'') \<Rightarrow> (r, True, w'')))"

definition handleOne ::
  "env \<Rightarrow> RetryPolicy \<Rightarrow> ReferencePolicy \<Rightarrow> ctx \<Rightarrow> database world \<Rightarrow> unit res \<times> bool \<times> database world" where
  "handleOne \<Gamma> retry policy c w = UnitOfWork_Do \<Gamma> retry c (worker_body policy \<Gamma>) False w"

fun worker_loop ::
  "env \<Rightarrow> RetryPolicy \<Rightarrow> ReferencePolicy \<Rightarrow> ctx \<Rightarrow> nat \<Rightarrow> nat \<Rightarrow> database world
     \<Rightarrow> unit res \<times> nat \<times> database world" where
  "worker_loop \<Gamma> retry policy c 0 handled w = (Inr (), handled, w)"
| "worker_loop \<Gamma> retry policy c (Suc left) handled w =
     (case ctx_Err \<Gamma> c w of
        (Inl e, w') \<Rightarrow> (Inl e, handled, w')
      | (Inr _, w') \<Rightarrow>
          (case handleOne \<Gamma> retry policy c w' of
             (Inl e, _, w'') \<Rightarrow> (Inl e, handled, w'')
           | (Inr _, worked, w'') \<Rightarrow>
               if \<not> worked then (Inr (), handled, w'')
               else worker_loop \<Gamma> retry policy c left (Suc handled) w''))"

definition Worker_RunOnce ::
  "env \<Rightarrow> RetryPolicy \<Rightarrow> ReferencePolicy \<Rightarrow> ctx \<Rightarrow> database world \<Rightarrow> unit res \<times> nat \<times> database world" where
  "Worker_RunOnce \<Gamma> retry policy c w = worker_loop \<Gamma> retry policy c (nat (sint (rp_BatchSize policy))) 0 w"

section \<open>Claiming\<close>

lemma scan_all_rows:
  "\<forall>x\<in>set xs. tx_st x \<Longrightarrow> scan_all scanTransaction (map tx_row_of xs) = Inr xs"
  by (induction xs) (auto simp: tt.scan_row)

lemma list_of_image:
  "\<forall>r\<in>set rs. \<exists>x\<in>A. r = f x \<and> P r \<Longrightarrow> \<exists>xs. rs = map f xs \<and> (\<forall>x\<in>set xs. x \<in> A \<and> P (f x))"
proof (induction rs)
  case (Cons r rs)
  obtain x where "x \<in> A" "r = f x" "P r" using Cons.prems by auto
  moreover obtain xs where "rs = map f xs" "\<forall>x\<in>set xs. x \<in> A \<and> P (f x)" using Cons by auto
  ultimately show ?case by (intro exI [of _ "x # xs"]) auto
qed simp

lemma claim_due_ok:
  assumes "Transactions_ClaimDueReferences \<Gamma> now n w = (Inr due, w')" "represents (db w) b"
  shows "same_world w w' \<and> (\<forall>t\<in>set due. t \<in> set (b_txs b) \<and> t_status t = StatusPendingReference)"
proof -
  let ?key = "\<lambda>r. case tr_reference_next_attempt_at r of None \<Rightarrow> 0 | Some t \<Rightarrow> t"
  let ?sel = "\<lambda>k d. take (nat n) (sort_key ?key (filter (\<lambda>r. tr_status r = ''PENDING_REFERENCE''
      \<and> due_before (tr_reference_next_attempt_at r) (pg_time now) \<and> \<not> env_locked \<Gamma> k (tr_id r)) (d_transactions d)))"
  obtain rows w1 where q: "query \<Gamma> (\<lambda>k d. Inr (?sel k d)) w = (Inr rows, w1)"
    and sc: "scan_all scanTransaction rows = Inr due" and w': "w' = w1"
    using assms(1) by (auto simp: Transactions_ClaimDueReferences_def elim!: bindE_okE io_translate_okE split: if_splits)
  have rows: "rows = ?sel (calls w) (db w)" and same: "same_world w w1"
    using q by (auto elim!: query_okE simp: same_world_def)
  have db: "d_transactions (db w) = map tx_row_of (b_txs b)" and st: "\<forall>x\<in>set (b_txs b). tx_st x"
    using assms(2) by (auto simp: represents_def tt.holds_def)
  have sub: "\<forall>r\<in>set rows. \<exists>x\<in>set (b_txs b). r = tx_row_of x \<and> tr_status r = ''PENDING_REFERENCE''"
  proof
    fix r assume "r \<in> set rows"
    then have "r \<in> set (sort_key ?key (filter (\<lambda>r. tr_status r = ''PENDING_REFERENCE''
        \<and> due_before (tr_reference_next_attempt_at r) (pg_time now) \<and> \<not> env_locked \<Gamma> (calls w) (tr_id r))
        (d_transactions (db w))))"
      unfolding rows by (rule in_set_takeD)
    then show "\<exists>x\<in>set (b_txs b). r = tx_row_of x \<and> tr_status r = ''PENDING_REFERENCE''"
      unfolding db by auto
  qed
  have "\<exists>xs. rows = map tx_row_of xs \<and> (\<forall>x\<in>set xs. x \<in> set (b_txs b) \<and> tr_status (tx_row_of x) = ''PENDING_REFERENCE'')"
    by (rule list_of_image [OF sub])
  then obtain xs where xs: "rows = map tx_row_of xs"
    "\<forall>x\<in>set xs. x \<in> set (b_txs b) \<and> tr_status (tx_row_of x) = ''PENDING_REFERENCE''" by blast
  have "due = xs" using sc scan_all_rows [of xs] xs st by auto
  moreover have "t_status t = StatusPendingReference" if "t \<in> set xs" for t
    using xs(2) that st tx_st_valid(1) [of t] by (cases "t_status t") (auto simp: tx_row_of_def)
  ultimately show ?thesis using same w' xs(2) by auto
qed

section \<open>A visit\<close>

text \<open>
  What a visit leaves: the pending operation stored in its next state, which is final, or
  still waiting with one more attempt, within the bounds of the policy.
\<close>

definition visited :: "ReferencePolicy \<Rightarrow> gotime \<Rightarrow> WagerTransaction \<Rightarrow> WagerTransaction \<Rightarrow> bool" where
  "visited policy now t t' \<longleftrightarrow> same_request t t' \<and>
     (Tx_IsTerminal t'
      \<or> t_status t' = StatusPendingReference \<and> sint (t_referenceAttempts t') = sint (t_referenceAttempts t) + 1
        \<and> sint (t_referenceAttempts t') \<le> sint (rp_MaxAttempts policy) \<and> \<not> Tx_ReferenceDeadlinePassed t now
        \<and> t_referenceDeadlineAt t' = t_referenceDeadlineAt t
        \<and> instant now \<le> instant (t_referenceNextAttemptAt t')
        \<and> instant (t_referenceNextAttemptAt t') \<le> instant now + sint (rp_MaxBackoff policy))"

definition visit :: "bank \<Rightarrow> WagerTransaction \<Rightarrow> database world \<Rightarrow> database world \<Rightarrow> bool" where
  "visit b t' w w' \<longleftrightarrow>
     (\<exists>b'. represents (db w') b' \<and> commit b b' \<and> b_txs b' = put_tx (b_txs b) (trunc_tx t'))
     \<and> in_tx w' = in_tx w \<and> aborted w' = aborted w"

lemma visit_same_world: "same_world w w1 \<Longrightarrow> visit b t w1 w' \<Longrightarrow> visit b t w w'"
  by (simp add: visit_def same_world_def)

lemma visit_emit:
  assumes "visit b t w w1" "emit \<Gamma> c t0 x e m w1 = (Inr u, w')"
  shows "visit b t w w'"
  using assms(1) emit_same_bank [OF assms(2)] represents_same_bank by (fastforce simp: visit_def)

lemma Update_visit:
  assumes "Transactions_Update \<Gamma> t' w = (Inr u, w')" "represents (db w) b" "bank_ok b"
    "t \<in> set (b_txs b)" "same_request t t'" "tx_storable t'" "\<not> moved_money t'" "t_kind t' \<noteq> KindOpening"
  shows "visit b t' w w'"
proof -
  note u = Update_in_hand [OF assms(1,2) _ assms(4,5,6)]
  have "commit b (b\<lparr>b_txs := put_tx (b_txs b) (trunc_tx t')\<rparr>)"
    using u assms(3,7,8) by (intro commit.recorded) (auto simp: bank_ok_def moved_money_def)
  then show ?thesis using u assms(3) by (auto simp: visit_def bank_ok_def)
qed

lemma Worker_reject_ok:
  assumes run: "Worker_reject \<Gamma> c t rc now w = (Inr u, w')" and rep: "represents (db w) b" "bank_ok b"
    and t: "t \<in> set (b_txs b)" "t_kind t \<noteq> KindOpening" and now: "time_set now" and rc: "proper_code rc"
  shows "\<exists>t'. visit b t' w w' \<and> visited policy now t t' \<and> t_status t' = StatusRejected \<and> t_failureCode t' = rc"
proof -
  have st: "tx_storable t" using rep(2) t(1) tx_st_storable by (auto simp: bank_ok_def txs_ok_def)
  obtain t' u1 w1 where rj: "Tx_Reject t rc now = Inr t'" and up: "Transactions_Update \<Gamma> t' w = (Inr u1, w1)"
    and em: "emit \<Gamma> c t' no_wallet no_entry False w1 = (Inr u, w')"
    using run by (auto simp: Worker_reject_def elim!: bindE_okE)
  note r = rejected_tx [OF rj st now rc]
  have "visit b t' w w1" using Update_visit [OF up rep t(1)] r t(2) by simp
  then have "visit b t' w w'" using em by (rule visit_emit)
  then show ?thesis using r by (auto simp: visited_def Tx_IsTerminal_def)
qed

lemma still_waiting_ok:
  assumes run: "still_waiting \<Gamma> (ReferencePolicy_normalised p) c t now w = (Inr u, w')"
    and rep: "represents (db w) b" "bank_ok b"
    and t: "t \<in> set (b_txs b)" "t_kind t \<noteq> KindOpening" and now: "time_set now"
  shows "\<exists>t'. visit b t' w w' \<and> visited (ReferencePolicy_normalised p) now t t'"
proof (cases "Tx_ReferenceDeadlinePassed t now \<or> rp_MaxAttempts (ReferencePolicy_normalised p) \<le>s t_referenceAttempts t")
  case True
  then have "Worker_reject \<Gamma> c t CodeReferenceNotFound now w = (Inr u, w')"
    using run by (simp add: still_waiting_def)
  moreover have "proper_code CodeReferenceNotFound" by (rule proper_code_constants) (simp add: all_codes_def)
  ultimately show ?thesis using Worker_reject_ok [OF _ rep t now] by blast
next
  case False
  let ?p = "ReferencePolicy_normalised p" and ?a = "t_referenceAttempts t"
  have st: "tx_storable t" using rep(2) t(1) tx_st_storable by (auto simp: bank_ok_def txs_ok_def)
  obtain nx w1 t' where n: "ReferencePolicy_nextAttemptAt \<Gamma> ?p now (?a + 1) w = (Inr nx, w1)"
    and rs: "Tx_RescheduleReference t now nx = Inr t'" and up: "Transactions_Update \<Gamma> t' w1 = (Inr u, w')"
    using run False by (auto simp: still_waiting_def elim!: bindE_okE)
  have inc: "sint (?a + 1) = sint ?a + 1" using False by (intro sint_Suc_below) auto
  have "\<not> (?a + 1) - 1 <s 0" using n by (auto simp: ReferencePolicy_nextAttemptAt_def split: if_splits)
  then have pos: "1 \<le> sint (?a + 1)" using inc by (simp add: sless_iff)
  obtain nt where "ReferencePolicy_nextAttemptAt \<Gamma> ?p now (?a + 1) w = (Inr nt, tick w)"
    "instant now \<le> instant nt" "instant nt \<le> instant now + sint (rp_MaxBackoff ?p)"
    using ref_policy.next_at_ok [OF pos, of \<Gamma> p now w] by blast
  then have nx: "instant now \<le> instant nx" "instant nx \<le> instant now + sint (rp_MaxBackoff ?p)" and w1: "w1 = tick w"
    using n by simp_all
  have t': "t' = t\<lparr>t_referenceAttempts := ?a + 1, t_referenceNextAttemptAt := time_UTC nx, t_updatedAt := time_UTC now\<rparr>"
    and wait: "t_status t = StatusPendingReference"
    using rs by (auto elim: RescheduleReference_okE)
  have stp: "tx_step t t'" using rs by (rule tx_step.reschedule)
  have "tx_storable t'"
    using t' st tx_ok_step [OF stp] tx_step_same_request [OF stp] survives_time_set now time_set_later [OF now nx(1)]
    by (intro tx_storable_step [OF st]) (auto simp: tx_storable_def tx_ids_ok_def)
  then have "visit b t' w1 w'"
    using Update_visit [OF up _ rep(2) t(1) tx_step_same_request [OF stp]] rep(1) w1 t' wait t(2)
    by (simp add: moved_money_def)
  then have "visit b t' w w'" using w1 by (intro visit_same_world [of w w1]) auto
  moreover have "visited ?p now t t'"
    using False t' inc nx wait tx_step_same_request [OF stp] by (simp add: visited_def sle_iff)
  ultimately show ?thesis by blast
qed

lemma handle_pending_ok:
  assumes run: "handle_pending \<Gamma> (ReferencePolicy_normalised p) c t now w = (Inr u, w')"
    and rep: "represents (db w) b" "bank_ok b"
    and t: "t \<in> set (b_txs b)" "t_status t = StatusPendingReference" and now: "time_set now"
  shows "\<exists>t'. visit b t' w w' \<and> visited (ReferencePolicy_normalised p) now t t'"
proof -
  have tst: "tx_st t" using rep(2) t(1) by (auto simp: bank_ok_def txs_ok_def)
  then have rev: "Kind_IsReversal (t_kind t)" and shape: "tx_shape t" using t(2) by (auto simp: tx_st_def tx_ok_def tx_life_def)
  have ko: "t_kind t \<noteq> KindOpening" using rev by auto
  have nz: "\<not> ident_IsZero (t_providerID t)" "\<not> ident_IsZero (t_referenceExternalID t)"
    using shape rev ko by (auto simp: tx_shape_def tx_metadata_ok_def)
  obtain x w1 dec w2 where f: "Wallets_FindByIDForUpdate \<Gamma> (t_walletID t) w = (Inr x, w1)"
    and d: "resolveReference \<Gamma> t w1 = (Inr dec, w2)"
    using run by (auto simp: handle_pending_def elim!: bindE_okE)
  have x: "x \<in> set (b_wallets b)" "w_id x = t_walletID t" "same_world w w1" using find_wallet_ok [OF f rep(1)] by auto
  have rep1: "represents (db w1) b" using rep(1) x(3) by (simp add: same_world_def)
  have dec: "same_world w1 w2" "dec = decision (b_txs b) t"
    using resolveReference_ok [OF d rep1 _ nz] rep(2) by (auto simp: bank_ok_def)
  have s2: "same_world w w2" using x(3) dec(1) same_world_trans by blast
  have rep2: "represents (db w2) b" using rep(1) s2 by (simp add: same_world_def)
  note run2 = run [unfolded handle_pending_def bindE_def [of "Wallets_FindByIDForUpdate \<Gamma> (t_walletID t)"] f prod.case
      sum.case bindE_def [of "resolveReference \<Gamma> t"] d]
  have "\<exists>t'. visit b t' w2 w' \<and> visited (ReferencePolicy_normalised p) now t t'"
  proof (cases dec)
    case ResolveWait
    then show ?thesis using still_waiting_ok [OF _ rep2 rep(2) t(1) ko now] run2 by simp
  next
    case (ResolveReject rc)
    then have "proper_code rc"
      using decision_code [of "b_txs b" t rc] dec proper_code_constants by simp
    then show ?thesis using Worker_reject_ok [OF _ rep2 rep(2) t(1) ko now] run2 ResolveReject by simp blast
  next
    case (ResolveApply ref dir)
    obtain q w3 where q: "applyReversal \<Gamma> c t ref dir x now w2 = (q, w3)" by (metis surj_pair)
    note run3 = run2 [unfolded ResolveApply resolution.case handle_def q prod.case]
    show ?thesis
    proof (cases q)
      case (Inl e)
      then obtain rc where rc: "as_domain e = Some rc" "Worker_reject \<Gamma> c t rc now w3 = (Inr u, w')"
        using run3 by (auto split: option.splits)
      have s3: "same_world w2 w3" and "proper_code rc"
        using applyReversal_domain_err [OF q [unfolded Inl] rc(1)] applyReversal_coded [OF q [unfolded Inl]] rc(1)
        by (auto simp: coded_def)
      moreover have "represents (db w3) b" using rep2 s3 by (simp add: same_world_def)
      ultimately show ?thesis
        using Worker_reject_ok [OF rc(2) _ rep(2) t(1) ko now] visit_same_world [OF s3] by blast
    next
      case (Inr am)
      obtain t' mv where am: "am = (t', mv)" by (cases am)
      have em: "emit \<Gamma> c t' (mv_wallet mv) (mv_entry mv) True w3 = (Inr u, w')" using run3 Inr am by simp
      have "in_hand b t" using tst t(1) ko tx_st_storable by (simp add: in_hand_def)
      then have a: "visit b t' w2 w3" "same_request t t'" "t_status t' = StatusProcessed"
        using applyReversal_ok [OF q [unfolded Inr am] rep2 rep(2) x(1,2) _ _ now] dec(2) ResolveApply
        by (auto simp: visit_def)
      then show ?thesis using visit_emit [OF a(1) em] by (auto simp: visited_def Tx_IsTerminal_def)
    qed
  qed
  then show ?thesis using visit_same_world [OF s2] by blast
qed

section \<open>Batches\<close>

lemma claim_one_ok:
  assumes "claim_one \<Gamma> w = (Inr (now, due), w')" "represents (db w) b" "clock_ok \<Gamma>"
  shows "same_world w w' \<and> time_set now \<and> (\<forall>t\<in>set due. t \<in> set (b_txs b) \<and> t_status t = StatusPendingReference)"
proof -
  obtain w1 where c: "clock_Now \<Gamma> w = (Inr now, w1)" "Transactions_ClaimDueReferences \<Gamma> now 1 w1 = (Inr due, w')"
    using assms(1) by (auto simp: claim_one_def elim!: bindE_okE)
  have s: "same_world w w1" by (rule clock_Now_same [OF c(1)])
  have "time_set now" using c(1) clock_okD [OF assms(3)] by (auto simp: clock_Now_def)
  moreover have "represents (db w1) b" using assms(2) s by (simp add: same_world_def)
  ultimately show ?thesis using claim_due_ok [OF c(2)] s same_world_trans by blast
qed

interpretation worker_books: bookkeeping "worker_body (ReferencePolicy_normalised pol)"
proof
  fix \<Gamma> and w :: "database world" and b c v v' w'
  assume a: "clock_ok \<Gamma>" "represents (db w) b" "bank_ok b"
    and run: "worker_body (ReferencePolicy_normalised pol) \<Gamma> c v w = (Inr (), v', w')"
  then obtain now due w1 where cl: "claim_one \<Gamma> w = (Inr (now, due), w1)"
    by (auto simp: worker_body_def split: prod.splits sum.splits list.splits)
  note c = claim_one_ok [OF cl a(2,1)]
  have rep1: "represents (db w1) b" using c a(2) by (simp add: same_world_def)
  show "\<exists>b'. represents (db w') b' \<and> commit\<^sup>=\<^sup>= b b'"
  proof (cases due)
    case Nil
    then show ?thesis using run cl rep1 by (auto simp: worker_body_def)
  next
    case (Cons t rest)
    then have "handle_pending \<Gamma> (ReferencePolicy_normalised pol) c t now w1 = (Inr (), w')"
      using run cl by (auto simp: worker_body_def split: prod.splits)
    then show ?thesis
      using handle_pending_ok [OF _ rep1 a(3)] c Cons by (fastforce simp: visit_def)
  qed
qed

lemma worker_loop_books:
  "worker_loop \<Gamma> retry (ReferencePolicy_normalised pol) c left n w = (r, n', w') \<Longrightarrow> idle w \<Longrightarrow> clock_ok \<Gamma> \<Longrightarrow>
   idle w' \<and> evolves commit\<^sup>*\<^sup>* (db w) (db w') \<and> n \<le> n' \<and> n' \<le> n + left"
proof (induction left arbitrary: n w)
  case 0
  then show ?case by (auto simp: evolves_def)
next
  case (Suc left)
  obtain e w1 where ce: "ctx_Err \<Gamma> c w = (e, w1)" by (metis surj_pair)
  then have s: "idle w1" "db w1 = db w"
    using Suc.prems(2) by (auto simp: ctx_Err_def idle_def split: if_splits)
  obtain q worked w2 where h: "handleOne \<Gamma> retry (ReferencePolicy_normalised pol) c w1 = (q, worked, w2)"
    by (metis prod_cases3)
  have "idle w2 \<and> evolves commit\<^sup>=\<^sup>= (db w1) (db w2)"
    by (rule worker_books.do_evolves [OF h [unfolded handleOne_def] s(1) Suc.prems(3)])
  then have h2: "idle w2" "evolves commit\<^sup>*\<^sup>* (db w) (db w2)" using s(2) evolves_star by auto
  show ?case
  proof (cases "(\<exists>x. e = Inl x) \<or> (\<exists>x. q = Inl x) \<or> \<not> worked")
    case True
    then have "n' = n" "w' = w1 \<or> w' = w2"
      using Suc.prems(1) ce h by (auto split: sum.splits if_splits)
    then show ?thesis using h2 s by (auto simp: evolves_def)
  next
    case False
    then obtain u1 u2 where u: "e = Inr u1" "q = Inr u2" by (cases e; cases q) auto
    have "worker_loop \<Gamma> retry (ReferencePolicy_normalised pol) c left (Suc n) w2 = (r, n', w')"
      using Suc.prems(1) ce h False by (simp add: u)
    then show ?thesis using Suc.IH [of "Suc n" w2] Suc.prems(3) h2 evolves_trans by auto
  qed
qed

section \<open>Properties\<close>


lemma demo_lock: "Wallets_FindByIDForUpdate calm (t_walletID demo_pending) (start demo_db) = (Inr demo_wallet, (start demo_db)\<lparr>calls := 1\<rparr>)"
  using scan_wallet_row [OF demo_stored(1)]
  by (simp add: Wallets_FindByIDForUpdate_def bindE_def io_translate_def query_def calm_stmt start_def select_one_def demo_db_def demo_rows tick_def)
lemma demo_wait: "resolveReference calm demo_pending ((start demo_db)\<lparr>calls := 1\<rparr>) = (Inr ResolveWait, (start demo_db)\<lparr>calls := 2\<rparr>)"
  by (simp add: resolveReference_def handle_def Transactions_FindByBusinessID_def bindE_def io_translate_def query_def calm_stmt start_def select_one_def demo_db_def demo_rows tick_def)
   (simp add: demo_pending_def ident_String_def)
lemma demo_deadline: "Tx_ReferenceDeadlinePassed demo_pending demo_late" by (simp add: Tx_ReferenceDeadlinePassed_def demo_pending_def demo_late_def demo_time_def time_IsZero_def time_Before_def)
lemma demo_reject: "fst (Worker_reject calm no_caller demo_pending CodeReferenceNotFound demo_late ((start demo_db)\<lparr>calls := 2\<rparr>)) = Inr ()"
    by code_simp

lemma demo_visit_runs:
  "fst (handle_pending calm (ReferencePolicy_normalised DefaultReferencePolicy) no_caller demo_pending demo_late (start demo_db))
     = Inr ()"
  by (simp add: handle_pending_def bindE_def still_waiting_def demo_lock demo_wait demo_deadline demo_reject del: One_nat_def)


text \<open>
  C18. One tick of the worker handles at most \<open>BatchSize\<close> items and stops. Whatever happens on
  the way (errors, lost commits, a cancelled context), it leaves no transaction open and the
  books have moved only by commits of the specification, so every invariant of the books holds
  afterwards.
\<close>

theorem worker_tick_bounded:
  assumes "idle w" "clock_ok \<Gamma>" "represents (db w) b" "bank_ok b"
  shows "case Worker_RunOnce \<Gamma> retry (ReferencePolicy_normalised p) c w of (r, handled, w') \<Rightarrow>
    idle w' \<and> int handled \<le> sint (rp_BatchSize (ReferencePolicy_normalised p))
    \<and> (\<exists>b'. represents (db w') b' \<and> commit\<^sup>*\<^sup>* b b' \<and> bank_ok b')"
proof -
  obtain r n w' where run: "Worker_RunOnce \<Gamma> retry (ReferencePolicy_normalised p) c w = (r, n, w')" by (metis prod_cases3)
  note l = worker_loop_books [OF run [unfolded Worker_RunOnce_def] assms(1,2)]
  moreover have "0 \<le> sint (rp_BatchSize (ReferencePolicy_normalised p))" using ReferencePolicy_normal [of p] by simp
  ultimately show ?thesis using run assms(3,4) commits_ok by (fastforce simp: evolves_def)
qed

theorem worker_tick_bounded_witness:
  "case Worker_RunOnce calm DefaultRetryPolicy (ReferencePolicy_normalised DefaultReferencePolicy) no_caller (start empty_db) of
     (r, handled, w') \<Rightarrow> idle w' \<and> handled \<le> 20 \<and> (\<exists>b'. represents (db w') b' \<and> bank_ok b')"
proof -
  have e: "represents (db (start empty_db)) empty_bank" using represents_empty by (simp add: start_def)
  have c: "clock_ok calm" by (simp add: clock_ok_def calm_def)
  have n: "sint (rp_BatchSize (ReferencePolicy_normalised DefaultReferencePolicy)) = 20" by code_simp
  show ?thesis
    using worker_tick_bounded [OF idle_start c e empty_bank_ok, where retry = DefaultRetryPolicy
        and p = DefaultReferencePolicy and c = no_caller] n
    by (auto split: prod.splits)
qed

end
