(* ===== verification/Publisher.thy ===== *)
theory Publisher
  imports UnitOfWork
begin

text \<open>
  The outbox publisher (\<open>internal/app/publisher.go\<close>) and the broker adapter it calls
  (\<open>internal/adapter/sqs/publisher.go\<close>): claim what is due, send each event, mark it published
  or put it back for later, all in one unit of work. What a run sent is not undone by a
  rollback, so it is kept with the variables of the closure. The timer loop \<open>Run\<close>, the log and
  the measured lag are not modelled; whether the broker accepts a message is the environment's.
\<close>

section \<open>The broker adapter\<close>

text \<open>The body is the struct that is serialised; the instant stands for its RFC 3339 text.\<close>

record eventEnvelope =
  ee_eventID :: string
  ee_eventType :: event_type
  ee_version :: nat
  ee_aggregateID :: string
  ee_correlationID :: string
  ee_causationID :: string
  ee_occurredAt :: gotime
  ee_data :: payload

record SendMessageInput =
  sm_body :: eventEnvelope
  sm_messageGroupId :: string
  sm_messageDeduplicationId :: string

definition event_message :: "OutboxRecord \<Rightarrow> SendMessageInput" where
  "event_message r =
     \<lparr>sm_body = \<lparr>ee_eventID = ob_eventID r, ee_eventType = ev_type (ob_event r),
        ee_version = ev_version (ob_event r), ee_aggregateID = ev_aggregateID (ob_event r),
        ee_correlationID = ob_correlationID r, ee_causationID = ob_causationID r,
        ee_occurredAt = time_UTC (ev_occurredAt (ob_event r)), ee_data = ev_payload (ob_event r)\<rparr>,
      sm_messageGroupId = ev_aggregateID (ob_event r), sm_messageDeduplicationId = ob_eventID r\<rparr>"

text \<open>The broker's answer: the message it took, or the text of the error.\<close>

definition EventPublisher_Publish ::
  "env \<Rightarrow> OutboxRecord \<Rightarrow> database world \<Rightarrow> (string + SendMessageInput) \<times> database world" where
  "EventPublisher_Publish \<Gamma> r w =
     (case env_publish \<Gamma> (calls w) of
        Some s \<Rightarrow> (Inl (''publishing event '' @ ob_eventID r @ '': '' @ s), tick w)
      | None \<Rightarrow> (Inr (event_message r), tick w))"

section \<open>The publisher\<close>

datatype outbox_metric = EventPublished | EventPublishFailed

record publish_state =
  pb_published :: nat
  pb_sent :: "SendMessageInput list"
  pb_metrics :: "outbox_metric list"

definition publishOne ::
  "env \<Rightarrow> PublisherPolicy \<Rightarrow> OutboxRecord \<Rightarrow> gotime \<Rightarrow> publish_state \<Rightarrow> database world
     \<Rightarrow> unit res \<times> publish_state \<times> database world" where
  "publishOne \<Gamma> policy record now v w =
     (case EventPublisher_Publish \<Gamma> record w of
        (Inl cause, w1) \<Rightarrow>
          (case bindE (Publisher_nextAttemptAt \<Gamma> policy now (of_nat (ob_attempts record) + 1))
                  (\<lambda>at. Outbox_Reschedule \<Gamma> (ob_eventID record) at cause) w1 of
             (r, w2) \<Rightarrow> (r, v\<lparr>pb_metrics := pb_metrics v @ [EventPublishFailed]\<rparr>, w2))
      | (Inr message, w1) \<Rightarrow>
          (case Outbox_MarkPublished \<Gamma> (ob_eventID record) now w1 of
             (Inl e, w2) \<Rightarrow> (Inl e, v\<lparr>pb_sent := pb_sent v @ [message]\<rparr>, w2)
           | (Inr _, w2) \<Rightarrow>
               (Inr (), v\<lparr>pb_sent := pb_sent v @ [message], pb_metrics := pb_metrics v @ [EventPublished]\<rparr>, w2)))"

fun publish_loop ::
  "env \<Rightarrow> PublisherPolicy \<Rightarrow> gotime \<Rightarrow> OutboxRecord list \<Rightarrow> publish_state \<Rightarrow> database world
     \<Rightarrow> unit res \<times> publish_state \<times> database world" where
  "publish_loop \<Gamma> policy now [] v w = (Inr (), v, w)"
| "publish_loop \<Gamma> policy now (record # due) v w =
     (case publishOne \<Gamma> policy record now v w of
        (Inl e, v', w') \<Rightarrow> (Inl e, v', w')
      | (Inr _, v', w') \<Rightarrow> publish_loop \<Gamma> policy now due (v'\<lparr>pb_published := Suc (pb_published v')\<rparr>) w')"

text \<open>The callback; the variable of its caller is \<open>published\<close>.\<close>

definition publisher_body :: "PublisherPolicy \<Rightarrow> env \<Rightarrow> publish_state callback" where
  "publisher_body policy \<Gamma> c v w =
     (case bindE (clock_Now \<Gamma>) (\<lambda>now.
             bindE (Outbox_ClaimDue \<Gamma> now (sint (pp_BatchSize policy))) (\<lambda>due. ret (now, due))) w of
        (Inl e, w') \<Rightarrow> (Inl e, v, w')
      | (Inr (now, due), w') \<Rightarrow> publish_loop \<Gamma> policy now due v w')"

definition nothing_published :: publish_state where
  "nothing_published = \<lparr>pb_published = 0, pb_sent = [], pb_metrics = []\<rparr>"

definition Publisher_RunOnce ::
  "env \<Rightarrow> RetryPolicy \<Rightarrow> PublisherPolicy \<Rightarrow> ctx \<Rightarrow> database world
     \<Rightarrow> unit res \<times> publish_state \<times> database world" where
  "Publisher_RunOnce \<Gamma> retry policy c w =
     UnitOfWork_Do \<Gamma> retry c (publisher_body policy \<Gamma>) nothing_published w"

section \<open>What a run does to the outbox\<close>

text \<open>The facts of an event, which nothing may change once it is recorded.\<close>

definition same_event :: "outbox_row \<Rightarrow> outbox_row \<Rightarrow> bool" where
  "same_event r r' \<longleftrightarrow>
     r\<lparr>or_attempts := or_attempts r', or_next_attempt_at := or_next_attempt_at r',
       or_published_at := or_published_at r', or_last_error := or_last_error r'\<rparr> = r'"

text \<open>
  An event is published only after it was sent, a published one is left alone, and no attempt
  is forgotten.
\<close>

definition moved_on :: "SendMessageInput list \<Rightarrow> outbox_row \<Rightarrow> outbox_row \<Rightarrow> bool" where
  "moved_on sent r r' \<longleftrightarrow>
     same_event r r' \<and> or_attempts r \<le> or_attempts r'
     \<and> (or_published_at r \<noteq> None \<longrightarrow> r' = r)
     \<and> (or_published_at r = None \<longrightarrow> or_published_at r' \<noteq> None \<longrightarrow>
          or_event_id r \<in> sm_messageDeduplicationId ` set sent)"

lemma same_event_refl [simp]: "same_event r r"
  by (simp add: same_event_def)

lemma same_event_iff:
  "same_event r r' \<longleftrightarrow>
     or_seq r' = or_seq r \<and> or_event_id r' = or_event_id r \<and> or_event_type r' = or_event_type r
     \<and> or_event_version r' = or_event_version r \<and> or_aggregate_id r' = or_aggregate_id r
     \<and> or_payload r' = or_payload r \<and> or_correlation_id r' = or_correlation_id r
     \<and> or_causation_id r' = or_causation_id r \<and> or_occurred_at r' = or_occurred_at r"
  by (cases r; cases r') (auto simp: same_event_def)

lemma same_event_message:
  "same_event r r' \<Longrightarrow> event_message (scanOutbox r') = event_message (scanOutbox r)"
  by (simp add: same_event_iff event_message_def scanOutbox_def)

lemma moved_on_refl [simp]: "moved_on sent r r"
  by (simp add: moved_on_def)

lemma moved_on_trans: "moved_on sent a b \<Longrightarrow> moved_on sent b c \<Longrightarrow> moved_on sent a c"
  by (cases "or_published_at b") (auto simp: moved_on_def same_event_iff)

lemma moved_on_mono: "moved_on sent a b \<Longrightarrow> set sent \<subseteq> set sent' \<Longrightarrow> moved_on sent' a b"
  by (auto simp: moved_on_def)

text \<open>Only the outbox changed, row by row.\<close>

definition outbox_moved :: "SendMessageInput list \<Rightarrow> database \<Rightarrow> database \<Rightarrow> bool" where
  "outbox_moved sent d d' \<longleftrightarrow>
     same_bank d d' \<and> d_inbox d' = d_inbox d \<and> list_all2 (moved_on sent) (d_outbox d) (d_outbox d')"

lemma outbox_moved_refl [simp]: "outbox_moved sent d d"
  by (simp add: outbox_moved_def list_all2_refl)

lemma outbox_moved_trans: "outbox_moved sent a b \<Longrightarrow> outbox_moved sent b c \<Longrightarrow> outbox_moved sent a c"
  unfolding outbox_moved_def
  by (auto simp: same_bank_def intro: list_all2_trans [OF moved_on_trans, rotated 2])

lemma outbox_moved_mono: "outbox_moved sent a b \<Longrightarrow> set sent \<subseteq> set sent' \<Longrightarrow> outbox_moved sent' a b"
  unfolding outbox_moved_def using moved_on_mono by (auto elim: list_all2_mono)

lemma same_data_moved: "same_data d d' \<Longrightarrow> outbox_moved sent d d'"
  by (simp add: outbox_moved_def same_data_iff same_data_bank list_all2_refl)


section \<open>Safety\<close>

lemma update_outbox_moved:
  assumes "stmt \<Gamma> (\<lambda>_. update_outbox (unpublished eid) f) w = (q, w')"
    and "\<And>r. unpublished eid r \<Longrightarrow> moved_on sent r (f r)"
  shows "outbox_moved sent (db w) (db w')"
proof -
  have upd: "outbox_moved sent d (snd (update_outbox (unpublished eid) f d))" for d
    using assms(2) by (auto simp: outbox_moved_def update_outbox_def same_bank_def list_all2_map2
        intro!: list_all2_refl)
  show ?thesis
    using assms(1) upd [of "db w"]
    by (cases rule: stmt_exhaust [where w = w and \<Gamma> = \<Gamma> and f = "\<lambda>_. update_outbox (unpublished eid) f"])
      (auto simp: stmt_cases)
qed

lemma MarkPublished_moved:
  assumes "Outbox_MarkPublished \<Gamma> eid at w = (r, w')" "eid \<in> sm_messageDeduplicationId ` set sent"
  shows "outbox_moved sent (db w) (db w')"
proof -
  obtain q where "io_translate (stmt \<Gamma> (\<lambda>_. update_outbox (unpublished eid)
      (\<lambda>r. r\<lparr>or_published_at := Some (pg_time at), or_last_error := None\<rparr>))) w = (q, w')"
    using bindE_pure_world [OF assms(1) [unfolded Outbox_MarkPublished_def]] by auto
  then obtain p where "stmt \<Gamma> (\<lambda>_. update_outbox (unpublished eid)
      (\<lambda>r. r\<lparr>or_published_at := Some (pg_time at), or_last_error := None\<rparr>)) w = (p, w')"
    using io_translate_world by blast
  then show ?thesis
    by (rule update_outbox_moved) (use assms(2) in \<open>auto simp: moved_on_def same_event_def unpublished_def\<close>)
qed

lemma Reschedule_moved:
  assumes "Outbox_Reschedule \<Gamma> eid at cause w = (r, w')"
  shows "outbox_moved sent (db w) (db w')"
proof -
  obtain q where "io_translate (stmt \<Gamma> (\<lambda>_. update_outbox (unpublished eid)
      (\<lambda>r. r\<lparr>or_attempts := Suc (or_attempts r), or_next_attempt_at := pg_time at, or_last_error := nullable cause\<rparr>))) w
        = (q, w')"
    using bindE_pure_world [OF assms(1) [unfolded Outbox_Reschedule_def]] by auto
  then obtain p where "stmt \<Gamma> (\<lambda>_. update_outbox (unpublished eid)
      (\<lambda>r. r\<lparr>or_attempts := Suc (or_attempts r), or_next_attempt_at := pg_time at, or_last_error := nullable cause\<rparr>)) w
        = (p, w')"
    using io_translate_world by blast
  then show ?thesis
    by (rule update_outbox_moved) (auto simp: moved_on_def same_event_def unpublished_def)
qed

lemma Publisher_nextAttemptAt_same:
  "Publisher_nextAttemptAt \<Gamma> p now a w = (r, w') \<Longrightarrow> same_world w w'"
  by (auto simp: Publisher_nextAttemptAt_def bindE_def dest!: jitter_same split: if_splits prod.splits sum.splits)

text \<open>Whatever its result, handling one record sends at most that record and marks only what it sent.\<close>

lemma publishOne_moved:
  assumes "publishOne \<Gamma> policy record now v w = (r, v', w')"
  shows "outbox_moved (pb_sent v') (db w) (db w')
    \<and> pb_sent v' \<in> {pb_sent v, pb_sent v @ [event_message record]} \<and> pb_published v' = pb_published v"
proof (cases "env_publish \<Gamma> (calls w)")
  case (Some s)
  let ?cause = "''publishing event '' @ ob_eventID record @ '': '' @ s"
  obtain q w1 where n: "Publisher_nextAttemptAt \<Gamma> policy now (of_nat (ob_attempts record) + 1) (tick w) = (q, w1)"
    by (metis surj_pair)
  have db1: "db w1 = db w" using Publisher_nextAttemptAt_same [OF n] by (simp add: same_world_def)
  have v': "pb_sent v' = pb_sent v" "pb_published v' = pb_published v"
    using assms Some by (auto simp: publishOne_def EventPublisher_Publish_def split: prod.splits)
  show ?thesis
  proof (cases q)
    case (Inl e)
    then have "w' = w1" using assms Some n by (auto simp: publishOne_def EventPublisher_Publish_def bindE_def)
    then show ?thesis using db1 v' by simp
  next
    case (Inr at)
    then have "Outbox_Reschedule \<Gamma> (ob_eventID record) at ?cause w1 = (r, w')"
      using assms Some n by (auto simp: publishOne_def EventPublisher_Publish_def bindE_def split: prod.splits)
    then show ?thesis using Reschedule_moved db1 v' by fastforce
  qed
next
  case None
  obtain q where m: "Outbox_MarkPublished \<Gamma> (ob_eventID record) now (tick w) = (q, w')"
    and v': "pb_sent v' = pb_sent v @ [event_message record]" "pb_published v' = pb_published v"
    using assms None by (auto simp: publishOne_def EventPublisher_Publish_def split: prod.splits sum.splits)
  have "ob_eventID record \<in> sm_messageDeduplicationId ` set (pb_sent v')"
    using v' by (simp add: event_message_def)
  from MarkPublished_moved [OF m this] show ?thesis using v' by simp
qed

lemma publish_loop_moved:
  "publish_loop \<Gamma> policy now due v w = (r, v', w') \<Longrightarrow>
     outbox_moved (pb_sent v') (db w) (db w') \<and> set (pb_sent v) \<subseteq> set (pb_sent v')
     \<and> set (pb_sent v') \<subseteq> set (pb_sent v) \<union> event_message ` set due"
proof (induction due arbitrary: v w)
  case (Cons rc due)
  obtain q v1 w1 where one: "publishOne \<Gamma> policy rc now v w = (q, v1, w1)" by (metis prod_cases3)
  note o = publishOne_moved [OF one]
  show ?case
  proof (cases q)
    case (Inl e)
    then show ?thesis using Cons.prems one o by auto
  next
    case (Inr u)
    then have rest: "publish_loop \<Gamma> policy now due (v1\<lparr>pb_published := Suc (pb_published v1)\<rparr>) w1 = (r, v', w')"
      using Cons.prems one by simp
    note l = Cons.IH [OF rest]
    have "outbox_moved (pb_sent v') (db w) (db w1)" using o l by (auto intro: outbox_moved_mono)
    then show ?thesis using o l by (auto intro: outbox_moved_trans)
  qed
qed simp

text \<open>The rows a claim takes: due, not held by another session, in the order they were recorded.\<close>

definition due_rows :: "env \<Rightarrow> gotime \<Rightarrow> int \<Rightarrow> nat \<Rightarrow> database \<Rightarrow> outbox_row list" where
  "due_rows \<Gamma> now limit n d =
     take (nat limit) (sort_key or_seq
       (filter (\<lambda>r. or_published_at r = None \<and> or_next_attempt_at r \<le> pg_time now \<and> \<not> env_locked \<Gamma> n (or_event_id r))
         (d_outbox d)))"

lemma due_rows_subset: "set (due_rows \<Gamma> now limit n d) \<subseteq> set (d_outbox d)"
  by (auto simp: due_rows_def dest!: in_set_takeD)

lemma Outbox_ClaimDue_eq:
  "0 < limit \<Longrightarrow> Outbox_ClaimDue \<Gamma> now limit =
     bindE (io_translate (query \<Gamma> (\<lambda>n d. Inr (due_rows \<Gamma> now limit n d)))) (\<lambda>rows. ret (map scanOutbox rows))"
  by (simp add: Outbox_ClaimDue_def due_rows_def)

lemma ClaimDue_ok:
  assumes "Outbox_ClaimDue \<Gamma> now limit w = (r, w')"
  shows "db w' = db w \<and> in_tx w' = in_tx w
    \<and> (\<forall>due. r = Inr due \<longrightarrow> set due \<subseteq> scanOutbox ` set (d_outbox (db w)))"
proof (cases "limit \<le> 0")
  case False
  then have run: "bindE (io_translate (query \<Gamma> (\<lambda>n d. Inr (due_rows \<Gamma> now limit n d))))
      (\<lambda>rows. ret (map scanOutbox rows)) w = (r, w')"
    using assms Outbox_ClaimDue_eq by simp
  obtain q w1 where q: "query \<Gamma> (\<lambda>n d. Inr (due_rows \<Gamma> now limit n d)) w = (q, w1)" by (metis surj_pair)
  show ?thesis
  proof (cases q)
    case (Inl e)
    then have "r = Inl (translate e)" "w' = w1" using run q by (simp_all add: bindE_def io_translate_def)
    then show ?thesis using query_db [OF q] by simp
  next
    case (Inr rows)
    then have "set rows \<subseteq> set (d_outbox (db w))"
      using q due_rows_subset [of \<Gamma> now limit "calls w" "db w"] by (auto elim!: query_okE)
    moreover have "r = Inr (map scanOutbox rows)" "w' = w1"
      using run q Inr by (simp_all add: bindE_def io_translate_def)
    ultimately show ?thesis using query_db [OF q] by (auto simp: image_mono)
  qed
qed (use assms in \<open>auto simp: Outbox_ClaimDue_def\<close>)

lemma publisher_body_moved:
  assumes "publisher_body policy \<Gamma> c v w = (r, v', w')"
  shows "outbox_moved (pb_sent v') (db w) (db w') \<and> set (pb_sent v) \<subseteq> set (pb_sent v')
    \<and> set (pb_sent v') \<subseteq> set (pb_sent v) \<union> event_message ` scanOutbox ` set (d_outbox (db w))"
proof -
  obtain now w1 where now: "clock_Now \<Gamma> w = (Inr now, w1)" "db w1 = db w" by (simp add: clock_Now_def)
  obtain q w2 where q: "Outbox_ClaimDue \<Gamma> now (sint (pp_BatchSize policy)) w1 = (q, w2)" by (metis surj_pair)
  note cl = ClaimDue_ok [OF q]
  show ?thesis
  proof (cases q)
    case (Inl e)
    then show ?thesis using assms now q cl by (simp add: publisher_body_def bindE_def)
  next
    case (Inr due)
    then have "publish_loop \<Gamma> policy now due v w2 = (r, v', w')"
      using assms now q by (simp add: publisher_body_def bindE_def)
    note l = publish_loop_moved [OF this]
    have "event_message ` set due \<subseteq> event_message ` scanOutbox ` set (d_outbox (db w))"
      using cl now Inr by (intro image_mono) auto
    then have "set (pb_sent v') \<subseteq> set (pb_sent v) \<union> event_message ` scanOutbox ` set (d_outbox (db w))"
      using l by blast
    then show ?thesis using l cl now by simp
  qed
qed

section \<open>Progress\<close>

text \<open>An event that was dealt with: sent and marked, or put back for a later time with one more attempt.\<close>

definition dealt_with ::
  "SendMessageInput list \<Rightarrow> gotime \<Rightarrow> PublisherPolicy \<Rightarrow> outbox_row \<Rightarrow> outbox_row \<Rightarrow> bool" where
  "dealt_with sent now policy r r' \<longleftrightarrow>
     (event_message (scanOutbox r) \<in> set sent
        \<and> r' = r\<lparr>or_published_at := Some (pg_time now), or_last_error := None\<rparr>)
     \<or> (\<exists>t cause. pg_time now \<le> t \<and> t \<le> (instant now + sint (pp_MaxBackoff policy)) div 1000
        \<and> r' = r\<lparr>or_attempts := Suc (or_attempts r), or_next_attempt_at := t, or_last_error := Some cause\<rparr>)"

lemma dealt_with_mono:
  "dealt_with sent now p r r' \<Longrightarrow> set sent \<subseteq> set sent' \<Longrightarrow> dealt_with sent' now p r r'"
  by (auto simp: dealt_with_def)

lemma dealt_with_id: "dealt_with sent now p r r' \<Longrightarrow> or_event_id r' = or_event_id r"
  by (auto simp: dealt_with_def)

lemma update_one:
  assumes "distinct (map or_event_id rows)" "r \<in> set rows" "or_published_at r = None"
  shows "map (\<lambda>x. if unpublished (or_event_id r) x then f x else x) rows = map (\<lambda>x. if x = r then f r else x) rows"
    "length (filter (unpublished (or_event_id r)) rows) = 1"
proof -
  have u: "unpublished (or_event_id r) x \<longleftrightarrow> x = r" if "x \<in> set rows" for x
    using assms that by (auto simp: unpublished_def dest: inj_onD [OF distinct_map [THEN iffD1, THEN conjunct2]])
  then show "map (\<lambda>x. if unpublished (or_event_id r) x then f x else x) rows = map (\<lambda>x. if x = r then f r else x) rows"
    by (simp cong: map_cong)
  have "filter (unpublished (or_event_id r)) rows = filter (\<lambda>x. x = r) rows"
    using u by (simp cong: filter_cong)
  moreover have "distinct rows" using assms(1) by (simp add: distinct_map)
  ultimately show "length (filter (unpublished (or_event_id r)) rows) = 1"
    using assms(2) by (simp add: distinct_length_filter)
qed


lemma MarkPublished_progress:
  assumes "healthy \<Gamma>" "\<not> aborted w" "distinct (map or_event_id (d_outbox (db w)))" "r \<in> set (d_outbox (db w))"
    "or_published_at r = None"
  shows "Outbox_MarkPublished \<Gamma> (or_event_id r) at w = (Inr (), (tick w)\<lparr>db := (db w)\<lparr>d_outbox :=
    map (\<lambda>x. if x = r then r\<lparr>or_published_at := Some (pg_time at), or_last_error := None\<rparr> else x) (d_outbox (db w))\<rparr>\<rparr>)"
proof -
  let ?f = "\<lambda>r. r\<lparr>or_published_at := Some (pg_time at), or_last_error := None\<rparr>"
  note u = update_one [OF assms(3-5)]
  have "stmt \<Gamma> (\<lambda>_. update_outbox (unpublished (or_event_id r)) ?f) w = (Inr 1, (tick w)\<lparr>db := (db w)\<lparr>d_outbox :=
      map (\<lambda>x. if x = r then ?f r else x) (d_outbox (db w))\<rparr>\<rparr>)"
    by (rule healthy_stmt [OF assms(1,2)]) (simp only: update_outbox_def u)
  then show ?thesis by (simp add: Outbox_MarkPublished_def bindE_def io_translate_def)
qed

lemma Reschedule_progress:
  assumes "healthy \<Gamma>" "\<not> aborted w" "distinct (map or_event_id (d_outbox (db w)))" "r \<in> set (d_outbox (db w))"
    "or_published_at r = None"
  shows "Outbox_Reschedule \<Gamma> (or_event_id r) at cause w = (Inr (), (tick w)\<lparr>db := (db w)\<lparr>d_outbox :=
    map (\<lambda>x. if x = r then r\<lparr>or_attempts := Suc (or_attempts r), or_next_attempt_at := pg_time at,
      or_last_error := nullable cause\<rparr> else x) (d_outbox (db w))\<rparr>\<rparr>)"
proof -
  let ?f = "\<lambda>r. r\<lparr>or_attempts := Suc (or_attempts r), or_next_attempt_at := pg_time at, or_last_error := nullable cause\<rparr>"
  note u = update_one [OF assms(3-5)]
  have "stmt \<Gamma> (\<lambda>_. update_outbox (unpublished (or_event_id r)) ?f) w = (Inr 1, (tick w)\<lparr>db := (db w)\<lparr>d_outbox :=
      map (\<lambda>x. if x = r then ?f r else x) (d_outbox (db w))\<rparr>\<rparr>)"
    by (rule healthy_stmt [OF assms(1,2)]) (simp only: update_outbox_def u)
  then show ?thesis by (simp add: Outbox_Reschedule_def bindE_def io_translate_def)
qed

text \<open>The attempts of a row fit the column they are stored in.\<close>

lemma attempts_word: "n < 2 ^ 31 \<Longrightarrow> 1 \<le> sint (of_nat n + 1 :: i64)"
  using sint_of_int64 [of "int n + 1"] by (simp add: fits64_def)

lemma publishOne_progress:
  assumes h: "healthy \<Gamma>" "\<not> aborted w" "distinct (map or_event_id (d_outbox (db w)))" "r \<in> set (d_outbox (db w))"
    "or_published_at r = None" and n: "or_attempts r < 2 ^ 31"
  shows "\<exists>v' w' r'. publishOne \<Gamma> (PublisherPolicy_normalised p) (scanOutbox r) now v w = (Inr (), v', w')
    \<and> \<not> aborted w' \<and> set (pb_sent v) \<subseteq> set (pb_sent v') \<and> pb_published v' = pb_published v
    \<and> dealt_with (pb_sent v') now (PublisherPolicy_normalised p) r r'
    \<and> d_outbox (db w') = map (\<lambda>x. if x = r then r' else x) (d_outbox (db w))"
proof (cases "env_publish \<Gamma> (calls w)")
  case None
  let ?v = "v\<lparr>pb_sent := pb_sent v @ [event_message (scanOutbox r)], pb_metrics := pb_metrics v @ [EventPublished]\<rparr>"
  let ?r = "r\<lparr>or_published_at := Some (pg_time now), or_last_error := None\<rparr>"
  let ?w = "(tick (tick w))\<lparr>db := (db w)\<lparr>d_outbox := map (\<lambda>x. if x = r then ?r else x) (d_outbox (db w))\<rparr>\<rparr>"
  have "publishOne \<Gamma> (PublisherPolicy_normalised p) (scanOutbox r) now v w = (Inr (), ?v, ?w)"
    using MarkPublished_progress [of \<Gamma> "tick w" r now] h None
    by (simp add: publishOne_def EventPublisher_Publish_def scanOutbox_def)
  then show ?thesis
    using h(2) by (intro exI [of _ ?v] exI [of _ ?w] exI [of _ ?r]) (auto simp: dealt_with_def)
next
  case (Some s)
  let ?cause = "''publishing event '' @ or_event_id r @ '': '' @ s"
  obtain t where t: "Publisher_nextAttemptAt \<Gamma> (PublisherPolicy_normalised p) now (of_nat (or_attempts r) + 1) (tick w)
      = (Inr t, tick (tick w))" "instant now \<le> instant t"
    "instant t \<le> instant now + sint (pp_MaxBackoff (PublisherPolicy_normalised p))"
    using pub_policy.next_at_ok [OF attempts_word [OF n], of \<Gamma> p now "tick w"] by blast
  let ?r = "r\<lparr>or_attempts := Suc (or_attempts r), or_next_attempt_at := pg_time t, or_last_error := Some ?cause\<rparr>"
  let ?v = "v\<lparr>pb_metrics := pb_metrics v @ [EventPublishFailed]\<rparr>"
  let ?w = "(tick (tick (tick w)))\<lparr>db := (db w)\<lparr>d_outbox := map (\<lambda>x. if x = r then ?r else x) (d_outbox (db w))\<rparr>\<rparr>"
  have "publishOne \<Gamma> (PublisherPolicy_normalised p) (scanOutbox r) now v w = (Inr (), ?v, ?w)"
    using Reschedule_progress [of \<Gamma> "tick (tick w)" r t ?cause] h t(1) Some
    by (simp add: publishOne_def EventPublisher_Publish_def scanOutbox_def bindE_def nullable_def)
  moreover have "dealt_with (pb_sent v) now (PublisherPolicy_normalised p) r ?r"
    unfolding dealt_with_def using t(2,3)
    by (intro disjI2 exI [of _ "pg_time t"] exI [of _ ?cause]) (simp add: pg_time_def zdiv_mono1)
  ultimately show ?thesis
    using h(2) by (intro exI [of _ ?v] exI [of _ ?w] exI [of _ ?r]) simp
qed


lemma distinct_ids_kept:
  assumes "distinct (map or_event_id rows)" "or_event_id r' = or_event_id r"
  shows "map or_event_id (map (\<lambda>x. if x = r then r' else x) rows) = map or_event_id rows"
  using assms by auto

lemma publish_loop_progress:
  assumes "healthy \<Gamma>" "\<not> aborted w" "distinct (map or_event_id (d_outbox (db w)))"
    "distinct rows" "set rows \<subseteq> set (d_outbox (db w))" "\<forall>r\<in>set rows. or_published_at r = None \<and> or_attempts r < 2 ^ 31"
  shows "\<exists>v' w'. publish_loop \<Gamma> (PublisherPolicy_normalised p) now (map scanOutbox rows) v w = (Inr (), v', w')
    \<and> \<not> aborted w' \<and> set (pb_sent v) \<subseteq> set (pb_sent v') \<and> pb_published v' = pb_published v + length rows
    \<and> list_all2 (\<lambda>x x'. if x \<in> set rows then dealt_with (pb_sent v') now (PublisherPolicy_normalised p) x x' else x' = x)
        (d_outbox (db w)) (d_outbox (db w'))"
  using assms
proof (induction rows arbitrary: v w)
  case Nil
  then show ?case by (simp add: list_all2_refl)
next
  case (Cons r rows)
  let ?p = "PublisherPolicy_normalised p"
  obtain v1 w1 r' where one: "publishOne \<Gamma> ?p (scanOutbox r) now v w = (Inr (), v1, w1)" "\<not> aborted w1"
    "set (pb_sent v) \<subseteq> set (pb_sent v1)" "pb_published v1 = pb_published v" "dealt_with (pb_sent v1) now ?p r r'"
    "d_outbox (db w1) = map (\<lambda>x. if x = r then r' else x) (d_outbox (db w))"
    using publishOne_progress [of \<Gamma> w r p now v] Cons.prems by auto
  have ids: "map or_event_id (d_outbox (db w1)) = map or_event_id (d_outbox (db w))"
    unfolding one(6) by (rule distinct_ids_kept [OF Cons.prems(3) dealt_with_id [OF one(5)]])
  have sub: "set rows \<subseteq> set (d_outbox (db w1))"
    using Cons.prems(4,5) unfolding one(6) by force
  let ?v = "v1\<lparr>pb_published := Suc (pb_published v1)\<rparr>"
  obtain v' w' where rest: "publish_loop \<Gamma> ?p now (map scanOutbox rows) ?v w1 = (Inr (), v', w')" "\<not> aborted w'"
    "set (pb_sent ?v) \<subseteq> set (pb_sent v')" "pb_published v' = pb_published ?v + length rows"
    "list_all2 (\<lambda>x x'. if x \<in> set rows then dealt_with (pb_sent v') now ?p x x' else x' = x)
       (d_outbox (db w1)) (d_outbox (db w'))"
    using Cons.IH [OF Cons.prems(1) one(2) _ _ sub, of ?v] Cons.prems(3,4,6) ids by auto
  have r': "r' \<notin> set rows"
  proof
    assume "r' \<in> set rows"
    then have "r' \<in> set (d_outbox (db w))" "r \<in> set (d_outbox (db w))" using Cons.prems(5) by auto
    then have "r' = r"
      using Cons.prems(3) dealt_with_id [OF one(5)] by (auto simp: distinct_map dest: inj_onD)
    then show False using \<open>r' \<in> set rows\<close> Cons.prems(4) by simp
  qed
  have "dealt_with (pb_sent v') now ?p r r'" using one(5) rest(3) by (auto intro: dealt_with_mono)
  then have "list_all2 (\<lambda>x x'. if x \<in> set (r # rows) then dealt_with (pb_sent v') now ?p x x' else x' = x)
      (d_outbox (db w)) (d_outbox (db w'))"
    using rest(5) r' Cons.prems(4) unfolding one(6) list_all2_map1
    by (elim list.rel_mono_strong) (auto split: if_splits)
  then show ?case
    using one(1,3,4) rest(1-4) by (intro exI [of _ v'] exI [of _ w']) auto
qed


lemma due_rows_ok:
  assumes "distinct (map or_event_id (d_outbox d))"
  shows "distinct (due_rows \<Gamma> now limit n d)" "\<forall>r\<in>set (due_rows \<Gamma> now limit n d). or_published_at r = None"
  using assms by (auto simp: due_rows_def distinct_map dest!: in_set_takeD)

lemma publisher_body_progress:
  assumes "healthy \<Gamma>" "\<not> aborted w" "distinct (map or_event_id (d_outbox (db w)))"
    "\<forall>r\<in>set (d_outbox (db w)). or_attempts r < 2 ^ 31"
  shows "let policy = PublisherPolicy_normalised p; now = time_UTC (env_now \<Gamma> (calls w));
      due = due_rows \<Gamma> now (sint (pp_BatchSize policy)) (Suc (calls w)) (db w) in
    \<exists>v' w'. publisher_body policy \<Gamma> c v w = (Inr (), v', w') \<and> \<not> aborted w'
      \<and> pb_published v' = pb_published v + length due
      \<and> list_all2 (\<lambda>x x'. if x \<in> set due then dealt_with (pb_sent v') now policy x x' else x' = x)
          (d_outbox (db w)) (d_outbox (db w'))"
proof -
  let ?p = "PublisherPolicy_normalised p" and ?now = "time_UTC (env_now \<Gamma> (calls w))"
  let ?due = "due_rows \<Gamma> ?now (sint (pp_BatchSize ?p)) (Suc (calls w)) (db w)"
  have "0 < sint (pp_BatchSize ?p)" using PublisherPolicy_normal [of p] by simp
  then have "Outbox_ClaimDue \<Gamma> ?now (sint (pp_BatchSize ?p)) (tick w) = (Inr (map scanOutbox ?due), tick (tick w))"
    using healthy_stmt [of \<Gamma> "tick w" "\<lambda>n d. (Inr (due_rows \<Gamma> ?now (sint (pp_BatchSize ?p)) n d), d)"] assms(1,2)
    by (simp add: Outbox_ClaimDue_eq query_def bindE_def io_translate_def tick_def)
  then have body: "publisher_body ?p \<Gamma> c v w = publish_loop \<Gamma> ?p ?now (map scanOutbox ?due) v (tick (tick w))"
    by (simp add: publisher_body_def bindE_def clock_Now_def)
  have "set ?due \<subseteq> set (d_outbox (db w))" by (rule due_rows_subset)
  then show ?thesis
    unfolding Let_def body
    using publish_loop_progress [of \<Gamma> "tick (tick w)" ?due p ?now v] due_rows_ok [OF assms(3)] assms by fastforce
qed

section \<open>Properties\<close>

text \<open>
  C19. The publisher never loses and never invents. Whatever the broker and the database do, and
  however often the batch is retried, a run leaves no transaction open, touches neither the
  books nor the inbox, adds and removes no event and changes none of the facts an event
  carries; an event is marked published only if it was sent, under its own event id, and what
  is published stays as it is; attempts are never forgotten; and everything that was sent is an
  event of the outbox, grouped by its aggregate. So an event may go out more than once, but
  none is marked without going out.
\<close>

theorem publisher_sends_before_marking:
  assumes "idle w"
  shows "case Publisher_RunOnce \<Gamma> retry policy c w of (r, v, w') \<Rightarrow>
    idle w' \<and> outbox_moved (pb_sent v) (db w) (db w')
    \<and> set (pb_sent v) \<subseteq> event_message ` scanOutbox ` set (d_outbox (db w))"
proof -
  obtain r v w' where run: "Publisher_RunOnce \<Gamma> retry policy c w = (r, v, w')" by (metis prod_cases3)
  note eff = do_effect [OF run [unfolded Publisher_RunOnce_def] assms]
  consider "ran_once c (publisher_body policy \<Gamma>) (db w) v (db w')" | "same_data (db w) (db w')"
    using eff by (cases r) auto
  then have moved: "outbox_moved (pb_sent v) (db w) (db w')"
  proof cases
    case 1
    then obtain v0 w1 w2 where "same_data (db w) (db w1)" "db w' = db w2"
      "publisher_body policy \<Gamma> (c\<lparr>c_insideUnitOfWork := True\<rparr>) v0 w1 = (Inr (), v, w2)"
      by (auto simp: ran_once_def)
    then show ?thesis using publisher_body_moved same_data_moved outbox_moved_trans by metis
  qed (rule same_data_moved)
  have "set (pb_sent v) \<subseteq> event_message ` scanOutbox ` set (d_outbox (db w))"
  proof (cases "c_insideUnitOfWork c")
    case True
    then show ?thesis using run by (auto simp: Publisher_RunOnce_def UnitOfWork_Do_def nothing_published_def)
  next
    case False
    then obtain k where "tried \<Gamma> c (publisher_body policy \<Gamma>) k nothing_published w (r, v, w')"
      using do_loop_tried [of 1 "RetryPolicy_normalised retry" \<Gamma> c "publisher_body policy \<Gamma>" nothing_published w]
        RetryPolicy_normal run by (auto simp: Publisher_RunOnce_def UnitOfWork_Do_def)
    then show ?thesis
      using tried_keeps [of \<Gamma> c "publisher_body policy \<Gamma>" k nothing_published w "(r, v, w')"
          "\<lambda>v. set (pb_sent v) \<subseteq> event_message ` scanOutbox ` set (d_outbox (db w))" "db w"] assms
        publisher_body_moved [of policy \<Gamma>]
      by (fastforce simp: nothing_published_def same_data_iff)
  qed
  then show ?thesis using run moved eff by simp
qed


definition one_event_db :: database where
  "one_event_db = empty_db\<lparr>d_outbox := [\<lparr>or_seq = 1, or_event_id = ''e1'', or_event_type = EventWalletBalanceChanged,
     or_event_version = 1, or_aggregate_id = ''w1'', or_payload = BalancePayload \<lparr>bp_walletID = ''w1'',
       bp_transactionID = ''t1'', bp_direction = ''CREDIT'', bp_money = \<lparr>mp_amount = ''1.00'', mp_currency = ''BRL''\<rparr>,
       bp_balanceBefore = \<lparr>mp_amount = ''0.00'', mp_currency = ''BRL''\<rparr>,
       bp_balanceAfter = \<lparr>mp_amount = ''1.00'', mp_currency = ''BRL''\<rparr>, bp_walletVersion = 2\<rparr>,
     or_correlation_id = None, or_causation_id = None, or_occurred_at = 0, or_attempts = 0, or_next_attempt_at = 0,
     or_published_at = None, or_last_error = None\<rparr>]\<rparr>"

theorem publisher_sends_before_marking_witness:
  "idle (start one_event_db) \<and>
   (case Publisher_RunOnce calm DefaultRetryPolicy DefaultPublisherPolicy no_caller (start one_event_db) of
      (r, v, w') \<Rightarrow> outbox_moved (pb_sent v) one_event_db (db w'))"
  using publisher_sends_before_marking [of "start one_event_db" calm DefaultRetryPolicy DefaultPublisherPolicy no_caller]
  by (auto simp: start_def idle_def split: prod.splits)



end
