(* ===== verification/Queries.thy ===== *)
theory Queries
  imports Samples
begin

text \<open>
  The reads (\<open>internal/app/queries.go\<close>) and the reconciliation of a wallet with its ledger
  (\<open>internal/app/reconcile.go\<close>). The log is not modelled; of the metrics, whether a run drifted.
\<close>

section \<open>Wallets\<close>

definition WalletQueries_Get :: "env \<Rightarrow> ctx \<Rightarrow> string \<Rightarrow> Wallet pgio" where
  "WalletQueries_Get \<Gamma> c walletID =
     bindE (lift (caller c ScopeWallets)) (\<lambda>_.
     bindE (lift (ParseWalletID walletID)) (\<lambda>i. Wallets_FindByID \<Gamma> i))"

definition DefaultLedgerPageSize :: int where "DefaultLedgerPageSize = 50"
definition MaxLedgerPageSize :: int where "MaxLedgerPageSize = 200"

definition ledger_limit :: "int \<Rightarrow> int res" where
  "ledger_limit limit =
     (if limit \<le> 0 then Inr DefaultLedgerPageSize
      else if limit > MaxLedgerPageSize then Inl (Wrapped ErrInvalidInput)
      else Inr limit)"

definition WalletQueries_Ledger :: "env \<Rightarrow> ctx \<Rightarrow> string \<Rightarrow> LedgerCursor \<Rightarrow> int \<Rightarrow> LedgerPage pgio" where
  "WalletQueries_Ledger \<Gamma> c walletID cursor limit =
     bindE (lift (caller c ScopeWallets)) (\<lambda>_.
     bindE (lift (ParseWalletID walletID)) (\<lambda>i.
     bindE (lift (ledger_limit limit)) (\<lambda>limit.
     bindE (Wallets_FindByID \<Gamma> i) (\<lambda>_. Ledger_ListByWallet \<Gamma> i cursor limit))))"

section \<open>Operations\<close>

definition TransactionQueries_Get :: "env \<Rightarrow> ctx \<Rightarrow> string \<Rightarrow> WagerTransaction pgio" where
  "TransactionQueries_Get \<Gamma> c transactionID =
     bindE (lift (caller c ScopeRead)) (\<lambda>identity.
     bindE (lift (ParseTransactionID transactionID)) (\<lambda>i.
     bindE (Transactions_FindByID \<Gamma> i) (\<lambda>t.
       if \<not> Identity_owns identity (t_providerID t) then throw ErrNotFound else ret t)))"

definition TransactionQueries_GetByBusinessID :: "env \<Rightarrow> ctx \<Rightarrow> string \<Rightarrow> string \<Rightarrow> WagerTransaction pgio" where
  "TransactionQueries_GetByBusinessID \<Gamma> c providerID externalID =
     bindE (lift (caller c ScopeRead)) (\<lambda>identity.
     bindE (lift (ParseProviderID providerID)) (\<lambda>provider.
       if \<not> Identity_owns identity provider then throw ErrNotFound
       else bindE (lift (ParseExternalTransactionID externalID)) (\<lambda>external.
              Transactions_FindByBusinessID \<Gamma> provider external)))"

section \<open>Reconciliation\<close>

record Reconciliation =
  rn_walletID :: WalletID
  rn_stored :: money
  rn_rebuilt :: money
  rn_difference :: money
  rn_entries :: nat
  rn_version :: i64
  rn_checkedAt :: gotime

definition Reconciliation_Drifted :: "Reconciliation \<Rightarrow> bool" where
  "Reconciliation_Drifted r \<longleftrightarrow> \<not> Money_IsZero (rn_difference r)"

definition reconcile_view :: "env \<Rightarrow> WalletID \<Rightarrow> ctx \<Rightarrow> Reconciliation pgio" where
  "reconcile_view \<Gamma> i c =
     bindE (Wallets_FindByID \<Gamma> i) (\<lambda>wallet.
     bindE (Ledger_SumByWallet \<Gamma> i (currency (w_balance wallet))) (\<lambda>(rebuilt, entries).
     bindE (lift (Money_Sub (w_balance wallet) rebuilt)) (\<lambda>difference.
     bindE (clock_Now \<Gamma>) (\<lambda>now.
       ret \<lparr>rn_walletID = i, rn_stored = w_balance wallet, rn_rebuilt = rebuilt, rn_difference = difference,
            rn_entries = entries, rn_version = w_version wallet, rn_checkedAt = now\<rparr>))))"

text \<open>The second component is what \<open>report\<close> counts: one run, drifted or not.\<close>

definition ReconcileWallet_Execute ::
  "env \<Rightarrow> ctx \<Rightarrow> string \<Rightarrow> database world \<Rightarrow> Reconciliation res \<times> bool list \<times> database world" where
  "ReconcileWallet_Execute \<Gamma> c walletID w =
     (case bindE (lift (caller c ScopeWallets)) (\<lambda>_.
            bindE (lift (ParseWalletID walletID)) (\<lambda>i. Snapshot_Do \<Gamma> c (reconcile_view \<Gamma> i))) w of
        (Inl e, w') \<Rightarrow> (Inl e, [], w')
      | (Inr result, w') \<Rightarrow> (Inr result, [Reconciliation_Drifted result], w'))"

section \<open>What a read returns\<close>

lemma find_map: "find p (map f xs) = map_option f (find (\<lambda>x. p (f x)) xs)"
  by (induction xs) simp_all

text \<open>Where at most one element matches, \<open>find\<close> depends only on the set of matches.\<close>

lemma find_unique:
  assumes "\<And>x y. x \<in> set xs \<Longrightarrow> y \<in> set xs \<Longrightarrow> P x \<Longrightarrow> P y \<Longrightarrow> x = y"
  shows "find P xs = Some x \<longleftrightarrow> x \<in> set xs \<and> P x"
proof
  show "x \<in> set xs \<and> P x" if "find P xs = Some x" using that by (auto simp: find_Some_iff)
next
  assume x: "x \<in> set xs \<and> P x"
  then obtain y where "find P xs = Some y" by (cases "find P xs") (auto simp: find_None_iff)
  then show "find P xs = Some x" using assms x by (auto simp: find_Some_iff)
qed

lemma find_same:
  assumes "\<And>x y. x \<in> set xs \<Longrightarrow> y \<in> set xs \<Longrightarrow> P x \<Longrightarrow> P y \<Longrightarrow> x = y"
    "\<And>x y. x \<in> set ys \<Longrightarrow> y \<in> set ys \<Longrightarrow> P x \<Longrightarrow> P y \<Longrightarrow> x = y"
    "{x \<in> set xs. P x} = {x \<in> set ys. P x}"
  shows "find P xs = find P ys"
proof (cases "find P xs")
  case None
  then have "{x \<in> set ys. P x} = {}" using assms(3) by (auto simp: find_None_iff)
  then have "find P ys = None" by (auto simp: find_None_iff)
  then show ?thesis using None by simp
next
  case (Some x)
  then have "x \<in> {x \<in> set xs. P x}" by (auto simp: find_Some_iff)
  then have "x \<in> set ys \<and> P x" using assms(3) by simp
  moreover have "find P ys = Some x \<longleftrightarrow> x \<in> set ys \<and> P x" by (rule find_unique) (rule assms(2))
  ultimately show ?thesis using Some by simp
qed

context table
begin

text \<open>The result of a lookup, as a function of the stored values.\<close>

lemma lookup_clean:
  assumes "holds (db w) vs" "\<not> (in_tx w \<and> aborted w)" "env_fault \<Gamma> (calls w) = None"
  shows "lookup \<Gamma> p w =
    ((case find (\<lambda>v. p (row_of v)) vs of None \<Rightarrow> Inl ErrNotFound | Some v \<Rightarrow> Inr v), tick w)"
proof -
  have rows: "find p (rows (db w)) = map_option row_of (find (\<lambda>v. p (row_of v)) vs)"
    using assms(1) by (simp add: holds_def find_map)
  show ?thesis
  proof (cases "find (\<lambda>v. p (row_of v)) vs")
    case None
    then have "select_one p (rows (db w)) = Inl PgNoRows" using rows by (simp add: select_one_def)
    then show ?thesis
      using assms(2,3) None
      by (simp add: lookup_def bindE_def io_translate_def query_def tick_def
          stmt_cases(3) [where e = PgNoRows and d = "db w"])
  next
    case (Some v)
    have "v \<in> set vs" using Some by (auto simp: find_Some_iff)
    moreover have "select_one p (rows (db w)) = Inr (row_of v)"
      using rows Some by (simp add: select_one_def)
    ultimately show ?thesis
      using assms Some scan_row
      by (simp add: lookup_def bindE_def io_translate_def query_def holds_def tick_def
          stmt_cases(4) [where x = "row_of v" and d = "db w"])
  qed
qed

lemma lookup_run:
  assumes "holds (db w) vs" "\<not> (in_tx w \<and> aborted w)"
  shows "fst (lookup \<Gamma> p w) =
    (case env_fault \<Gamma> (calls w) of
       Some e \<Rightarrow> Inl (translate (fault_error e))
     | None \<Rightarrow> (case find (\<lambda>v. p (row_of v)) vs of None \<Rightarrow> Inl ErrNotFound | Some v \<Rightarrow> Inr v))"
  using assms lookup_clean [OF assms, of \<Gamma> p]
  by (cases "env_fault \<Gamma> (calls w)") (simp_all add: lookup_def bindE_def io_translate_def query_def stmt_cases(2))

end


section \<open>Isolation\<close>

text \<open>What an identity may see of the operations.\<close>

definition visible :: "Identity \<Rightarrow> bank \<Rightarrow> WagerTransaction set" where
  "visible i b = {t \<in> set (b_txs b). Identity_owns i (t_providerID t)}"

lemma txs_unique_id:
  "txs_ok b \<Longrightarrow> x \<in> set (b_txs b) \<Longrightarrow> y \<in> set (b_txs b) \<Longrightarrow> t_id x = t_id y \<Longrightarrow> x = y"
  unfolding txs_ok_def by (auto simp: distinct_map dest: inj_onD)

lemma txs_unique_business:
  "txs_ok b \<Longrightarrow> x \<in> set (b_txs b) \<Longrightarrow> y \<in> set (b_txs b) \<Longrightarrow> \<not> ident_IsZero (t_providerID x)
    \<Longrightarrow> t_providerID x = t_providerID y \<Longrightarrow> t_externalID x = t_externalID y \<Longrightarrow> x = y"
  unfolding txs_ok_def tx_compat_def by blast

lemma tx_row_id: "(tr_id (tx_row_of t) = ident_String j) = (t_id t = j)"
  by (simp add: tx_row_of_def)

text \<open>Reading by id answers from what is visible.\<close>

lemma Get_visible:
  assumes "represents (db w) b" "txs_ok b" "idle w" "caller c ScopeRead = Inr i" "ParseTransactionID s = Inr j"
  shows "fst (TransactionQueries_Get \<Gamma> c s w) =
    (case env_fault \<Gamma> (calls w) of
       Some e \<Rightarrow> Inl (translate (fault_error e))
     | None \<Rightarrow> (case find (\<lambda>t. t_id t = j \<and> Identity_owns i (t_providerID t)) (b_txs b) of
                  None \<Rightarrow> Inl ErrNotFound | Some t \<Rightarrow> Inr t))"
proof -
  have run: "fst (Transactions_FindByID \<Gamma> j w) =
    (case env_fault \<Gamma> (calls w) of
       Some e \<Rightarrow> Inl (translate (fault_error e))
     | None \<Rightarrow> (case find (\<lambda>t. t_id t = j) (b_txs b) of None \<Rightarrow> Inl ErrNotFound | Some t \<Rightarrow> Inr t))"
    using tt.lookup_run [of w "b_txs b" \<Gamma> "\<lambda>r. tr_id r = ident_String j", unfolded tx_row_id] assms(1,3)
    by (simp add: find_tx_eq represents_def idle_def)
  obtain q w1 where q: "Transactions_FindByID \<Gamma> j w = (q, w1)" by (metis surj_pair)
  have get: "fst (TransactionQueries_Get \<Gamma> c s w) =
      (case q of Inl e \<Rightarrow> Inl e | Inr t \<Rightarrow> if Identity_owns i (t_providerID t) then Inr t else Inl ErrNotFound)"
    using assms(4,5) q by (cases q) (simp_all add: TransactionQueries_Get_def bindE_def)
  show ?thesis
  proof (cases "env_fault \<Gamma> (calls w)")
    case (Some e)
    then show ?thesis using get run q by simp
  next
    case None
    have uniq: "\<And>x y. x \<in> set (b_txs b) \<Longrightarrow> y \<in> set (b_txs b) \<Longrightarrow> t_id x = j \<Longrightarrow> t_id y = j \<Longrightarrow> x = y"
      using txs_unique_id [OF assms(2)] by metis
    show ?thesis
    proof (cases "find (\<lambda>t. t_id t = j) (b_txs b)")
      case fnone: None
      then have "find (\<lambda>t. t_id t = j \<and> Identity_owns i (t_providerID t)) (b_txs b) = None"
        by (auto simp: find_None_iff)
      then show ?thesis using get run q None fnone by simp
    next
      case (Some t)
      then have t: "t \<in> set (b_txs b)" "t_id t = j" by (auto simp: find_Some_iff)
      have "find (\<lambda>t. t_id t = j \<and> Identity_owns i (t_providerID t)) (b_txs b) =
          (if Identity_owns i (t_providerID t) then Some t else None)"
      proof (cases "Identity_owns i (t_providerID t)")
        case True
        then have "find (\<lambda>t. t_id t = j \<and> Identity_owns i (t_providerID t)) (b_txs b) = Some t"
          using t uniq by (subst find_unique) auto
        then show ?thesis using True by simp
      next
        case False
        then show ?thesis using t uniq by (auto simp: find_None_iff)
      qed
      then show ?thesis using get run q None Some by simp
    qed
  qed
qed

lemma GetByBusinessID_visible:
  assumes "represents (db w) b" "idle w" "caller c ScopeRead = Inr i"
    "ParseProviderID ps = Inr p" "ParseExternalTransactionID xs = Inr x" "Identity_owns i p"
  shows "fst (TransactionQueries_GetByBusinessID \<Gamma> c ps xs w) =
    (case env_fault \<Gamma> (calls w) of
       Some e \<Rightarrow> Inl (translate (fault_error e))
     | None \<Rightarrow> (case find (\<lambda>t. t_providerID t = p \<and> t_externalID t = x) (b_txs b) of
                  None \<Rightarrow> Inl ErrNotFound | Some t \<Rightarrow> Inr t))"
proof -
  have ok: "ident_String p \<noteq> ''''" "ident_String x \<noteq> ''''"
    using assms(4,5) by (auto simp: parse_id_defs parseIdentifier_iff ident_ok_def ident_IsZero_def)
  then have row: "(tr_provider_id (tx_row_of t) = Some (ident_String p) \<and> tr_external_id (tx_row_of t) = Some (ident_String x))
      = (t_providerID t = p \<and> t_externalID t = x)" for t
    by (auto simp: tx_row_of_def)
  show ?thesis
    using tt.lookup_run [of w "b_txs b" \<Gamma> "\<lambda>r. tr_provider_id r = Some (ident_String p)
        \<and> tr_external_id r = Some (ident_String x)", unfolded row] assms
    by (simp add: TransactionQueries_GetByBusinessID_def bindE_def find_tx_eq represents_def idle_def)
qed


lemma caller_scope: "caller c s = Inl e \<Longrightarrow> errors_Is e ErrUnauthenticated \<or> errors_Is e ErrForbidden"
  by (auto simp: caller_def Identity_authorise_def andThen_Inl_iff split: option.splits if_splits)

text \<open>
  C21. Callers are isolated from each other. Take any two states of the store that agree on the
  operations an identity owns, and differ in whatever else they hold. Then every read of an
  operation, by its id or by its business key, gives that identity the same answer in both: an
  operation of somebody else is answered exactly like one that does not exist. A credential
  without the internal scope reads no wallet, no ledger and no reconciliation: it is refused
  before the database is asked.
\<close>

theorem reads_isolated:
  assumes "represents (db w1) b1" "txs_ok b1" "idle w1" "represents (db w2) b2" "txs_ok b2" "idle w2"
    "calls w1 = calls w2" "c_identity c = Some i" "visible i b1 = visible i b2"
  shows "fst (TransactionQueries_Get \<Gamma> c s w1) = fst (TransactionQueries_Get \<Gamma> c s w2)
    \<and> fst (TransactionQueries_GetByBusinessID \<Gamma> c ps xs w1) = fst (TransactionQueries_GetByBusinessID \<Gamma> c ps xs w2)
    \<and> (ScopeWallets \<notin> set (i_scopes i) \<longrightarrow>
        (\<exists>e. errors_Is e ErrForbidden \<and> WalletQueries_Get \<Gamma> c s w1 = (Inl e, w1)
           \<and> WalletQueries_Ledger \<Gamma> c s cursor limit w1 = (Inl e, w1)
           \<and> ReconcileWallet_Execute \<Gamma> c s w1 = (Inl e, [], w1)))"
proof (intro conjI)
  have vis: "t \<in> set (b_txs b1) \<longleftrightarrow> t \<in> set (b_txs b2)" if "Identity_owns i (t_providerID t)" for t
    using assms(9) that unfolding visible_def by blast
  show "fst (TransactionQueries_Get \<Gamma> c s w1) = fst (TransactionQueries_Get \<Gamma> c s w2)"
  proof (cases "\<exists>j. caller c ScopeRead = Inr i \<and> ParseTransactionID s = Inr j")
    case True
    then obtain j where j: "caller c ScopeRead = Inr i" "ParseTransactionID s = Inr j" by blast
    have "find (\<lambda>t. t_id t = j \<and> Identity_owns i (t_providerID t)) (b_txs b1)
        = find (\<lambda>t. t_id t = j \<and> Identity_owns i (t_providerID t)) (b_txs b2)"
      using vis txs_unique_id [OF assms(2)] txs_unique_id [OF assms(5)] by (intro find_same) auto
    then show ?thesis
      using Get_visible [OF assms(1-3) j, of \<Gamma>] Get_visible [OF assms(4-6) j, of \<Gamma>] assms(7)
      by (simp cong: option.case_cong)
  next
    case False
    then show ?thesis
      using assms(8) by (cases "caller c ScopeRead"; cases "ParseTransactionID s")
        (auto simp: TransactionQueries_Get_def bindE_def elim: caller_okE)
  qed
  show "fst (TransactionQueries_GetByBusinessID \<Gamma> c ps xs w1) = fst (TransactionQueries_GetByBusinessID \<Gamma> c ps xs w2)"
  proof (cases "\<exists>p x. caller c ScopeRead = Inr i \<and> ParseProviderID ps = Inr p \<and> ParseExternalTransactionID xs = Inr x
      \<and> Identity_owns i p")
    case True
    then obtain p x where p: "caller c ScopeRead = Inr i" "ParseProviderID ps = Inr p"
      "ParseExternalTransactionID xs = Inr x" "Identity_owns i p" by blast
    have "\<not> ident_IsZero p"
      using p(2) by (auto simp: parse_id_defs parseIdentifier_iff dest: ident_ok_not_zero)
    then have "find (\<lambda>t. t_providerID t = p \<and> t_externalID t = x) (b_txs b1)
        = find (\<lambda>t. t_providerID t = p \<and> t_externalID t = x) (b_txs b2)"
      using vis p(4) txs_unique_business [OF assms(2)] txs_unique_business [OF assms(5)]
      by (intro find_same) auto
    then show ?thesis
      using GetByBusinessID_visible [OF assms(1,3) p, of \<Gamma>] GetByBusinessID_visible [OF assms(4,6) p, of \<Gamma>] assms(7)
      by (simp cong: option.case_cong)
  next
    case False
    then show ?thesis
      using assms(8) by (cases "caller c ScopeRead"; cases "ParseProviderID ps"; cases "ParseExternalTransactionID xs")
        (auto simp: TransactionQueries_GetByBusinessID_def bindE_def elim: caller_okE)
  qed
  show "ScopeWallets \<notin> set (i_scopes i) \<longrightarrow>
        (\<exists>e. errors_Is e ErrForbidden \<and> WalletQueries_Get \<Gamma> c s w1 = (Inl e, w1)
           \<and> WalletQueries_Ledger \<Gamma> c s cursor limit w1 = (Inl e, w1)
           \<and> ReconcileWallet_Execute \<Gamma> c s w1 = (Inl e, [], w1))"
    using assms(8)
    by (auto simp: WalletQueries_Get_def WalletQueries_Ledger_def ReconcileWallet_Execute_def caller_def
        Identity_authorise_def Identity_Has_def)
qed


definition outsider :: Identity where
  "outsider = \<lparr>i_subject = ''client'', i_providerID = Identifier ''other'', i_scopes = [ScopeRead]\<rparr>"

theorem reads_isolated_witness:
  "fst (TransactionQueries_Get calm (WithIdentity no_caller outsider) ''t1'' (start demo_db))
     = fst (TransactionQueries_Get calm (WithIdentity no_caller outsider) ''t1'' (start empty_db))"
proof -
  have "visible outsider demo_bank = visible outsider empty_bank"
    by (simp add: visible_def demo_bank_def empty_bank_def outsider_def demo_pending_def Identity_owns_def
        Identity_IsProvider_def ident_IsZero_def)
  then show ?thesis
    using reads_isolated [of "start demo_db" demo_bank "start empty_db" empty_bank "WithIdentity no_caller outsider" outsider]
      demo_represents demo_bank_ok represents_empty empty_bank_ok
    by (simp add: start_def bank_ok_def WithIdentity_def idle_def)
qed


section \<open>The books and the reconciliation\<close>

lemma row_delta_entry: "entry_ok e \<Longrightarrow> row_delta (numbered_row (s, e)) = entry_delta e"
  by (cases "e_direction e")
    (auto simp: row_delta_def numbered_row_def ledger_row_of_def entry_delta_def direction_sign_def entry_ok_def)

lemma wallet_rows:
  assumes "represents d b"
  shows "filter (\<lambda>r. lr_wallet_id r = ident_String i) (d_ledger d)
    = map numbered_row (filter (\<lambda>se. e_walletID (snd se) = i) (b_entries b))"
  using assms by (simp add: represents_def lt.holds_def filter_map comp_def numbered_row_def ledger_row_of_def)

lemma entries_of_numbered: "map snd (filter (\<lambda>se. e_walletID (snd se) = i) (b_entries b)) = entries_of b i"
  by (simp add: entries_of_def filter_map comp_def)

text \<open>On sound books the ledger of a wallet adds up to its balance.\<close>

lemma ledger_total:
  assumes "represents d b" "bank_ok b" "x \<in> set (b_wallets b)"
  shows "sum_list (map row_delta (filter (\<lambda>r. lr_wallet_id r = ident_String (w_id x)) (d_ledger d)))
      = balance_value (w_balance x)"
    "length (filter (\<lambda>r. lr_wallet_id r = ident_String (w_id x)) (d_ledger d)) = length (entries_of b (w_id x))"
proof -
  let ?se = "filter (\<lambda>se. e_walletID (snd se) = w_id x) (b_entries b)"
  have ok: "entry_ok (snd se)" if "se \<in> set (b_entries b)" for se
    using that assms(2) by (auto simp: bank_ok_def entries_ok_def entry_st_def)
  then have "map row_delta (map numbered_row ?se) = map entry_delta (map snd ?se)"
    using row_delta_entry by (auto simp: split_beta)
  then have "map row_delta (map numbered_row ?se) = map entry_delta (entries_of b (w_id x))"
    by (simp only: entries_of_numbered)
  moreover have "chain 0 (entries_of b (w_id x)) (balance_value (w_balance x))"
    using assms(2,3) by (simp add: bank_ok_def balanced_def)
  then have "balance_value (w_balance x) = 0 + sum_list (map entry_delta (entries_of b (w_id x)))"
    by (rule chain_sum) (use ok in \<open>auto simp: entries_of_def\<close>)
  ultimately show "sum_list (map row_delta (filter (\<lambda>r. lr_wallet_id r = ident_String (w_id x)) (d_ledger d)))
      = balance_value (w_balance x)"
    unfolding wallet_rows [OF assms(1)] by simp
  show "length (filter (\<lambda>r. lr_wallet_id r = ident_String (w_id x)) (d_ledger d)) = length (entries_of b (w_id x))"
    unfolding wallet_rows [OF assms(1)] using entries_of_numbered [of "w_id x" b] by (metis length_map)
qed

lemma stored_wallet:
  assumes "bank_ok b" "x \<in> set (b_wallets b)"
  shows "wallet_st x" "NewMoneyFromMinor (minor (w_balance x)) (currency (w_balance x)) = Inr (w_balance x)"
    "Money_Sub (w_balance x) (w_balance x) = Inr \<lparr>minor = 0, currency = currency (w_balance x)\<rparr>"
  using assms
  by (auto simp: bank_ok_def wallets_ok_def wallet_st_def wallet_ok_def NewMoneyFromMinor_def Money_IsInitialised_def
      Money_Sub_iff fits64_def)

lemma SumByWallet_ok:
  assumes "represents (db w) b" "bank_ok b" "x \<in> set (b_wallets b)"
    "Ledger_SumByWallet \<Gamma> (w_id x) (currency (w_balance x)) w = (Inr r, w')"
  shows "r = (w_balance x, length (entries_of b (w_id x)))"
  using assms(4) ledger_total [OF assms(1-3)] stored_wallet(2) [OF assms(2,3)]
  by (auto simp: Ledger_SumByWallet_def Let_def split_beta elim!: bindE_okE io_translate_okE query_okE split: if_splits)

lemma SumByWallet_run:
  assumes "represents (db w) b" "bank_ok b" "x \<in> set (b_wallets b)" "healthy \<Gamma>" "\<not> aborted w"
  shows "Ledger_SumByWallet \<Gamma> (w_id x) (currency (w_balance x)) w
    = (Inr (w_balance x, length (entries_of b (w_id x))), tick w)"
proof -
  have "query \<Gamma> (\<lambda>_ d. let rows = filter (\<lambda>r. lr_wallet_id r = ident_String (w_id x)) (d_ledger d);
             total = sum_list (map row_delta rows) in
         if fits64 total then Inr (word_of_int total :: i64, length rows)
         else Inl (PgError ''22003'' '''' '''' ''bigint out of range'')) w
      = (Inr (minor (w_balance x), length (entries_of b (w_id x))), (tick w)\<lparr>db := db w\<rparr>)"
    unfolding query_def by (rule healthy_stmt [OF assms(4,5)]) (simp add: ledger_total [OF assms(1-3)] Let_def)
  then show ?thesis
    using stored_wallet(2) [OF assms(2,3)] by (simp add: Ledger_SumByWallet_def bindE_def io_translate_def tick_def)
qed


lemma find_wallet_run:
  assumes "represents (db w) b" "bank_ok b" "x \<in> set (b_wallets b)" "healthy \<Gamma>" "\<not> aborted w"
  shows "Wallets_FindByID \<Gamma> (w_id x) w = (Inr x, tick w)"
proof -
  have row: "(wr_id (wallet_row_of y) = ident_String (w_id x)) = (w_id y = w_id x)" for y
    by (simp add: wallet_row_of_def)
  have "find (\<lambda>y. w_id y = w_id x) (b_wallets b) = Some x"
    using assms(2,3) by (subst find_unique) (auto simp: bank_ok_def wallets_ok_def distinct_map dest: inj_onD)
  then show ?thesis
    using wt.lookup_clean [of w "b_wallets b" \<Gamma> "\<lambda>r. wr_id r = ident_String (w_id x)", unfolded row] assms
    by (simp add: find_wallet_eq represents_def healthy_def)
qed

lemma reconcile_view_ok:
  assumes "reconcile_view \<Gamma> i c w = (Inr res, w')" "represents (db w) b" "bank_ok b"
  shows "\<exists>x\<in>set (b_wallets b). w_id x = i \<and> rn_walletID res = i \<and> rn_stored res = w_balance x
    \<and> rn_rebuilt res = w_balance x \<and> rn_difference res = \<lparr>minor = 0, currency = currency (w_balance x)\<rparr>
    \<and> rn_entries res = length (entries_of b i) \<and> rn_version res = w_version x"
proof -
  obtain x w1 rebuilt n w2 d now w3 where f: "Wallets_FindByID \<Gamma> i w = (Inr x, w1)"
    and s: "Ledger_SumByWallet \<Gamma> i (currency (w_balance x)) w1 = (Inr (rebuilt, n), w2)"
    and d: "Money_Sub (w_balance x) rebuilt = Inr d"
    and res: "res = \<lparr>rn_walletID = i, rn_stored = w_balance x, rn_rebuilt = rebuilt, rn_difference = d,
            rn_entries = n, rn_version = w_version x, rn_checkedAt = now\<rparr>"
    using assms(1) by (auto simp: reconcile_view_def elim!: bindE_okE)
  have x: "x \<in> set (b_wallets b)" "w_id x = i" "same_world w w1"
    using find_wallet_ok [of \<Gamma> i w x w1 b] f assms(2) by (auto simp: find_wallet_eq)
  have "represents (db w1) b" using assms(2) x(3) by (simp add: same_world_def)
  from SumByWallet_ok [OF this assms(3) x(1)] have "rebuilt = w_balance x" "n = length (entries_of b i)"
    using s x(2) by auto
  then show ?thesis using x d res stored_wallet(3) [OF assms(3) x(1)] by auto
qed

lemma reconcile_view_run:
  assumes "represents (db w) b" "bank_ok b" "x \<in> set (b_wallets b)" "healthy \<Gamma>" "\<not> aborted w"
  shows "\<exists>res w'. reconcile_view \<Gamma> (w_id x) c w = (Inr res, w')"
  using find_wallet_run [OF assms] SumByWallet_run [of "tick w" b x \<Gamma>] assms stored_wallet(3) [OF assms(2,3)]
  by (simp add: reconcile_view_def bindE_def clock_Now_def)

text \<open>A snapshot never writes.\<close>

lemma Snapshot_idle:
  "Snapshot_Do \<Gamma> c fn w = (r, w') \<Longrightarrow> idle w \<Longrightarrow> idle w' \<and> same_data (db w) (db w')"
  by (auto simp: Snapshot_Do_def pool_Begin_def idle_def split: option.splits prod.splits)

text \<open>
  C22. Reconciliation is a second opinion that never cries wolf. It changes nothing it reads. On
  books the program has kept, a check that returns reports the stored balance, the same balance
  rebuilt from the ledger, a difference of zero, the number of entries and the version, and
  counts one run without drift; and while the database answers, a check by the internal
  credential of a wallet that exists does return.
\<close>

theorem reconciliation_agrees:
  assumes "represents (db w) b" "bank_ok b" "idle w"
  shows "case ReconcileWallet_Execute \<Gamma> c s w of (r, runs, w') \<Rightarrow>
    idle w' \<and> same_data (db w) (db w')
    \<and> (case r of
         Inl e \<Rightarrow> runs = [] \<and> \<not> (healthy \<Gamma> \<and> (\<exists>i. caller c ScopeWallets = Inr i)
           \<and> (\<exists>x\<in>set (b_wallets b). ParseWalletID s = Inr (w_id x)))
       | Inr res \<Rightarrow> runs = [False] \<and> \<not> Reconciliation_Drifted res
           \<and> (\<exists>x\<in>set (b_wallets b). ParseWalletID s = Inr (w_id x) \<and> rn_stored res = w_balance x
                \<and> rn_rebuilt res = w_balance x \<and> rn_entries res = length (entries_of b (w_id x))
                \<and> rn_version res = w_version x))"
proof (cases "\<exists>i j. caller c ScopeWallets = Inr i \<and> ParseWalletID s = Inr j")
  case False
  then consider e where "caller c ScopeWallets = Inl e" |
      i e where "caller c ScopeWallets = Inr i" "ParseWalletID s = Inl e"
    by (metis sum.exhaust)
  then show ?thesis using assms(3) by cases (auto simp: ReconcileWallet_Execute_def)
next
  case True
  then obtain i j where ij: "caller c ScopeWallets = Inr i" "ParseWalletID s = Inr j" by blast
  obtain r w' where run: "Snapshot_Do \<Gamma> c (reconcile_view \<Gamma> j) w = (r, w')" by (metis surj_pair)
  note idle = Snapshot_idle [OF run assms(3)]
  let ?w = "(tick w)\<lparr>in_tx := True, aborted := False\<rparr>"
  have rep: "represents (db ?w) b" using assms(1) by simp
  show ?thesis
  proof (cases r)
    case (Inr res)
    then obtain w2 where "reconcile_view \<Gamma> j c ?w = (Inr res, w2)"
      using run by (auto simp: Snapshot_Do_def pool_Begin_def split: option.splits prod.splits)
    from reconcile_view_ok [OF this rep assms(2)] show ?thesis
      using ij run Inr idle
      by (auto simp: ReconcileWallet_Execute_def Reconciliation_Drifted_def Money_IsZero_def)
  next
    case (Inl e)
    have "\<not> (healthy \<Gamma> \<and> (\<exists>x\<in>set (b_wallets b). w_id x = j))"
    proof
      assume h: "healthy \<Gamma> \<and> (\<exists>x\<in>set (b_wallets b). w_id x = j)"
      then obtain x where x: "x \<in> set (b_wallets b)" "w_id x = j" by blast
      obtain res w2 where "reconcile_view \<Gamma> j c ?w = (Inr res, w2)"
        using reconcile_view_run [OF rep assms(2) x(1), of \<Gamma> c] x(2) h by auto
      then show False using run Inl h by (simp add: Snapshot_Do_def pool_Begin_def healthy_def)
    qed
    then show ?thesis using ij run Inl idle by (auto simp: ReconcileWallet_Execute_def)
  qed
qed


definition auditor :: Identity where
  "auditor = \<lparr>i_subject = ''platform'', i_providerID = ident_zero, i_scopes = [ScopeWallets]\<rparr>"

lemma auditor_caller: "caller (WithIdentity no_caller auditor) ScopeWallets = Inr auditor"
  by (simp add: caller_def WithIdentity_def auditor_def Identity_authorise_def Identity_Has_def)

lemma healthy_calm [simp]: "healthy calm"
  by (simp add: healthy_def calm_def)

lemma demo_wallet_id: "ParseWalletID ''w1'' = Inr (w_id demo_wallet)" "demo_wallet \<in> set (b_wallets demo_bank)"
  by (code_simp, simp add: demo_bank_def)

theorem reconciliation_agrees_witness:
  "\<exists>res w'. ReconcileWallet_Execute calm (WithIdentity no_caller auditor) ''w1'' (start demo_db) = (Inr res, [False], w')
     \<and> rn_stored res = rn_rebuilt res"
proof -
  obtain r runs w' where run:
    "ReconcileWallet_Execute calm (WithIdentity no_caller auditor) ''w1'' (start demo_db) = (r, runs, w')"
    by (metis prod_cases3)
  have "represents (db (start demo_db)) demo_bank" using demo_represents by (simp add: start_def)
  from reconciliation_agrees [OF this demo_bank_ok, of calm "WithIdentity no_caller auditor" "''w1''"]
  show ?thesis
    using run auditor_caller demo_wallet_id by (cases r) fastforce+
qed

lemma reconcile_demo:
  "\<exists>res runs w'. ReconcileWallet_Execute calm (WithIdentity no_caller auditor) ''w1'' (start demo_db) = (Inr res, runs, w')"
proof -
  let ?w = "(tick (start demo_db))\<lparr>in_tx := True, aborted := False\<rparr>"
  have "represents (db ?w) demo_bank" using demo_represents by (simp add: start_def)
  then obtain res w2 where "reconcile_view calm (w_id demo_wallet) (WithIdentity no_caller auditor) ?w = (Inr res, w2)"
    using reconcile_view_run [OF _ demo_bank_ok demo_wallet_id(2)] by fastforce
  then have "Snapshot_Do calm (WithIdentity no_caller auditor) (reconcile_view calm (w_id demo_wallet)) (start demo_db)
      = (Inr res, tx_Rollback (db (start demo_db)) w2)"
    by (simp add: Snapshot_Do_def pool_Begin_def calm_def)
  then show ?thesis by (simp add: ReconcileWallet_Execute_def auditor_caller demo_wallet_id(1))
qed

text \<open>
  Reconciliation reports exactly what is stored, on any data, sound or tampered with: the
  difference it returns is the stored balance minus credits plus debits of that wallet's ledger
  rows, without rounding or wrap-around, and it is counted as drift exactly when the two differ.
\<close>

lemma reconciliation_exact:
  assumes "ReconcileWallet_Execute \<Gamma> c s w = (Inr res, runs, w')"
  shows "ParseWalletID s = Inr (rn_walletID res)
    \<and> balance_value (rn_rebuilt res) = sum_list (map row_delta
         (filter (\<lambda>r. lr_wallet_id r = ident_String (rn_walletID res)) (d_ledger (db w))))
    \<and> balance_value (rn_difference res) = balance_value (rn_stored res) - balance_value (rn_rebuilt res)
    \<and> (\<exists>row\<in>set (d_wallets (db w)). wr_id row = ident_String (rn_walletID res)
         \<and> wr_balance_minor row = minor (rn_stored res))
    \<and> runs = [balance_value (rn_stored res) \<noteq> balance_value (rn_rebuilt res)]"
proof -
  let ?w = "(tick w)\<lparr>in_tx := True, aborted := False\<rparr>"
  obtain i j where ij: "caller c ScopeWallets = Inr i" "ParseWalletID s = Inr j"
    and sn: "Snapshot_Do \<Gamma> c (reconcile_view \<Gamma> j) w = (Inr res, w')" and runs: "runs = [Reconciliation_Drifted res]"
    using assms by (cases "caller c ScopeWallets"; cases "ParseWalletID s")
      (auto simp: ReconcileWallet_Execute_def split: prod.splits sum.splits)
  obtain w2 where v: "reconcile_view \<Gamma> j c ?w = (Inr res, w2)"
    using sn by (auto simp: Snapshot_Do_def pool_Begin_def split: option.splits prod.splits)
  obtain x w3 rebuilt n w4 d now where f: "Wallets_FindByID \<Gamma> j ?w = (Inr x, w3)"
    and sum: "Ledger_SumByWallet \<Gamma> j (currency (w_balance x)) w3 = (Inr (rebuilt, n), w4)"
    and d: "Money_Sub (w_balance x) rebuilt = Inr d"
    and res: "res = \<lparr>rn_walletID = j, rn_stored = w_balance x, rn_rebuilt = rebuilt, rn_difference = d,
            rn_entries = n, rn_version = w_version x, rn_checkedAt = now\<rparr>"
    using v by (auto simp: reconcile_view_def elim!: bindE_okE)
  obtain row where row: "row \<in> set (d_wallets (db w))" "wr_id row = ident_String j" "scanWallet row = Inr x"
    and db3: "db w3 = db w"
    using f by (auto simp: Wallets_FindByID_def select_one_def find_Some_iff elim!: bindE_okE io_translate_okE query_okE
        split: option.splits) (metis nth_mem)
  have "wr_balance_minor row = minor (w_balance x)"
    using row(3)
    by (auto simp: scanWallet_def andThen_Inr_iff RehydrateWallet_def NewMoneyFromMinor_def wrap_def fail_def split: if_splits sum.splits)
  moreover have "balance_value rebuilt = sum_list (map row_delta (filter (\<lambda>r. lr_wallet_id r = ident_String j) (d_ledger (db w))))"
    using sum db3
    by (auto simp: Ledger_SumByWallet_def Let_def NewMoneyFromMinor_def sint_of_int64 elim!: bindE_okE io_translate_okE query_okE
        split: if_splits)
  moreover have "balance_value d = balance_value (w_balance x) - balance_value rebuilt"
    using d by (auto simp: Money_Sub_iff sint64_sub_fits)
  ultimately show ?thesis
    using ij(2) res row(1,2) runs by (auto simp: Reconciliation_Drifted_def IsZero_iff)
qed


lemma reconciliation_exact_witness:
  "\<exists>res runs w'. ReconcileWallet_Execute calm (WithIdentity no_caller auditor) ''w1'' (start demo_db) = (Inr res, runs, w')
     \<and> runs = [balance_value (rn_stored res) \<noteq> balance_value (rn_rebuilt res)]"
  using reconcile_demo reconciliation_exact by blast

section \<open>Paging through a ledger\<close>

text \<open>The numbered entries of one wallet, in the order they were written.\<close>

definition ledger_of :: "bank \<Rightarrow> WalletID \<Rightarrow> (nat \<times> LedgerEntry) list" where
  "ledger_of b i = filter (\<lambda>se. e_walletID (snd se) = i) (b_entries b)"

definition ledger_after :: "bank \<Rightarrow> WalletID \<Rightarrow> int \<Rightarrow> (nat \<times> LedgerEntry) list" where
  "ledger_after b i after = filter (\<lambda>se. after < int (fst se)) (ledger_of b i)"

lemma ledger_sorted: "entries_ok b \<Longrightarrow> sorted_wrt (<) (map fst (ledger_of b i))"
  by (simp add: ledger_of_def entries_ok_def sorted_wrt_map sorted_wrt_filter)

lemma ledger_rows_eq:
  assumes "represents d b" "entries_ok b"
  shows "filter (\<lambda>r. after < int (lr_seq r)) (wallet_ledger_rows (ident_String i) d) = map numbered_row (ledger_after b i after)"
proof -
  have "sorted (map lr_seq (map numbered_row (ledger_of b i)))"
    using ledger_sorted [OF assms(2), of i]
    by (simp add: comp_def numbered_row_def strict_sorted_imp_sorted)
  then have "wallet_ledger_rows (ident_String i) d = map numbered_row (ledger_of b i)"
    unfolding wallet_ledger_rows_def wallet_rows [OF assms(1)] ledger_of_def [symmetric] by (rule sort_key_id_if_sorted)
  then show ?thesis by (simp add: ledger_after_def filter_map comp_def numbered_row_def)
qed

lemma page_rows_ok:
  "\<forall>se\<in>set ses. entry_st (snd se) \<Longrightarrow> length acc \<le> limit \<Longrightarrow>
   page_rows limit acc lastSeq (map numbered_row ses) =
     Inr \<lparr>lp_entries = acc @ map snd (take (limit - length acc) ses),
          lp_next = \<lparr>lc_after = last (lastSeq # map (int \<circ> fst) (take (limit - length acc) ses))\<rparr>,
          lp_hasMore = (limit - length acc < length ses)\<rparr>"
proof (induction ses arbitrary: acc lastSeq)
  case (Cons se ses)
  show ?case
  proof (cases "length acc = limit")
    case False
    then have "limit - length acc = Suc (limit - Suc (length acc))" using Cons.prems by simp
    then show ?thesis
      using Cons False scan_entry_row [of se] by (cases se) auto
  qed simp
qed simp


lemma ListByWallet_run:
  assumes "represents (db w) b" "entries_ok b" "healthy \<Gamma>" "\<not> aborted w" "0 < limit"
  shows "Ledger_ListByWallet \<Gamma> i cursor limit w =
    (let page = take (nat limit) (ledger_after b i (lc_after cursor)) in
     (Inr \<lparr>lp_entries = map snd page, lp_next = \<lparr>lc_after = last (lc_after cursor # map (int \<circ> fst) page)\<rparr>,
           lp_hasMore = (nat limit < length (ledger_after b i (lc_after cursor)))\<rparr>, tick w))"
proof -
  let ?rows = "take (nat limit + 1) (ledger_after b i (lc_after cursor))"
  have "query \<Gamma> (\<lambda>_ d. Inr (take (nat limit + 1)
      (filter (\<lambda>r. lc_after cursor < int (lr_seq r)) (wallet_ledger_rows (ident_String i) d)))) w
      = (Inr (map numbered_row ?rows), (tick w)\<lparr>db := db w\<rparr>)"
    unfolding query_def
    by (rule healthy_stmt [OF assms(3,4)]) (simp add: ledger_rows_eq [OF assms(1,2)] take_map)
  moreover have "\<forall>se\<in>set ?rows. entry_st (snd se)"
    using assms(2) by (auto simp: entries_ok_def ledger_after_def ledger_of_def dest!: in_set_takeD)
  then have "page_rows (nat limit) [] (lc_after cursor) (map numbered_row ?rows) =
     Inr \<lparr>lp_entries = map snd (take (nat limit) ?rows),
          lp_next = \<lparr>lc_after = last (lc_after cursor # map (int \<circ> fst) (take (nat limit) ?rows))\<rparr>,
          lp_hasMore = (nat limit < length ?rows)\<rparr>"
    using page_rows_ok [of ?rows "[]" "nat limit" "lc_after cursor"] by simp
  ultimately show ?thesis
    using assms(5) by (simp add: Ledger_ListByWallet_def bindE_def io_translate_def tick_def Let_def min_def)
qed

text \<open>The entries after the last one of a full page are the entries that follow the page.\<close>

lemma ledger_after_next:
  assumes "entries_ok b" "0 < n" "n < length (ledger_after b i a)"
  shows "ledger_after b i (last (a # map (int \<circ> fst) (take n (ledger_after b i a)))) = drop n (ledger_after b i a)"
proof -
  let ?L = "ledger_after b i a"
  let ?z = "last (a # map (int \<circ> fst) (take n ?L))"
  have sorted: "sorted_wrt (\<lambda>x y. fst x < fst y) ?L"
    using ledger_sorted [OF assms(1), of i] by (simp add: ledger_after_def sorted_wrt_map sorted_wrt_filter)
  have split: "take n ?L = take (n - 1) ?L @ [?L ! (n - 1)]"
    using assms(2,3) take_Suc_conv_app_nth [of "n - 1" ?L] by simp
  then have z: "?z = int (fst (?L ! (n - 1)))" by simp
  have mem: "?L ! (n - 1) \<in> set ?L" using assms(2,3) by simp
  then have "a < ?z" unfolding z by (simp add: ledger_after_def)
  then have "ledger_after b i ?z = filter (\<lambda>se. ?z < int (fst se)) ?L"
    by (auto simp: ledger_after_def intro!: filter_cong)
  also have "\<dots> = filter (\<lambda>se. ?z < int (fst se)) (take n ?L) @ filter (\<lambda>se. ?z < int (fst se)) (drop n ?L)"
    by (metis append_take_drop_id filter_append)
  also have "filter (\<lambda>se. ?z < int (fst se)) (take n ?L) = []"
  proof -
    have "sorted_wrt (\<lambda>x y. fst x < fst y) (take (n - 1) ?L @ [?L ! (n - 1)])"
      using sorted_wrt_take [OF sorted, of n] split by simp
    then show ?thesis unfolding z by (subst split) (auto simp: sorted_wrt_append filter_empty_conv)
  qed
  also have "filter (\<lambda>se. ?z < int (fst se)) (drop n ?L) = drop n ?L"
  proof -
    have "sorted_wrt (\<lambda>x y. fst x < fst y) (take n ?L @ drop n ?L)" using sorted by simp
    then have "\<forall>x\<in>set (take n ?L). \<forall>y\<in>set (drop n ?L). fst x < fst y" unfolding sorted_wrt_append by blast
    moreover have "?L ! (n - 1) \<in> set (take n ?L)" by (subst split) simp
    ultimately show ?thesis unfolding z by (auto simp: filter_id_conv)
  qed
  finally show ?thesis by (simp only: append_Nil)
qed

lemma Ledger_run:
  assumes "represents (db w) b" "bank_ok b" "x \<in> set (b_wallets b)" "healthy \<Gamma>" "idle w"
    "caller c ScopeWallets = Inr i" "ParseWalletID s = Inr (w_id x)" "ledger_limit limit = Inr n"
  shows "WalletQueries_Ledger \<Gamma> c s cursor limit w =
    (let page = take (nat n) (ledger_after b (w_id x) (lc_after cursor)) in
     (Inr \<lparr>lp_entries = map snd page, lp_next = \<lparr>lc_after = last (lc_after cursor # map (int \<circ> fst) page)\<rparr>,
           lp_hasMore = (nat n < length (ledger_after b (w_id x) (lc_after cursor)))\<rparr>, tick (tick w)))"
proof -
  have "0 < n" using assms(8) by (auto simp: ledger_limit_def DefaultLedgerPageSize_def split: if_splits)
  then show ?thesis
    using find_wallet_run [OF assms(1-4)] ListByWallet_run [of "tick w" b \<Gamma> n "w_id x" cursor] assms
    by (simp add: WalletQueries_Ledger_def bindE_def idle_def bank_ok_def)
qed

text \<open>A client that reads page after page, handing back each cursor, until there is no more.\<close>

fun read_ledger :: "nat \<Rightarrow> env \<Rightarrow> ctx \<Rightarrow> string \<Rightarrow> int \<Rightarrow> LedgerCursor \<Rightarrow> LedgerEntry list pgio" where
  "read_ledger 0 \<Gamma> c s limit cursor = throw (OtherErr ''out of requests'')"
| "read_ledger (Suc k) \<Gamma> c s limit cursor =
     bindE (WalletQueries_Ledger \<Gamma> c s cursor limit) (\<lambda>page.
       if lp_hasMore page
       then bindE (read_ledger k \<Gamma> c s limit (lp_next page)) (\<lambda>rest. ret (lp_entries page @ rest))
       else ret (lp_entries page))"

lemma read_ledger_all:
  assumes "represents (db w) b" "bank_ok b" "x \<in> set (b_wallets b)" "healthy \<Gamma>" "idle w"
    "caller c ScopeWallets = Inr i" "ParseWalletID s = Inr (w_id x)" "ledger_limit limit = Inr n"
    "length (ledger_after b (w_id x) (lc_after cursor)) < k"
  shows "\<exists>w'. read_ledger k \<Gamma> c s limit cursor w = (Inr (map snd (ledger_after b (w_id x) (lc_after cursor))), w')
    \<and> idle w' \<and> db w' = db w"
  using assms
proof (induction k arbitrary: cursor w)
  case (Suc k)
  let ?L = "ledger_after b (w_id x) (lc_after cursor)"
  let ?z = "last (lc_after cursor # map (int \<circ> fst) (take (nat n) ?L))"
  have n: "0 < nat n" using Suc.prems(8) by (auto simp: ledger_limit_def DefaultLedgerPageSize_def split: if_splits)
  note run = Ledger_run [OF Suc.prems(1-8), of cursor, unfolded Let_def]
  have w2: "idle (tick (tick w))" "represents (db (tick (tick w))) b" using Suc.prems(1,5) by (simp_all add: idle_def)
  show ?case
  proof (cases "nat n < length ?L")
    case False
    then show ?thesis using run w2 by (simp add: bindE_def)
  next
    case True
    have nx: "ledger_after b (w_id x) ?z = drop (nat n) ?L"
      using ledger_after_next [OF _ n True] Suc.prems(2) by (simp add: bank_ok_def)
    have nx': "ledger_after b (w_id x) (lc_after \<lparr>lc_after = ?z\<rparr>) = drop (nat n) ?L"
      using nx by (simp only: LedgerCursor.select_convs)
    then have "length (ledger_after b (w_id x) (lc_after \<lparr>lc_after = ?z\<rparr>)) < k"
      using Suc.prems(9) n True by simp
    from Suc.IH [OF w2(2) Suc.prems(2-4) w2(1) Suc.prems(6-8) this]
    obtain w' where "read_ledger k \<Gamma> c s limit \<lparr>lc_after = ?z\<rparr> (tick (tick w)) = (Inr (map snd (drop (nat n) ?L)), w')"
      "idle w'" "db w' = db w"
      unfolding nx' by auto
    moreover have "map snd (take (nat n) ?L) @ map snd (drop (nat n) ?L) = map snd ?L"
      by (metis append_take_drop_id map_append)
    ultimately show ?thesis using run True by (simp add: bindE_def)
  qed
qed simp


text \<open>
  C23. Paging neither skips nor repeats. A client with the internal credential that starts with no
  cursor and keeps handing back the cursor of each page until \<open>hasMore\<close> is false, reads every
  entry of the wallet exactly once, in the order they were written, whatever page size up to
  the maximum it asks for; the number of requests is at most one more than the number of entries.
\<close>

theorem ledger_pages_complete:
  assumes "represents (db w) b" "bank_ok b" "x \<in> set (b_wallets b)" "healthy \<Gamma>" "idle w"
    "caller c ScopeWallets = Inr i" "ParseWalletID s = Inr (w_id x)" "limit \<le> MaxLedgerPageSize"
    "\<forall>n\<in>fst ` set (b_entries b). 0 < n"
  shows "\<exists>w'. read_ledger (Suc (length (entries_of b (w_id x)))) \<Gamma> c s limit \<lparr>lc_after = 0\<rparr> w
    = (Inr (entries_of b (w_id x)), w') \<and> db w' = db w"
proof -
  have "ledger_after b (w_id x) 0 = ledger_of b (w_id x)"
    using assms(9) by (auto simp: ledger_after_def ledger_of_def intro!: filter_cong)
  moreover have "map snd (ledger_of b (w_id x)) = entries_of b (w_id x)"
    by (simp only: ledger_of_def entries_of_numbered)
  moreover from this have "length (ledger_of b (w_id x)) = length (entries_of b (w_id x))" by (metis length_map)
  moreover obtain n where "ledger_limit limit = Inr n"
    using assms(8) by (cases "limit \<le> 0") (simp_all add: ledger_limit_def)
  ultimately show ?thesis
    using read_ledger_all [OF assms(1-7), of limit n "\<lparr>lc_after = 0\<rparr>" "Suc (length (entries_of b (w_id x)))"] by auto
qed

theorem ledger_pages_complete_witness:
  "\<exists>w'. read_ledger (Suc (length (entries_of demo_bank (w_id demo_wallet)))) calm (WithIdentity no_caller auditor) ''w1'' 1
     \<lparr>lc_after = 0\<rparr> (start demo_db) = (Inr (entries_of demo_bank (w_id demo_wallet)), w')"
proof -
  have "represents (db (start demo_db)) demo_bank" using demo_represents by (simp add: start_def)
  moreover have "\<forall>n\<in>fst ` set (b_entries demo_bank). 0 < n" by (simp add: demo_bank_def)
  ultimately show ?thesis
    using ledger_pages_complete [of "start demo_db" demo_bank demo_wallet calm "WithIdentity no_caller auditor" auditor
        "''w1''" 1] demo_bank_ok demo_wallet_id auditor_caller
    by (auto simp: MaxLedgerPageSize_def)
qed

end
