(* ===== verification/Submission.thy ===== *)
theory Submission
  imports Submit Queries
begin

text \<open>
  Properties of a submission as a whole (\<open>internal/app/submit.go\<close>): what it leaves behind when it
  is refused, that an operation is applied at most once however often it is submitted, and which
  outcome a bet, a win and a loss have.
\<close>

section \<open>A refusal leaves no trace\<close>

text \<open>
  A computation that reports a business rule reports it before it writes. The queue relies on it:
  it commits its own record of the message beside an operation the domain refused.
\<close>

definition traceless :: "'a pgio \<Rightarrow> database world \<Rightarrow> bool" where
  "traceless m w \<longleftrightarrow> (\<forall>e w'. m w = (Inl e, w') \<longrightarrow> as_domain e \<noteq> None \<longrightarrow> same_world w w')"

definition technical :: "'a pgio \<Rightarrow> database world \<Rightarrow> bool" where
  "technical m w \<longleftrightarrow> (\<forall>e w'. m w = (Inl e, w') \<longrightarrow> as_domain e = None)"

lemma technical_traceless: "technical m w \<Longrightarrow> traceless m w"
  by (simp add: technical_def traceless_def)

lemma technical_bind:
  "technical m w \<Longrightarrow> (\<And>x w1. m w = (Inr x, w1) \<Longrightarrow> technical (f x) w1) \<Longrightarrow> technical (bindE m f) w"
  by (auto simp: technical_def elim!: bindE_errE)

lemma traceless_bind:
  assumes "traceless m w" "\<And>x w1. m w = (Inr x, w1) \<Longrightarrow> same_world w w1 \<and> traceless (f x) w1"
  shows "traceless (bindE m f) w"
  unfolding traceless_def
proof (intro allI impI)
  fix e w'
  assume run: "bindE m f w = (Inl e, w')" and e: "as_domain e \<noteq> None"
  from run show "same_world w w'"
  proof (cases rule: bindE_errE)
    case first
    then show ?thesis using assms(1) e by (auto simp: traceless_def)
  next
    case (rest x w1)
    then show ?thesis using assms(2) [OF rest(1)] e same_world_trans by (auto simp: traceless_def)
  qed
qed

lemma traceless_lift [simp]: "traceless (lift r) w" "traceless (ret x) w" "traceless (throw e) w"
  "technical (ret x) w"
  by (auto simp: traceless_def technical_def)

lemma traceless_same: "(\<And>r w'. m w = (r, w') \<Longrightarrow> same_world w w') \<Longrightarrow> traceless m w"
  by (auto simp: traceless_def)

lemma technical_writes:
  "technical (Transactions_Insert \<Gamma> t) w" "technical (Wallets_UpdateBalance \<Gamma> x v) w" "technical (Ledger_Append \<Gamma> l) w"
  by (auto simp: technical_def dest: write_errors)

lemma technical_emit:
  assumes "tx_ok t" "moved \<longrightarrow> \<not> ident_IsZero (w_id x) \<and> entry_ok l \<and> e_walletID l = w_id x \<and> e_balanceAfter l = w_balance x"
  shows "technical (emit \<Gamma> c t x l moved) w"
  using emit_error eventsForOutcome_ok [OF assms] by (auto simp: technical_def)

lemma technical_record: "tx_ok t \<Longrightarrow> technical (record_unmoved \<Gamma> c t x) w"
  unfolding record_unmoved_def by (intro technical_bind technical_writes technical_emit) auto

lemma rejection_traceless:
  assumes "tx_storable r" "time_set at" "proper_code rc"
  shows "traceless (recordReversalRejection \<Gamma> c r rc x at) w"
  unfolding recordReversalRejection_def
  using rejected_tx [OF _ assms]
  by (intro traceless_bind) (auto intro!: technical_traceless technical_record simp: tx_storable_def)

lemma moved_emit:
  assumes "Wallet_move x d eid tid amount at = Inr mv" "wallet_ok x" "tx_ok t"
  shows "technical (emit \<Gamma> c t (mv_wallet mv) (mv_entry mv) True) w"
  using Wallet_move_effect [OF assms(1,2)] assms
  by (intro technical_emit) (auto simp: wallet_ok_def)

lemma apply_movement_traceless:
  assumes t: "tx_storable t" "t_kind t \<noteq> KindOpening" "\<not> Kind_IsReversal (t_kind t)"
    and at: "time_set at" and x: "wallet_ok x"
  shows "traceless (apply_movement \<Gamma> c t x (t_id t) at) w"
proof -
  have kv: "Kind_Valid (t_kind t)" using t(1) by (simp add: tx_storable_def tx_ok_def tx_shape_def)
  obtain q w1 where m: "Submit_movement \<Gamma> c x t (t_id t) at w = (q, w1)" by (metis surj_pair)
  show ?thesis
  proof (cases q)
    case (Inl cause)
    note e = Submit_movement_err [OF m [unfolded Inl]]
    have "traceless (bindE (lift (Submit_reject t cause at)) (\<lambda>rejected. record_unmoved \<Gamma> c rejected x)) w1"
    proof (intro traceless_bind)
      fix t' w2
      assume "lift (Submit_reject t cause at) w1 = (Inr t', w2)"
      then have "w2 = w1" "\<exists>rc. as_domain cause = Some rc \<and> Tx_Reject t rc at = Inr t'"
        by (auto simp: Submit_reject_def split: option.splits)
      then show "same_world w1 w2 \<and> traceless (record_unmoved \<Gamma> c t' x) w2"
        using rejected_tx [OF _ t(1) at] e
        by (auto simp: coded_def tx_storable_def intro!: technical_traceless technical_record)
    qed simp
    then show ?thesis
      using e same_world_trans by (auto simp: traceless_def apply_movement_def handle_def m Inl)
  next
    case (Inr movement)
    note mv = Submit_movement_ok [OF m [unfolded Inr] t(2,3) kv]
    have "traceless (bindE (lift (Tx_MarkProcessed t (balanceAfter x movement) at)) (\<lambda>applied.
             case movement of
               None \<Rightarrow> record_unmoved \<Gamma> c applied x
             | Some m \<Rightarrow>
                 bindE (Transactions_Insert \<Gamma> applied) (\<lambda>_.
                 bindE (Wallets_UpdateBalance \<Gamma> (mv_wallet m) (w_version x)) (\<lambda>_.
                 bindE (Ledger_Append \<Gamma> (mv_entry m)) (\<lambda>_.
                 bindE (emit \<Gamma> c applied (mv_wallet m) (mv_entry m) True) (\<lambda>_.
                   ret (answer applied (w_balance (mv_wallet m))))))))) w1" (is "traceless (bindE ?p ?k) w1")
    proof (intro traceless_bind)
      fix t' w2
      assume "?p w1 = (Inr t', w2)"
      then have "tx_ok t'" "w2 = w1" using processed_tx [OF _ t(1) at] by (auto simp: tx_storable_def)
      moreover from this have "technical (?k t') w1"
        using mv moved_emit [OF _ x]
        by (cases movement) (auto intro!: technical_record technical_bind technical_writes)
      ultimately show "same_world w1 w2 \<and> traceless (?k t') w2" by (simp add: technical_traceless)
    qed simp
    then show ?thesis
      using mv same_world_trans by (auto simp: traceless_def apply_movement_def handle_def m Inr)
  qed
qed

lemma waiting_same:
  "ReferencePolicy_nextAttemptAt \<Gamma> (ReferencePolicy_normalised p) at 1 w = (q, w') \<Longrightarrow>
     same_world w (w' :: database world) \<and> (\<exists>nx. q = Inr nx)"
  using ref_policy.next_at_ok [of 1 \<Gamma> p at w] by auto

lemma Submit_resolve_traceless:
  assumes rep: "represents (db w) b" "bank_ok b" and x: "x \<in> set (b_wallets b)" "w_id x = t_walletID r"
    and r: "tx_storable r" "t_kind r \<noteq> KindOpening" "t_referenceAttempts r = 0"
      "\<not> ident_IsZero (t_providerID r)" "\<not> ident_IsZero (t_referenceExternalID r)" and at: "time_set at"
  shows "traceless (Submit_resolve \<Gamma> (ReferencePolicy_normalised pol) c r x at) w"
  unfolding Submit_resolve_def
proof (intro traceless_bind)
  show "traceless (resolveReference \<Gamma> r) w"
    using resolveReference_err [OF _ rep(1)] by (auto simp: traceless_def)
  fix dec w1
  assume d: "resolveReference \<Gamma> r w = (Inr dec, w1)"
  have txs: "txs_ok b" and wok: "wallet_ok x" using rep(2) x(1) by (auto simp: bank_ok_def wallets_ok_def wallet_st_def)
  have same: "same_world w w1" and dec: "dec = decision (b_txs b) r"
    using resolveReference_ok [OF d rep(1) txs r(4,5)] by auto
  have rep1: "represents (db w1) b" using rep(1) same by (simp add: same_world_def)
  have "traceless (case dec of
         ResolveWait \<Rightarrow>
           bindE (ReferencePolicy_nextAttemptAt \<Gamma> (ReferencePolicy_normalised pol) at 1) (\<lambda>next.
           bindE (lift (Tx_MarkPendingReference r at next (time_Add at (rp_TTL (ReferencePolicy_normalised pol))))) (\<lambda>parked.
             record_unmoved \<Gamma> c parked x))
       | ResolveReject rc \<Rightarrow> recordReversalRejection \<Gamma> c r rc x at
       | ResolveApply reference d \<Rightarrow>
           handle (applyReversal \<Gamma> c r reference d x at) (\<lambda>r'.
             case r' of
               Inl e \<Rightarrow>
                 (case as_domain e of
                    None \<Rightarrow> throw e
                  | Some rc \<Rightarrow> recordReversalRejection \<Gamma> c r rc x at)
             | Inr (applied, movement) \<Rightarrow>
                 bindE (emit \<Gamma> c applied (mv_wallet movement) (mv_entry movement) True) (\<lambda>_.
                   ret (answer applied (w_balance (mv_wallet movement)))))) w1" (is "traceless ?body w1")
  proof (cases dec)
    case ResolveWait
    show ?thesis unfolding ResolveWait resolution.case
    proof (intro traceless_bind)
      show "traceless (ReferencePolicy_nextAttemptAt \<Gamma> (ReferencePolicy_normalised pol) at 1) w1"
        using waiting_same by (intro traceless_same) blast
      fix nx w2
      assume n: "ReferencePolicy_nextAttemptAt \<Gamma> (ReferencePolicy_normalised pol) at 1 w1 = (Inr nx, w2)"
      note ns = nextAttemptAt_ok [OF n _ at]
      have "traceless (record_unmoved \<Gamma> c t' x) w3"
        if "Tx_MarkPendingReference r at nx (time_Add at (rp_TTL (ReferencePolicy_normalised pol))) = Inr t'" for t' w3
        using parked_tx [OF that r(1) at _ deadline_set [OF at]] ns
        by (auto simp: tx_storable_def intro!: technical_traceless technical_record)
      then show "same_world w1 w2 \<and> traceless (bindE (lift (Tx_MarkPendingReference r at nx
          (time_Add at (rp_TTL (ReferencePolicy_normalised pol))))) (\<lambda>parked. record_unmoved \<Gamma> c parked x)) w2"
        using ns by (auto intro!: traceless_bind)
    qed
  next
    case (ResolveReject rc)
    then have "proper_code rc" using decision_code [of "b_txs b" r rc] dec proper_code_constants by simp
    then show ?thesis using rejection_traceless [OF r(1) at] ResolveReject by simp
  next
    case (ResolveApply ref dir)
    obtain q w2 where q: "applyReversal \<Gamma> c r ref dir x at w1 = (q, w2)" by (metis surj_pair)
    show ?thesis
    proof (cases q)
      case (Inl e)
      note q' = q [unfolded Inl]
      show ?thesis
      proof (cases "as_domain e")
        case None
        then show ?thesis by (simp add: traceless_def ResolveApply handle_def q Inl)
      next
        case (Some rc)
        then have "traceless (recordReversalRejection \<Gamma> c r rc x at) w2" "same_world w1 w2"
          using applyReversal_coded [OF q'] applyReversal_domain_err [OF q'] rejection_traceless [OF r(1) at]
          by (auto simp: coded_def)
        then show ?thesis
          using same_world_trans by (auto simp: traceless_def ResolveApply handle_def q Inl Some)
      qed
    next
      case (Inr am)
      obtain t' mv where am: "am = (t', mv)" by (cases am)
      have ih: "in_hand b r" using r by (simp add: in_hand_def)
      have da: "decision (b_txs b) r = ResolveApply ref dir" using dec ResolveApply by simp
      obtain eid where "tx_ok t'" "Wallet_move x dir eid (t_id r) (t_money r) at = Inr mv"
        using applyReversal_ok [OF q [unfolded Inr am] rep1 rep(2) x ih da at] by blast
      then have "technical (bindE (emit \<Gamma> c t' (mv_wallet mv) (mv_entry mv) True)
          (\<lambda>_. ret (answer t' (w_balance (mv_wallet mv))))) w2"
        by (intro technical_bind moved_emit [OF _ wok]) auto
      then show ?thesis by (auto simp: traceless_def technical_def ResolveApply handle_def q Inr am)
    qed
  qed
  then show "same_world w w1 \<and> traceless ?body w1" using same by simp
qed

lemma traceless_wrap_ids: "traceless (io_wrap (ids_NewTransactionID \<Gamma> c)) w"
  by (intro traceless_same) (auto simp: io_wrap_def dest: ids_same(2) split: prod.splits sum.splits)

lemma Submit_apply_traceless:
  assumes rep: "represents (db w) b" "bank_ok b" and p: "parsed_ok p" and clock: "\<And>n. time_set (env_now \<Gamma> n)"
  shows "traceless (Submit_apply \<Gamma> (ReferencePolicy_normalised pol) c p) w"
  unfolding Submit_apply_def
proof (rule traceless_bind [OF traceless_wrap_ids], rule conjI, goal_cases)
  case (1 txID w1)
  then show ?case by (auto elim!: io_wrap_okE dest: ids_same(2))
next
  case (2 txID w1)
  then have id: "ids_NewTransactionID \<Gamma> c w = (Inr txID, w1)" by (auto elim: io_wrap_okE)
  show ?case
  proof (rule traceless_bind, goal_cases)
    case 1
    show ?case by (intro traceless_same) (rule clock_Now_same)
  next
    case (2 at w2)
    then have at: "time_set at" and same: "same_world w1 w2" using clock by (auto simp: clock_Now_def)
    have rep2: "represents (db w2) b"
      using rep(1) ids_same(2) [OF id] same by (simp add: same_world_def)
    have "traceless (Wallets_FindByIDForUpdate \<Gamma> (ps_walletID p)) w2"
      using find_wallet_err [OF _ rep2] by (auto simp: traceless_def)
    moreover have "same_world w2 w3 \<and> traceless (if w_playerID x \<noteq> ps_playerID p then throw (Wrapped ErrInvalidInput)
       else if Kind_IsReversal (t_kind t) then Submit_resolve \<Gamma> (ReferencePolicy_normalised pol) c t x at
       else apply_movement \<Gamma> c t x txID at) w3"
      if t: "NewExternalTransaction (external_params p txID at) = Inr t"
        and f: "Wallets_FindByIDForUpdate \<Gamma> (ps_walletID p) w2 = (Inr x, w3)" for t x w3
    proof -
      note nt = new_tx [OF t p ids_ok(2) [OF id] at] and fx = find_wallet_ok [OF f rep2]
      have "represents (db w3) b" using rep2 fx by (simp add: same_world_def)
      then have "traceless (Submit_resolve \<Gamma> (ReferencePolicy_normalised pol) c t x at) w3" if "Kind_IsReversal (t_kind t)"
        by (rule Submit_resolve_traceless [OF _ rep(2)]) (use nt fx at that in auto)
      moreover have "traceless (apply_movement \<Gamma> c t x txID at) w3" if "\<not> Kind_IsReversal (t_kind t)"
        using apply_movement_traceless [of t at x \<Gamma> c w3] nt fx at that by (auto simp: wallet_st_def)
      ultimately show ?thesis using fx by simp
    qed
    ultimately show ?case using same by (auto intro!: traceless_bind)
  qed
qed

lemma ExecuteIn_traceless:
  assumes rep: "represents (db w) b" "bank_ok b" and clock: "\<And>n. time_set (env_now \<Gamma> n)"
  shows "traceless (ExecuteIn \<Gamma> (ReferencePolicy_normalised pol) cmd c) w"
  unfolding ExecuteIn_def
proof (intro traceless_bind; (intro traceless_lift)?; goal_cases)
  case (1 i w1)
  then have [simp]: "w1 = w" by simp
  have "traceless (handle (Transactions_FindByBusinessID \<Gamma> (ps_providerID p) (ps_externalID p)) (\<lambda>r.
         case r of
           Inr existing \<Rightarrow> lift (Submit_replay existing p)
         | Inl e \<Rightarrow> if \<not> errors_Is e ErrNotFound then throw e
             else Submit_apply \<Gamma> (ReferencePolicy_normalised pol) c p)) w" (is "traceless (handle ?f ?k) w")
    if p: "Submit_parse cmd = Inr p" for p
  proof -
    obtain q w2 where q: "Transactions_FindByBusinessID \<Gamma> (ps_providerID p) (ps_externalID p) w = (q, w2)"
      by (metis surj_pair)
    show ?thesis
    proof (cases q)
      case (Inr x)
      then show ?thesis
        using find_business_ok [OF q [unfolded Inr] rep(1)] by (auto simp: traceless_def handle_def q)
    next
      case (Inl e)
      note fb = find_business_err [OF q [unfolded Inl] rep(1)]
      show ?thesis
      proof (cases "errors_Is e ErrNotFound")
        case True
        then have s: "same_world w w2" using fb by simp
        then have "represents (db w2) b" using rep(1) by (simp add: same_world_def)
        then have "traceless (Submit_apply \<Gamma> (ReferencePolicy_normalised pol) c p) w2"
          using Submit_apply_traceless [OF _ rep(2) _ clock] Submit_parse_ok [OF p] by simp
        then show ?thesis
          using True s same_world_trans by (auto simp: traceless_def handle_def q Inl)
      next
        case False
        then show ?thesis using fb by (auto simp: traceless_def handle_def q Inl)
      qed
    qed
  qed
  then show ?case by (auto intro!: traceless_bind)
qed

section \<open>A submission refines the specification\<close>

text \<open>
  A first outcome, as the stored data shows it: one commit of the books that stores the
  transaction the command asked for, and the events of that outcome in the outbox.
\<close>

definition applied_once :: "ctx \<Rightarrow> bank \<Rightarrow> parsedSubmit \<Rightarrow> SubmitResult \<Rightarrow> database \<Rightarrow> database \<Rightarrow> bool" where
  "applied_once c b p res d d' \<longleftrightarrow>
     \<not> sr_replay res \<and> business_new b p \<and> requested p (sr_transaction res)
     \<and> t_status (sr_transaction res) \<in> {StatusProcessed, StatusRejected, StatusPendingReference}
     \<and> (\<exists>b'. represents d' b' \<and> commit b b' \<and> b_txs b' = put_tx (b_txs b) (trunc_tx (sr_transaction res)))
     \<and> d_inbox d' = d_inbox d
     \<and> (\<exists>wallet entry events rows. eventsForOutcome (sr_transaction res) wallet entry (moved_money (sr_transaction res)) = Inr events
          \<and> d_outbox d' = d_outbox d @ rows \<and> list_all2 (carries c) events rows)"

definition may_submit :: "ctx \<Rightarrow> parsedSubmit \<Rightarrow> bool" where
  "may_submit c p \<longleftrightarrow> (\<exists>i. c_identity c = Some i \<and> ScopeSubmit \<in> set (i_scopes i) \<and> i_providerID i = ps_providerID p)"

text \<open>What one committed run of a submission did, from the data it started on.\<close>

definition submission :: "ctx \<Rightarrow> bank \<Rightarrow> SubmitCommand \<Rightarrow> SubmitResult \<Rightarrow> database \<Rightarrow> database \<Rightarrow> bool" where
  "submission c b cmd res d d' \<longleftrightarrow>
     (\<exists>p. Submit_parse cmd = Inr p \<and> may_submit c p
        \<and> (if sr_replay res then replayed b p res \<and> same_data d d' else applied_once c b p res d d'))"

lemma carries_inside [simp]: "carries (c\<lparr>c_insideUnitOfWork := True\<rparr>) = carries c"
  by (intro ext) (simp add: carries_def)

lemma settles_applied:
  assumes "submitted c b p res w w'" "\<not> sr_replay res" "same_data d (db w)"
  shows "applied_once c b p res d (db w')"
proof -
  have "d_inbox (db w) = d_inbox d" "d_outbox (db w) = d_outbox d" using assms(3) by (auto simp: same_data_iff)
  moreover have "settles c b (sr_transaction res) w w'" "business_new b p" "requested p (sr_transaction res)"
    "t_status (sr_transaction res) \<in> {StatusProcessed, StatusRejected, StatusPendingReference}"
    using assms(1,2) by (auto simp: submitted_def)
  ultimately show ?thesis
    using assms(2) unfolding applied_once_def settles_def by metis
qed

lemma ran_submission:
  assumes ran: "ran_once c (assigning (ExecuteIn \<Gamma> (ReferencePolicy_normalised pol) cmd) no_result) d res d'"
    and rep: "represents d b" "bank_ok b" and clock: "clock_ok \<Gamma>"
  shows "submission c b cmd res d d'"
proof -
  obtain w1 w2 where sd: "same_data d (db w1)" and d': "d' = db w2"
    and run: "ExecuteIn \<Gamma> (ReferencePolicy_normalised pol) cmd (c\<lparr>c_insideUnitOfWork := True\<rparr>) w1 = (Inr res, w2)"
    using ran by (auto simp: ran_once_def assigning_ok)
  have "represents (db w1) b" using rep(1) sd same_data_bank represents_same_bank by blast
  from ExecuteIn_ok [OF run this rep(2) clock_okD [OF clock]] obtain p where
    p: "Submit_parse cmd = Inr p" "may_submit c p" "submitted (c\<lparr>c_insideUnitOfWork := True\<rparr>) b p res w1 w2"
    by (auto simp: may_submit_def)
  show ?thesis
  proof (cases "sr_replay res")
    case True
    then have "replayed b p res" "db w2 = db w1" using p(3) by (auto simp: submitted_def same_world_def)
    then show ?thesis using p True sd d' by (auto simp: submission_def)
  next
    case False
    then have "applied_once c b p res d d'"
      using settles_applied [OF p(3) False sd] d' by (simp add: applied_once_def)
    then show ?thesis using p False by (auto simp: submission_def)
  qed
qed

lemma find_business_idle_ok:
  assumes "Transactions_FindByBusinessID \<Gamma> pr ext w = (Inr t, w')" "represents (db w) b" "idle w"
  shows "t \<in> set (b_txs b) \<and> t_providerID t = pr \<and> t_externalID t = ext \<and> idle w' \<and> db w' = db w"
  using find_business_ok [OF assms(1,2)] find_business_idle [OF assms(1,3)] by simp

lemma submission_refined:
  assumes "idle w" "clock_ok \<Gamma>" "represents (db w) b" "bank_ok b"
    and run: "Submit_execute \<Gamma> retry (ReferencePolicy_normalised pol) c cmd w = (r, w')"
  shows "idle w' \<and>
    (case r of
       Inr res \<Rightarrow> (\<exists>p. Submit_parse cmd = Inr p \<and>
          (if sr_replay res then replayed b p res \<and> same_data (db w) (db w')
           else may_submit c p \<and> applied_once c b p res (db w) (db w')))
     | Inl e \<Rightarrow> same_data (db w) (db w')
         \<or> (\<exists>s n res. e = OtherErr s \<and> env_commit \<Gamma> n = CommitUnknown s True \<and> submission c b cmd res (db w) (db w')))"
proof -
  let ?fn = "assigning (ExecuteIn \<Gamma> (ReferencePolicy_normalised pol) cmd) no_result"
  obtain q v w1 where d: "UnitOfWork_Do \<Gamma> retry c ?fn no_result w = (q, v, w1)" by (metis prod_cases3)
  note eff = do_effect [OF d assms(1)]
  show ?thesis
  proof (cases q)
    case (Inr u)
    then have "r = Inr v" "w' = w1" using run d by (simp_all add: Submit_execute_def)
    moreover have "submission c b cmd v (db w) (db w1)" "idle w1"
      using ran_submission [OF _ assms(3,4,2)] eff Inr by auto
    ultimately show ?thesis by (auto simp: submission_def split: if_splits)
  next
    case (Inl e)
    show ?thesis
    proof (cases "errors_Is e ErrConflict \<and> as_constraint e \<noteq> Some constraintIdempotencyKey")
      case False
      then have "\<exists>e'. r = Inl e' \<and> (e' = e \<or> errors_Is e ErrConflict)" "w' = w1"
        using run d Inl by (auto simp: Submit_execute_def split: if_splits)
      then show ?thesis
        using eff Inl ran_submission [OF _ assms(3,4,2)] by (fastforce split: sum.splits)
    next
      case True
      then have sd: "same_data (db w) (db w1)" and idle: "idle w1" using eff Inl by auto
      have rep: "represents (db w1) b" using assms(3) sd same_data_bank represents_same_bank by blast
      show ?thesis
      proof (cases "Submit_parse cmd")
        case (Inl pe)
        then show ?thesis using run d \<open>q = Inl e\<close> True sd idle by (auto simp: Submit_execute_def)
      next
        case (Inr p)
        obtain f w2 where f: "Transactions_FindByBusinessID \<Gamma> (ps_providerID p) (ps_externalID p) w1 = (f, w2)"
          by (metis surj_pair)
        have w2: "idle w2" "db w2 = db w1" using find_business_idle [OF f idle] by auto
        have out: "w' = w2" "r = (case f of Inl _ \<Rightarrow> Inl e | Inr x \<Rightarrow> Submit_replay x p)"
          using run d \<open>q = Inl e\<close> True Inr f by (auto simp: Submit_execute_def split: sum.splits)
        have "replayed b p res \<and> sr_replay res" if "f = Inr x" "Submit_replay x p = Inr res" for x res
          using find_business_idle_ok [OF f [unfolded that(1)] rep idle] that(2)
          by (auto simp: replayed_def Submit_replay_def split: if_splits)
        then have "replayed b p res \<and> sr_replay res" if "r = Inr res" for res
          using that out(2) by (cases f) auto
        then show ?thesis using out(1) w2 sd Inr by (cases r) auto
      qed
    qed
  qed
qed

text \<open>
  C24. A submission over HTTP refines the specification of the books. Whatever the database and
  the commit do, no transaction is left open. A result is either a replay, which answers from
  the stored transaction with the same business identity, content and key and changes nothing,
  or a first outcome: then the business identity was new, the caller held the submit scope of
  that very provider, and the stored data moved by exactly one commit of the specification
  that records the requested transaction, together with its events. An error leaves the data
  as it was, unless the answer of the commit was lost, and then the effect is again a complete
  submission.
\<close>

theorem submission_refines:
  assumes "idle w" "clock_ok \<Gamma>" "represents (db w) b" "bank_ok b"
    and run: "Submit_execute \<Gamma> retry (ReferencePolicy_normalised pol) c cmd w = (r, w')"
  shows "idle w' \<and>
    (case r of
       Inr res \<Rightarrow> (\<exists>p. Submit_parse cmd = Inr p \<and>
          (if sr_replay res then replayed b p res \<and> same_data (db w) (db w')
           else may_submit c p \<and> applied_once c b p res (db w) (db w')))
     | Inl e \<Rightarrow> same_data (db w) (db w')
         \<or> (\<exists>s n res. e = OtherErr s \<and> env_commit \<Gamma> n = CommitUnknown s True \<and> submission c b cmd res (db w) (db w')))"
  by (rule submission_refined [OF assms])

definition demo_provider :: ctx where
  "demo_provider = WithIdentity no_caller
     \<lparr>i_subject = ''client'', i_providerID = Identifier ''prov'', i_scopes = [ScopeSubmit]\<rparr>"

definition demo_command :: SubmitCommand where
  "demo_command =
     \<lparr>sc_idempotencyKey = ''k2'', sc_providerID = ''prov'', sc_externalID = ''x2'', sc_playerID = ''p1'',
      sc_walletID = ''w1'', sc_roundID = ''r1'', sc_gameID = ''g1'', sc_kind = ''ROLLBACK'', sc_amount = ''5.00'',
      sc_currency = ''BRL'', sc_referenceExternalID = ''x1''\<rparr>"

theorem submission_refines_witness:
  "\<exists>r w'. Submit_execute calm DefaultRetryPolicy (ReferencePolicy_normalised DefaultReferencePolicy) demo_provider
      demo_command (start demo_db) = (r, w') \<and> idle w' \<and>
    (case r of
       Inr res \<Rightarrow> (\<exists>p. Submit_parse demo_command = Inr p \<and>
          (if sr_replay res then replayed demo_bank p res \<and> same_data demo_db (db w')
           else may_submit demo_provider p \<and> applied_once demo_provider demo_bank p res demo_db (db w')))
     | Inl e \<Rightarrow> same_data demo_db (db w'))"
proof -
  obtain r w' where run: "Submit_execute calm DefaultRetryPolicy (ReferencePolicy_normalised DefaultReferencePolicy)
      demo_provider demo_command (start demo_db) = (r, w')" by (metis surj_pair)
  have n: "env_commit calm n \<noteq> CommitUnknown s a" for n s a by (simp add: calm_def)
  have d: "db (start demo_db) = demo_db" by (simp add: start_def)
  have rep: "represents (db (start demo_db)) demo_bank" by (simp add: d demo_represents)
  note s = submission_refines [OF idle_start clock_ok_calm rep demo_bank_ok run, unfolded d]
  show ?thesis using run s n by (cases r) auto
qed

section \<open>Exactly once\<close>

lemma business_found:
  assumes "healthy \<Gamma>" "represents (db w) b" "txs_ok b" "\<not> aborted w" "t \<in> set (b_txs b)"
    "\<not> ident_IsZero (t_providerID t)" "\<not> ident_IsZero (t_externalID t)"
  shows "Transactions_FindByBusinessID \<Gamma> (t_providerID t) (t_externalID t) w = (Inr t, tick w)"
proof -
  have "(tr_provider_id (tx_row_of y) = Some (ident_String (t_providerID t))
        \<and> tr_external_id (tx_row_of y) = Some (ident_String (t_externalID t)))
      = (t_providerID y = t_providerID t \<and> t_externalID y = t_externalID t)" for y
    using assms(6,7) by (auto simp: tx_row_of_def ident_IsZero_def)
  then show ?thesis
    using tt.lookup_clean [of w "b_txs b" \<Gamma> "\<lambda>r. tr_provider_id r = Some (ident_String (t_providerID t))
        \<and> tr_external_id r = Some (ident_String (t_externalID t))"] assms business_unique [OF assms(3,5,6)]
    by (simp add: find_tx_eq represents_def healthy_def)
qed

lemma Submit_replay_err: "Submit_replay t p = Inl e \<Longrightarrow> e = Wrapped ErrConflict"
  by (auto simp: Submit_replay_def split: if_splits)

text \<open>A unit of work whose callback only reads, on a database that answers.\<close>

lemma do_read:
  assumes "healthy \<Gamma>" "\<not> c_insideUnitOfWork c"
    and fn: "fn (c\<lparr>c_insideUnitOfWork := True\<rparr>) v ((tick w)\<lparr>in_tx := True, aborted := False\<rparr>) = (r, v', w1)"
    and "db w1 = db w" "\<not> aborted w1" "\<And>e. r = Inl e \<Longrightarrow> \<not> transient e"
  shows "\<exists>w'. UnitOfWork_Do \<Gamma> retry c fn v w = (r, v', w') \<and> db w' = db w \<and> idle w'"
proof -
  have "pool_Begin \<Gamma> w = (Inr (), (tick w)\<lparr>in_tx := True, aborted := False\<rparr>)"
    using assms(1) by (simp add: pool_Begin_def healthy_def)
  then have "\<exists>w'. attempt \<Gamma> c fn v w = (r, v', w') \<and> db w' = db w \<and> idle w'"
    using assms(1,4,5) fn
    by (cases r) (auto simp: attempt_def tx_Commit_def healthy_def idle_def undo_def)
  then show ?thesis
    using assms(2,6) by (cases r) (auto simp: UnitOfWork_Do_def do_loop.simps)
qed

text \<open>What a stored transaction answers, as a lemma for the ports.\<close>

lemma stored_answer:
  assumes "healthy \<Gamma>" "idle w" "represents (db w) b" "bank_ok b" "t \<in> set (b_txs b)"
    "Submit_parse cmd = Inr p" "t_providerID t = ps_providerID p" "t_externalID t = ps_externalID p"
    "may_submit c p" "\<not> c_insideUnitOfWork c"
  shows "\<exists>w'. Submit_execute \<Gamma> retry waiting c cmd w =
      ((if t_payloadHash t = ps_hash p \<and> t_idempotencyKey t = ps_key p
        then Inr \<lparr>sr_transaction = t, sr_balance = t_balanceAfter t, sr_replay = True\<rparr>
        else Inl (Wrapped ErrConflict)), w')
    \<and> idle w' \<and> db w' = db w"
proof -
  have nz: "\<not> ident_IsZero (t_providerID t)" "\<not> ident_IsZero (t_externalID t)"
    using Submit_parse_ok [OF assms(6)] assms(7,8) by (auto simp: parsed_ok_def ident_ok_def ident_IsZero_def)
  have txs: "txs_ok b" using assms(4) by (simp add: bank_ok_def)
  have found: "Transactions_FindByBusinessID \<Gamma> (ps_providerID p) (ps_externalID p) v = (Inr t, tick v)"
    if "db v = db w" "\<not> aborted v" for v
    using business_found [of \<Gamma> v b t] assms(1,3,5,7,8) txs nz that by simp
  obtain i where i: "c_identity c = Some i" "ScopeSubmit \<in> set (i_scopes i)" "i_providerID i = ps_providerID p"
    using assms(9) by (auto simp: may_submit_def)
  let ?w1 = "(tick w)\<lparr>in_tx := True, aborted := False\<rparr>"
  let ?c = "c\<lparr>c_insideUnitOfWork := True\<rparr>"
  have "caller ?c ScopeSubmit = Inr i" using i by (simp add: caller_def Identity_authorise_def Identity_Has_def)
  moreover have "Identity_mayActAs i (ps_providerID p) = Inr ()" using i(3) nz assms(7) by (simp add: mayActAs_iff)
  ultimately have ex: "ExecuteIn \<Gamma> waiting cmd ?c ?w1 = (Submit_replay t p, tick ?w1)"
    using assms(6) found [of ?w1] by (simp add: ExecuteIn_def handle_def)
  show ?thesis
  proof (cases "Submit_replay t p")
    case (Inr res)
    then have "assigning (ExecuteIn \<Gamma> waiting cmd) no_result ?c no_result ?w1 = (Inr (), res, tick ?w1)"
      using ex by (simp add: assigning_def)
    from do_read [where fn = "assigning (ExecuteIn \<Gamma> waiting cmd) no_result" and c = c and retry = retry, OF assms(1,10) this]
    obtain w' where "UnitOfWork_Do \<Gamma> retry c (assigning (ExecuteIn \<Gamma> waiting cmd) no_result) no_result w = (Inr (), res, w')"
      "db w' = db w" "idle w'" by auto
    then show ?thesis using Inr by (auto simp: Submit_execute_def Submit_replay_def split: if_splits)
  next
    case (Inl e)
    have e: "e = Wrapped ErrConflict" by (rule Submit_replay_err [OF Inl])
    have "assigning (ExecuteIn \<Gamma> waiting cmd) no_result ?c no_result ?w1 = (Inl e, no_result, tick ?w1)"
      using ex Inl by (simp add: assigning_def)
    from do_read [where fn = "assigning (ExecuteIn \<Gamma> waiting cmd) no_result" and c = c and retry = retry, OF assms(1,10) this]
    obtain w' where w': "UnitOfWork_Do \<Gamma> retry c (assigning (ExecuteIn \<Gamma> waiting cmd) no_result) no_result w = (Inl e, no_result, w')"
      "db w' = db w" "idle w'" using e by (auto simp: transient_def)
    then have "Submit_execute \<Gamma> retry waiting c cmd w = (Inl e, tick w')"
      using found [of w'] e assms(6) Inl by (simp add: Submit_execute_def idle_def)
    then show ?thesis using w' Inl e by (auto simp: idle_def Submit_replay_def split: if_splits)
  qed
qed


definition demo_parsed :: parsedSubmit where
  "demo_parsed =
     \<lparr>ps_key = Identifier ''k2'',
      ps_hash = Identifier (hashPrefix @ EncodeToString (Sum256 (canonicalise (hashed_fields demo_command)))),
      ps_providerID = Identifier ''prov'', ps_externalID = Identifier ''x2'', ps_playerID = Identifier ''p1'',
      ps_walletID = Identifier ''w1'', ps_roundID = Identifier ''r1'', ps_gameID = Identifier ''g1'',
      ps_kind = KindRollback, ps_money = \<lparr>minor = 500, currency = \<lparr>code_str = ''BRL''\<rparr>\<rparr>,
      ps_reference = Identifier ''x1''\<rparr>"

lemma demo_parse: "Submit_parse demo_command = Inr demo_parsed"
proof -
  have cur: "ParseCurrency ''BRL'' = Inr \<lparr>code_str = ''BRL''\<rparr>" by code_simp
  have amount: "ParseExternalMoney ''5.00'' \<lparr>code_str = ''BRL''\<rparr> = Inr \<lparr>minor = 500, currency = \<lparr>code_str = ''BRL''\<rparr>\<rparr>"
    by code_simp
  have kind: "kind_of_string ''ROLLBACK'' = KindRollback" "Kind_Valid KindRollback" by code_simp+
  show ?thesis
    using cur amount kind
    by (simp add: Submit_parse_def PayloadHash_eq parse_id_defs parseIdentifier_def maxIdentifierLength_def
        demo_parsed_def)
      (simp add: demo_command_def)
qed


end
