(* ===== verification/Verdict.thy ===== *)
theory Verdict
  imports Submission
begin

text \<open>
  Which outcome an accepted operation has: the rules of \<open>internal/app/submit.go\<close> and
  \<open>internal/app/reversal.go\<close> as one function of the wallet and the stored transactions, and
  the proof that a first submission answers exactly that.
\<close>

section \<open>The rules\<close>

datatype verdict = Paid int | Refused code | Parked

definition move_verdict :: "Wallet \<Rightarrow> direction \<Rightarrow> money \<Rightarrow> verdict" where
  "move_verdict x d m =
     (let n = balance_value (w_balance x) + direction_sign d * balance_value m in
      if currency m \<noteq> w_currency x then Refused CodeCurrencyMismatch
      else if n < 0 then Refused CodeInsufficientFunds
      else if 2 ^ 63 \<le> n then Refused CodeAmountOverflow
      else Paid n)"

text \<open>Money that was handed over and is gone has a code of its own.\<close>

definition taken_back :: "verdict \<Rightarrow> verdict" where
  "taken_back v = (if v = Refused CodeInsufficientFunds then Refused CodeReversalExceedsBalance else v)"

definition verdict_of :: "WagerTransaction list \<Rightarrow> Wallet \<Rightarrow> WagerTransaction \<Rightarrow> verdict" where
  "verdict_of ts x t =
     (case t_kind t of
        KindBet \<Rightarrow> move_verdict x Debit (t_money t)
      | KindWin \<Rightarrow> move_verdict x Credit (t_money t)
      | KindLoss \<Rightarrow> Paid (balance_value (w_balance x))
      | _ \<Rightarrow>
          (case decision ts t of
             ResolveWait \<Rightarrow> Parked
           | ResolveReject rc \<Rightarrow> Refused rc
           | ResolveApply ref d \<Rightarrow> taken_back (move_verdict x d (t_money t))))"

text \<open>A result that carries this verdict.\<close>

definition delivers :: "Wallet \<Rightarrow> verdict \<Rightarrow> SubmitResult \<Rightarrow> bool" where
  "delivers x v res \<longleftrightarrow>
     currency (sr_balance res) = w_currency x \<and>
     (case v of
        Paid n \<Rightarrow> t_status (sr_transaction res) = StatusProcessed \<and> balance_value (sr_balance res) = n
          \<and> t_balanceAfter (sr_transaction res) = sr_balance res
      | Refused rc \<Rightarrow> t_status (sr_transaction res) = StatusRejected \<and> t_failureCode (sr_transaction res) = rc
          \<and> sr_balance res = w_balance x
      | Parked \<Rightarrow> t_status (sr_transaction res) = StatusPendingReference \<and> sr_balance res = w_balance x)"

lemma decision_same_request: "same_request t t' \<Longrightarrow> decision ts t' = decision ts t"
  unfolding same_request_def decision_def by presburger

lemma verdict_same_request: "same_request t t' \<Longrightarrow> verdict_of ts x t' = verdict_of ts x t"
  using decision_same_request [of t t' ts] unfolding same_request_def verdict_of_def by presburger

section \<open>Movements\<close>

lemma Wallet_move_verdict:
  assumes w: "wallet_ok x" "\<not> ident_IsZero eid" "\<not> ident_IsZero tid" "\<not> time_IsZero at"
    and m: "Money_IsInitialised m" "0 < balance_value m" and d: "d = Debit \<or> d = Credit"
  shows "case move_verdict x d m of
      Refused rc \<Rightarrow> Wallet_move x d eid tid m at = fail rc
    | Paid n \<Rightarrow> (\<exists>mv. Wallet_move x d eid tid m at = Inr mv \<and> balance_value (w_balance (mv_wallet mv)) = n)
    | Parked \<Rightarrow> False"
proof -
  let ?n = "balance_value (w_balance x) + direction_sign d * balance_value m"
  have ok: "Wallet_IsInitialised x" "Money_IsPositive m"
    using w(1) m(2) by (simp_all add: Wallet_IsInitialised_def wallet_ok_def IsPositive_iff)
  consider "currency m \<noteq> w_currency x"
    | "currency m = w_currency x" "?n < 0"
    | "currency m = w_currency x" "2 ^ 63 \<le> ?n"
    | "currency m = w_currency x" "0 \<le> ?n" "?n < 2 ^ 63" by linarith
  then show ?thesis
  proof cases
    case 1
    then show ?thesis using ok w m by (simp add: move_verdict_def Let_def Wallet_move_def)
  next
    case 2
    then have "d = Debit" using d w(1) m by (auto simp: wallet_ok_def direction_sign_def)
    then show ?thesis
      using 2 Wallet_move_insufficient [OF w(1,4) m(1)] by (simp add: move_verdict_def direction_sign_def)
  next
    case 3
    have "d = Credit" using 3 d m debit_fits [of "w_balance x" m] w(1) by (auto simp: fits64_def wallet_ok_def direction_sign_def)
    then show ?thesis
      using 3 Wallet_move_overflow [OF w(1,4) m] by (simp add: move_verdict_def direction_sign_def)
  next
    case 4
    have cur: "currency (w_balance x) = w_currency x" "Money_IsInitialised (w_balance x)"
      using w(1) by (auto simp: wallet_ok_def)
    have fits: "fits64 ?n" using 4 by (simp add: fits64_def)
    then obtain after where "applyDirection d (w_balance x) m = Inr after"
      using d cur m 4(1) by (auto simp: Money_Sub_iff Money_Add_iff direction_sign_def)
    moreover have dv: "Direction_Valid d" using d by (auto simp: Direction_Valid_def)
    ultimately have after: "applyDirection d (w_balance x) m = Inr after" "balance_value after = ?n"
      using d fits by (auto simp: applyDirection_iff)
    show ?thesis
      using Wallet_move_Inr [OF w m 4(1) dv after(1)] 4 after(2)
      by (auto simp: move_verdict_def moved_wallet_def)
  qed
qed

section \<open>The outcome of a submission\<close>

text \<open>The identifiers the generator mints are usable: \<open>uuid.NewV7\<close> prints 36 characters.\<close>

definition ids_usable :: "env \<Rightarrow> bool" where
  "ids_usable \<Gamma> \<longleftrightarrow> (\<forall>n s. env_uuid \<Gamma> n = Some s \<longrightarrow> s \<noteq> '''' \<and> length s \<le> maxIdentifierLength)"

lemma ids_next_usable: "ids_next \<Gamma> c w = (Inr s, w') \<Longrightarrow> ids_usable \<Gamma> \<Longrightarrow> s \<noteq> '''' \<and> length s \<le> maxIdentifierLength"
  by (auto simp: ids_next_def ctx_Err_def bindE_def ids_usable_def split: if_splits option.splits)

lemma ids_technical:
  assumes "ids_NewLedgerEntryID \<Gamma> c w = (Inl e, w')" "ids_usable \<Gamma>"
  shows "as_domain e = None"
  using assms(1)
  by (auto simp: ids_NewLedgerEntryID_def ParseLedgerEntryID_def parseIdentifier_def elim!: bindE_errE
      dest: ids_next_err ids_next_usable [OF _ assms(2)] split: if_splits)

lemma storable_amount:
  assumes "tx_storable t" "t_kind t \<noteq> KindLoss"
  shows "Money_IsInitialised (t_money t)" "0 < balance_value (t_money t)" "\<not> ident_IsZero (t_id t)"
  using assms by (auto simp: tx_storable_def tx_ok_def tx_shape_def amount_ok_def IsPositive_iff)

lemma moved_verdict:
  assumes "Wallet_move x d eid (t_id t) (t_money t) at = r" "wallet_ok x" "ident_ok eid"
    "tx_storable t" "t_kind t \<noteq> KindLoss" "time_set at" "d = Debit \<or> d = Credit"
  shows "case r of
      Inl e \<Rightarrow> \<exists>rc. e = DomainErr rc \<and> move_verdict x d (t_money t) = Refused rc
    | Inr mv \<Rightarrow> move_verdict x d (t_money t) = Paid (balance_value (w_balance (mv_wallet mv)))"
  using Wallet_move_verdict [of x eid "t_id t" at "t_money t" d] assms storable_amount [OF assms(4,5)] time_set_not_zero
  by (auto simp: fail_def ident_ok_def ident_IsZero_def split: verdict.splits sum.splits)

lemma paid_verdict:
  assumes "Wallet_move x d eid tid m at = Inr mv" "wallet_ok x"
  shows "move_verdict x d m = Paid (balance_value (w_balance (mv_wallet mv)))"
proof -
  have "currency m = w_currency x" using assms(1) by (auto elim: Wallet_move_okE)
  then show ?thesis
    using Wallet_move_effect(6,8) [OF assms] sint64_range [of "minor (w_balance (mv_wallet mv))"]
    by (simp add: move_verdict_def Let_def)
qed

lemma record_unmoved_answer:
  "record_unmoved \<Gamma> c t x w = (Inr res, w') \<Longrightarrow> res = answer t (w_balance x)"
  by (auto simp: record_unmoved_def elim!: bindE_okE)

lemma delivers_unmoved:
  assumes "wallet_ok x"
  shows "t_status t = StatusRejected \<Longrightarrow> delivers x (Refused (t_failureCode t)) (answer t (w_balance x))"
    "t_status t = StatusPendingReference \<Longrightarrow> delivers x Parked (answer t (w_balance x))"
    "t_status t = StatusProcessed \<Longrightarrow> t_balanceAfter t = w_balance x
       \<Longrightarrow> delivers x (Paid (balance_value (w_balance x))) (answer t (w_balance x))"
  using assms by (auto simp: delivers_def answer_def wallet_ok_def)

lemma delivers_moved:
  assumes "Wallet_move x d eid tid m at = Inr mv" "wallet_ok x" "t_status t = StatusProcessed"
    "t_balanceAfter t = w_balance (mv_wallet mv)"
  shows "delivers x (Paid (balance_value (w_balance (mv_wallet mv)))) (answer t (w_balance (mv_wallet mv)))"
  using Wallet_move_effect(7) [OF assms(1,2)] assms(3,4) by (simp add: delivers_def answer_def)

lemma Submit_movement_refused:
  assumes run: "Submit_movement \<Gamma> c x t (t_id t) at w = (Inl cause, w')" "as_domain cause = Some rc" and ids: "ids_usable \<Gamma>"
    and t: "tx_storable t" and at: "time_set at" and x: "wallet_ok x"
  shows "t_kind t = KindBet \<and> move_verdict x Debit (t_money t) = Refused rc
    \<or> t_kind t = KindWin \<and> move_verdict x Credit (t_money t) = Refused rc"
proof -
  let ?k = "\<lambda>eid. case t_kind t of
          KindBet \<Rightarrow> bindE (lift (Wallet_Debit x eid (t_id t) (t_money t) at)) (\<lambda>m. ret (Some m))
        | KindWin \<Rightarrow> bindE (lift (Wallet_Credit x eid (t_id t) (t_money t) at)) (\<lambda>m. ret (Some m))
        | _ \<Rightarrow> throw (Wrapped ErrNotImplemented)"
  have "bindE (io_wrap (ids_NewLedgerEntryID \<Gamma> c)) ?k w = (Inl cause, w')"
    using run(1) by (auto simp: Submit_movement_def split: if_splits)
  then obtain eid w1 where eid: "ident_ok eid" and k: "?k eid w1 = (Inl cause, w')"
  proof (cases rule: bindE_errE)
    case first
    then show thesis using run(2) by (auto elim!: io_wrap_errE dest: ids_technical [OF _ ids])
  next
    case (rest eid w1)
    then show thesis using that ids_ok(3) by (metis io_wrap_okE)
  qed
  consider "t_kind t = KindBet" "Wallet_move x Debit eid (t_id t) (t_money t) at = Inl cause"
    | "t_kind t = KindWin" "Wallet_move x Credit eid (t_id t) (t_money t) at = Inl cause"
    using k run(2) by (cases "t_kind t") (auto simp: Wallet_Debit_def Wallet_Credit_def elim!: bindE_errE)
  then show ?thesis
    using run(2) moved_verdict [OF _ x eid t _ at] by cases fastforce+
qed

lemma apply_movement_verdict:
  assumes run: "apply_movement \<Gamma> c t x (t_id t) at w = (Inr res, w')" and ids: "ids_usable \<Gamma>"
    and t: "tx_storable t" "t_kind t \<noteq> KindOpening" "\<not> Kind_IsReversal (t_kind t)" and at: "time_set at" and x: "wallet_ok x"
  shows "delivers x (verdict_of ts x t) res"
proof -
  have kv: "Kind_Valid (t_kind t)" using t(1) by (simp add: tx_storable_def tx_ok_def tx_shape_def)
  obtain q w1 where m: "Submit_movement \<Gamma> c x t (t_id t) at w = (q, w1)" by (metis surj_pair)
  show ?thesis
  proof (cases q)
    case (Inl cause)
    then obtain t' where rj: "Submit_reject t cause at = Inr t'" "record_unmoved \<Gamma> c t' x w1 = (Inr res, w')"
      using run by (auto simp: apply_movement_def handle_def m elim!: bindE_okE)
    obtain rc where rc: "as_domain cause = Some rc" "Tx_Reject t rc at = Inr t'"
      using rj(1) by (auto simp: Submit_reject_def split: option.splits)
    have e: "coded cause" using Submit_movement_err [OF m [unfolded Inl]] by simp
    have "verdict_of ts x t = Refused rc"
      using Submit_movement_refused [OF m [unfolded Inl] rc(1) ids t(1) at x] by (auto simp: verdict_of_def)
    then show ?thesis
      using rejected_tx [OF rc(2) t(1) at] e rc(1) record_unmoved_answer [OF rj(2)] delivers_unmoved(1) [OF x, of t']
      by (auto simp: coded_def)
  next
    case (Inr movement)
    note mv = Submit_movement_ok [OF m [unfolded Inr] t(2,3) kv]
    obtain t' where pr: "Tx_MarkProcessed t (balanceAfter x movement) at = Inr t'"
      using run by (auto simp: apply_movement_def handle_def m Inr elim!: bindE_okE)
    note pt = processed_tx [OF pr t(1) at]
    show ?thesis
    proof (cases movement)
      case None
      then have "record_unmoved \<Gamma> c t' x w1 = (Inr res, w')"
        using run pr by (simp add: apply_movement_def handle_def m Inr)
      then show ?thesis
        using delivers_unmoved(3) [OF x, of t'] record_unmoved_answer pt mv None
        by (auto simp: verdict_of_def balanceAfter_def)
    next
      case (Some y)
      then obtain eid d where y: "ident_ok eid" "Wallet_move x d eid (t_id t) (t_money t) at = Inr y"
        "t_kind t = KindBet \<and> d = Debit \<or> t_kind t = KindWin \<and> d = Credit"
        using mv by auto
      have res: "res = answer t' (w_balance (mv_wallet y))"
        using run pr by (auto simp: apply_movement_def handle_def m Inr Some elim!: bindE_okE)
      have "verdict_of ts x t = Paid (balance_value (w_balance (mv_wallet y)))"
        using paid_verdict [OF y(2) x] y(3) by (auto simp: verdict_of_def)
      then show ?thesis
        using delivers_moved [OF y(2) x, of t'] pt res Some by (simp add: balanceAfter_def)
    qed
  qed
qed

lemma reversal_refused:
  assumes "reversal_movement x d eid r at = Inl e" "as_domain e = Some rc" "wallet_ok x" "ident_ok eid"
    "tx_storable r" "t_kind r \<noteq> KindLoss" "time_set at" "d = Credit \<or> d = Debit"
  shows "taken_back (move_verdict x d (t_money r)) = Refused rc"
proof -
  obtain e0 where e0: "Wallet_move x d eid (t_id r) (t_money r) at = Inl e0"
    and e: "e = (if d = Debit \<and> errors_Is e0 (DomainErr CodeInsufficientFunds) then DomainErr CodeReversalExceedsBalance else e0)"
    using assms(1,8)
    by (auto simp: reversal_movement_def Wallet_Credit_def Wallet_Debit_def fail_def split: sum.splits if_splits)
  obtain rc0 where rc0: "e0 = DomainErr rc0" "move_verdict x d (t_money r) = Refused rc0"
    using moved_verdict [OF e0 assms(3-7)] assms(8) by auto
  have "d = Debit" if "rc0 = CodeInsufficientFunds"
    using rc0(2) that assms(3,8) storable_amount [OF assms(5,6)]
    by (auto simp: move_verdict_def Let_def direction_sign_def wallet_ok_def split: if_splits)
  then show ?thesis using e rc0 assms(2) by (auto simp: taken_back_def split: if_splits)
qed

text \<open>A business rule that stops the write of a reversal is a rule of the wallet.\<close>

lemma applyReversal_refused:
  assumes run: "applyReversal \<Gamma> c r ref d x at w = (Inl e, w')" "as_domain e = Some rc" and ids: "ids_usable \<Gamma>"
    and x: "wallet_ok x" and r: "tx_storable r" "t_status r = StatusPending"
    and dec: "decision ts r = ResolveApply ref d" and ref: "\<not> ident_IsZero (t_id ref)" and at: "time_set at"
  shows "taken_back (move_verdict x d (t_money r)) = Refused rc"
proof -
  note da = decision_apply [OF dec]
  have kind: "Kind_IsReversal (t_kind r)" "t_kind r \<noteq> KindLoss"
    using da(3) by (auto simp: Kind_CanReverse_def split: kind.splits)
  have az: "\<not> time_IsZero at" using at by (rule time_set_not_zero)
  obtain eid w1 where eid: "ident_ok eid"
    and rest: "bindE (lift (reversal_movement x d eid r at)) (\<lambda>movement.
     bindE (lift (Tx_ResolveReference r (t_id ref) at)) (\<lambda>resolved.
     bindE (lift (Tx_MarkProcessed resolved (w_balance (mv_wallet movement)) at)) (\<lambda>applied.
     bindE (writeReversal \<Gamma> applied movement (w_version x)) (\<lambda>_. ret (applied, movement))))) w1 = (Inl e, w')"
    using run(1) unfolding applyReversal_def
  proof (cases rule: bindE_errE)
    case first
    then show thesis using run(2) by (auto dest: ids_technical [OF _ ids])
  next
    case (rest eid w1)
    show thesis by (rule that [OF ids_ok(3) [OF rest(1)] rest(2)])
  qed
  show ?thesis
  proof (cases "reversal_movement x d eid r at")
    case (Inl e')
    then show ?thesis
      using rest reversal_refused [OF Inl _ x eid r(1) kind(2) at da(8)] run(2) by simp
  next
    case (Inr mv)
    note mv = reversal_movement_okE [OF Inr da(8)]
    obtain rs where rs: "Tx_ResolveReference r (t_id ref) at = Inr rs"
      using kind r ref az by (simp add: Tx_ResolveReference_def Tx_IsTerminal_def Status_IsTerminal_def)
    have "rs = r\<lparr>t_resolvedReferenceID := t_id ref, t_updatedAt := time_UTC at\<rparr>"
      using rs by (auto simp: Tx_ResolveReference_def split: if_splits)
    moreover have "currency (w_balance (mv_wallet mv)) = currency (t_money r)" "Money_IsInitialised (w_balance (mv_wallet mv))"
      using Wallet_move_effect(7) [OF mv x] mv x by (auto elim!: Wallet_move_okE simp: Money_IsInitialised_def)
    ultimately obtain t' where pr: "Tx_MarkProcessed rs (w_balance (mv_wallet mv)) at = Inr t'"
      using r az by (simp add: Tx_MarkProcessed_def Tx_transition_def Tx_IsInitialised_def tx_storable_def tx_ok_def tx_shape_def
          allowedTransitions.simps)
    have "technical (writeReversal \<Gamma> t' mv (w_version x)) w1"
      unfolding writeReversal_def
      by (intro technical_bind technical_writes) (auto simp: technical_def dest: write_errors)
    then have "as_domain e = None"
      using rest Inr rs pr by (auto simp: technical_def elim!: bindE_errE)
    then show ?thesis using run(2) by simp
  qed
qed

lemma Submit_resolve_verdict:
  assumes run: "Submit_resolve \<Gamma> (ReferencePolicy_normalised pol) c r x at w = (Inr res, w')" and ids: "ids_usable \<Gamma>"
    and rep: "represents (db w) b" "bank_ok b" and x: "x \<in> set (b_wallets b)" "w_id x = t_walletID r"
    and r: "tx_storable r" "t_kind r \<noteq> KindOpening" "t_referenceAttempts r = 0" "t_status r = StatusPending"
      "\<not> ident_IsZero (t_providerID r)" "\<not> ident_IsZero (t_referenceExternalID r)" and at: "time_set at"
    and kind: "Kind_IsReversal (t_kind r)"
  shows "delivers x (verdict_of (b_txs b) x r) res"
proof -
  have txs: "txs_ok b" and wok: "wallet_ok x" using rep(2) x(1) by (auto simp: bank_ok_def wallets_ok_def wallet_st_def)
  have v: "verdict_of (b_txs b) x r = (case decision (b_txs b) r of
             ResolveWait \<Rightarrow> Parked
           | ResolveReject rc \<Rightarrow> Refused rc
           | ResolveApply ref d \<Rightarrow> taken_back (move_verdict x d (t_money r)))"
    using kind by (cases "t_kind r") (simp_all add: verdict_of_def)
  obtain dec w1 where d: "resolveReference \<Gamma> r w = (Inr dec, w1)"
    using run by (auto simp: Submit_resolve_def elim: bindE_okE)
  have same: "same_world w w1" and dec: "decision (b_txs b) r = dec"
    using resolveReference_ok [OF d rep(1) txs r(5,6)] by auto
  have rep1: "represents (db w1) b" using rep(1) same by (simp add: same_world_def)
  have rejected: "delivers x (Refused rc) res"
    if "recordReversalRejection \<Gamma> c r rc x at w2 = (Inr res, w')" "proper_code rc" for rc w2
  proof -
    note rj = that
    obtain t where t: "Tx_Reject r rc at = Inr t" "record_unmoved \<Gamma> c t x w2 = (Inr res, w')"
      using rj(1) by (auto simp: recordReversalRejection_def elim!: bindE_okE)
    then show ?thesis
      using rejected_tx [OF t(1) r(1) at rj(2)] record_unmoved_answer delivers_unmoved(1) [OF wok, of t] by auto
  qed
  show ?thesis
  proof (cases dec)
    case ResolveWait
    then obtain nx w2 t' where n: "ReferencePolicy_nextAttemptAt \<Gamma> (ReferencePolicy_normalised pol) at 1 w1 = (Inr nx, w2)"
      and p: "Tx_MarkPendingReference r at nx (time_Add at (rp_TTL (ReferencePolicy_normalised pol))) = Inr t'"
      and ru: "record_unmoved \<Gamma> c t' x w2 = (Inr res, w')"
      using run by (auto simp: Submit_resolve_def bindE_def [of "resolveReference \<Gamma> r"] d elim!: bindE_okE)
    have "time_set nx" using nextAttemptAt_ok [OF n _ at] by simp
    then show ?thesis
      using parked_tx [OF p r(1) at _ deadline_set [OF at]] record_unmoved_answer [OF ru] delivers_unmoved(2) [OF wok, of t']
        v dec ResolveWait by simp
  next
    case (ResolveReject rc)
    then have "recordReversalRejection \<Gamma> c r rc x at w1 = (Inr res, w')"
      using run by (simp add: Submit_resolve_def bindE_def d)
    then show ?thesis
      using rejected decision_code [of "b_txs b" r rc] proper_code_constants v dec ResolveReject by simp
  next
    case (ResolveApply ref dir)
    have da: "decision (b_txs b) r = ResolveApply ref dir" using dec ResolveApply by simp
    obtain q w2 where q: "applyReversal \<Gamma> c r ref dir x at w1 = (q, w2)" by (metis surj_pair)
    note run2 = run [unfolded Submit_resolve_def bindE_def [of "resolveReference \<Gamma> r"] d prod.case sum.case
        ResolveApply resolution.case handle_def q]
    show ?thesis
    proof (cases q)
      case (Inl e)
      then obtain rc where rc: "as_domain e = Some rc" "recordReversalRejection \<Gamma> c r rc x at w2 = (Inr res, w')"
        using run2 by (auto split: option.splits)
      have "\<not> ident_IsZero (t_id ref)"
        using decision_apply(1) [OF da] txs by (auto simp: txs_ok_def tx_st_def tx_ok_def tx_shape_def)
      then have "taken_back (move_verdict x dir (t_money r)) = Refused rc"
        using applyReversal_refused [OF q [unfolded Inl] rc(1) ids wok r(1,4) da _ at] by simp
      then show ?thesis
        using rejected [OF rc(2)] applyReversal_coded [OF q [unfolded Inl]] rc(1) v da by (simp add: coded_def)
    next
      case (Inr am)
      obtain t' mv where am: "am = (t', mv)" by (cases am)
      have res: "res = answer t' (w_balance (mv_wallet mv))"
        using run2 Inr am by (auto elim!: bindE_okE)
      have ih: "in_hand b r" using r by (simp add: in_hand_def)
      obtain eid where a: "Wallet_move x dir eid (t_id r) (t_money r) at = Inr mv" "t_status t' = StatusProcessed"
        "t_balanceAfter t' = w_balance (mv_wallet mv)"
        using applyReversal_ok [OF q [unfolded Inr am] rep1 rep(2) x ih da at] by blast
      show ?thesis
        using delivers_moved [OF a(1) wok a(2,3)] paid_verdict [OF a(1) wok] res v da by (simp add: taken_back_def)
    qed
  qed
qed

text \<open>The wallet of an operation and the verdict on it.\<close>

definition decided_on :: "bank \<Rightarrow> SubmitResult \<Rightarrow> bool" where
  "decided_on b res \<longleftrightarrow>
     (\<exists>x\<in>set (b_wallets b). w_id x = t_walletID (sr_transaction res) \<and> w_playerID x = t_playerID (sr_transaction res)
        \<and> delivers x (verdict_of (b_txs b) x (sr_transaction res)) res)"

lemma Submit_apply_verdict:
  assumes run: "Submit_apply \<Gamma> (ReferencePolicy_normalised pol) c p w = (Inr res, w')"
    and rep: "represents (db w) b" "bank_ok b" and p: "parsed_ok p"
    and clock: "\<And>n. time_set (env_now \<Gamma> n)" and ids: "ids_usable \<Gamma>"
  shows "decided_on b res"
proof -
  obtain txID w1 at w2 t x w3 where
    id: "ids_NewTransactionID \<Gamma> c w = (Inr txID, w1)" and now: "clock_Now \<Gamma> w1 = (Inr at, w2)"
    and t: "NewExternalTransaction (external_params p txID at) = Inr t"
    and f: "Wallets_FindByIDForUpdate \<Gamma> (ps_walletID p) w2 = (Inr x, w3)"
    and own: "w_playerID x = ps_playerID p"
    and br: "(if Kind_IsReversal (t_kind t) then Submit_resolve \<Gamma> (ReferencePolicy_normalised pol) c t x at
       else apply_movement \<Gamma> c t x txID at) w3 = (Inr res, w')"
    using run by (auto simp: Submit_apply_def elim!: bindE_okE io_wrap_okE split: if_splits)
  have at: "time_set at" using now clock by (auto simp: clock_Now_def)
  have s: "same_world w w1" "same_world w1 w2" using ids_same(2) [OF id] clock_Now_same [OF now] by auto
  note nt = new_tx [OF t p ids_ok(2) [OF id] at]
  have rep2: "represents (db w2) b" using rep(1) s by (simp add: same_world_def)
  note fx = find_wallet_ok [OF f rep2]
  have rep3: "represents (db w3) b" using rep2 fx by (simp add: same_world_def)
  have wok: "wallet_ok x" using fx by (simp add: wallet_st_def)
  have "delivers x (verdict_of (b_txs b) x t) res \<and> same_request t (sr_transaction res)"
  proof (cases "Kind_IsReversal (t_kind t)")
    case True
    then have sr: "Submit_resolve \<Gamma> (ReferencePolicy_normalised pol) c t x at w3 = (Inr res, w')" using br by simp
    have "delivers x (verdict_of (b_txs b) x t) res"
      by (rule Submit_resolve_verdict [OF sr ids rep3 rep(2)]) (use nt fx True at in auto)
    moreover have "outcome_of c b t res w3 w'"
      by (rule Submit_resolve_ok [OF sr rep3 rep(2)]) (use nt fx True at in auto)
    ultimately show ?thesis by (simp add: outcome_of_def)
  next
    case False
    then have ap: "apply_movement \<Gamma> c t x (t_id t) at w3 = (Inr res, w')" using br nt by simp
    have "delivers x (verdict_of (b_txs b) x t) res"
      by (rule apply_movement_verdict [OF ap ids]) (use nt False at wok in auto)
    moreover have "outcome_of c b t res w3 w'"
      by (rule apply_movement_ok [OF ap rep3 rep(2)]) (use nt fx False at in auto)
    ultimately show ?thesis by (simp add: outcome_of_def)
  qed
  then show ?thesis
    unfolding decided_on_def using fx nt own verdict_same_request [of t "sr_transaction res" "b_txs b" x]
    by (intro bexI [of _ x]) (auto simp: same_request_def)
qed

lemma ExecuteIn_verdict:
  assumes run: "ExecuteIn \<Gamma> (ReferencePolicy_normalised pol) cmd c w = (Inr res, w')" "\<not> sr_replay res"
    and rep: "represents (db w) b" "bank_ok b" and clock: "\<And>n. time_set (env_now \<Gamma> n)" and ids: "ids_usable \<Gamma>"
  shows "decided_on b res"
proof -
  obtain i p where p: "Submit_parse cmd = Inr p"
    and cont: "handle (Transactions_FindByBusinessID \<Gamma> (ps_providerID p) (ps_externalID p)) (\<lambda>r.
         case r of
           Inr existing \<Rightarrow> lift (Submit_replay existing p)
         | Inl e \<Rightarrow> if \<not> errors_Is e ErrNotFound then throw e
             else Submit_apply \<Gamma> (ReferencePolicy_normalised pol) c p) w = (Inr res, w')"
    using run by (auto simp: ExecuteIn_def elim!: bindE_okE)
  have pok: "parsed_ok p" using Submit_parse_ok [OF p] by simp
  obtain q w1 where q: "Transactions_FindByBusinessID \<Gamma> (ps_providerID p) (ps_externalID p) w = (q, w1)"
    by (metis surj_pair)
  show ?thesis
  proof (cases q)
    case (Inr existing)
    then have "Submit_replay existing p = Inr res" using cont by (simp add: handle_def q)
    then show ?thesis using run(2) by (auto simp: Submit_replay_def split: if_splits)
  next
    case (Inl e)
    then have "errors_Is e ErrNotFound" "Submit_apply \<Gamma> (ReferencePolicy_normalised pol) c p w1 = (Inr res, w')"
      using cont by (auto simp: handle_def q split: if_splits)
    moreover from this have "represents (db w1) b"
      using find_business_err [OF q [unfolded Inl] rep(1)] rep(1) by (auto simp: same_world_def)
    ultimately show ?thesis using Submit_apply_verdict [OF _ _ rep(2) pok clock ids] by blast
  qed
qed

text \<open>
  C26. The outcome of a first submission is decided by the rules and by nothing else. The wallet
  named in the command belongs to the named player. A bet is paid when it is in the wallet's
  currency and the balance covers it, and is recorded as rejected for insufficient funds
  otherwise; a win is paid unless the balance would pass the range of int64; a loss moves
  nothing; a reversal follows the decision on the operation it names: parked while that one is
  not final, rejected with the code of the rule it breaks, or applied in the opposite
  direction, except when the money is no longer there. The answer carries the balance after
  the movement, and the unchanged balance when nothing moved.
\<close>

theorem submission_outcome:
  assumes "idle w" "clock_ok \<Gamma>" "ids_usable \<Gamma>" "represents (db w) b" "bank_ok b"
    and run: "Submit_execute \<Gamma> retry (ReferencePolicy_normalised pol) c cmd w = (Inr res, w')" "\<not> sr_replay res"
  shows "\<exists>x\<in>set (b_wallets b). w_id x = t_walletID (sr_transaction res) \<and> w_playerID x = t_playerID (sr_transaction res)
    \<and> delivers x (verdict_of (b_txs b) x (sr_transaction res)) res"
proof -
  let ?fn = "assigning (ExecuteIn \<Gamma> (ReferencePolicy_normalised pol) cmd) no_result"
  obtain q v w1 where d: "UnitOfWork_Do \<Gamma> retry c ?fn no_result w = (q, v, w1)" by (metis prod_cases3)
  have q: "q = Inr ()" "v = res"
    using run d by (cases q; auto simp: Submit_execute_def Submit_replay_def split: if_splits sum.splits prod.splits)+
  then obtain v0 w2 w3 where sd: "same_data (db w) (db w2)"
    and ex: "ExecuteIn \<Gamma> (ReferencePolicy_normalised pol) cmd (c\<lparr>c_insideUnitOfWork := True\<rparr>) w2 = (Inr res, w3)"
    using do_effect [OF d assms(1)] by (auto simp: ran_once_def assigning_ok)
  have "represents (db w2) b" using assms(4) sd same_data_bank represents_same_bank by blast
  from ExecuteIn_verdict [OF ex run(2) this assms(5) clock_okD [OF assms(2)] assms(3)]
  show ?thesis by (simp add: decided_on_def)
qed

end
