(* ===== verification/Json.thy ===== *)
theory Json
  imports Errors
begin

text \<open>
  What the program uses of \<open>encoding/json\<close>: reading one value from the front of a byte stream
  (\<open>Decoder.Decode\<close>), unquoting strings, matching object keys against the names of a struct's
  fields, and refusing keys that name no field (\<open>DisallowUnknownFields\<close>). Bytes are characters.
  The limit on nesting is left out: no type decoded here admits nesting beyond three levels, so
  a deeper value is refused either way.
\<close>

section \<open>Lexical rules\<close>

abbreviation byte :: "char \<Rightarrow> nat" where
  "byte c \<equiv> of_char c"

definition is_ws :: "char \<Rightarrow> bool" where
  "is_ws c \<longleftrightarrow> byte c \<in> {32, 9, 10, 13}"

definition skip_ws :: "string \<Rightarrow> string" where
  "skip_ws s = dropWhile is_ws s"

definition hex_val :: "char \<Rightarrow> nat option" where
  "hex_val c =
     (let n = byte c in
      if 48 \<le> n \<and> n \<le> 57 then Some (n - 48)
      else if 97 \<le> n \<and> n \<le> 102 then Some (n - 87)
      else if 65 \<le> n \<and> n \<le> 70 then Some (n - 55)
      else None)"

text \<open>Four hexadecimal digits.\<close>

fun hex4 :: "string \<Rightarrow> nat option" where
  "hex4 (a # b # c # d # _) =
     (case (hex_val a, hex_val b, hex_val c, hex_val d) of
        (Some i, Some j, Some k, Some l) \<Rightarrow> Some (((i * 16 + j) * 16 + k) * 16 + l)
      | _ \<Rightarrow> None)"
| "hex4 _ = None"

definition simple_escape :: "char \<Rightarrow> bool" where
  "simple_escape e \<longleftrightarrow> e \<in> set ''bfnrt/'' \<or> byte e \<in> {34, 92}"

text \<open>The text of a string up to its closing quote, still escaped; control characters and unknown escapes are errors.\<close>

fun scan_string :: "string \<Rightarrow> (string \<times> string) option" where
  "scan_string [] = None"
| "scan_string (c # cs) =
     (if byte c = 34 then Some ([], cs)
      else if byte c < 32 then None
      else if byte c = 92 then
        (case cs of
           [] \<Rightarrow> None
         | e # rest \<Rightarrow>
             if simple_escape e \<or> (e = CHR ''u'' \<and> hex4 rest \<noteq> None)
             then map_option (\<lambda>(raw, r). (c # e # raw, r)) (scan_string rest)
             else None)
      else map_option (\<lambda>(raw, r). (c # raw, r)) (scan_string cs))"

section \<open>Unquoting\<close>

definition utf8_encode :: "nat \<Rightarrow> string" where
  "utf8_encode r =
     (if r < 128 then [char_of r]
      else if r < 2048 then [char_of (192 + r div 64), char_of (128 + r mod 64)]
      else if r > 1114111 \<or> (55296 \<le> r \<and> r < 57344) then [char_of (239 :: nat), char_of (191 :: nat), char_of (189 :: nat)]
      else if r < 65536 then [char_of (224 + r div 4096), char_of (128 + r div 64 mod 64), char_of (128 + r mod 64)]
      else [char_of (240 + r div 262144), char_of (128 + r div 4096 mod 64), char_of (128 + r div 64 mod 64),
            char_of (128 + r mod 64)])"

definition replacement :: string where
  "replacement = utf8_encode 65533"

text \<open>The number of bytes of the encoded rune in front, 0 when it is not one.\<close>

definition cont_byte :: "nat \<Rightarrow> nat \<Rightarrow> char \<Rightarrow> bool" where
  "cont_byte lo hi c \<longleftrightarrow> lo \<le> byte c \<and> byte c \<le> hi"

fun rune_width :: "string \<Rightarrow> nat" where
  "rune_width [] = 0"
| "rune_width (c # cs) =
     (let n = byte c; tail = \<lambda>k. length cs \<ge> k \<and> (\<forall>x\<in>set (take k cs). cont_byte 128 191 x);
          first = \<lambda>lo hi. cs \<noteq> [] \<and> cont_byte lo hi (hd cs) in
      if n < 128 then 1
      else if 194 \<le> n \<and> n \<le> 223 \<and> tail 1 then 2
      else if 224 \<le> n \<and> n \<le> 239 \<and> tail 2
          \<and> (n = 224 \<longrightarrow> first 160 191) \<and> (n = 237 \<longrightarrow> first 128 159) then 3
      else if 240 \<le> n \<and> n \<le> 244 \<and> tail 3
          \<and> (n = 240 \<longrightarrow> first 144 191) \<and> (n = 244 \<longrightarrow> first 128 143) then 4
      else 0)"

definition surrogate_pair :: "nat \<Rightarrow> nat \<Rightarrow> nat option" where
  "surrogate_pair a b =
     (if 55296 \<le> a \<and> a < 56320 \<and> 56320 \<le> b \<and> b < 57344
      then Some ((a - 55296) * 1024 + (b - 56320) + 65536) else None)"

fun escape_char :: "char \<Rightarrow> char" where
  "escape_char c =
     (if c = CHR ''b'' then char_of (8 :: nat)
      else if c = CHR ''f'' then char_of (12 :: nat)
      else if c = CHR ''n'' then char_of (10 :: nat)
      else if c = CHR ''r'' then char_of (13 :: nat)
      else if c = CHR ''t'' then char_of (9 :: nat)
      else c)"

text \<open>\<open>\u\<close> in front, with its code.\<close>

fun escaped_u4 :: "string \<Rightarrow> nat option" where
  "escaped_u4 (a # b # rest) = (if byte a = 92 \<and> b = CHR ''u'' then hex4 rest else None)"
| "escaped_u4 _ = None"

function unquote :: "string \<Rightarrow> string" where
  "unquote s =
     (case s of
        [] \<Rightarrow> []
      | c # cs \<Rightarrow>
          if byte c = 92 then
            (case escaped_u4 s of
               Some r \<Rightarrow>
                 (case escaped_u4 (drop 6 s) of
                    Some r2 \<Rightarrow>
                      (case surrogate_pair r r2 of
                         Some p \<Rightarrow> utf8_encode p @ unquote (drop 12 s)
                       | None \<Rightarrow> utf8_encode r @ unquote (drop 6 s))
                  | None \<Rightarrow> utf8_encode r @ unquote (drop 6 s))
             | None \<Rightarrow> (case cs of [] \<Rightarrow> [] | e # rest \<Rightarrow> escape_char e # unquote rest))
          else if rune_width s = 0 then replacement @ unquote cs
          else take (rune_width s) s @ unquote (drop (rune_width s) s))"
  by pat_completeness auto
termination by (relation "measure length") (auto split: if_splits)

declare unquote.simps [simp del]

section \<open>Values\<close>

datatype json =
    JNull
  | JBool bool
  | JNumber string
  | JString (js_raw: string)
  | JArray "json list"
  | JObject "(string \<times> json) list"

definition js_text :: "json \<Rightarrow> string" where
  "js_text v = unquote (js_raw v)"

definition is_digit10 :: "char \<Rightarrow> bool" where
  "is_digit10 c \<longleftrightarrow> 48 \<le> byte c \<and> byte c \<le> 57"

definition scan_digits :: "string \<Rightarrow> (string \<times> string) option" where
  "scan_digits s =
     (case takeWhile is_digit10 s of [] \<Rightarrow> None | ds \<Rightarrow> Some (ds, dropWhile is_digit10 s))"

definition scan_int_part :: "string \<Rightarrow> (string \<times> string) option" where
  "scan_int_part s =
     (case s of
        [] \<Rightarrow> None
      | c # cs \<Rightarrow> if c = CHR ''0'' then Some ([c], cs) else scan_digits s)"

definition scan_frac_part :: "string \<Rightarrow> (string \<times> string) option" where
  "scan_frac_part s =
     (case s of
        c # cs \<Rightarrow> if c = CHR ''.'' then map_option (\<lambda>(d, r). (c # d, r)) (scan_digits cs) else Some ([], s)
      | [] \<Rightarrow> Some ([], s))"

definition scan_exp_part :: "string \<Rightarrow> (string \<times> string) option" where
  "scan_exp_part s =
     (case s of
        c # cs \<Rightarrow>
          if c \<in> {CHR ''e'', CHR ''E''} then
            (case cs of
               d # ds \<Rightarrow> if d \<in> {CHR ''+'', CHR ''-''} then map_option (\<lambda>(x, r). (c # d # x, r)) (scan_digits ds)
                          else map_option (\<lambda>(x, r). (c # x, r)) (scan_digits cs)
             | [] \<Rightarrow> None)
          else Some ([], s)
      | [] \<Rightarrow> Some ([], s))"

definition scan_number :: "string \<Rightarrow> (string \<times> string) option" where
  "scan_number s =
     (let (sign, s1) = (case s of c # cs \<Rightarrow> if c = CHR ''-'' then ([c], cs) else ([], s) | [] \<Rightarrow> ([], s)) in
      Option.bind (scan_int_part s1) (\<lambda>(i, s2).
      Option.bind (scan_frac_part s2) (\<lambda>(f, s3).
      Option.bind (scan_exp_part s3) (\<lambda>(e, s4). Some (sign @ i @ f @ e, s4)))))"

definition strip_prefix :: "string \<Rightarrow> string \<Rightarrow> string option" where
  "strip_prefix p s = (if take (length p) s = p then Some (drop (length p) s) else None)"

text \<open>
  One value and what follows it. The fuel bounds the number of nested calls; \<open>json_decode\<close> gives
  it one for every two bytes more than there are.
\<close>

fun json_value :: "nat \<Rightarrow> string \<Rightarrow> (json \<times> string) option"
and json_elems :: "nat \<Rightarrow> string \<Rightarrow> (json list \<times> string) option"
and json_members :: "nat \<Rightarrow> string \<Rightarrow> ((string \<times> json) list \<times> string) option" where
  "json_value 0 s = None"
| "json_value (Suc n) s =
     (case skip_ws s of
        [] \<Rightarrow> None
      | c # cs \<Rightarrow>
          if byte c = 34 then map_option (\<lambda>(raw, r). (JString raw, r)) (scan_string cs)
          else if c = CHR ''{'' then
            (case skip_ws cs of
               d # ds \<Rightarrow> if d = CHR ''}'' then Some (JObject [], ds)
                          else map_option (\<lambda>(ms, r). (JObject ms, r)) (json_members n cs)
             | [] \<Rightarrow> None)
          else if c = CHR ''['' then
            (case skip_ws cs of
               d # ds \<Rightarrow> if d = CHR '']'' then Some (JArray [], ds)
                          else map_option (\<lambda>(vs, r). (JArray vs, r)) (json_elems n cs)
             | [] \<Rightarrow> None)
          else
            (case strip_prefix ''true'' (c # cs) of Some r \<Rightarrow> Some (JBool True, r)
             | None \<Rightarrow>
            (case strip_prefix ''false'' (c # cs) of Some r \<Rightarrow> Some (JBool False, r)
             | None \<Rightarrow>
            (case strip_prefix ''null'' (c # cs) of Some r \<Rightarrow> Some (JNull, r)
             | None \<Rightarrow> map_option (\<lambda>(l, r). (JNumber l, r)) (scan_number (c # cs))))))"
| "json_elems 0 s = None"
| "json_elems (Suc n) s =
     Option.bind (json_value n s) (\<lambda>(v, r).
       case skip_ws r of
         d # ds \<Rightarrow>
           if d = CHR '','' then map_option (\<lambda>(vs, r'). (v # vs, r')) (json_elems n ds)
           else if d = CHR '']'' then Some ([v], ds) else None
       | [] \<Rightarrow> None)"
| "json_members 0 s = None"
| "json_members (Suc n) s =
     (case skip_ws s of
        c # cs \<Rightarrow>
          if byte c \<noteq> 34 then None
          else Option.bind (scan_string cs) (\<lambda>(k, r).
            case skip_ws r of
              d # ds \<Rightarrow>
                if d \<noteq> CHR '':'' then None
                else Option.bind (json_value n ds) (\<lambda>(v, r2).
                  case skip_ws r2 of
                    f # fs \<Rightarrow>
                      if f = CHR '','' then map_option (\<lambda>(ms, r'). ((k, v) # ms, r')) (json_members n fs)
                      else if f = CHR ''}'' then Some ([(k, v)], fs) else None
                  | [] \<Rightarrow> None)
            | [] \<Rightarrow> None)
      | [] \<Rightarrow> None)"

definition json_decode :: "string \<Rightarrow> (json \<times> string) option" where
  "json_decode s = json_value (2 * length s + 2) s"


section \<open>The fuel is enough\<close>

lemma skip_ws_le: "length (skip_ws s) \<le> length s"
  by (simp add: skip_ws_def length_dropWhile_le)

lemma skip_ws_Cons: "skip_ws s = c # cs \<Longrightarrow> length cs < length s"
  using skip_ws_le [of s] by simp

lemma scan_string_shorter: "scan_string s = Some (raw, r) \<Longrightarrow> length r < length s"
proof (induction s arbitrary: raw r rule: scan_string.induct)
  case (2 c cs)
  show ?case
  proof (cases "byte c = 92")
    case True
    then obtain e rest raw' where "cs = e # rest" "simple_escape e \<or> (e = CHR ''u'' \<and> hex4 rest \<noteq> None)"
      "scan_string rest = Some (raw', r)"
      using "2.prems" by (auto split: list.splits if_split_asm)
    then show ?thesis using "2.IH"(1) [of e rest raw' r] True by simp
  next
    case False
    then consider "r = cs" | raw' where "byte c \<noteq> 34" "\<not> byte c < 32" "scan_string cs = Some (raw', r)"
      using "2.prems" by (auto split: if_split_asm)
    then show ?thesis using "2.IH"(2) False by cases (fastforce)+
  qed
qed simp

lemma scan_digits_shorter: "scan_digits s = Some (d, r) \<Longrightarrow> length r < length s"
proof -
  assume "scan_digits s = Some (d, r)"
  then have "takeWhile is_digit10 s \<noteq> []" "r = dropWhile is_digit10 s"
    by (auto simp: scan_digits_def split: list.splits)
  moreover have "length s = length (takeWhile is_digit10 s) + length (dropWhile is_digit10 s)"
    by (metis length_append takeWhile_dropWhile_id)
  ultimately show ?thesis by simp
qed

lemma scan_number_shorter:
  assumes "scan_number s = Some (l, r)"
  shows "length r < length s"
proof -
  define s1 where "s1 = (case s of c # cs \<Rightarrow> if c = CHR ''-'' then cs else s | [] \<Rightarrow> s)"
  have "length s1 \<le> length s" by (auto simp: s1_def split: list.splits)
  obtain i s2 f s3 e where a: "scan_int_part s1 = Some (i, s2)" "scan_frac_part s2 = Some (f, s3)"
    "scan_exp_part s3 = Some (e, r)"
    using assms by (auto simp: scan_number_def s1_def bind_eq_Some_conv split: list.splits if_splits)
  have "length s2 < length s1"
    using a(1) by (auto simp: scan_int_part_def dest: scan_digits_shorter split: list.splits if_splits)
  moreover have "length s3 \<le> length s2"
    using a(2) by (auto simp: scan_frac_part_def dest: scan_digits_shorter split: list.splits if_splits)
  moreover have "length r \<le> length s3"
    using a(3) by (auto simp: scan_exp_part_def dest: scan_digits_shorter split: list.splits if_splits)
  ultimately show ?thesis using \<open>length s1 \<le> length s\<close> by simp
qed

lemma strip_prefix_shorter: "strip_prefix p s = Some r \<Longrightarrow> p \<noteq> [] \<Longrightarrow> length r < length s"
  by (cases s; cases p) (auto simp: strip_prefix_def split: if_splits)


text \<open>The atoms of a value: the branch of \<open>json_value\<close> that does not recurse.\<close>

definition json_atom :: "string \<Rightarrow> (json \<times> string) option" where
  "json_atom s =
     (case strip_prefix ''true'' s of Some r \<Rightarrow> Some (JBool True, r)
      | None \<Rightarrow>
     (case strip_prefix ''false'' s of Some r \<Rightarrow> Some (JBool False, r)
      | None \<Rightarrow>
     (case strip_prefix ''null'' s of Some r \<Rightarrow> Some (JNull, r)
      | None \<Rightarrow> map_option (\<lambda>(l, r). (JNumber l, r)) (scan_number s))))"

lemma json_atom_shorter: "json_atom s = Some (v, r) \<Longrightarrow> length r < length s"
  unfolding json_atom_def
  by (auto dest: strip_prefix_shorter scan_number_shorter split: option.splits)

lemma json_valueE:
  assumes "json_value (Suc n) s = Some (v, r)"
  obtains (str) c cs raw where "skip_ws s = c # cs" "byte c = 34" "scan_string cs = Some (raw, r)" "v = JString raw"
  | (empty_obj) c cs d where "skip_ws s = c # cs" "byte c \<noteq> 34" "c = CHR ''{''" "skip_ws cs = d # r" "d = CHR ''}''" "v = JObject []"
  | (obj) c cs d ds ms where "skip_ws s = c # cs" "byte c \<noteq> 34" "c = CHR ''{''" "skip_ws cs = d # ds" "d \<noteq> CHR ''}''"
      "json_members n cs = Some (ms, r)" "v = JObject ms"
  | (empty_arr) c cs d where "skip_ws s = c # cs" "byte c \<noteq> 34" "c \<noteq> CHR ''{''" "c = CHR ''[''" "skip_ws cs = d # r" "d = CHR '']''" "v = JArray []"
  | (arr) c cs d ds vs where "skip_ws s = c # cs" "byte c \<noteq> 34" "c \<noteq> CHR ''{''" "c = CHR ''[''" "skip_ws cs = d # ds" "d \<noteq> CHR '']''"
      "json_elems n cs = Some (vs, r)" "v = JArray vs"
  | (atom) c cs where "skip_ws s = c # cs" "byte c \<noteq> 34" "c \<noteq> CHR ''{''" "c \<noteq> CHR ''[''" "json_atom (c # cs) = Some (v, r)"
proof (cases "skip_ws s")
  case Nil
  then show ?thesis using assms by simp
next
  case (Cons c cs)
  note run = assms [unfolded json_value.simps Cons list.case]
  show ?thesis
  proof (cases "byte c = 34")
    case True
    then show ?thesis using run Cons str by auto
  next
    case q: False
    note run = run [unfolded q if_False simp_thms]
    show ?thesis
    proof (cases "c = CHR ''{''")
      case True
      then show ?thesis using run Cons q empty_obj obj by (auto split: list.splits if_split_asm)
    next
      case o: False
      note run = run [unfolded o if_False simp_thms]
      show ?thesis
      proof (cases "c = CHR ''[''")
        case True
        then show ?thesis using run Cons q o empty_arr arr by (auto split: list.splits if_split_asm)
      next
        case False
        then show ?thesis using run Cons q o atom by (simp add: json_atom_def)
      qed
    qed
  qed
qed

lemma json_elemsE:
  assumes "json_elems (Suc n) s = Some (vs, r)"
  obtains (more) v r1 ds vs' where "json_value n s = Some (v, r1)" "skip_ws r1 = CHR '','' # ds"
      "json_elems n ds = Some (vs', r)" "vs = v # vs'"
  | (closed) v r1 where "json_value n s = Some (v, r1)" "skip_ws r1 = CHR '']'' # r" "vs = [v]"
proof -
  obtain v r1 where v: "json_value n s = Some (v, r1)"
    and k: "(case skip_ws r1 of
         d # ds \<Rightarrow>
           if d = CHR '','' then map_option (\<lambda>(vs, r'). (v # vs, r')) (json_elems n ds)
           else if d = CHR '']'' then Some ([v], ds) else None
       | [] \<Rightarrow> None) = Some (vs, r)"
    using assms unfolding json_elems.simps bind_eq_Some_conv by (auto simp only: prod.case split: prod.splits)
  obtain d ds where ws: "skip_ws r1 = d # ds" using k by (cases "skip_ws r1") simp_all
  show thesis
  proof (cases "d = CHR '',''")
    case True
    then obtain vs' where "json_elems n ds = Some (vs', r)" "vs = v # vs'" using k ws by auto
    then show thesis using more v ws True by blast
  next
    case False
    then have "d = CHR '']''" "vs = [v]" "r = ds" using k ws by (simp_all split: if_split_asm)
    then show thesis using closed v ws by blast
  qed
qed

lemma json_membersE:
  assumes "json_members (Suc n) s = Some (ms, r)"
  obtains (more) c cs k r1 ds v r2 fs ms' where "skip_ws s = c # cs" "byte c = 34" "scan_string cs = Some (k, r1)"
      "skip_ws r1 = CHR '':'' # ds" "json_value n ds = Some (v, r2)" "skip_ws r2 = CHR '','' # fs"
      "json_members n fs = Some (ms', r)" "ms = (k, v) # ms'"
  | (closed) c cs k r1 ds v r2 where "skip_ws s = c # cs" "byte c = 34" "scan_string cs = Some (k, r1)"
      "skip_ws r1 = CHR '':'' # ds" "json_value n ds = Some (v, r2)" "skip_ws r2 = CHR ''}'' # r" "ms = [(k, v)]"
proof -
  obtain c cs where s: "skip_ws s = c # cs" using assms by (cases "skip_ws s") simp_all
  have q: "byte c = 34" using assms s by (auto split: if_split_asm)
  note run = assms [unfolded json_members.simps s list.case q simp_thms if_False bind_eq_Some_conv]
  obtain k r1 where k: "scan_string cs = Some (k, r1)"
    and run1: "(case skip_ws r1 of
              d # ds \<Rightarrow>
                if d \<noteq> CHR '':'' then None
                else Option.bind (json_value n ds) (\<lambda>(v, r2).
                  case skip_ws r2 of
                    f # fs \<Rightarrow>
                      if f = CHR '','' then map_option (\<lambda>(ms, r'). ((k, v) # ms, r')) (json_members n fs)
                      else if f = CHR ''}'' then Some ([(k, v)], fs) else None
                  | [] \<Rightarrow> None)
            | [] \<Rightarrow> None) = Some (ms, r)"
    using run by (auto simp only: prod.case split: prod.splits)
  obtain d ds where d: "skip_ws r1 = d # ds" using run1 by (cases "skip_ws r1") simp_all
  have colon: "d = CHR '':''" using run1 d by (simp split: if_split_asm)
  note run2 = run1 [unfolded d list.case colon simp_thms if_False bind_eq_Some_conv]
  obtain v r2 where v: "json_value n ds = Some (v, r2)"
    and run3: "(case skip_ws r2 of
                    f # fs \<Rightarrow>
                      if f = CHR '','' then map_option (\<lambda>(ms, r'). ((k, v) # ms, r')) (json_members n fs)
                      else if f = CHR ''}'' then Some ([(k, v)], fs) else None
                  | [] \<Rightarrow> None) = Some (ms, r)"
    using run2 by (auto simp only: prod.case split: prod.splits)
  obtain f fs where f: "skip_ws r2 = f # fs" using run3 by (cases "skip_ws r2") simp_all
  show thesis
  proof (cases "f = CHR '',''")
    case True
    then obtain ms' where "json_members n fs = Some (ms', r)" "ms = (k, v) # ms'" using run3 f by auto
    then show thesis using more s q k d colon v f True by blast
  next
    case False
    then have "f = CHR ''}''" "ms = [(k, v)]" "r = fs" using run3 f by (simp_all split: if_split_asm)
    then show thesis using closed s q k d colon v f by blast
  qed
qed

text \<open>Every value takes at least one byte.\<close>

lemma json_shorter:
  "(\<forall>s v r. json_value n s = Some (v, r) \<longrightarrow> length r < length s)
   \<and> (\<forall>s vs r. json_elems n s = Some (vs, r) \<longrightarrow> length r < length s)
   \<and> (\<forall>s ms r. json_members n s = Some (ms, r) \<longrightarrow> length r < length s)"
proof (induction n)
  case (Suc n)
  have v: "length r < length s" if "json_value (Suc n) s = Some (v, r)" for s v r
    using that
  proof (cases rule: json_valueE)
    case (str c cs raw)
    then show ?thesis using scan_string_shorter [of cs raw r] skip_ws_Cons [of s c cs] by simp
  next
    case (empty_obj c cs d)
    then show ?thesis using skip_ws_Cons [of s c cs] skip_ws_Cons [of cs d r] by simp
  next
    case (obj c cs d ds ms)
    then have "length r < length cs" using Suc by blast
    then show ?thesis using obj skip_ws_Cons [of s c cs] by simp
  next
    case (empty_arr c cs d)
    then show ?thesis using skip_ws_Cons [of s c cs] skip_ws_Cons [of cs d r] by simp
  next
    case (arr c cs d ds vs)
    then have "length r < length cs" using Suc by blast
    then show ?thesis using arr skip_ws_Cons [of s c cs] by simp
  next
    case (atom c cs)
    then show ?thesis using json_atom_shorter [of "c # cs" v r] skip_ws_Cons [of s c cs] by simp
  qed
  have e: "length r < length s" if "json_elems (Suc n) s = Some (vs, r)" for s vs r
    using that
  proof (cases rule: json_elemsE)
    case (more v r1 ds vs')
    then have "length r1 < length s" "length r < length ds" using Suc by blast+
    then show ?thesis using more skip_ws_Cons [of r1 _ ds] by simp
  next
    case (closed v r1)
    then have "length r1 < length s" using Suc by blast
    then show ?thesis using closed skip_ws_Cons [of r1 _ r] by simp
  qed
  have m: "length r < length s" if "json_members (Suc n) s = Some (ms, r)" for s ms r
    using that
  proof (cases rule: json_membersE)
    case (more c cs k r1 ds v r2 fs ms')
    then have "length r2 < length ds" "length r < length fs" using Suc by blast+
    then show ?thesis
      using more skip_ws_Cons [of s c cs] scan_string_shorter [of cs k r1] skip_ws_Cons [of r1 _ ds] skip_ws_Cons [of r2 _ fs]
      by simp
  next
    case (closed c cs k r1 ds v r2)
    then have "length r2 < length ds" using Suc by blast
    then show ?thesis
      using closed skip_ws_Cons [of s c cs] scan_string_shorter [of cs k r1] skip_ws_Cons [of r1 _ ds] skip_ws_Cons [of r2 _ r]
      by simp
  qed
  show ?case using v e m by blast
qed simp


lemma json_fuel:
  "(\<forall>s v r k. json_value n s = Some (v, r) \<longrightarrow> 2 * length s + 1 \<le> k \<longrightarrow> json_value k s = Some (v, r))
   \<and> (\<forall>s vs r k. json_elems n s = Some (vs, r) \<longrightarrow> 2 * length s + 2 \<le> k \<longrightarrow> json_elems k s = Some (vs, r))
   \<and> (\<forall>s ms r k. json_members n s = Some (ms, r) \<longrightarrow> 2 * length s + 2 \<le> k \<longrightarrow> json_members k s = Some (ms, r))"
proof (induction n)
  case (Suc n)
  have IHv: "json_value k s = Some (v, r)" if "json_value n s = Some (v, r)" "2 * length s + 1 \<le> k" for s v r k
    using Suc that by blast
  have IHe: "json_elems k s = Some (vs, r)" if "json_elems n s = Some (vs, r)" "2 * length s + 2 \<le> k" for s vs r k
    using Suc that by blast
  have IHm: "json_members k s = Some (ms, r)" if "json_members n s = Some (ms, r)" "2 * length s + 2 \<le> k" for s ms r k
    using Suc that by blast
  have v: "json_value k s = Some (v, r)" if run: "json_value (Suc n) s = Some (v, r)" and k: "2 * length s + 1 \<le> k" for s v r k
  proof -
    obtain k' where k': "k = Suc k'" using k by (cases k) simp_all
    from run show ?thesis
    proof (cases rule: json_valueE)
      case (obj c cs d ds ms)
      then have "2 * length cs + 2 \<le> k'" using skip_ws_Cons [of s c cs] k k' by simp
      then have "json_members k' cs = Some (ms, r)" using IHm obj by blast
      then show ?thesis using obj k' by simp
    next
      case (arr c cs d ds vs)
      then have "2 * length cs + 2 \<le> k'" using skip_ws_Cons [of s c cs] k k' by simp
      then have "json_elems k' cs = Some (vs, r)" using IHe arr by blast
      then show ?thesis using arr k' by simp
    next
      case (atom c cs)
      then show ?thesis using k' by (simp add: json_atom_def)
    qed (use k' in auto)
  qed
  have e: "json_elems k s = Some (vs, r)" if run: "json_elems (Suc n) s = Some (vs, r)" and k: "2 * length s + 2 \<le> k" for s vs r k
  proof -
    obtain k' where k': "k = Suc k'" using k by (cases k) simp_all
    from run show ?thesis
    proof (cases rule: json_elemsE)
      case (more v r1 ds vs')
      have "length r1 < length s" using json_shorter more(1) by blast
      then have "2 * length ds + 2 \<le> k'" using skip_ws_Cons [OF more(2)] k k' by simp
      then have "json_elems k' ds = Some (vs', r)" by (rule IHe [OF more(3)])
      moreover have "json_value k' s = Some (v, r1)" by (rule IHv [OF more(1)]) (use k k' in simp)
      ultimately show ?thesis using more k' by simp
    next
      case (closed v r1)
      have "json_value k' s = Some (v, r1)" by (rule IHv [OF closed(1)]) (use k k' in simp)
      then show ?thesis using closed k' by simp
    qed
  qed
  have m: "json_members k s = Some (ms, r)" if run: "json_members (Suc n) s = Some (ms, r)" and k: "2 * length s + 2 \<le> k" for s ms r k
  proof -
    obtain k' where k': "k = Suc k'" using k by (cases k) simp_all
    from run show ?thesis
    proof (cases rule: json_membersE)
      case (more c cs q r1 ds v r2 fs ms')
      have l: "length ds < length s"
        using skip_ws_Cons [OF more(1)] scan_string_shorter [OF more(3)] skip_ws_Cons [OF more(4)] by simp
      have "length r2 < length ds" using json_shorter more(5) by blast
      then have "2 * length fs + 2 \<le> k'" using skip_ws_Cons [OF more(6)] l k k' by simp
      then have "json_members k' fs = Some (ms', r)" by (rule IHm [OF more(7)])
      moreover have "json_value k' ds = Some (v, r2)" by (rule IHv [OF more(5)]) (use l k k' in simp)
      ultimately show ?thesis using more k' by simp
    next
      case (closed c cs q r1 ds v r2)
      have "length ds < length s"
        using skip_ws_Cons [OF closed(1)] scan_string_shorter [OF closed(3)] skip_ws_Cons [OF closed(4)] by simp
      then have "json_value k' ds = Some (v, r2)" by (intro IHv [OF closed(5)]) (use k k' in simp)
      then show ?thesis using closed k' by simp
    qed
  qed
  show ?case using v e m by blast
qed simp

text \<open>What any amount of fuel can read, the decoder reads.\<close>

lemma json_decode_complete: "json_value n s = Some (v, r) \<Longrightarrow> json_decode s = Some (v, r)"
  unfolding json_decode_def by (rule json_fuel [of n, THEN conjunct1, rule_format]) simp_all

lemma json_decode_shorter: "json_decode s = Some (v, r) \<Longrightarrow> length r < length s"
  unfolding json_decode_def using json_shorter by blast

section \<open>Struct fields\<close>

text \<open>
  A key names a field when they are equal after folding: ASCII letters to upper case, the long s
  to S and the Kelvin sign to K; other runes stay as they are and match no field used here.
\<close>

function fold_name :: "string \<Rightarrow> string" where
  "fold_name s =
     (case s of
        [] \<Rightarrow> []
      | c # cs \<Rightarrow>
          if take 2 s = [char_of (197 :: nat), char_of (191 :: nat)] then CHR ''S'' # fold_name (drop 2 s)
          else if take 3 s = [char_of (226 :: nat), char_of (132 :: nat), char_of (170 :: nat)]
          then CHR ''K'' # fold_name (drop 3 s)
          else (if 97 \<le> byte c \<and> byte c \<le> 122 then char_of (byte c - 32) else c) # fold_name cs)"
  by pat_completeness auto
termination by (relation "measure length") auto

declare fold_name.simps [simp del]

text \<open>On plain ASCII text unquoting is the identity and folding is upper case.\<close>

lemma unquote_plain:
  "unquote [] = []" "byte c < 128 \<Longrightarrow> byte c \<noteq> 92 \<Longrightarrow> unquote (c # cs) = c # unquote cs"
  by (simp_all add: unquote.simps)

lemma fold_name_plain:
  "fold_name [] = []"
  "byte c < 128 \<Longrightarrow> fold_name (c # cs) = (if 97 \<le> byte c \<and> byte c \<le> 122 then char_of (byte c - 32) else c) # fold_name cs"
proof -
  assume "byte c < 128"
  then have "c \<noteq> char_of (197 :: nat)" "c \<noteq> char_of (226 :: nat)" by auto
  then show "fold_name (c # cs) = (if 97 \<le> byte c \<and> byte c \<le> 122 then char_of (byte c - 32) else c) # fold_name cs"
    by (simp add: fold_name.simps [of "c # cs"])
qed (simp add: fold_name.simps)

definition names_field :: "string \<Rightarrow> string \<Rightarrow> bool" where
  "names_field field key \<longleftrightarrow> fold_name (unquote key) = fold_name field"

text \<open>A string field: a string sets it, \<open>null\<close> leaves it alone, anything else is an error.\<close>

definition decode_string :: "json \<Rightarrow> string \<Rightarrow> string option" where
  "decode_string v old =
     (case v of JString raw \<Rightarrow> Some (unquote raw) | JNull \<Rightarrow> Some old | _ \<Rightarrow> None)"

text \<open>The members of an object, one after the other: the setter of the field a key names, or an error.\<close>

fun decode_members :: "(string \<times> (json \<Rightarrow> 'a \<Rightarrow> 'a option)) list \<Rightarrow> (string \<times> json) list \<Rightarrow> 'a \<Rightarrow> 'a option" where
  "decode_members spec [] x = Some x"
| "decode_members spec ((k, v) # ms) x =
     (case find (\<lambda>(f, _). names_field f k) spec of
        None \<Rightarrow> None
      | Some (_, upd) \<Rightarrow> Option.bind (upd v x) (decode_members spec ms))"

definition decode_struct :: "(string \<times> (json \<Rightarrow> 'a \<Rightarrow> 'a option)) list \<Rightarrow> json \<Rightarrow> 'a \<Rightarrow> 'a option" where
  "decode_struct spec v x =
     (case v of JObject ms \<Rightarrow> decode_members spec ms x | JNull \<Rightarrow> Some x | _ \<Rightarrow> None)"

text \<open>A pointer to a struct: \<open>null\<close> clears it, an object is decoded into what it points to or a new struct.\<close>

definition decode_pointer :: "(json \<Rightarrow> 'a \<Rightarrow> 'a option) \<Rightarrow> 'a \<Rightarrow> json \<Rightarrow> 'a option \<Rightarrow> 'a option option" where
  "decode_pointer dec zero v old =
     (case v of
        JNull \<Rightarrow> Some None
      | _ \<Rightarrow> map_option Some (dec v (case old of None \<Rightarrow> zero | Some x \<Rightarrow> x)))"

text \<open>A string member decoded into a string field with its setter.\<close>

definition string_field :: "string \<Rightarrow> ('a \<Rightarrow> string) \<Rightarrow> (string \<Rightarrow> 'a \<Rightarrow> 'a) \<Rightarrow> string \<times> (json \<Rightarrow> 'a \<Rightarrow> 'a option)" where
  "string_field name get upd = (name, \<lambda>v x. map_option (\<lambda>s. upd s x) (decode_string v (get x)))"

lemma decode_members_append:
  "decode_members spec (ms @ ns) x = Option.bind (decode_members spec ms x) (decode_members spec ns)"
  by (induction ms arbitrary: x) (auto split: option.splits bind_splits)

text \<open>A key that names no field refuses the whole object, wherever it stands.\<close>

lemma unknown_field_refused:
  assumes "(k, v) \<in> set ms" "\<forall>(f, upd)\<in>set spec. \<not> names_field f k"
  shows "decode_members spec ms x = None"
proof -
  obtain before after where ms: "ms = before @ (k, v) # after" using assms(1) by (meson split_list)
  have "find (\<lambda>(f, _). names_field f k) spec = None" using assms(2) by (auto simp: find_None_iff)
  then show ?thesis unfolding ms decode_members_append by (cases "decode_members spec before x") simp_all
qed


section \<open>Timestamps\<close>

text \<open>
  \<open>time.Time.UnmarshalJSON\<close> on the text between the quotes, escapes included: what
  \<open>time.Parse(time.RFC3339, ...)\<close> accepts, an hour of one digit, a comma before the fraction
  and an offset of up to 24:60 included.
\<close>

definition dval :: "char \<Rightarrow> nat" where
  "dval c = byte c - 48"

fun num2 :: "string \<Rightarrow> (nat \<times> string) option" where
  "num2 (a # b # r) = (if is_digit10 a \<and> is_digit10 b then Some (10 * dval a + dval b, r) else None)"
| "num2 _ = None"

fun num1or2 :: "string \<Rightarrow> (nat \<times> string) option" where
  "num1or2 [] = None"
| "num1or2 (a # r) =
     (if \<not> is_digit10 a then None
      else case r of b # r' \<Rightarrow> if is_digit10 b then Some (10 * dval a + dval b, r') else Some (dval a, r)
         | [] \<Rightarrow> Some (dval a, r))"

fun num4 :: "string \<Rightarrow> (nat \<times> string) option" where
  "num4 (a # b # c # d # r) =
     (if is_digit10 a \<and> is_digit10 b \<and> is_digit10 c \<and> is_digit10 d
      then Some (1000 * dval a + 100 * dval b + 10 * dval c + dval d, r) else None)"
| "num4 _ = None"

fun lit :: "char \<Rightarrow> string \<Rightarrow> string option" where
  "lit c (x # r) = (if x = c then Some r else None)"
| "lit c [] = None"

definition daysIn :: "nat \<Rightarrow> nat \<Rightarrow> nat" where
  "daysIn month year =
     (if month = 2 then (if year mod 4 = 0 \<and> (year mod 100 \<noteq> 0 \<or> year mod 400 = 0) then 29 else 28)
      else if month \<in> {4, 6, 9, 11} then 30 else 31)"

fun skip_fraction :: "string \<Rightarrow> string" where
  "skip_fraction (a # b # r) =
     (if a \<in> {CHR ''.'', CHR '',''} \<and> is_digit10 b then dropWhile is_digit10 (b # r) else a # b # r)"
| "skip_fraction s = s"

fun zone_ok :: "string \<Rightarrow> bool" where
  "zone_ok (z # r) =
     (if z = CHR ''Z'' then r = []
      else z \<in> {CHR ''+'', CHR ''-''} \<and>
        (case Option.bind (num2 r) (\<lambda>(h, r1). Option.bind (lit CHR '':'' r1) (\<lambda>r2. map_option (\<lambda>m. (h, m)) (num2 r2))) of
           Some (h, m, rest) \<Rightarrow> h \<le> 24 \<and> m \<le> 60 \<and> rest = []
         | None \<Rightarrow> False))"
| "zone_ok [] = False"

definition rfc3339_ok :: "string \<Rightarrow> bool" where
  "rfc3339_ok s =
     (case Option.bind (num4 s) (\<lambda>(year, s).
           Option.bind (lit CHR ''-'' s) (\<lambda>s.
           Option.bind (num2 s) (\<lambda>(month, s).
           Option.bind (lit CHR ''-'' s) (\<lambda>s.
           Option.bind (num2 s) (\<lambda>(day, s).
           Option.bind (lit CHR ''T'' s) (\<lambda>s.
           Option.bind (num1or2 s) (\<lambda>(hour, s).
           Option.bind (lit CHR '':'' s) (\<lambda>s.
           Option.bind (num2 s) (\<lambda>(minute, s).
           Option.bind (lit CHR '':'' s) (\<lambda>s.
           Option.bind (num2 s) (\<lambda>(sec, s). Some (year, month, day, hour, minute, sec, s)))))))))))) of
        None \<Rightarrow> False
      | Some (year, month, day, hour, minute, sec, s) \<Rightarrow>
          1 \<le> month \<and> month \<le> 12 \<and> 1 \<le> day \<and> day \<le> daysIn month year
          \<and> hour < 24 \<and> minute < 60 \<and> sec < 60 \<and> zone_ok (skip_fraction s))"

text \<open>A time field keeps the text that was accepted; \<open>null\<close> leaves it alone.\<close>

definition decode_time :: "json \<Rightarrow> string \<Rightarrow> string option" where
  "decode_time v old =
     (case v of JString raw \<Rightarrow> if rfc3339_ok raw then Some raw else None | JNull \<Rightarrow> Some old | _ \<Rightarrow> None)"

end
