(* ===== verification/Queue.thy ===== *)
theory Queue
  imports World
begin

text \<open>
  The queue adapter (\<open>internal/adapter/sqs/sqs.go\<close>): provisioning the queues, receiving,
  deleting and releasing. The SDK is outside the program. What it is asked is a value of
  \<open>sqs_request\<close>; what it answers is a parameter.
\<close>

section \<open>The broker's side\<close>

text \<open>
  Attributes of a queue. The redrive policy is kept as the two values its JSON text carries. The
  timeout in seconds is the argument of \<open>strconv.Itoa\<close>.
\<close>

datatype attribute_value =
    AttrText string
  | AttrSeconds i64
  | AttrRedrive (deadLetterTargetArn: string) (maxReceiveCount: i64)

datatype sqs_request =
    CreateQueue string "(string \<times> attribute_value) list"
  | GetQueueArn string
  | ReceiveMessage string "32 word" "32 word"
  | DeleteMessage string string
  | ChangeMessageVisibility string string "32 word"

datatype sqs_error = SqsCanceled | SqsDeadlineExceeded | SqsFailed string

text \<open>\<open>aws.ToString\<close>: the empty string for a nil pointer.\<close>

definition ToString :: "string option \<Rightarrow> string" where
  "ToString p = (case p of None \<Rightarrow> '''' | Some s \<Rightarrow> s)"

section \<open>The client\<close>

record sqs_config =
  sq_QueueName :: string
  sq_DLQName :: string
  sq_VisibilitySeconds :: i64
  sq_WaitSeconds :: "32 word"
  sq_MaxReceiveCount :: i64

record sqs_client =
  cl_queueURL :: string
  cl_cfg :: sqs_config

record QueueMessage =
  qm_receiptHandle :: string
  qm_body :: string

record sqs_message =
  mg_receiptHandle :: "string option"
  mg_body :: "string option"

text \<open>
  The SDK as provisioning uses it: what \<open>CreateQueue\<close> answers for a name and attributes, and
  which ARN, if any, \<open>GetQueueAttributes\<close> reports for a url.
\<close>

record sqs_api =
  api_CreateQueue :: "string \<Rightarrow> (string \<times> attribute_value) list \<Rightarrow> string + string option"
  api_GetQueueArn :: "string \<Rightarrow> string + string option"

definition createQueue :: "sqs_api \<Rightarrow> string \<Rightarrow> (string \<times> attribute_value) list \<Rightarrow> string res" where
  "createQueue api name attributes =
     (case api_CreateQueue api name attributes of
        Inl e \<Rightarrow> Inl (Wrapped (OtherErr e))
      | Inr url \<Rightarrow> Inr (ToString url))"

definition queueARN :: "sqs_api \<Rightarrow> string \<Rightarrow> string res" where
  "queueARN api url =
     (case api_GetQueueArn api url of
        Inl e \<Rightarrow> Inl (Wrapped (OtherErr e))
      | Inr attr \<Rightarrow> if ToString attr = '''' then Inl (OtherErr ''the queue reported no arn'') else Inr (ToString attr))"

definition dlq_attributes :: "(string \<times> attribute_value) list" where
  "dlq_attributes = [(''FifoQueue'', AttrText ''true'')]"

definition queue_attributes :: "sqs_config \<Rightarrow> string \<Rightarrow> (string \<times> attribute_value) list" where
  "queue_attributes cfg dlqARN =
     [(''FifoQueue'', AttrText ''true''), (''ContentBasedDeduplication'', AttrText ''false''),
      (''VisibilityTimeout'', AttrSeconds (sq_VisibilitySeconds cfg)),
      (''RedrivePolicy'', AttrRedrive dlqARN (sq_MaxReceiveCount cfg))]"

text \<open>The calls made, in order, and the url of the main queue.\<close>

definition provision :: "sqs_api \<Rightarrow> sqs_config \<Rightarrow> sqs_request list \<times> string res" where
  "provision api cfg =
     (let create_dlq = CreateQueue (sq_DLQName cfg) dlq_attributes in
      case createQueue api (sq_DLQName cfg) dlq_attributes of
        Inl e \<Rightarrow> ([create_dlq], Inl e)
      | Inr dlqURL \<Rightarrow>
          (case queueARN api dlqURL of
             Inl e \<Rightarrow> ([create_dlq, GetQueueArn dlqURL], Inl e)
           | Inr dlqARN \<Rightarrow>
               ([create_dlq, GetQueueArn dlqURL, CreateQueue (sq_QueueName cfg) (queue_attributes cfg dlqARN)],
                createQueue api (sq_QueueName cfg) (queue_attributes cfg dlqARN))))"

definition Sqs_New :: "sqs_api \<Rightarrow> sqs_config \<Rightarrow> sqs_client res" where
  "Sqs_New api cfg = andThen (snd (provision api cfg)) (\<lambda>url. Inr \<lparr>cl_queueURL = url, cl_cfg = cfg\<rparr>)"

definition receive_request :: "sqs_client \<Rightarrow> i64 \<Rightarrow> sqs_request" where
  "receive_request cl n = ReceiveMessage (cl_queueURL cl) (ucast n) (sq_WaitSeconds (cl_cfg cl))"

text \<open>What the client makes of the broker's answer; a poll cut short by shutdown is no failure.\<close>

definition Client_Receive :: "sqs_error + sqs_message list \<Rightarrow> QueueMessage list res" where
  "Client_Receive reply =
     (case reply of
        Inl SqsCanceled \<Rightarrow> Inr []
      | Inl SqsDeadlineExceeded \<Rightarrow> Inr []
      | Inl (SqsFailed e) \<Rightarrow> Inl (Wrapped (OtherErr e))
      | Inr messages \<Rightarrow>
          Inr (map (\<lambda>m. \<lparr>qm_receiptHandle = ToString (mg_receiptHandle m), qm_body = ToString (mg_body m)\<rparr>) messages))"

definition Client_Delete :: "sqs_client \<Rightarrow> string \<Rightarrow> sqs_request" where
  "Client_Delete cl receiptHandle = DeleteMessage (cl_queueURL cl) receiptHandle"

definition Client_Release :: "sqs_client \<Rightarrow> string \<Rightarrow> sqs_request" where
  "Client_Release cl receiptHandle = ChangeMessageVisibility (cl_queueURL cl) receiptHandle 0"

section \<open>Properties\<close>

text \<open>
  The main queue is never created without its dead-letter queue. Whenever provisioning asks
  for the main queue, it has created the dead-letter queue first, read its ARN, and the
  redrive policy of the main queue names exactly that ARN, which is not empty, with the
  configured number of receives. A client exists only after all three calls succeeded.
\<close>

lemma main_queue_has_redrive:
  "(fst (provision api cfg) = [CreateQueue (sq_DLQName cfg) dlq_attributes]
    \<or> (\<exists>url. createQueue api (sq_DLQName cfg) dlq_attributes = Inr url
        \<and> (fst (provision api cfg) = [CreateQueue (sq_DLQName cfg) dlq_attributes, GetQueueArn url]
           \<or> (\<exists>arn. queueARN api url = Inr arn \<and> arn \<noteq> ''''
               \<and> fst (provision api cfg) = [CreateQueue (sq_DLQName cfg) dlq_attributes, GetQueueArn url,
                   CreateQueue (sq_QueueName cfg) (queue_attributes cfg arn)]))))
   \<and> (Sqs_New api cfg = Inr cl \<longrightarrow>
        cl_cfg cl = cfg \<and> length (fst (provision api cfg)) = 3 \<and>
        (\<exists>url arn. createQueue api (sq_DLQName cfg) dlq_attributes = Inr url \<and> queueARN api url = Inr arn
           \<and> map_of (queue_attributes cfg arn) ''RedrivePolicy'' = Some (AttrRedrive arn (sq_MaxReceiveCount cfg))
           \<and> createQueue api (sq_QueueName cfg) (queue_attributes cfg arn) = Inr (cl_queueURL cl)))"
proof -
  have arn: "queueARN api url = Inr a \<Longrightarrow> a \<noteq> ''''" for url a
    by (auto simp: queueARN_def split: sum.splits if_splits)
  show ?thesis
    using arn
    by (auto simp: provision_def Let_def Sqs_New_def andThen_Inr_iff queue_attributes_def split: sum.splits)
qed

definition demo_api :: sqs_api where
  "demo_api = \<lparr>api_CreateQueue = (\<lambda>name _. Inr (Some (''http://sqs/'' @ name))),
     api_GetQueueArn = (\<lambda>url. Inr (Some (''arn:'' @ url)))\<rparr>"

definition demo_queue :: sqs_config where
  "demo_queue = \<lparr>sq_QueueName = ''wagers.fifo'', sq_DLQName = ''wagers-dlq.fifo'', sq_VisibilitySeconds = 30,
     sq_WaitSeconds = 20, sq_MaxReceiveCount = 5\<rparr>"

definition demo_client :: sqs_client where
  "demo_client = \<lparr>cl_queueURL = ''http://sqs/wagers.fifo'', cl_cfg = demo_queue\<rparr>"

lemma main_queue_has_redrive_witness:
  "Sqs_New demo_api demo_queue = Inr demo_client \<and> length (fst (provision demo_api demo_queue)) = 3"
proof -
  have "Sqs_New demo_api demo_queue = Inr demo_client"
    by (simp add: Sqs_New_def provision_def createQueue_def queueARN_def demo_api_def demo_queue_def demo_client_def
        ToString_def Let_def)
  then show ?thesis using main_queue_has_redrive [of demo_api demo_queue demo_client] by simp
qed

end
