(* ===== verification/Consumer.thy ===== *)
theory Consumer
  imports Submission Json Queue
begin

text \<open>
  The queue port (\<open>internal/app/consumer.go\<close>): an envelope is decoded, claimed in the inbox and
  applied through the same use case as over HTTP, in one transaction with its inbox record; the
  message is deleted after the commit, or released for redelivery.

  \<open>occurredAt\<close> keeps the text that was accepted: nothing reads it. Log lines and measured times
  are left out; the meters are the list of what is reported to them.
\<close>

section \<open>The envelope\<close>

record MoneyData =
  md_amount :: string
  md_currency :: string

record EnvelopeData =
  ed_providerID :: string
  ed_externalID :: string
  ed_idempotencyKey :: string
  ed_playerID :: string
  ed_walletID :: string
  ed_roundID :: string
  ed_gameID :: string
  ed_kind :: string
  ed_money :: MoneyData
  ed_referenceExternalID :: string

record Envelope =
  en_messageID :: string
  en_type :: string
  en_occurredAt :: string
  en_data :: EnvelopeData

definition no_money :: MoneyData where
  "no_money = \<lparr>md_amount = '''', md_currency = ''''\<rparr>"

definition no_data :: EnvelopeData where
  "no_data = \<lparr>ed_providerID = '''', ed_externalID = '''', ed_idempotencyKey = '''', ed_playerID = '''',
     ed_walletID = '''', ed_roundID = '''', ed_gameID = '''', ed_kind = '''', ed_money = no_money,
     ed_referenceExternalID = ''''\<rparr>"

definition no_envelope :: Envelope where
  "no_envelope = \<lparr>en_messageID = '''', en_type = '''', en_occurredAt = '''', en_data = no_data\<rparr>"

text \<open>The struct tags: which member sets which field.\<close>

definition money_spec :: "(string \<times> (json \<Rightarrow> MoneyData \<Rightarrow> MoneyData option)) list" where
  "money_spec =
     [string_field ''amount'' md_amount (\<lambda>s x. x\<lparr>md_amount := s\<rparr>),
      string_field ''currency'' md_currency (\<lambda>s x. x\<lparr>md_currency := s\<rparr>)]"

definition data_spec :: "(string \<times> (json \<Rightarrow> EnvelopeData \<Rightarrow> EnvelopeData option)) list" where
  "data_spec =
     [string_field ''providerId'' ed_providerID (\<lambda>s x. x\<lparr>ed_providerID := s\<rparr>),
      string_field ''externalTransactionId'' ed_externalID (\<lambda>s x. x\<lparr>ed_externalID := s\<rparr>),
      string_field ''idempotencyKey'' ed_idempotencyKey (\<lambda>s x. x\<lparr>ed_idempotencyKey := s\<rparr>),
      string_field ''playerId'' ed_playerID (\<lambda>s x. x\<lparr>ed_playerID := s\<rparr>),
      string_field ''walletId'' ed_walletID (\<lambda>s x. x\<lparr>ed_walletID := s\<rparr>),
      string_field ''roundId'' ed_roundID (\<lambda>s x. x\<lparr>ed_roundID := s\<rparr>),
      string_field ''gameId'' ed_gameID (\<lambda>s x. x\<lparr>ed_gameID := s\<rparr>),
      string_field ''kind'' ed_kind (\<lambda>s x. x\<lparr>ed_kind := s\<rparr>),
      (''money'', \<lambda>v x. map_option (\<lambda>m. x\<lparr>ed_money := m\<rparr>) (decode_struct money_spec v (ed_money x))),
      string_field ''referenceExternalTransactionId'' ed_referenceExternalID (\<lambda>s x. x\<lparr>ed_referenceExternalID := s\<rparr>)]"

definition envelope_spec :: "(string \<times> (json \<Rightarrow> Envelope \<Rightarrow> Envelope option)) list" where
  "envelope_spec =
     [string_field ''messageId'' en_messageID (\<lambda>s x. x\<lparr>en_messageID := s\<rparr>),
      string_field ''type'' en_type (\<lambda>s x. x\<lparr>en_type := s\<rparr>),
      (''occurredAt'', \<lambda>v x. map_option (\<lambda>s. x\<lparr>en_occurredAt := s\<rparr>) (decode_time v (en_occurredAt x))),
      (''data'', \<lambda>v x. map_option (\<lambda>m. x\<lparr>en_data := m\<rparr>) (decode_struct data_spec v (en_data x)))]"

definition TypeWagerTransactionRequested :: string where
  "TypeWagerTransactionRequested = ''WagerTransactionRequested''"

definition Envelope_Command :: "Envelope \<Rightarrow> SubmitCommand" where
  "Envelope_Command e =
     \<lparr>sc_idempotencyKey = ed_idempotencyKey (en_data e), sc_providerID = ed_providerID (en_data e),
      sc_externalID = ed_externalID (en_data e), sc_playerID = ed_playerID (en_data e),
      sc_walletID = ed_walletID (en_data e), sc_roundID = ed_roundID (en_data e), sc_gameID = ed_gameID (en_data e),
      sc_kind = ed_kind (en_data e), sc_amount = md_amount (ed_money (en_data e)),
      sc_currency = md_currency (ed_money (en_data e)),
      sc_referenceExternalID = ed_referenceExternalID (en_data e)\<rparr>"

text \<open>The first JSON value of the body; what follows it is not looked at.\<close>

definition decodeEnvelope :: "string \<Rightarrow> (Envelope \<times> SubmitCommand) res" where
  "decodeEnvelope body =
     (case Option.bind (json_decode body) (\<lambda>(v, _). decode_struct envelope_spec v no_envelope) of
        None \<Rightarrow> Inl (Wrapped ErrInvalidInput)
      | Some envelope \<Rightarrow>
          if en_messageID envelope = '''' then Inl (Wrapped ErrInvalidInput)
          else if en_type envelope \<noteq> TypeWagerTransactionRequested then Inl (Wrapped ErrInvalidInput)
          else if ed_idempotencyKey (en_data envelope) = '''' then Inl (Wrapped ErrInvalidInput)
          else Inr (envelope, Envelope_Command envelope))"

section \<open>The consumer\<close>

record ConsumerConfig =
  cc_Name :: string
  cc_BatchSize :: i64
  cc_IdleBackoff :: duration

definition NewConsumer :: "ConsumerConfig \<Rightarrow> ConsumerConfig" where
  "NewConsumer cfg =
     (let cfg = (if cc_Name cfg = '''' then cfg\<lparr>cc_Name := ''wager-transactions''\<rparr> else cfg);
          cfg = (if cc_BatchSize cfg \<le>s 0 then cfg\<lparr>cc_BatchSize := 10\<rparr> else cfg) in
      (if cc_IdleBackoff cfg \<le>s 0 then cfg\<lparr>cc_IdleBackoff := second\<rparr> else cfg))"

datatype queue_metric = MessageDeduplicated | MessageDiscarded string | MessageReleased | Operation metric

definition DiscardMalformed :: string where "DiscardMalformed = ''malformed''"
definition DiscardUnusable :: string where "DiscardUnusable = ''unusable''"
definition DiscardNoProvider :: string where "DiscardNoProvider = ''no-provider''"
definition DiscardReusedID :: string where "DiscardReusedID = ''reused-message-id''"

definition Consumer_identity :: "ConsumerConfig \<Rightarrow> Envelope \<Rightarrow> Identity res" where
  "Consumer_identity cfg envelope =
     NewIdentity \<lparr>ip_subject = ''queue:'' @ cc_Name cfg, ip_providerID = ed_providerID (en_data envelope),
                  ip_scopes = [string_of_scope ScopeSubmit]\<rparr>"

text \<open>The variables the callback assigns, and what it reports to the meters as it runs.\<close>

record consume_state =
  cs_result :: SubmitResult
  cs_worked :: bool
  cs_metrics :: "queue_metric list"

definition discarded :: "string \<Rightarrow> consume_state \<Rightarrow> consume_state" where
  "discarded reason v = v\<lparr>cs_metrics := cs_metrics v @ [MessageDiscarded reason]\<rparr>"

definition alreadySeen ::
  "env \<Rightarrow> ConsumerConfig \<Rightarrow> Envelope \<Rightarrow> PayloadHash \<Rightarrow> consume_state \<Rightarrow> database world
     \<Rightarrow> unit res \<times> consume_state \<times> database world" where
  "alreadySeen \<Gamma> cfg envelope hash v w =
     (case Inbox_Find \<Gamma> (cc_Name cfg) (en_messageID envelope) w of
        (Inl e, w') \<Rightarrow> (Inl e, v, w')
      | (Inr seen, w') \<Rightarrow>
          if im_payloadHash seen \<noteq> hash then (Inr (), discarded DiscardReusedID v, w')
          else if \<not> InboxMessage_Handled seen then (Inl (Wrapped ErrSerializationFailure), v, w')
          else (Inr (), v, w'))"

definition consume_complete ::
  "env \<Rightarrow> ConsumerConfig \<Rightarrow> Envelope \<Rightarrow> gotime \<Rightarrow> consume_state \<Rightarrow> database world
     \<Rightarrow> unit res \<times> consume_state \<times> database world" where
  "consume_complete \<Gamma> cfg envelope now v w =
     (case Inbox_Complete \<Gamma> (cc_Name cfg) (en_messageID envelope) now w of
        (r, w') \<Rightarrow> (r, v\<lparr>cs_worked := True\<rparr>, w'))"

definition inbox_claim :: "ConsumerConfig \<Rightarrow> Envelope \<Rightarrow> PayloadHash \<Rightarrow> gotime \<Rightarrow> InboxMessage" where
  "inbox_claim cfg envelope hash now =
     \<lparr>im_consumerName = cc_Name cfg, im_messageID = en_messageID envelope, im_payloadHash = hash,
      im_receivedAt = now, im_completedAt = time_zero\<rparr>"

definition consume_body ::
  "env \<Rightarrow> ReferencePolicy \<Rightarrow> ConsumerConfig \<Rightarrow> Envelope \<Rightarrow> SubmitCommand \<Rightarrow> PayloadHash \<Rightarrow> consume_state callback" where
  "consume_body \<Gamma> waiting cfg envelope cmd hash c v w =
     (case clock_Now \<Gamma> w of
        (Inl e, w1) \<Rightarrow> (Inl e, v, w1)
      | (Inr now, w1) \<Rightarrow>
          (case Inbox_Claim \<Gamma> (inbox_claim cfg envelope hash now) w1 of
             (Inl claimErr, w2) \<Rightarrow>
               if errors_Is claimErr ErrConflict then alreadySeen \<Gamma> cfg envelope hash v w2
               else (Inl claimErr, v, w2)
           | (Inr _, w2) \<Rightarrow>
               (case ExecuteIn \<Gamma> waiting cmd c w2 of
                  (Inl e, w3) \<Rightarrow>
                    (case as_domain e of
                       None \<Rightarrow> (Inl e, v, w3)
                     | Some code \<Rightarrow> consume_complete \<Gamma> cfg envelope now (discarded DiscardUnusable v) w3)
                | (Inr applied, w3) \<Rightarrow> consume_complete \<Gamma> cfg envelope now (v\<lparr>cs_result := applied\<rparr>) w3)))"

definition fresh_state :: consume_state where
  "fresh_state = \<lparr>cs_result = no_result, cs_worked = False, cs_metrics = []\<rparr>"

definition work_context :: "ctx \<Rightarrow> Envelope \<Rightarrow> Identity \<Rightarrow> ctx" where
  "work_context c envelope identity =
     WithIdentity (WithCorrelationID (WithoutCancel c) (en_messageID envelope)) identity"

definition Consumer_apply ::
  "env \<Rightarrow> RetryPolicy \<Rightarrow> ReferencePolicy \<Rightarrow> ConsumerConfig \<Rightarrow> ctx \<Rightarrow> Envelope \<Rightarrow> SubmitCommand \<Rightarrow> Identity
     \<Rightarrow> database world \<Rightarrow> (SubmitResult \<times> bool) res \<times> queue_metric list \<times> database world" where
  "Consumer_apply \<Gamma> retry waiting cfg c envelope cmd identity w =
     (case SubmitCommand_PayloadHash cmd of
        Inl e \<Rightarrow> (Inl e, [], w)
      | Inr hash \<Rightarrow>
          (case UnitOfWork_Do \<Gamma> retry (work_context c envelope identity)
                  (consume_body \<Gamma> waiting cfg envelope cmd hash) fresh_state w of
             (Inl e, v, w') \<Rightarrow> (Inl e, cs_metrics v, w')
           | (Inr _, v, w') \<Rightarrow> (Inr (cs_result v, cs_worked v), cs_metrics v, w')))"

datatype outcome = outcomeDelete | outcomeRelease

text \<open>The broker call; its error is only logged.\<close>

definition Consumer_finish :: "sqs_client \<Rightarrow> QueueMessage \<Rightarrow> outcome \<Rightarrow> sqs_request" where
  "Consumer_finish cl message what =
     (case what of
        outcomeRelease \<Rightarrow> Client_Release cl (qm_receiptHandle message)
      | outcomeDelete \<Rightarrow> Client_Delete cl (qm_receiptHandle message))"

definition Consumer_handle ::
  "env \<Rightarrow> RetryPolicy \<Rightarrow> ReferencePolicy \<Rightarrow> ConsumerConfig \<Rightarrow> ctx \<Rightarrow> QueueMessage \<Rightarrow> database world
     \<Rightarrow> queue_metric list \<times> outcome \<times> database world" where
  "Consumer_handle \<Gamma> retry waiting cfg c message w =
     (case decodeEnvelope (qm_body message) of
        Inl e \<Rightarrow> ([MessageDiscarded DiscardMalformed], outcomeDelete, w)
      | Inr (envelope, cmd) \<Rightarrow>
          (case Consumer_identity cfg envelope of
             Inl e \<Rightarrow> ([MessageDiscarded DiscardNoProvider], outcomeDelete, w)
           | Inr identity \<Rightarrow>
               (case Consumer_apply \<Gamma> retry waiting cfg c envelope cmd identity w of
                  (Inl e, metrics, w') \<Rightarrow> (metrics @ [MessageReleased], outcomeRelease, w')
                | (Inr (result, decided), metrics, w') \<Rightarrow>
                    (metrics @ (if decided then map Operation (Submit_Settled ''queue'' result None)
                                else [MessageDeduplicated]), outcomeDelete, w'))))"

fun handle_batch ::
  "env \<Rightarrow> RetryPolicy \<Rightarrow> ReferencePolicy \<Rightarrow> sqs_client \<Rightarrow> ConsumerConfig \<Rightarrow> ctx \<Rightarrow> QueueMessage list \<Rightarrow> database world
     \<Rightarrow> queue_metric list \<times> sqs_request list \<times> database world" where
  "handle_batch \<Gamma> retry waiting cl cfg c [] w = ([], [], w)"
| "handle_batch \<Gamma> retry waiting cl cfg c (m # ms) w =
     (case Consumer_handle \<Gamma> retry waiting cfg c m w of
        (metrics, what, w1) \<Rightarrow>
          (case handle_batch \<Gamma> retry waiting cl cfg c ms w1 of
             (metrics', requests, w2) \<Rightarrow> (metrics @ metrics', Consumer_finish cl m what # requests, w2)))"

definition Consumer_RunOnce ::
  "env \<Rightarrow> RetryPolicy \<Rightarrow> ReferencePolicy \<Rightarrow> sqs_client \<Rightarrow> ConsumerConfig \<Rightarrow> ctx \<Rightarrow> sqs_error + sqs_message list
     \<Rightarrow> database world \<Rightarrow> nat res \<times> queue_metric list \<times> sqs_request list \<times> database world" where
  "Consumer_RunOnce \<Gamma> retry waiting cl cfg c reply w =
     (case Client_Receive reply of
        Inl e \<Rightarrow> (Inl e, [], [receive_request cl (cc_BatchSize cfg)], w)
      | Inr messages \<Rightarrow>
          (case handle_batch \<Gamma> retry waiting cl cfg c messages w of
             (metrics, requests, w') \<Rightarrow>
               (Inr (length messages), metrics, receive_request cl (cc_BatchSize cfg) # requests, w')))"

text \<open>
  The polling loop, over the answers the broker gives to its successive polls: it stops when the
  context is done, at the top of a round or while it waits after an error.
\<close>

definition ctx_done :: "env \<Rightarrow> ctx \<Rightarrow> database world \<Rightarrow> bool" where
  "ctx_done \<Gamma> c w \<longleftrightarrow> c_cancellable c \<and> env_done \<Gamma> (calls w)"

fun Consumer_Run ::
  "env \<Rightarrow> RetryPolicy \<Rightarrow> ReferencePolicy \<Rightarrow> sqs_client \<Rightarrow> ConsumerConfig \<Rightarrow> ctx \<Rightarrow> (sqs_error + sqs_message list) list
     \<Rightarrow> database world \<Rightarrow> queue_metric list \<times> sqs_request list \<times> database world" where
  "Consumer_Run \<Gamma> retry waiting cl cfg c [] w = ([], [], w)"
| "Consumer_Run \<Gamma> retry waiting cl cfg c (reply # replies) w =
     (if ctx_done \<Gamma> c w then ([], [], tick w)
      else case Consumer_RunOnce \<Gamma> retry waiting cl cfg c reply (tick w) of
        (r, metrics, requests, w1) \<Rightarrow>
          (case r of
             Inl e \<Rightarrow>
               if ctx_done \<Gamma> c w1 then (metrics, requests, tick w1)
               else (case Consumer_Run \<Gamma> retry waiting cl cfg c replies (tick w1) of
                       (metrics', requests', w2) \<Rightarrow> (metrics @ metrics', requests @ requests', w2))
           | Inr handled \<Rightarrow>
               (case Consumer_Run \<Gamma> retry waiting cl cfg c replies w1 of
                  (metrics', requests', w2) \<Rightarrow> (metrics @ metrics', requests @ requests', w2))))"

end
