(* ===== verification/Delivery.thy ===== *)
theory Delivery
  imports Consumer
begin

text \<open>
  What handling a delivery guarantees (\<open>internal/app/consumer.go\<close>): the operation and the inbox
  record commit together or not at all, a message is deleted only once it is recorded, and a
  redelivery is absorbed.
\<close>

section \<open>The inbox\<close>

lemma Inbox_Claim_cases:
  assumes "Inbox_Claim \<Gamma> m w = (q, w')"
  obtains (claimed) "q = Inr ()" "\<forall>r\<in>set (d_inbox (db w)). \<not> inbox_key (im_consumerName m) (im_messageID m) r"
      "db w' = (db w)\<lparr>d_inbox := d_inbox (db w) @
         [\<lparr>ir_consumer_name = im_consumerName m, ir_message_id = im_messageID m,
           ir_payload_hash = ident_String (im_payloadHash m), ir_received_at = pg_time (im_receivedAt m),
           ir_completed_at = None\<rparr>]\<rparr>" "in_tx w' = in_tx w" "aborted w' = aborted w"
  | (refused) e where "q = Inl e" "db w' = db w" "in_tx w' = in_tx w" "as_domain e = None"
proof -
  let ?row = "\<lparr>ir_consumer_name = im_consumerName m, ir_message_id = im_messageID m,
          ir_payload_hash = ident_String (im_payloadHash m), ir_received_at = pg_time (im_receivedAt m),
          ir_completed_at = None\<rparr>"
  let ?f = "\<lambda>_ :: nat. insert_inbox ?row"
  have q: "bindE (io_translate (stmt \<Gamma> ?f)) (\<lambda>n. if n = 0 then throw (NewConflict constraintInboxIdentity) else ret ()) w = (q, w')"
    using assms by (simp add: Inbox_Claim_def)
  obtain r w1 where s: "stmt \<Gamma> ?f w = (r, w1)" by (metis surj_pair)
  show thesis
  proof (cases "\<exists>r\<in>set (d_inbox (db w)). inbox_key (im_consumerName m) (im_messageID m) r")
    case True
    then have run: "insert_inbox ?row (db w) = (Inr 0, db w)" by (auto simp: insert_inbox_def inbox_key_def)
    have "db w1 = db w \<and> in_tx w1 = in_tx w \<and> (r = Inr 0 \<or> (\<exists>e. r = Inl e))"
      using s run by (cases rule: stmt_exhaust [where w = w and \<Gamma> = \<Gamma> and f = ?f]) (auto simp: stmt_cases)
    moreover from this have "\<exists>e. q = Inl e \<and> w' = w1 \<and> as_domain e = None"
      using q s by (cases r) (auto simp: bindE_def io_translate_def)
    ultimately show thesis using refused by blast
  next
    case False
    then have run: "insert_inbox ?row (db w) = (Inr 1, (db w)\<lparr>d_inbox := d_inbox (db w) @ [?row]\<rparr>)"
      by (auto simp: insert_inbox_def inbox_key_def)
    from s consider (bad) e where "r = Inl e" "db w1 = db w" "in_tx w1 = in_tx w"
      | (good) "r = Inr 1" "db w1 = (db w)\<lparr>d_inbox := d_inbox (db w) @ [?row]\<rparr>" "in_tx w1 = in_tx w" "aborted w1 = aborted w"
      using run by (cases rule: stmt_exhaust [where w = w and \<Gamma> = \<Gamma> and f = ?f]) (auto simp: stmt_cases)
    then show thesis
    proof cases
      case bad
      moreover from this have "q = Inl (translate e)" "w' = w1" using q s by (simp_all add: bindE_def io_translate_def)
      ultimately show thesis using refused by simp
    next
      case good
      then show thesis using q s False by (intro claimed) (auto simp: bindE_def io_translate_def)
    qed
  qed
qed

lemma Inbox_Complete_ok:
  assumes "Inbox_Complete \<Gamma> consumer message at w = (Inr u, w')"
  shows "db w' = (db w)\<lparr>d_inbox := map (\<lambda>r. if inbox_key consumer message r then r\<lparr>ir_completed_at := Some (pg_time at)\<rparr> else r)
      (d_inbox (db w))\<rparr> \<and> in_tx w' = in_tx w \<and> aborted w' = aborted w"
  using assms
  by (auto simp: Inbox_Complete_def update_inbox_def elim!: bindE_okE io_translate_okE stmt_okE split: if_splits)

text \<open>What \<open>Find\<close> makes of a row.\<close>

definition inbox_message :: "string \<Rightarrow> string \<Rightarrow> inbox_row \<Rightarrow> InboxMessage res" where
  "inbox_message consumer message r =
     andThen (wrap (ParsePayloadHash (ir_payload_hash r))) (\<lambda>hash.
       Inr \<lparr>im_consumerName = consumer, im_messageID = message, im_payloadHash = hash,
              im_receivedAt = time_of_pg (ir_received_at r),
              im_completedAt = derefTime (ir_completed_at r)\<rparr>)"

lemma Inbox_Find_eq:
  "Inbox_Find \<Gamma> consumer message =
     bindE (io_translate (query \<Gamma> (\<lambda>_ d. select_one (inbox_key consumer message) (d_inbox d))))
       (\<lambda>r. lift (inbox_message consumer message r))"
proof -
  have "bindE (lift (wrap (ParsePayloadHash (ir_payload_hash r)))) (\<lambda>hash.
         ret \<lparr>im_consumerName = consumer, im_messageID = message, im_payloadHash = hash,
              im_receivedAt = time_of_pg (ir_received_at r), im_completedAt = derefTime (ir_completed_at r)\<rparr>)
      = (lift (inbox_message consumer message r) :: InboxMessage pgio)" for r
    by (rule ext) (cases "wrap (ParsePayloadHash (ir_payload_hash r))", simp_all add: inbox_message_def)
  then show ?thesis by (simp add: Inbox_Find_def)
qed

lemma inbox_message_ok:
  "inbox_message consumer message r = Inr m \<Longrightarrow>
     im_payloadHash m = Identifier (ir_payload_hash r) \<and> im_completedAt m = derefTime (ir_completed_at r)"
  by (auto simp: inbox_message_def wrap_def andThen_Inr_iff ParsePayloadHash_def parseIdentifier_iff split: sum.splits)

lemma Inbox_Find_ok:
  assumes "Inbox_Find \<Gamma> consumer message w = (Inr m, w')"
  shows "\<exists>r\<in>set (d_inbox (db w)). inbox_key consumer message r \<and> im_payloadHash m = Identifier (ir_payload_hash r)
    \<and> im_completedAt m = derefTime (ir_completed_at r)"
proof -
  obtain r where "select_one (inbox_key consumer message) (d_inbox (db w)) = Inr r"
    and m: "inbox_message consumer message r = Inr m"
    using assms unfolding Inbox_Find_eq by (auto elim!: bindE_okE io_translate_okE query_okE)
  then have "r \<in> set (d_inbox (db w))" "inbox_key consumer message r"
    by (auto simp: select_one_def find_Some_iff split: option.splits)
  then show ?thesis using inbox_message_ok [OF m] by blast
qed

lemma Inbox_Find_db:
  assumes "Inbox_Find \<Gamma> consumer message w = (q, w')"
  shows "db w' = db w \<and> in_tx w' = in_tx w"
proof -
  have "\<exists>r. query \<Gamma> (\<lambda>_ d. select_one (inbox_key consumer message) (d_inbox d)) w = (r, w')"
    using bindE_pure_world [OF assms [unfolded Inbox_Find_eq]] io_translate_world by fastforce
  then show ?thesis using query_db by blast
qed

text \<open>
  The committed inbox: one record per consumer and message, each completed, with a readable hash.
\<close>

definition inbox_identity :: "inbox_row \<Rightarrow> string \<times> string" where
  "inbox_identity r = (ir_consumer_name r, ir_message_id r)"

definition completed_row :: "inbox_row \<Rightarrow> bool" where
  "completed_row r \<longleftrightarrow> \<not> time_IsZero (derefTime (ir_completed_at r))
     \<and> ir_payload_hash r \<noteq> '''' \<and> length (ir_payload_hash r) \<le> maxIdentifierLength"

definition inbox_ok :: "database \<Rightarrow> bool" where
  "inbox_ok d \<longleftrightarrow> distinct (map inbox_identity (d_inbox d)) \<and> (\<forall>r\<in>set (d_inbox d). completed_row r)"

definition recorded :: "ConsumerConfig \<Rightarrow> Envelope \<Rightarrow> database \<Rightarrow> bool" where
  "recorded cfg envelope d \<longleftrightarrow> (\<exists>r\<in>set (d_inbox d). inbox_key (cc_Name cfg) (en_messageID envelope) r)"

section \<open>One committed run\<close>

text \<open>The same data, apart from the inbox.\<close>

definition forget_inbox :: "database \<Rightarrow> database \<Rightarrow> database" where
  "forget_inbox d d' = d'\<lparr>d_inbox := d_inbox d\<rparr>"

definition inbox_record :: "ConsumerConfig \<Rightarrow> Envelope \<Rightarrow> PayloadHash \<Rightarrow> int \<Rightarrow> inbox_row" where
  "inbox_record cfg envelope hash at =
     \<lparr>ir_consumer_name = cc_Name cfg, ir_message_id = en_messageID envelope, ir_payload_hash = ident_String hash,
      ir_received_at = at, ir_completed_at = Some at\<rparr>"

text \<open>
  What a committed run of the callback did. Either the message was recorded before, and nothing
  changed. Or it was not, its record is now in the inbox, completed, and apart from that the data
  moved as by one submission of its command, or not at all where the domain refused the command.
\<close>

definition consumed ::
  "ctx \<Rightarrow> bank \<Rightarrow> ConsumerConfig \<Rightarrow> Envelope \<Rightarrow> SubmitCommand \<Rightarrow> PayloadHash \<Rightarrow> consume_state \<Rightarrow> consume_state
     \<Rightarrow> database \<Rightarrow> database \<Rightarrow> bool" where
  "consumed c b cfg envelope cmd hash v v' d d' \<longleftrightarrow>
     (same_data d d' \<and> (\<exists>r\<in>set (d_inbox d). inbox_key (cc_Name cfg) (en_messageID envelope) r
        \<and> (if ir_payload_hash r = ident_String hash then ir_completed_at r \<noteq> None \<and> v' = v
           else v' = discarded DiscardReusedID v)))
     \<or> (\<not> recorded cfg envelope d \<and> cs_worked v'
        \<and> (\<exists>at. \<not> time_IsZero (time_of_pg at) \<and> d_inbox d' = d_inbox d @ [inbox_record cfg envelope hash at])
        \<and> (cs_metrics v' = cs_metrics v \<and> submission c b cmd (cs_result v') d (forget_inbox d d')
           \<or> cs_metrics v' = cs_metrics v @ [MessageDiscarded DiscardUnusable] \<and> same_data d (forget_inbox d d')))"

lemma alreadySeen_ok:
  assumes "alreadySeen \<Gamma> cfg envelope hash v w = (Inr u, v', w')"
  shows "db w' = db w \<and> (\<exists>r\<in>set (d_inbox (db w)). inbox_key (cc_Name cfg) (en_messageID envelope) r
    \<and> (if ir_payload_hash r = ident_String hash then ir_completed_at r \<noteq> None \<and> v' = v
       else v' = discarded DiscardReusedID v))"
proof -
  obtain seen w1 where f: "Inbox_Find \<Gamma> (cc_Name cfg) (en_messageID envelope) w = (Inr seen, w1)"
    using assms by (auto simp: alreadySeen_def split: prod.splits sum.splits)
  obtain r where r: "r \<in> set (d_inbox (db w))" "inbox_key (cc_Name cfg) (en_messageID envelope) r"
    "im_payloadHash seen = Identifier (ir_payload_hash r)" "im_completedAt seen = derefTime (ir_completed_at r)"
    using Inbox_Find_ok [OF f] by blast
  have "im_payloadHash seen = hash \<longleftrightarrow> ir_payload_hash r = ident_String hash"
    using r(3) by (cases hash) (simp add: ident_String_def)
  then show ?thesis
    using assms f r Inbox_Find_db [OF f]
    by (cases "ir_completed_at r")
      (auto simp: alreadySeen_def InboxMessage_Handled_def derefTime_def time_IsZero_def time_zero_def split: if_splits)
qed

lemma same_data_forget: "same_data d d1 \<Longrightarrow> d_inbox d1 = d_inbox d \<Longrightarrow> same_data d (forget_inbox d (d1\<lparr>d_inbox := x\<rparr>))"
  by (simp add: same_data_iff forget_inbox_def)

lemma represents_forget [simp]: "represents (d\<lparr>d_inbox := x\<rparr>) b = represents d b"
  by (simp add: represents_def wt.holds_def tt.holds_def lt.holds_def)

lemma represents_same_data: "represents d b \<Longrightarrow> same_data d d' \<Longrightarrow> represents d' b"
  using represents_same_bank same_data_bank by blast

text \<open>The record of the message, claimed and completed, around whatever happened in between.\<close>

lemma recorded_message:
  assumes "\<forall>r\<in>set xs. \<not> inbox_key (cc_Name cfg) (en_messageID envelope) r"
  shows "map (\<lambda>r. if inbox_key (cc_Name cfg) (en_messageID envelope) r then r\<lparr>ir_completed_at := Some (pg_time now)\<rparr> else r)
      (xs @ [\<lparr>ir_consumer_name = cc_Name cfg, ir_message_id = en_messageID envelope,
           ir_payload_hash = ident_String hash, ir_received_at = pg_time now, ir_completed_at = None\<rparr>])
    = xs @ [inbox_record cfg envelope hash (pg_time now)]"
proof -
  have "map (\<lambda>r. if inbox_key (cc_Name cfg) (en_messageID envelope) r then r\<lparr>ir_completed_at := Some (pg_time now)\<rparr> else r) xs = xs"
    using assms by (intro map_idI) simp
  then show ?thesis by (simp add: inbox_record_def inbox_key_def)
qed

lemma carries_flag [simp]: "carries (c\<lparr>c_insideUnitOfWork := f\<rparr>) = carries c"
  by (intro ext) (simp add: carries_def)

lemma submission_forget:
  assumes "submitted (c\<lparr>c_insideUnitOfWork := f\<rparr>) b p res w2 w3" "Submit_parse cmd = Inr p" "may_submit c p"
    "same_data d d1" "db w2 = d1\<lparr>d_inbox := claimed\<rparr>"
  shows "submission c b cmd res d (forget_inbox d ((db w3)\<lparr>d_inbox := x\<rparr>)) \<and> d_inbox (db w3) = claimed"
proof (cases "sr_replay res")
  case True
  then have "db w3 = db w2" "replayed b p res" using assms(1) by (auto simp: submitted_def same_world_def)
  then show ?thesis
    using assms True by (auto simp: submission_def forget_inbox_def same_data_iff)
next
  case False
  then have st: "settles (c\<lparr>c_insideUnitOfWork := f\<rparr>) b (sr_transaction res) w2 w3" using assms(1) by (simp add: submitted_def)
  have "d_outbox d1 = d_outbox d" using assms(4) by (simp add: same_data_iff)
  then have "applied_once c b p res d (forget_inbox d ((db w3)\<lparr>d_inbox := x\<rparr>))"
    using settles_applied [OF assms(1) False same_data_refl] assms(5)
    by (simp add: applied_once_def forget_inbox_def)
  then show ?thesis
    using st assms False by (auto simp: submission_def settles_def)
qed

lemma consume_body_consumed:
  assumes run: "consume_body \<Gamma> (ReferencePolicy_normalised pol) cfg envelope cmd hash (c\<lparr>c_insideUnitOfWork := f\<rparr>) v w
      = (Inr (), v', w')"
    and d: "same_data d (db w)" and rep: "represents d b" "bank_ok b" and clock: "clock_ok \<Gamma>"
  shows "consumed c b cfg envelope cmd hash v v' d (db w')"
proof -
  let ?c = "c\<lparr>c_insideUnitOfWork := f\<rparr>" and ?now = "time_UTC (env_now \<Gamma> (calls w))"
  let ?m = "inbox_claim cfg envelope hash ?now"
  obtain q w2 where cl: "Inbox_Claim \<Gamma> ?m (tick w) = (q, w2)" by (metis surj_pair)
  have inbox: "d_inbox (db w) = d_inbox d" using d by (simp add: same_data_iff)
  note run1 = run [unfolded consume_body_def clock_Now_eq prod.case sum.case cl]
  from cl show ?thesis
  proof (cases rule: Inbox_Claim_cases)
    case (refused e)
    then have "alreadySeen \<Gamma> cfg envelope hash v w2 = (Inr (), v', w')"
      using run1 by (auto split: if_splits)
    then have "same_data d (db w') \<and> (\<exists>r\<in>set (d_inbox d). inbox_key (cc_Name cfg) (en_messageID envelope) r
        \<and> (if ir_payload_hash r = ident_String hash then ir_completed_at r \<noteq> None \<and> v' = v
           else v' = discarded DiscardReusedID v))"
      using alreadySeen_ok refused(2) d inbox by fastforce
    then show ?thesis by (simp add: consumed_def)
  next
    case claimed
    have nw: "\<forall>r\<in>set (d_inbox (db w)). \<not> inbox_key (cc_Name cfg) (en_messageID envelope) r"
      using claimed(2) by (simp add: inbox_claim_def)
    have w2: "db w2 = (db w)\<lparr>d_inbox := d_inbox (db w) @ [\<lparr>ir_consumer_name = cc_Name cfg, ir_message_id = en_messageID envelope,
           ir_payload_hash = ident_String hash, ir_received_at = pg_time ?now, ir_completed_at = None\<rparr>]\<rparr>"
      using claimed(3) by (simp add: inbox_claim_def)
    have rep2: "represents (db w2) b" using represents_same_data [OF rep(1) d] w2 by simp
    have "1000 \<le> instant (env_now \<Gamma> (calls w))" using clock by (simp add: clock_ok_def)
    then have nz: "\<not> time_IsZero (time_of_pg (pg_time ?now))"
      by (simp add: time_IsZero_def time_of_pg_def pg_time_def time_UTC_def)
    have fresh: "\<not> recorded cfg envelope d" using nw inbox by (auto simp: recorded_def)
    obtain x w3 where ex: "ExecuteIn \<Gamma> (ReferencePolicy_normalised pol) cmd ?c w2 = (x, w3)" by (metis surj_pair)
    have completes: "db w' = (db w3)\<lparr>d_inbox := d_inbox d @ [inbox_record cfg envelope hash (pg_time ?now)]\<rparr> \<and> v' = v0\<lparr>cs_worked := True\<rparr>"
      if comp: "consume_complete \<Gamma> cfg envelope ?now v0 w3 = (Inr (), v', w')" and "d_inbox (db w3) = d_inbox (db w2)" for v0
    proof -
      have "Inbox_Complete \<Gamma> (cc_Name cfg) (en_messageID envelope) ?now w3 = (Inr (), w')" "v' = v0\<lparr>cs_worked := True\<rparr>"
        using comp by (auto simp: consume_complete_def split: prod.splits)
      then show ?thesis
        using Inbox_Complete_ok that(2) recorded_message [OF nw, of ?now hash] w2 inbox by fastforce
    qed
    show ?thesis
    proof (cases x)
      case (Inr applied)
      then have comp: "consume_complete \<Gamma> cfg envelope ?now (v\<lparr>cs_result := applied\<rparr>) w3 = (Inr (), v', w')"
        using run1 claimed(1) ex by simp
      obtain p where p: "Submit_parse cmd = Inr p" "may_submit c p" "submitted ?c b p applied w2 w3"
        using ExecuteIn_ok [OF ex [unfolded Inr] rep2 rep(2) clock_okD [OF clock]] by (auto simp: may_submit_def)
      note sf = submission_forget [OF p(3,1,2) d w2]
      have "db w' = (db w3)\<lparr>d_inbox := d_inbox d @ [inbox_record cfg envelope hash (pg_time ?now)]\<rparr>"
        "v' = v\<lparr>cs_result := applied, cs_worked := True\<rparr>"
        using completes [OF comp] sf w2 by simp_all
      then show ?thesis
        using fresh sf nz by (auto simp: consumed_def)
    next
      case (Inl e)
      then obtain rc where rc: "as_domain e = Some rc"
        and comp: "consume_complete \<Gamma> cfg envelope ?now (discarded DiscardUnusable v) w3 = (Inr (), v', w')"
        using run1 claimed(1) ex by (auto split: option.splits)
      have same: "db w3 = db w2"
        using ExecuteIn_traceless [OF rep2 rep(2) clock_okD [OF clock], of pol cmd ?c] ex rc
        by (auto simp: traceless_def Inl same_world_def)
      have "db w' = (db w3)\<lparr>d_inbox := d_inbox d @ [inbox_record cfg envelope hash (pg_time ?now)]\<rparr>"
        "v' = (discarded DiscardUnusable v)\<lparr>cs_worked := True\<rparr>"
        using completes [OF comp] same by simp_all
      then show ?thesis
        using fresh same w2 nz same_data_forget [OF d inbox]
        by (auto simp: consumed_def discarded_def)
    qed
  qed
qed

section \<open>What a delivery leaves behind\<close>

lemma consumed_books:
  assumes "consumed c b cfg envelope cmd hash v v' d d'" "represents d b"
  shows "\<exists>b'. represents d' b' \<and> commit\<^sup>=\<^sup>= b b'"
proof -
  have f: "represents (forget_inbox d d') = represents d'" by (rule ext) (simp add: forget_inbox_def)
  have "represents d' b \<or> (\<exists>b'. represents d' b' \<and> commit b b')"
    using assms represents_same_data [OF assms(2)]
    by (auto simp: consumed_def submission_def applied_once_def f split: if_splits)
       (metis f)+
  then show ?thesis by blast
qed

lemma consumed_inbox:
  assumes "consumed c b cfg envelope cmd hash v v' d d'" "inbox_ok d" "ident_ok hash"
  shows "inbox_ok d'"
proof -
  consider "d_inbox d' = d_inbox d"
    | at where "\<not> recorded cfg envelope d" "\<not> time_IsZero (time_of_pg at)" "d_inbox d' = d_inbox d @ [inbox_record cfg envelope hash at]"
    using assms(1) by (auto simp: consumed_def same_data_iff)
  then show ?thesis
  proof cases
    case 1
    then show ?thesis using assms(2) by (simp add: inbox_ok_def)
  next
    case 2
    have "completed_row (inbox_record cfg envelope hash at)"
      using 2(2) assms(3) by (simp add: completed_row_def inbox_record_def derefTime_def ident_ok_def ident_String_def)
    moreover have "inbox_identity (inbox_record cfg envelope hash at) \<notin> inbox_identity ` set (d_inbox d)"
      using 2(1) by (force simp: recorded_def inbox_key_def inbox_identity_def inbox_record_def)
    ultimately show ?thesis using assms(2) 2(3) by (simp add: inbox_ok_def)
  qed
qed

lemma consumed_recorded: "consumed c b cfg envelope cmd hash v v' d d' \<Longrightarrow> recorded cfg envelope d'"
  by (auto simp: consumed_def recorded_def same_data_iff inbox_record_def inbox_key_def split: if_splits)

interpretation consume_books: bookkeeping "\<lambda>\<Gamma>. consume_body \<Gamma> (ReferencePolicy_normalised pol) cfg envelope cmd hash"
proof
  fix \<Gamma> and w :: "database world" and b c v v' w'
  assume a: "clock_ok \<Gamma>" "represents (db w) b" "bank_ok b"
    "consume_body \<Gamma> (ReferencePolicy_normalised pol) cfg envelope cmd hash c v w = (Inr (), v', w')"
  have "c\<lparr>c_insideUnitOfWork := c_insideUnitOfWork c\<rparr> = c" by simp
  then have "consumed c b cfg envelope cmd hash v v' (db w) (db w')"
    using consume_body_consumed [where f = "c_insideUnitOfWork c" and c = c and d = "db w" and w = w] a by simp
  then show "\<exists>b'. represents (db w') b' \<and> commit\<^sup>=\<^sup>= b b'" using a(2) by (rule consumed_books)
qed

lemma consumer_ran:
  assumes "ran_once c (consume_body \<Gamma> (ReferencePolicy_normalised pol) cfg envelope cmd hash) d v' d'"
    and "represents d b" "bank_ok b" "clock_ok \<Gamma>"
  shows "\<exists>v. consumed c b cfg envelope cmd hash v v' d d'"
  using assms consume_body_consumed by (auto simp: ran_once_def) blast

text \<open>One delivery: which message it was, and how it ended.\<close>

definition handled :: "ctx \<Rightarrow> bank \<Rightarrow> ConsumerConfig \<Rightarrow> QueueMessage \<Rightarrow> database \<Rightarrow> database \<Rightarrow> bool" where
  "handled c b cfg message d d' \<longleftrightarrow>
     (\<exists>envelope cmd identity hash v v'. decodeEnvelope (qm_body message) = Inr (envelope, cmd)
        \<and> Consumer_identity cfg envelope = Inr identity \<and> SubmitCommand_PayloadHash cmd = Inr hash
        \<and> consumed (work_context c envelope identity) b cfg envelope cmd hash v v' d d')"

definition undeliverable :: "ConsumerConfig \<Rightarrow> QueueMessage \<Rightarrow> bool" where
  "undeliverable cfg message \<longleftrightarrow>
     (case decodeEnvelope (qm_body message) of
        Inl _ \<Rightarrow> True
      | Inr (envelope, _) \<Rightarrow> (case Consumer_identity cfg envelope of Inl _ \<Rightarrow> True | Inr _ \<Rightarrow> False))"

lemma Consumer_handle_cases:
  assumes run: "Consumer_handle \<Gamma> retry (ReferencePolicy_normalised pol) cfg c message w = (metrics, what, w')"
    and w: "idle w" "clock_ok \<Gamma>" "represents (db w) b" "bank_ok b"
  obtains (dropped) "undeliverable cfg message" "what = outcomeDelete" "w' = w"
  | (settled) "\<not> undeliverable cfg message" "what = outcomeDelete" "handled c b cfg message (db w) (db w')" "idle w'"
  | (again) "\<not> undeliverable cfg message" "what = outcomeRelease" "same_data (db w) (db w')" "idle w'"
  | (unknown) s n where "\<not> undeliverable cfg message" "what = outcomeRelease" "handled c b cfg message (db w) (db w')" "idle w'"
      "env_commit \<Gamma> n = CommitUnknown s True"
proof (cases "undeliverable cfg message")
  case True
  then show thesis
    using run by (intro dropped) (auto simp: undeliverable_def Consumer_handle_def split: sum.splits)
next
  case False
  then obtain envelope cmd identity where e: "decodeEnvelope (qm_body message) = Inr (envelope, cmd)"
    and i: "Consumer_identity cfg envelope = Inr identity"
    by (auto simp: undeliverable_def split: sum.splits)
  obtain hash where h: "SubmitCommand_PayloadHash cmd = Inr hash" using PayloadHash_eq by blast
  let ?c = "work_context c envelope identity"
  let ?fn = "consume_body \<Gamma> (ReferencePolicy_normalised pol) cfg envelope cmd hash"
  obtain q v w1 where u: "UnitOfWork_Do \<Gamma> retry ?c ?fn fresh_state w = (q, v, w1)" by (metis prod_cases3)
  have out: "w' = w1" "what = (case q of Inl _ \<Rightarrow> outcomeRelease | Inr _ \<Rightarrow> outcomeDelete)"
    using run e i h u by (auto simp: Consumer_handle_def Consumer_apply_def split: sum.splits)
  have hd: "handled c b cfg message (db w) (db w')" if "ran_once ?c ?fn (db w) v (db w')"
    using consumer_ran [OF that w(3,4,2)] e i h unfolding handled_def by blast
  note eff = do_effect [OF u w(1)]
  show thesis
  proof (cases q)
    case (Inr x)
    then show thesis using eff out hd False by (intro settled) auto
  next
    case (Inl x)
    then consider "same_data (db w) (db w')"
      | s n where "env_commit \<Gamma> n = CommitUnknown s True" "ran_once ?c ?fn (db w) v (db w')"
      using eff out(1) by auto
    then show thesis
    proof cases
      case 1
      then show thesis using Inl eff out False by (intro again) auto
    next
      case 2
      then show thesis using Inl eff out False hd by (intro unknown) auto
    qed
  qed
qed

lemma handled_effect:
  assumes "handled c b cfg message d d'" "represents d b" "inbox_ok d"
  shows "\<exists>b'. represents d' b' \<and> commit\<^sup>=\<^sup>= b b'" "inbox_ok d'"
    "\<exists>envelope cmd. decodeEnvelope (qm_body message) = Inr (envelope, cmd) \<and> recorded cfg envelope d'"
proof -
  obtain envelope cmd identity hash v v' where e: "decodeEnvelope (qm_body message) = Inr (envelope, cmd)"
    and h: "SubmitCommand_PayloadHash cmd = Inr hash"
    and cs: "consumed (work_context c envelope identity) b cfg envelope cmd hash v v' d d'"
    using assms(1) unfolding handled_def by blast
  show "\<exists>b'. represents d' b' \<and> commit\<^sup>=\<^sup>= b b'" by (rule consumed_books [OF cs assms(2)])
  show "inbox_ok d'" by (rule consumed_inbox [OF cs assms(3) payload_hash_ok [OF h]])
  show "\<exists>envelope cmd. decodeEnvelope (qm_body message) = Inr (envelope, cmd) \<and> recorded cfg envelope d'"
    using e consumed_recorded [OF cs] by blast
qed

lemma same_data_inbox: "same_data d d' \<Longrightarrow> inbox_ok d' = inbox_ok d"
  by (simp add: same_data_iff inbox_ok_def)


section \<open>Redelivery\<close>

lemma inbox_found:
  assumes "inbox_ok d" "r \<in> set (d_inbox d)" "inbox_key consumer message r"
  shows "select_one (inbox_key consumer message) (d_inbox d) = Inr r"
proof -
  have "find (inbox_key consumer message) (d_inbox d) = Some r \<longleftrightarrow> r \<in> set (d_inbox d) \<and> inbox_key consumer message r"
    using assms(1)
    by (intro find_unique) (auto simp: inbox_ok_def inbox_key_def inbox_identity_def distinct_map inj_on_def)
  then show ?thesis using assms(2,3) by (simp add: select_one_def)
qed

lemma claim_refused:
  assumes "healthy \<Gamma>" "\<not> aborted w" "r \<in> set (d_inbox (db w))" "inbox_key (im_consumerName m) (im_messageID m) r"
  shows "Inbox_Claim \<Gamma> m w = (Inl (NewConflict constraintInboxIdentity), tick w)"
proof -
  let ?row = "\<lparr>ir_consumer_name = im_consumerName m, ir_message_id = im_messageID m,
          ir_payload_hash = ident_String (im_payloadHash m), ir_received_at = pg_time (im_receivedAt m),
          ir_completed_at = None\<rparr>"
  have "insert_inbox ?row (db w) = (Inr 0, db w)" using assms(3,4) by (auto simp: insert_inbox_def inbox_key_def)
  then have "stmt \<Gamma> (\<lambda>_. insert_inbox ?row) w = (Inr 0, tick w)"
    using healthy_stmt [OF assms(1,2), of "\<lambda>_. insert_inbox ?row"] by (simp add: tick_def)
  then show ?thesis by (simp add: Inbox_Claim_def bindE_def io_translate_def)
qed

lemma message_found:
  assumes "healthy \<Gamma>" "\<not> aborted w" "inbox_ok (db w)" "r \<in> set (d_inbox (db w))" "inbox_key consumer message r"
  shows "\<exists>m. Inbox_Find \<Gamma> consumer message w = (Inr m, tick w) \<and> im_payloadHash m = Identifier (ir_payload_hash r)
    \<and> InboxMessage_Handled m"
proof -
  let ?f = "\<lambda>_ :: nat. \<lambda>d. (select_one (inbox_key consumer message) (d_inbox d), d)"
  have "completed_row r" using assms(3,4) by (simp add: inbox_ok_def)
  then obtain m where m: "inbox_message consumer message r = Inr m" "im_payloadHash m = Identifier (ir_payload_hash r)"
    "InboxMessage_Handled m"
    by (auto simp: completed_row_def inbox_message_def wrap_def ParsePayloadHash_def parseIdentifier_def InboxMessage_Handled_def)
  have "stmt \<Gamma> ?f w = (Inr r, tick w)"
    using healthy_stmt [OF assms(1,2), of ?f] inbox_found [OF assms(3-5)] by (simp add: tick_def)
  then show ?thesis using m by (auto simp: Inbox_Find_eq bindE_def io_translate_def query_def)
qed

text \<open>
  C29. A redelivery is absorbed. On a database that answers, a message whose id is already in the
  inbox is deleted and nothing else happens: no operation runs, no row changes and no
  transaction stays open. It counts as a duplicate; when its content differs from what was
  recorded under that id it is also reported as a reused id.
\<close>

theorem redelivery_absorbed:
  assumes "healthy \<Gamma>" "idle w" "inbox_ok (db w)" "\<not> c_insideUnitOfWork c"
    and msg: "decodeEnvelope (qm_body message) = Inr (envelope, cmd)" "Consumer_identity cfg envelope = Inr identity"
      "SubmitCommand_PayloadHash cmd = Inr hash"
    and r: "r \<in> set (d_inbox (db w))" "inbox_key (cc_Name cfg) (en_messageID envelope) r"
  shows "\<exists>w'. Consumer_handle \<Gamma> retry waiting cfg c message w =
      ((if ir_payload_hash r = ident_String hash then [] else [MessageDiscarded DiscardReusedID]) @ [MessageDeduplicated],
       outcomeDelete, w')
    \<and> db w' = db w \<and> idle w'"
proof -
  let ?c = "work_context c envelope identity" and ?fn = "consume_body \<Gamma> waiting cfg envelope cmd hash"
  let ?w1 = "(tick w)\<lparr>in_tx := True, aborted := False\<rparr>"
  let ?v = "if ir_payload_hash r = ident_String hash then fresh_state else discarded DiscardReusedID fresh_state"
  obtain m where m: "Inbox_Find \<Gamma> (cc_Name cfg) (en_messageID envelope) (tick (tick ?w1)) = (Inr m, tick (tick (tick ?w1)))"
    "im_payloadHash m = Identifier (ir_payload_hash r)" "InboxMessage_Handled m"
    using message_found [of \<Gamma> "tick (tick ?w1)" r] assms(1,3) r by auto
  have cl: "Inbox_Claim \<Gamma> (inbox_claim cfg envelope hash now) (tick ?w1) = (Inl (NewConflict constraintInboxIdentity), tick (tick ?w1))" for now
    using claim_refused [of \<Gamma> "tick ?w1" r "inbox_claim cfg envelope hash now"] assms(1) r by (simp add: inbox_claim_def)
  have eq: "im_payloadHash m = hash \<longleftrightarrow> ir_payload_hash r = ident_String hash"
    using m(2) by (cases hash) (simp add: ident_String_def)
  have fn: "?fn (?c\<lparr>c_insideUnitOfWork := True\<rparr>) fresh_state ?w1 = (Inr (), ?v, tick (tick (tick ?w1)))"
    using m eq by (simp add: consume_body_def clock_Now_eq cl alreadySeen_def NewConflict_def)
  have "\<not> c_insideUnitOfWork ?c"
    using assms(4) by (simp add: work_context_def WithIdentity_def WithCorrelationID_def WithoutCancel_def)
  from do_read [where fn = ?fn and c = ?c and v = fresh_state and w = w and retry = retry, OF assms(1) this fn] obtain w' where
    w': "UnitOfWork_Do \<Gamma> retry ?c ?fn fresh_state w = (Inr (), ?v, w')" "db w' = db w" "idle w'" by auto
  have v: "cs_worked ?v = False" "cs_metrics ?v = (if ir_payload_hash r = ident_String hash then [] else [MessageDiscarded DiscardReusedID])"
    by (simp_all add: fresh_state_def discarded_def)
  have "Consumer_apply \<Gamma> retry waiting cfg c envelope cmd identity w = (Inr (cs_result ?v, cs_worked ?v), cs_metrics ?v, w')"
    using w'(1) msg(3) by (simp only: Consumer_apply_def sum.case prod.case)
  then have "Consumer_handle \<Gamma> retry waiting cfg c message w = (cs_metrics ?v @ [MessageDeduplicated], outcomeDelete, w')"
    using msg(1,2) v(1) by (simp only: Consumer_handle_def sum.case prod.case if_False)
  then show ?thesis using w' v(2) by (intro exI [of _ w']) simp
qed

definition demo_body :: string where
  "demo_body = ''{\"messageId\":\"m1\",\"type\":\"WagerTransactionRequested\",'' @
     ''\"data\":{\"providerId\":\"prov\",\"idempotencyKey\":\"k9\"}}''"

definition demo_message :: QueueMessage where
  "demo_message = \<lparr>qm_receiptHandle = ''rh1'', qm_body = demo_body\<rparr>"

definition demo_envelope :: Envelope where
  "demo_envelope =
     \<lparr>en_messageID = ''m1'', en_type = ''WagerTransactionRequested'', en_occurredAt = '''',
      en_data = no_data\<lparr>ed_providerID := ''prov'', ed_idempotencyKey := ''k9''\<rparr>\<rparr>"

definition demo_consumer :: ConsumerConfig where
  "demo_consumer = \<lparr>cc_Name = ''wager-transactions'', cc_BatchSize = 10, cc_IdleBackoff = 1000000000\<rparr>"

lemma demo_json:
  "json_decode demo_body = Some (JObject [(''messageId'', JString ''m1''), (''type'', JString ''WagerTransactionRequested''),
     (''data'', JObject [(''providerId'', JString ''prov''), (''idempotencyKey'', JString ''k9'')])], '''')"
  by code_simp

lemma demo_struct:
  "decode_struct envelope_spec (JObject [(''messageId'', JString ''m1''), (''type'', JString ''WagerTransactionRequested''),
     (''data'', JObject [(''providerId'', JString ''prov''), (''idempotencyKey'', JString ''k9'')])]) no_envelope = Some demo_envelope"
  by (simp add: decode_struct_def envelope_spec_def data_spec_def string_field_def names_field_def unquote_plain fold_name_plain
      decode_string_def no_envelope_def no_data_def demo_envelope_def)

lemma demo_decode: "decodeEnvelope demo_body = Inr (demo_envelope, Envelope_Command demo_envelope)"
  by (simp add: decodeEnvelope_def demo_json demo_struct)
    (simp add: demo_envelope_def TypeWagerTransactionRequested_def)

definition demo_queue_identity :: Identity where
  "demo_queue_identity =
     \<lparr>i_subject = ''queue:wager-transactions'', i_providerID = Identifier ''prov'', i_scopes = [ScopeSubmit]\<rparr>"

lemma demo_identity: "Consumer_identity demo_consumer demo_envelope = Inr demo_queue_identity"
  by code_simp

lemma demo_sound: "represents (db (start demo_db)) demo_bank" "inbox_ok (db (start demo_db))"
proof -
  have d: "db (start demo_db) = demo_db" by (simp add: start_def)
  show "represents (db (start demo_db)) demo_bank" unfolding d by (rule demo_represents)
  show "inbox_ok (db (start demo_db))" unfolding d by (simp add: inbox_ok_def demo_db_def empty_db_def)
qed


definition demo_seen :: inbox_row where
  "demo_seen = \<lparr>ir_consumer_name = ''wager-transactions'', ir_message_id = ''m1'', ir_payload_hash = ''h1'',
     ir_received_at = 1700000000000000, ir_completed_at = Some 1700000000000000\<rparr>"

theorem redelivery_absorbed_witness:
  "\<exists>w'. Consumer_handle calm DefaultRetryPolicy DefaultReferencePolicy demo_consumer no_caller demo_message
      (start (empty_db\<lparr>d_inbox := [demo_seen]\<rparr>))
      = ([MessageDiscarded DiscardReusedID, MessageDeduplicated], outcomeDelete, w')
    \<and> d_inbox (db w') = [demo_seen]"
proof -
  let ?w = "start (empty_db\<lparr>d_inbox := [demo_seen]\<rparr>)"
  have ok: "inbox_ok (db ?w)" "demo_seen \<in> set (d_inbox (db ?w))" "d_inbox (db ?w) = [demo_seen]"
    by (simp_all add: start_def inbox_ok_def completed_row_def demo_seen_def derefTime_def time_IsZero_def time_of_pg_def
        maxIdentifierLength_def)
  have key: "inbox_key (cc_Name demo_consumer) (en_messageID demo_envelope) demo_seen"
    by (simp add: inbox_key_def demo_consumer_def demo_envelope_def demo_seen_def)
  have msg: "decodeEnvelope (qm_body demo_message) = Inr (demo_envelope, Envelope_Command demo_envelope)"
    by (simp add: demo_message_def demo_decode)
  have inside: "\<not> c_insideUnitOfWork no_caller" by (simp add: no_caller_def)
  obtain hash where h: "SubmitCommand_PayloadHash (Envelope_Command demo_envelope) = Inr hash"
    "ir_payload_hash demo_seen \<noteq> ident_String hash"
    by (simp add: PayloadHash_eq hashPrefix_def demo_seen_def ident_String_def)
  show ?thesis
    using redelivery_absorbed [OF healthy_calm idle_start ok(1) inside msg demo_identity h(1) ok(2) key,
        of DefaultRetryPolicy DefaultReferencePolicy] h(2) ok(3)
    by auto
qed

section \<open>Batches and the polling loop\<close>

lemma handle_sound:
  assumes "Consumer_handle \<Gamma> retry (ReferencePolicy_normalised pol) cfg c message w = (metrics, what, w')"
    "idle w" "clock_ok \<Gamma>" "represents (db w) b" "bank_ok b" "inbox_ok (db w)"
  shows "idle w' \<and> inbox_ok (db w') \<and> (\<exists>b'. represents (db w') b' \<and> commit\<^sup>=\<^sup>= b b')"
  using assms(1-5)
proof (cases rule: Consumer_handle_cases)
  case dropped
  then show ?thesis using assms by auto
next
  case settled
  then show ?thesis using handled_effect [OF settled(3) assms(4,6)] by simp
next
  case again
  then show ?thesis using assms represents_same_data [OF assms(4)] same_data_inbox [OF again(3)] by auto
next
  case (unknown s n)
  then show ?thesis using handled_effect [OF unknown(3) assms(4,6)] by simp
qed

text \<open>A sound store: no transaction open, the books represented and in order, the inbox in order.\<close>

definition sound :: "database world \<Rightarrow> bank \<Rightarrow> bool" where
  "sound w b \<longleftrightarrow> idle w \<and> represents (db w) b \<and> bank_ok b \<and> inbox_ok (db w)"

lemma sound_tick [simp]: "sound (tick w) b = sound w b"
  by (simp add: sound_def idle_def)

lemma handle_keeps_sound:
  assumes "Consumer_handle \<Gamma> retry (ReferencePolicy_normalised pol) cfg c message w = (metrics, what, w')" "clock_ok \<Gamma>" "sound w b"
  shows "\<exists>b'. sound w' b' \<and> commit\<^sup>*\<^sup>* b b'"
proof -
  have s: "idle w" "represents (db w) b" "bank_ok b" "inbox_ok (db w)" using assms(3) by (auto simp: sound_def)
  then obtain b' where b': "represents (db w') b'" "commit\<^sup>=\<^sup>= b b'" and w': "idle w'" "inbox_ok (db w')"
    using handle_sound [OF assms(1) _ assms(2)] by blast
  then have "commit\<^sup>*\<^sup>* b b'" by blast
  then show ?thesis using b'(1) w' commits_ok [OF _ s(3)] by (auto simp: sound_def)
qed

definition finishes :: "sqs_client \<Rightarrow> QueueMessage \<Rightarrow> sqs_request \<Rightarrow> bool" where
  "finishes cl m q \<longleftrightarrow> q = Client_Delete cl (qm_receiptHandle m) \<or> q = Client_Release cl (qm_receiptHandle m)"

lemma batch_sound:
  "handle_batch \<Gamma> retry (ReferencePolicy_normalised pol) cl cfg c ms w = (metrics, requests, w') \<Longrightarrow> clock_ok \<Gamma> \<Longrightarrow> sound w b \<Longrightarrow>
     (\<exists>b'. sound w' b' \<and> commit\<^sup>*\<^sup>* b b') \<and> list_all2 (finishes cl) ms requests"
proof (induction ms arbitrary: w w' b metrics requests)
  case (Cons m ms)
  obtain metrics1 what w1 where h: "Consumer_handle \<Gamma> retry (ReferencePolicy_normalised pol) cfg c m w = (metrics1, what, w1)"
    by (metis prod_cases3)
  obtain metrics2 requests2 w2 where r: "handle_batch \<Gamma> retry (ReferencePolicy_normalised pol) cl cfg c ms w1 = (metrics2, requests2, w2)"
    by (metis prod_cases3)
  have out: "requests = Consumer_finish cl m what # requests2" "w' = w2" using Cons.prems(1) h r by auto
  obtain b1 where b1: "sound w1 b1" "commit\<^sup>*\<^sup>* b b1" using handle_keeps_sound [OF h Cons.prems(2,3)] by blast
  obtain b2 where b2: "sound w2 b2" "commit\<^sup>*\<^sup>* b1 b2" and l: "list_all2 (finishes cl) ms requests2"
    using Cons.IH [OF r Cons.prems(2) b1(1)] by blast
  have "finishes cl m (Consumer_finish cl m what)" by (cases what) (auto simp: finishes_def Consumer_finish_def)
  then show ?case using out b1(2) b2 l by (auto intro: rtranclp_trans)
qed auto

lemma RunOnce_sound:
  assumes run: "Consumer_RunOnce \<Gamma> retry (ReferencePolicy_normalised pol) cl cfg c reply w = (r, metrics, requests, w')"
    and "clock_ok \<Gamma>" "sound w b"
  shows "(\<exists>b'. sound w' b' \<and> commit\<^sup>*\<^sup>* b b') \<and>
    (case Client_Receive reply of
       Inl e \<Rightarrow> r = Inl e \<and> requests = [receive_request cl (cc_BatchSize cfg)]
     | Inr messages \<Rightarrow> r = Inr (length messages) \<and>
         (\<exists>qs. requests = receive_request cl (cc_BatchSize cfg) # qs \<and> list_all2 (finishes cl) messages qs))"
proof (cases "Client_Receive reply")
  case (Inl e)
  then show ?thesis using run assms(3) by (auto simp: Consumer_RunOnce_def)
next
  case (Inr messages)
  obtain m2 qs w2 where h: "handle_batch \<Gamma> retry (ReferencePolicy_normalised pol) cl cfg c messages w = (m2, qs, w2)"
    by (metis prod_cases3)
  then show ?thesis using run Inr batch_sound [OF h assms(2,3)] by (auto simp: Consumer_RunOnce_def)
qed

lemma Run_sound:
  "clock_ok \<Gamma> \<Longrightarrow> sound w b \<Longrightarrow>
   Consumer_Run \<Gamma> retry (ReferencePolicy_normalised pol) cl cfg c replies w = (metrics, requests, w') \<Longrightarrow>
     \<exists>b'. sound w' b' \<and> commit\<^sup>*\<^sup>* b b'"
proof (induction replies arbitrary: w w' b metrics requests)
  case (Cons reply replies)
  show ?case
  proof (cases "ctx_done \<Gamma> c w")
    case True
    then show ?thesis using Cons.prems by auto
  next
    case False
    obtain r m1 q1 w1 where r: "Consumer_RunOnce \<Gamma> retry (ReferencePolicy_normalised pol) cl cfg c reply (tick w) = (r, m1, q1, w1)"
      by (metis prod_cases4)
    obtain b1 where b1: "sound w1 b1" "commit\<^sup>*\<^sup>* b b1"
      using RunOnce_sound [OF r Cons.prems(1)] Cons.prems(2) by auto
    obtain w2 where w2: "w2 = w1 \<or> w2 = tick w1" and
      next_round: "w' = w2 \<or> (\<exists>m2 q2. Consumer_Run \<Gamma> retry (ReferencePolicy_normalised pol) cl cfg c replies w2 = (m2, q2, w'))"
      using Cons.prems(3) False r by (auto split: sum.splits if_splits prod.splits)
    have "sound w2 b1" using w2 b1(1) by auto
    then show ?thesis
      using next_round Cons.IH [OF Cons.prems(1)] b1(2) by (meson rtranclp_trans)
  qed
qed auto

text \<open>
  C30. Polling keeps the system sound for as long as it runs. Whatever the broker answers to the
  successive polls and whatever the database does, after any number of rounds no transaction
  is open, the books are sound and moved only by commits of the specification, and the inbox
  is in order. In every round each message received is finished by exactly one call to the
  broker, a delete or a release of its own receipt handle, in the order received, after the
  poll that brought it.
\<close>

theorem polling_keeps_sound:
  assumes "clock_ok \<Gamma>" "idle w" "represents (db w) b" "bank_ok b" "inbox_ok (db w)"
  shows "(case Consumer_Run \<Gamma> retry (ReferencePolicy_normalised pol) cl cfg c replies w of (metrics, requests, w') \<Rightarrow>
      idle w' \<and> inbox_ok (db w') \<and> (\<exists>b'. represents (db w') b' \<and> bank_ok b' \<and> commit\<^sup>*\<^sup>* b b'))
    \<and> (case Consumer_RunOnce \<Gamma> retry (ReferencePolicy_normalised pol) cl cfg c (Inr messages) w of (r, metrics, requests, w') \<Rightarrow>
      r = Inr (length messages) \<and> (\<exists>qs. requests = receive_request cl (cc_BatchSize cfg) # qs
        \<and> list_all2 (\<lambda>m q. q \<in> {Client_Delete cl (ToString (mg_receiptHandle m)), Client_Release cl (ToString (mg_receiptHandle m))})
             messages qs))"
proof -
  have s: "sound w b" using assms by (simp add: sound_def)
  obtain m1 q1 w1 where r1: "Consumer_Run \<Gamma> retry (ReferencePolicy_normalised pol) cl cfg c replies w = (m1, q1, w1)"
    by (metis prod_cases3)
  obtain r m2 q2 w2 where r2: "Consumer_RunOnce \<Gamma> retry (ReferencePolicy_normalised pol) cl cfg c (Inr messages) w = (r, m2, q2, w2)"
    by (metis prod_cases4)
  have "idle w1 \<and> inbox_ok (db w1) \<and> (\<exists>b'. represents (db w1) b' \<and> bank_ok b' \<and> commit\<^sup>*\<^sup>* b b')"
    using Run_sound [OF assms(1) s r1] by (auto simp: sound_def)
  moreover have "r = Inr (length messages) \<and> (\<exists>qs. q2 = receive_request cl (cc_BatchSize cfg) # qs
        \<and> list_all2 (\<lambda>m q. q \<in> {Client_Delete cl (ToString (mg_receiptHandle m)), Client_Release cl (ToString (mg_receiptHandle m))})
             messages qs)"
    using RunOnce_sound [OF r2 assms(1) s] by (auto simp: Client_Receive_def list_all2_map1 finishes_def)
  ultimately show ?thesis using r1 r2 by simp
qed

theorem polling_keeps_sound_witness:
  "case Consumer_Run calm DefaultRetryPolicy (ReferencePolicy_normalised DefaultReferencePolicy) demo_client demo_consumer
      no_caller [Inl SqsCanceled, Inr [\<lparr>mg_receiptHandle = Some ''rh1'', mg_body = Some demo_body\<rparr>]] (start demo_db) of
     (metrics, requests, w') \<Rightarrow> idle w' \<and> inbox_ok (db w') \<and> (\<exists>b'. represents (db w') b' \<and> bank_ok b' \<and> commit\<^sup>*\<^sup>* demo_bank b')"
proof -
  have "represents (db (start demo_db)) demo_bank" "inbox_ok (db (start demo_db))" by (fact demo_sound)+
  note p = polling_keeps_sound [OF clock_ok_calm idle_start this(1) demo_bank_ok this(2)]
  show ?thesis by (rule p [THEN conjunct1])
qed

section \<open>Envelopes that are refused\<close>

lemma member_refused:
  assumes "(k, v) \<in> set ms" "\<And>x. case find (\<lambda>(f, _). names_field f k) spec of None \<Rightarrow> True | Some (_, upd) \<Rightarrow> upd v x = None"
  shows "decode_members spec ms x = None"
proof -
  obtain before after where ms: "ms = before @ (k, v) # after" using assms(1) by (meson split_list)
  have "decode_members spec ((k, v) # after) y = None" for y
    using assms(2) [of y] by (auto split: option.splits)
  then show ?thesis unfolding ms decode_members_append by (cases "decode_members spec before x") simp_all
qed

definition envelope_fields :: "string list" where
  "envelope_fields = map fst envelope_spec"

definition data_fields :: "string list" where
  "data_fields = map fst data_spec"

lemma no_field: "\<forall>f\<in>set (map fst spec). \<not> names_field f k \<Longrightarrow> find (\<lambda>(f, _). names_field f k) spec = None"
  by (auto simp: find_None_iff)

lemma decode_refused:
  "json_decode body = Some (v, rest) \<Longrightarrow> decode_struct envelope_spec v no_envelope = None
     \<Longrightarrow> decodeEnvelope body = Inl (Wrapped ErrInvalidInput)"
  by (simp add: decodeEnvelope_def)

lemma data_member:
  assumes "names_field ''data'' k" "fold_name ''data'' \<notin> fold_name ` set (take 3 envelope_fields)"
  shows "find (\<lambda>(f, _). names_field f k) envelope_spec = Some (''data'', \<lambda>v x. map_option (\<lambda>m. x\<lparr>en_data := m\<rparr>) (decode_struct data_spec v (en_data x)))"
  using assms by (simp add: envelope_spec_def envelope_fields_def string_field_def names_field_def)


definition demo_typo :: string where
  "demo_typo = ''{\"messageId\":\"m1\",\"ammount\":1}''"


end
