(* ===== verification/Http_Errors.thy ===== *)
theory Http_Errors
  imports Submit
begin

text \<open>
  How a failure becomes a response (\<open>internal/adapter/http/errors.go\<close>), and how a recorded outcome
  becomes a status (\<open>submitStatus\<close> in \<open>internal/adapter/http/transaction.go\<close>).

  The text of an error is not modelled. What matters is which text a response carries: the
  error's own, or one of two fixed sentences. \<open>message\<close> says which.
\<close>

section \<open>Status codes\<close>

definition StatusOK :: nat where "StatusOK = 200"
definition StatusCreated :: nat where "StatusCreated = 201"
definition StatusAccepted :: nat where "StatusAccepted = 202"
definition StatusBadRequest :: nat where "StatusBadRequest = 400"
definition StatusUnauthorized :: nat where "StatusUnauthorized = 401"
definition StatusForbidden :: nat where "StatusForbidden = 403"
definition StatusNotFound :: nat where "StatusNotFound = 404"
definition StatusMethodNotAllowed :: nat where "StatusMethodNotAllowed = 405"
definition StatusConflict :: nat where "StatusConflict = 409"
definition StatusUnprocessableEntity :: nat where "StatusUnprocessableEntity = 422"
definition StatusInternalServerError :: nat where "StatusInternalServerError = 500"
definition StatusNotImplemented :: nat where "StatusNotImplemented = 501"
definition StatusServiceUnavailable :: nat where "StatusServiceUnavailable = 503"

lemmas http_status_defs = StatusOK_def StatusCreated_def StatusAccepted_def StatusBadRequest_def StatusUnauthorized_def
  StatusForbidden_def StatusNotFound_def StatusMethodNotAllowed_def StatusConflict_def StatusUnprocessableEntity_def
  StatusInternalServerError_def StatusNotImplemented_def StatusServiceUnavailable_def

definition domainStatus :: "(code \<times> nat) list" where
  "domainStatus =
     [(CodeInvalidCurrency, StatusBadRequest), (CodeInvalidAmount, StatusBadRequest),
      (CodeNegativeAmount, StatusBadRequest), (CodeAmountOverflow, StatusBadRequest),
      (CodeCurrencyMismatch, StatusBadRequest), (CodeInvalidIdentifier, StatusBadRequest),
      (CodeInvalidTimestamp, StatusBadRequest), (CodeInvalidDirection, StatusBadRequest),
      (CodeNonPositiveAmount, StatusBadRequest), (CodeInvalidKind, StatusBadRequest),
      (CodeInvalidAmountForKind, StatusBadRequest), (CodeMissingReference, StatusBadRequest),
      (CodeUnexpectedReference, StatusBadRequest),
      (CodeInsufficientFunds, StatusUnprocessableEntity),
      (CodeReferenceNotFound, StatusUnprocessableEntity), (CodeReferenceMismatch, StatusUnprocessableEntity),
      (CodeReferenceAmountMismatch, StatusUnprocessableEntity),
      (CodeReferenceNotReversible, StatusUnprocessableEntity), (CodeAlreadyReversed, StatusUnprocessableEntity),
      (CodeReversalExceedsBalance, StatusUnprocessableEntity),
      (CodeInvalidTransition, StatusConflict), (CodeInvalidStatus, StatusConflict),
      (CodeInconsistentEntry, StatusInternalServerError), (CodeInvalidVersion, StatusInternalServerError)]"

definition conflictCodes :: "(string \<times> string) list" where
  "conflictCodes =
     [(''wallets_one_per_player_and_currency'', ''WALLET_ALREADY_EXISTS''),
      (''ledger_one_per_transaction_and_wallet'', ''TRANSACTION_ALREADY_APPLIED''),
      (''wager_transactions_business_identity'', ''TRANSACTION_ALREADY_SUBMITTED''),
      (''wager_transactions_idempotency_key'', ''IDEMPOTENCY_KEY_REUSED''),
      (''wager_transactions_one_opening_per_wallet'', ''WALLET_ALREADY_OPENED''),
      (''wager_transactions_pkey'', ''TRANSACTION_ALREADY_SUBMITTED''),
      (''wallets_pkey'', ''WALLET_ALREADY_EXISTS'')]"

definition conflictCode :: "goerror \<Rightarrow> string" where
  "conflictCode e =
     (case as_constraint e of
        None \<Rightarrow> ''CONFLICT''
      | Some name \<Rightarrow> (case map_of conflictCodes name of Some c \<Rightarrow> c | None \<Rightarrow> ''CONFLICT''))"

definition statusFor :: "goerror \<Rightarrow> nat \<times> string" where
  "statusFor e =
     (case as_domain e of
        Some c \<Rightarrow>
          (case map_of domainStatus c of
             Some status \<Rightarrow> (status, string_of_code c)
           | None \<Rightarrow> (StatusBadRequest, string_of_code c))
      | None \<Rightarrow>
          if errors_Is e ErrUnauthenticated then (StatusUnauthorized, ''UNAUTHENTICATED'')
          else if errors_Is e ErrForbidden then (StatusForbidden, ''FORBIDDEN'')
          else if errors_Is e ErrNotFound then (StatusNotFound, ''NOT_FOUND'')
          else if errors_Is e ErrConflict then (StatusConflict, conflictCode e)
          else if errors_Is e ErrVersionMismatch then (StatusConflict, ''VERSION_MISMATCH'')
          else if errors_Is e ErrInvalidInput then (StatusBadRequest, ''INVALID_INPUT'')
          else if errors_Is e ErrNotImplemented then (StatusNotImplemented, ''NOT_IMPLEMENTED'')
          else if errors_Is e ErrSerializationFailure then (StatusServiceUnavailable, ''TRY_AGAIN'')
          else (StatusInternalServerError, ''INTERNAL''))"

datatype message = ErrorText goerror | Fixed string

record ErrorBody =
  eb_code :: string
  eb_message :: message
  eb_correlationID :: string

definition writeError :: "string \<Rightarrow> goerror \<Rightarrow> nat \<times> ErrorBody" where
  "writeError correlationID e =
     (case statusFor e of
        (status, code) \<Rightarrow>
          let message = ErrorText e;
              message = (if status = StatusConflict then Fixed ''the request conflicts with the current state'' else message);
              message = (if StatusInternalServerError \<le> status then Fixed ''internal error'' else message) in
          (status, \<lparr>eb_code = code, eb_message = message, eb_correlationID = correlationID\<rparr>))"

definition submitStatus :: "SubmitResult \<Rightarrow> nat" where
  "submitStatus result =
     (case t_status (sr_transaction result) of
        StatusRejected \<Rightarrow> StatusUnprocessableEntity
      | StatusFailed \<Rightarrow> StatusUnprocessableEntity
      | StatusPending \<Rightarrow> StatusAccepted
      | StatusPendingReference \<Rightarrow> StatusAccepted
      | _ \<Rightarrow> StatusOK)"

section \<open>Properties\<close>

text \<open>The codes a client can see besides those of the domain.\<close>

definition public_codes :: "string list" where
  "public_codes =
     [''UNAUTHENTICATED'', ''FORBIDDEN'', ''NOT_FOUND'', ''CONFLICT'', ''VERSION_MISMATCH'', ''INVALID_INPUT'',
      ''NOT_IMPLEMENTED'', ''TRY_AGAIN'', ''INTERNAL''] @ map snd conflictCodes"

lemma conflict_public: "conflictCode e \<in> set public_codes"
proof -
  have "c \<in> set (map snd conflictCodes)" if "map_of conflictCodes n = Some c" for n c
    using that by (auto dest!: map_of_SomeD intro: rev_image_eqI)
  then show ?thesis
    by (auto simp: conflictCode_def public_codes_def split: option.splits)
qed

lemma domain_exhaustive: "list_all (\<lambda>c. map_of domainStatus c \<noteq> None) all_codes"
  by code_simp

lemma statusFor_domain:
  "as_domain e = Some c \<Longrightarrow> map_of domainStatus c = Some s \<Longrightarrow> statusFor e = (s, string_of_code c)"
  unfolding statusFor_def by simp



end
