(* ===== verification/Cursor.thy ===== *)
theory Cursor
  imports Store
begin

text \<open>
  The page cursor of the ledger endpoint (\<open>encodeCursor\<close> and \<open>decodeCursor\<close> in
  \<open>internal/adapter/http/wallet.go\<close>): a prefix and a decimal number in unpadded URL-safe base64,
  with what they use of \<open>encoding/base64\<close> and \<open>strconv\<close>. Bytes are characters.
\<close>

section \<open>Base64, URL alphabet, no padding\<close>

definition b64_alphabet :: string where
  "b64_alphabet = ''ABCDEFGHIJKLMNOPQRSTUVWXYZabcdefghijklmnopqrstuvwxyz0123456789-_''"

definition b64_char :: "nat \<Rightarrow> char" where
  "b64_char n = b64_alphabet ! n"

fun b64_index :: "nat \<Rightarrow> string \<Rightarrow> char \<Rightarrow> nat option" where
  "b64_index i [] c = None"
| "b64_index i (x # xs) c = (if x = c then Some i else b64_index (Suc i) xs c)"

definition b64_value :: "char \<Rightarrow> nat option" where
  "b64_value c = b64_index 0 b64_alphabet c"

fun b64_encode :: "string \<Rightarrow> string" where
  "b64_encode [] = []"
| "b64_encode [a] = (let n = of_char a :: nat in [b64_char (n div 4), b64_char (n mod 4 * 16)])"
| "b64_encode [a, b] =
     (let n = of_char a :: nat; m = of_char b :: nat in
      [b64_char (n div 4), b64_char (n mod 4 * 16 + m div 16), b64_char (m mod 16 * 4)])"
| "b64_encode (a # b # c # rest) =
     (let n = of_char a :: nat; m = of_char b :: nat; k = of_char c :: nat in
      [b64_char (n div 4), b64_char (n mod 4 * 16 + m div 16), b64_char (m mod 16 * 4 + k div 64), b64_char (k mod 64)]
      @ b64_encode rest)"

text \<open>
  The decoder: line breaks are skipped wherever they stand, a last group of two or three
  characters gives one or two bytes whatever its unused bits are, and one character alone is an
  error.
\<close>

fun b64_groups :: "nat list \<Rightarrow> string option" where
  "b64_groups [] = Some []"
| "b64_groups [_] = None"
| "b64_groups [p, q] = Some [char_of ((p * 4 + q div 16) mod 256)]"
| "b64_groups [p, q, r] = Some [char_of ((p * 4 + q div 16) mod 256), char_of ((q * 16 + r div 4) mod 256)]"
| "b64_groups (p # q # r # s # rest) =
     map_option (\<lambda>t. [char_of ((p * 4 + q div 16) mod 256), char_of ((q * 16 + r div 4) mod 256), char_of ((r * 64 + s) mod 256)] @ t)
       (b64_groups rest)"

definition b64_line_break :: "char \<Rightarrow> bool" where
  "b64_line_break c \<longleftrightarrow> (of_char c :: nat) = 10 \<or> (of_char c :: nat) = 13"

definition b64_decode :: "string \<Rightarrow> string option" where
  "b64_decode s =
     (let vs = map b64_value (filter (\<lambda>c. \<not> b64_line_break c) s) in
      if None \<in> set vs then None else b64_groups (map the vs))"

section \<open>Decimal numbers\<close>

text \<open>\<open>strconv.ParseInt(s, 10, 64)\<close> and \<open>strconv.Atoi\<close>: an optional sign, digits, in range.\<close>

definition parse_digits :: "string \<Rightarrow> nat option" where
  "parse_digits s = (if s \<noteq> '''' \<and> list_all is_digit s then Some (digits_val 0 s) else None)"

definition ParseInt :: "string \<Rightarrow> int option" where
  "ParseInt s =
     (let (neg, body) = (case s of c # cs \<Rightarrow> if c = CHR ''+'' then (False, cs) else if c = CHR ''-'' then (True, cs) else (False, s)
                         | [] \<Rightarrow> (False, s)) in
      case parse_digits body of
        None \<Rightarrow> None
      | Some n \<Rightarrow>
          let v = (if neg then - int n else int n) in
          if fits64 v then Some v else None)"

definition FormatInt :: "int \<Rightarrow> string" where
  "FormatInt n = (if n < 0 then CHR ''-'' # utoa (nat (- n)) else utoa (nat n))"

section \<open>The cursor\<close>

definition cursorPrefix :: string where
  "cursorPrefix = ''v1:''"

definition CutPrefix :: "string \<Rightarrow> string \<Rightarrow> string option" where
  "CutPrefix s p = (if take (length p) s = p then Some (drop (length p) s) else None)"

definition encodeCursor :: "LedgerCursor \<Rightarrow> string" where
  "encodeCursor c = b64_encode (cursorPrefix @ FormatInt (lc_after c))"

definition decodeCursor :: "string \<Rightarrow> LedgerCursor res" where
  "decodeCursor raw =
     (if raw = '''' then Inr \<lparr>lc_after = 0\<rparr>
      else case b64_decode raw of
        None \<Rightarrow> Inl (Wrapped ErrInvalidInput)
      | Some decoded \<Rightarrow>
          (case CutPrefix decoded cursorPrefix of
             None \<Rightarrow> Inl (Wrapped ErrInvalidInput)
           | Some text \<Rightarrow>
               (case ParseInt text of
                  None \<Rightarrow> Inl (Wrapped ErrInvalidInput)
                | Some after \<Rightarrow> if after < 0 then Inl (Wrapped ErrInvalidInput) else Inr \<lparr>lc_after = after\<rparr>)))"

section \<open>Round trips\<close>

lemma b64_table:
  "list_all (\<lambda>n. b64_value (b64_char n) = Some n \<and> \<not> b64_line_break (b64_char n)) [0..<64]"
  by code_simp

lemma b64_char_value [simp]:
  assumes "n < 64"
  shows "b64_value (b64_char n) = Some n" "\<not> b64_line_break (b64_char n)"
  using b64_table assms by (simp_all add: list_all_iff)

lemma of_char_less_256 [simp]: "(of_char c :: nat) < 256"
  by (metis of_char_mod_256 mod_less_divisor zero_less_numeral)

lemma char_of_byte [simp]: "char_of (of_char c :: nat) = c"
  by simp

text \<open>Two numbers packed into one, the lower below \<open>k\<close>.\<close>

lemma unpack: "y < k \<Longrightarrow> (x * k + y) div k = (x :: nat)" "y < k \<Longrightarrow> (x * k + y) mod k = (y :: nat)"
  by simp_all

lemma byte_bounds:
  "n < 256 \<Longrightarrow> n div 4 < (64 :: nat)" "n mod 4 * 16 < (64 :: nat)" "m < 256 \<Longrightarrow> n mod 4 * 16 + m div 16 < (64 :: nat)"
  "m mod 16 * 4 < (64 :: nat)" "k < 256 \<Longrightarrow> m mod 16 * 4 + k div 64 < (64 :: nat)" "k mod 64 < (64 :: nat)"
proof -
  have n4: "n mod 4 \<le> 3" and m16: "m mod 16 \<le> 15"
    using mod_less_divisor [of 4 n] mod_less_divisor [of 16 m] by simp_all
  show "n div 4 < 64" if "n < 256" using that by (simp add: div_less_iff_less_mult)
  show "n mod 4 * 16 < 64" using n4 by simp
  show "m mod 16 * 4 < 64" using m16 by simp
  show "k mod 64 < 64" by simp
  show "n mod 4 * 16 + m div 16 < 64" if "m < 256"
  proof -
    have "m div 16 < 16" using that by (simp add: div_less_iff_less_mult)
    then show ?thesis using n4 by simp
  qed
  show "m mod 16 * 4 + k div 64 < 64" if "k < 256"
  proof -
    have "k div 64 < 4" using that by (simp add: div_less_iff_less_mult)
    then show ?thesis using m16 by simp
  qed
qed

lemma byte_back:
  "n < 256 \<Longrightarrow> (n div 4 * 4 + (n mod 4 * 16) div 16) mod 256 = (n :: nat)"
  "n < 256 \<Longrightarrow> m < 256 \<Longrightarrow> (n div 4 * 4 + (n mod 4 * 16 + m div 16) div 16) mod 256 = (n :: nat)"
  "m < 256 \<Longrightarrow> ((n mod 4 * 16 + m div 16) * 16 + (m mod 16 * 4) div 4) mod 256 = (m :: nat)"
  "m < 256 \<Longrightarrow> k < 256 \<Longrightarrow> ((n mod 4 * 16 + m div 16) * 16 + (m mod 16 * 4 + k div 64) div 4) mod 256 = (m :: nat)"
  "k < 256 \<Longrightarrow> ((m mod 16 * 4 + k div 64) * 64 + k mod 64) mod 256 = (k :: nat)"
proof -
  have q: "(n mod 4 * 16 + m div 16) div 16 = n mod 4" if "m < 256"
    using that by (intro unpack) (simp add: div_less_iff_less_mult)
  have r: "(m mod 16 * 4 + k div 64) div 4 = m mod 16" if "k < 256"
    using that by (intro unpack) (simp add: div_less_iff_less_mult)
  have m1: "(n mod 4 * 16 + m div 16) * 16 + m mod 16 = n mod 4 * 256 + m"
    using div_mult_mod_eq [of m 16] by (simp add: algebra_simps)
  have k1: "(m mod 16 * 4 + k div 64) * 64 + k mod 64 = m mod 16 * 256 + k"
    using div_mult_mod_eq [of k 64] by (simp add: algebra_simps)
  show "(n div 4 * 4 + (n mod 4 * 16) div 16) mod 256 = n" if "n < 256" using that by simp
  show "(n div 4 * 4 + (n mod 4 * 16 + m div 16) div 16) mod 256 = n" if "n < 256" "m < 256"
    unfolding q [OF that(2)] using that(1) by simp
  show "((n mod 4 * 16 + m div 16) * 16 + (m mod 16 * 4) div 4) mod 256 = m" if "m < 256"
    using m1 that unpack(2) [of m 256 "n mod 4"] by simp
  show "((n mod 4 * 16 + m div 16) * 16 + (m mod 16 * 4 + k div 64) div 4) mod 256 = m" if "m < 256" "k < 256"
    unfolding r [OF that(2)] using m1 that(1) unpack(2) [of m 256 "n mod 4"] by simp
  show "((m mod 16 * 4 + k div 64) * 64 + k mod 64) mod 256 = k" if "k < 256"
    unfolding k1 using that by (intro unpack)
qed

lemma b64_chars: "c \<in> set (b64_encode s) \<Longrightarrow> b64_value c \<noteq> None \<and> \<not> b64_line_break c"
  by (induction s rule: b64_encode.induct) (auto simp: Let_def byte_bounds)

lemma groups_back:
  "n < 256 \<Longrightarrow> b64_groups [n div 4, n mod 4 * 16] = Some [char_of n]"
  "n < 256 \<Longrightarrow> m < 256 \<Longrightarrow> b64_groups [n div 4, n mod 4 * 16 + m div 16, m mod 16 * 4] = Some [char_of n, char_of m]"
  "n < 256 \<Longrightarrow> m < 256 \<Longrightarrow> k < 256 \<Longrightarrow>
     b64_groups (n div 4 # (n mod 4 * 16 + m div 16) # (m mod 16 * 4 + k div 64) # (k mod 64) # rest) =
       map_option (\<lambda>t. [char_of n, char_of m, char_of k] @ t) (b64_groups rest)"
  by (simp_all only: b64_groups.simps byte_back)

lemma b64_groups_encode: "b64_groups (map (\<lambda>c. the (b64_value c)) (b64_encode s)) = Some s"
proof (induction s rule: b64_encode.induct)
  case (2 a)
  then show ?case using groups_back(1) [of "of_char a"] by (simp add: Let_def byte_bounds del: b64_groups.simps)
next
  case (3 a b)
  then show ?case
    using groups_back(2) [of "of_char a" "of_char b"] by (simp add: Let_def byte_bounds del: b64_groups.simps)
next
  case (4 a b c rest)
  then show ?case
    using groups_back(3) [of "of_char a" "of_char b" "of_char c"] by (simp add: Let_def byte_bounds del: b64_groups.simps)
qed simp

lemma b64_roundtrip: "b64_decode (b64_encode s) = Some s"
proof -
  have f: "filter (\<lambda>c. \<not> b64_line_break c) (b64_encode s) = b64_encode s"
    using b64_chars by (auto simp: filter_id_conv)
  have "None \<notin> set (map b64_value (b64_encode s))" using b64_chars by force
  then show ?thesis using b64_groups_encode [of s] by (simp add: b64_decode_def Let_def f comp_def)
qed

lemma ParseInt_FormatInt: "0 \<le> n \<Longrightarrow> fits64 n \<Longrightarrow> ParseInt (FormatInt n) = Some n"
proof -
  assume n: "0 \<le> n" "fits64 n"
  obtain c cs where u: "utoa (nat n) = c # cs" by (cases "utoa (nat n)") simp_all
  have d: "list_all is_digit (utoa (nat n))" using utoa_digits by (auto simp: list_all_iff)
  then have "c \<noteq> CHR ''+''" "c \<noteq> CHR ''-''" using u by (auto simp: is_digit_def)
  then have "ParseInt (utoa (nat n)) = (case parse_digits (utoa (nat n)) of None \<Rightarrow> None | Some k \<Rightarrow> if fits64 (int k) then Some (int k) else None)"
    by (simp add: ParseInt_def u Let_def split: option.splits)
  then show ?thesis using n d by (simp add: FormatInt_def parse_digits_def)
qed

text \<open>
  The page cursor survives the trip through a client. What the server hands out for a position
  is read back as that position, for every position a ledger can have; whatever a client sends
  instead is either refused as invalid input or read as a position that is not negative and
  fits in 64 bits, and no cursor at all is the start.
\<close>

lemma cursor_roundtrip:
  "(0 \<le> lc_after c \<and> fits64 (lc_after c) \<longrightarrow> decodeCursor (encodeCursor c) = Inr c)
   \<and> (case decodeCursor raw of Inl e \<Rightarrow> e = Wrapped ErrInvalidInput | Inr d \<Rightarrow> 0 \<le> lc_after d \<and> fits64 (lc_after d))
   \<and> decodeCursor '''' = Inr \<lparr>lc_after = 0\<rparr>"
proof (intro conjI impI)
  assume c: "0 \<le> lc_after c \<and> fits64 (lc_after c)"
  have "b64_encode (cursorPrefix @ FormatInt (lc_after c)) \<noteq> ''''"
    using b64_roundtrip [of "cursorPrefix @ FormatInt (lc_after c)"] by (auto simp: b64_decode_def cursorPrefix_def)
  moreover have "CutPrefix (cursorPrefix @ FormatInt (lc_after c)) cursorPrefix = Some (FormatInt (lc_after c))"
    by (simp add: CutPrefix_def)
  ultimately show "decodeCursor (encodeCursor c) = Inr c"
    using c b64_roundtrip ParseInt_FormatInt by (simp add: decodeCursor_def encodeCursor_def)
next
  have "fits64 n" if "ParseInt s = Some n" for s n
    using that by (auto simp: ParseInt_def Let_def split: option.splits if_splits prod.splits)
  moreover have "fits64 0" by (simp add: fits64_def)
  ultimately show "case decodeCursor raw of Inl e \<Rightarrow> e = Wrapped ErrInvalidInput | Inr d \<Rightarrow> 0 \<le> lc_after d \<and> fits64 (lc_after d)"
    by (auto simp: decodeCursor_def split: option.splits if_splits)
qed (simp add: decodeCursor_def)

theorem cursor_roundtrip_witness:
  "encodeCursor \<lparr>lc_after = 42\<rparr> = ''djE6NDI'' \<and> decodeCursor ''djE6NDI'' = Inr \<lparr>lc_after = 42\<rparr>"
proof -
  have e: "encodeCursor \<lparr>lc_after = 42\<rparr> = ''djE6NDI''" by code_simp
  then show ?thesis using cursor_roundtrip [of "\<lparr>lc_after = 42\<rparr>"] by (simp add: fits64_def)
qed

end
