(* ===== verification/Http.thy ===== *)
theory Http
  imports Http_Errors Cursor Json Open_Wallet Submission "HOL-Library.AList"
begin

text \<open>
  The endpoints (\<open>internal/adapter/http\<close>: \<open>wallet.go\<close>, \<open>transaction.go\<close>, \<open>reconciliation.go\<close>,
  \<open>health.go\<close>): what a handler reads of the request, which use case it calls and what it answers.

  A request is what \<open>net/http\<close> hands over: the method, the decoded segments of the cleaned path,
  the decoded query, the headers by canonical name, the body. Of a response the body is kept as
  the value the handler renders: the JSON text and the \<open>omitempty\<close> rule of the renderer are left
  out, and a timestamp stays an instant. What goes to the log is left out except the line of a
  request.
\<close>

section \<open>Requests and responses\<close>

record request =
  rq_method :: string
  rq_path :: "string list"
  rq_query :: "(string \<times> string) list"
  rq_header :: "(string \<times> string) list"
  rq_body :: string

text \<open>\<open>Header.Get\<close> and \<open>Values.Get\<close>: the first value, or the empty string.\<close>

definition first_value :: "(string \<times> string) list \<Rightarrow> string \<Rightarrow> string" where
  "first_value kvs k = (case map_of kvs k of Some v \<Rightarrow> v | None \<Rightarrow> '''')"

record moneyDTO =
  mo_amount :: string
  mo_currency :: string

record openWalletRequest =
  or_playerID :: string
  or_initialBalance :: "moneyDTO option"

record walletResponse =
  wb_id :: string
  wb_playerID :: string
  wb_balance :: moneyDTO
  wb_version :: i64

record ledgerEntryResponse =
  lb_id :: string
  lb_transactionID :: string
  lb_direction :: string
  lb_money :: moneyDTO
  lb_balanceBefore :: moneyDTO
  lb_balanceAfter :: moneyDTO
  lb_createdAt :: gotime

record ledgerResponse =
  lg_entries :: "ledgerEntryResponse list"
  lg_nextCursor :: string
  lg_hasMore :: bool

record submitRequest =
  sq_providerID :: string
  sq_externalID :: string
  sq_playerID :: string
  sq_walletID :: string
  sq_roundID :: string
  sq_gameID :: string
  sq_kind :: string
  sq_money :: "moneyDTO option"
  sq_referenceExternalID :: string

record submitResponse =
  sb_transactionID :: string
  sb_status :: string
  sb_balance :: moneyDTO
  sb_idempotentReplay :: bool
  sb_failureCode :: string

record transactionResponse =
  tb_transactionID :: string
  tb_externalID :: string
  tb_providerID :: string
  tb_walletID :: string
  tb_playerID :: string
  tb_roundID :: string
  tb_gameID :: string
  tb_kind :: string
  tb_status :: string
  tb_money :: moneyDTO
  tb_referenceExternalID :: string
  tb_failureCode :: string
  tb_balance :: string
  tb_createdAt :: gotime
  tb_updatedAt :: gotime

record reconciliationResponse =
  rr_walletID :: string
  rr_stored :: moneyDTO
  rr_rebuilt :: moneyDTO
  rr_difference :: moneyDTO
  rr_entries :: nat
  rr_version :: i64
  rr_consistent :: bool
  rr_checkedAt :: gotime

record healthResponse =
  hr_status :: string
  hr_dependents :: "(string \<times> string) list"

datatype body =
    WalletBody walletResponse
  | LedgerBody ledgerResponse
  | SubmitBody submitResponse
  | TransactionBody transactionResponse
  | ReconciliationBody reconciliationResponse
  | HealthBody healthResponse
  | Failure ErrorBody
  | PlainText string

text \<open>
  \<open>http.ResponseWriter\<close>: the header that is being built, every status passed to \<open>WriteHeader\<close>
  (the first one is sent, a later one is ignored), and what was written.
\<close>

record writer =
  wt_header :: "(string \<times> string) list"
  wt_statuses :: "nat list"
  wt_bodies :: "body list"

definition Header_Set :: "string \<Rightarrow> string \<Rightarrow> writer \<Rightarrow> writer" where
  "Header_Set k v w = w\<lparr>wt_header := AList.update k v (wt_header w)\<rparr>"

definition WriteHeader :: "nat \<Rightarrow> writer \<Rightarrow> writer" where
  "WriteHeader status w = w\<lparr>wt_statuses := wt_statuses w @ [status]\<rparr>"

definition Write :: "body \<Rightarrow> writer \<Rightarrow> writer" where
  "Write b w =
     (let w = (if wt_statuses w = [] then WriteHeader StatusOK w else w) in w\<lparr>wt_bodies := wt_bodies w @ [b]\<rparr>)"

definition sent_status :: "writer \<Rightarrow> nat" where
  "sent_status w = (case wt_statuses w of [] \<Rightarrow> StatusOK | s # _ \<Rightarrow> s)"

datatype meter = Business metric | Reconciled bool | RequestObserved string string nat

record log_line =
  ll_method :: string
  ll_path :: "string list"
  ll_status :: nat
  ll_correlationID :: string

text \<open>What serving a request reads and changes.\<close>

record exchange =
  x_writer :: writer
  x_meters :: "meter list"
  x_log :: "log_line list"
  x_world :: "database world"

text \<open>
  The collaborators: the use cases run in an environment under their policies; the verifier of
  tokens, the probes and the source of request ids are interfaces, whose answers may differ
  from call to call; an observer of requests may be there or not.
\<close>

record service =
  sv_env :: env
  sv_retry :: RetryPolicy
  sv_waiting :: ReferencePolicy
  sv_verify :: "nat \<Rightarrow> string \<Rightarrow> Identity res"
  sv_probes :: "(string \<times> (nat \<Rightarrow> goerror option)) list"
  sv_requestID :: "nat \<Rightarrow> string"
  sv_observer :: bool

type_synonym endpoint = "request \<Rightarrow> ctx \<Rightarrow> exchange \<Rightarrow> exchange"

definition writeJSON :: "nat \<Rightarrow> body \<Rightarrow> exchange \<Rightarrow> exchange" where
  "writeJSON status b x =
     x\<lparr>x_writer := Write b (WriteHeader status (Header_Set ''Content-Type'' ''application/json; charset=utf-8'' (x_writer x)))\<rparr>"

definition answer_error :: "ctx \<Rightarrow> goerror \<Rightarrow> exchange \<Rightarrow> exchange" where
  "answer_error c e x = (case writeError (c_correlationID c) e of (status, b) \<Rightarrow> writeJSON status (Failure b) x)"

text \<open>\<open>v, err := use case; if err != nil { writeError; return }\<close>.\<close>

definition answering :: "ctx \<Rightarrow> 'a pgio \<Rightarrow> ('a \<Rightarrow> exchange \<Rightarrow> exchange) \<Rightarrow> exchange \<Rightarrow> exchange" where
  "answering c m k x =
     (case m (x_world x) of
        (Inl e, w) \<Rightarrow> answer_error c e (x\<lparr>x_world := w\<rparr>)
      | (Inr v, w) \<Rightarrow> k v (x\<lparr>x_world := w\<rparr>))"

section \<open>Reading a body\<close>

definition maxRequestBody :: nat where
  "maxRequestBody = 2 ^ 20"

text \<open>
  The next value of a stream that is cut short by \<open>MaxBytesReader\<close>: an object or an array ends
  with its bracket, anything else only with the byte after it, which a cut stream does not
  deliver.
\<close>

fun closed_value :: "json \<Rightarrow> bool" where
  "closed_value (JObject _) = True"
| "closed_value (JArray _) = True"
| "closed_value _ = False"

definition next_value :: "bool \<Rightarrow> string \<Rightarrow> (json \<times> string) option" where
  "next_value short s =
     (case json_decode s of
        None \<Rightarrow> None
      | Some (v, r) \<Rightarrow> if short \<and> r = '''' \<and> \<not> closed_value v then None else Some (v, r))"

definition decodeJSON :: "(string \<times> (json \<Rightarrow> 'a \<Rightarrow> 'a option)) list \<Rightarrow> 'a \<Rightarrow> request \<Rightarrow> 'a res" where
  "decodeJSON spec zero r =
     (let short = maxRequestBody < length (rq_body r); stream = take maxRequestBody (rq_body r) in
      case next_value short stream of
        None \<Rightarrow> Inl (Wrapped ErrInvalidInput)
      | Some (v, rest) \<Rightarrow>
          (case decode_struct spec v zero of
             None \<Rightarrow> Inl (Wrapped ErrInvalidInput)
           | Some x \<Rightarrow>
               (case Option.bind (next_value short rest) (\<lambda>(u, _). decode_struct [] u ()) of
                  Some _ \<Rightarrow> Inl (Wrapped ErrInvalidInput)
                | None \<Rightarrow> Inr x)))"

definition dto_spec :: "(string \<times> (json \<Rightarrow> moneyDTO \<Rightarrow> moneyDTO option)) list" where
  "dto_spec =
     [string_field ''amount'' mo_amount (\<lambda>s x. x\<lparr>mo_amount := s\<rparr>),
      string_field ''currency'' mo_currency (\<lambda>s x. x\<lparr>mo_currency := s\<rparr>)]"

definition no_dto :: moneyDTO where
  "no_dto = \<lparr>mo_amount = '''', mo_currency = ''''\<rparr>"

definition decode_dto :: "json \<Rightarrow> moneyDTO option \<Rightarrow> moneyDTO option option" where
  "decode_dto = decode_pointer (decode_struct dto_spec) no_dto"

definition open_spec :: "(string \<times> (json \<Rightarrow> openWalletRequest \<Rightarrow> openWalletRequest option)) list" where
  "open_spec =
     [string_field ''playerId'' or_playerID (\<lambda>s x. x\<lparr>or_playerID := s\<rparr>),
      (''initialBalance'', \<lambda>v x. map_option (\<lambda>m. x\<lparr>or_initialBalance := m\<rparr>) (decode_dto v (or_initialBalance x)))]"

definition no_open_request :: openWalletRequest where
  "no_open_request = \<lparr>or_playerID = '''', or_initialBalance = None\<rparr>"

definition submit_spec :: "(string \<times> (json \<Rightarrow> submitRequest \<Rightarrow> submitRequest option)) list" where
  "submit_spec =
     [string_field ''providerId'' sq_providerID (\<lambda>s x. x\<lparr>sq_providerID := s\<rparr>),
      string_field ''externalTransactionId'' sq_externalID (\<lambda>s x. x\<lparr>sq_externalID := s\<rparr>),
      string_field ''playerId'' sq_playerID (\<lambda>s x. x\<lparr>sq_playerID := s\<rparr>),
      string_field ''walletId'' sq_walletID (\<lambda>s x. x\<lparr>sq_walletID := s\<rparr>),
      string_field ''roundId'' sq_roundID (\<lambda>s x. x\<lparr>sq_roundID := s\<rparr>),
      string_field ''gameId'' sq_gameID (\<lambda>s x. x\<lparr>sq_gameID := s\<rparr>),
      string_field ''kind'' sq_kind (\<lambda>s x. x\<lparr>sq_kind := s\<rparr>),
      (''money'', \<lambda>v x. map_option (\<lambda>m. x\<lparr>sq_money := m\<rparr>) (decode_dto v (sq_money x))),
      string_field ''referenceExternalTransactionId'' sq_referenceExternalID (\<lambda>s x. x\<lparr>sq_referenceExternalID := s\<rparr>)]"

definition no_submit_request :: submitRequest where
  "no_submit_request =
     \<lparr>sq_providerID = '''', sq_externalID = '''', sq_playerID = '''', sq_walletID = '''', sq_roundID = '''',
      sq_gameID = '''', sq_kind = '''', sq_money = None, sq_referenceExternalID = ''''\<rparr>"

section \<open>Wallets\<close>

definition toMoneyDTO :: "money \<Rightarrow> moneyDTO" where
  "toMoneyDTO m = \<lparr>mo_amount = Money_String m, mo_currency = code_str (currency m)\<rparr>"

definition toWalletResponse :: "Wallet \<Rightarrow> walletResponse" where
  "toWalletResponse w =
     \<lparr>wb_id = ident_String (w_id w), wb_playerID = ident_String (w_playerID w), wb_balance = toMoneyDTO (w_balance w),
      wb_version = w_version w\<rparr>"

definition toLedgerEntryResponse :: "LedgerEntry \<Rightarrow> ledgerEntryResponse" where
  "toLedgerEntryResponse e =
     \<lparr>lb_id = ident_String (e_id e), lb_transactionID = ident_String (e_transactionID e),
      lb_direction = string_of_direction (e_direction e), lb_money = toMoneyDTO (e_amount e),
      lb_balanceBefore = toMoneyDTO (e_balanceBefore e), lb_balanceAfter = toMoneyDTO (e_balanceAfter e),
      lb_createdAt = e_createdAt e\<rparr>"

definition WalletHandler_Open :: "service \<Rightarrow> endpoint" where
  "WalletHandler_Open sv r c x =
     (case decodeJSON open_spec no_open_request r of
        Inl e \<Rightarrow> answer_error c e x
      | Inr req \<Rightarrow>
          (case or_initialBalance req of
             None \<Rightarrow> answer_error c (Wrapped ErrInvalidInput) x
           | Some m \<Rightarrow>
               answering c (OpenWallet_Execute (sv_env sv) (sv_retry sv) c
                   \<lparr>oc_playerID = or_playerID req, oc_amount = mo_amount m, oc_currency = mo_currency m\<rparr>)
                 (\<lambda>wallet. writeJSON StatusCreated (WalletBody (toWalletResponse wallet))) x))"

definition WalletHandler_Get :: "service \<Rightarrow> string \<Rightarrow> endpoint" where
  "WalletHandler_Get sv walletID r c x =
     answering c (WalletQueries_Get (sv_env sv) c walletID)
       (\<lambda>wallet. writeJSON StatusOK (WalletBody (toWalletResponse wallet))) x"

definition read_limit :: "request \<Rightarrow> int res" where
  "read_limit r =
     (let raw = first_value (rq_query r) ''limit'' in
      if raw = '''' then Inr 0
      else case ParseInt raw of None \<Rightarrow> Inl (Wrapped ErrInvalidInput) | Some n \<Rightarrow> Inr n)"

definition toLedgerResponse :: "LedgerPage \<Rightarrow> ledgerResponse" where
  "toLedgerResponse page =
     \<lparr>lg_entries = map toLedgerEntryResponse (lp_entries page),
      lg_nextCursor = (if lp_hasMore page then encodeCursor (lp_next page) else ''''), lg_hasMore = lp_hasMore page\<rparr>"

definition WalletHandler_Ledger :: "service \<Rightarrow> string \<Rightarrow> endpoint" where
  "WalletHandler_Ledger sv walletID r c x =
     (case decodeCursor (first_value (rq_query r) ''cursor'') of
        Inl e \<Rightarrow> answer_error c e x
      | Inr cursor \<Rightarrow>
          (case read_limit r of
             Inl e \<Rightarrow> answer_error c e x
           | Inr limit \<Rightarrow>
               answering c (WalletQueries_Ledger (sv_env sv) c walletID cursor limit)
                 (\<lambda>page. writeJSON StatusOK (LedgerBody (toLedgerResponse page))) x))"

section \<open>Operations\<close>

definition IdempotencyKeyHeader :: string where
  "IdempotencyKeyHeader = ''Idempotency-Key''"

definition submit_command :: "string \<Rightarrow> submitRequest \<Rightarrow> moneyDTO \<Rightarrow> SubmitCommand" where
  "submit_command key req m =
     \<lparr>sc_idempotencyKey = key, sc_providerID = sq_providerID req, sc_externalID = sq_externalID req,
      sc_playerID = sq_playerID req, sc_walletID = sq_walletID req, sc_roundID = sq_roundID req,
      sc_gameID = sq_gameID req, sc_kind = sq_kind req, sc_amount = mo_amount m, sc_currency = mo_currency m,
      sc_referenceExternalID = sq_referenceExternalID req\<rparr>"

text \<open>The part of \<open>Submit\<close> in front of the use case: the command of a request.\<close>

definition read_submit :: "request \<Rightarrow> SubmitCommand res" where
  "read_submit r =
     (let key = first_value (rq_header r) IdempotencyKeyHeader in
      if key = '''' then Inl (Wrapped ErrInvalidInput)
      else case decodeJSON submit_spec no_submit_request r of
        Inl e \<Rightarrow> Inl e
      | Inr req \<Rightarrow>
          (case sq_money req of
             None \<Rightarrow> Inl (Wrapped ErrInvalidInput)
           | Some m \<Rightarrow> Inr (submit_command key req m)))"

definition toSubmitResponse :: "SubmitResult \<Rightarrow> submitResponse" where
  "toSubmitResponse result =
     \<lparr>sb_transactionID = ident_String (t_id (sr_transaction result)),
      sb_status = string_of_status (t_status (sr_transaction result)),
      sb_balance = toMoneyDTO (sr_balance result), sb_idempotentReplay = sr_replay result,
      sb_failureCode = string_of_code (t_failureCode (sr_transaction result))\<rparr>"

definition TransactionHandler_Submit :: "service \<Rightarrow> endpoint" where
  "TransactionHandler_Submit sv r c x =
     (case read_submit r of
        Inl e \<Rightarrow> answer_error c e x
      | Inr cmd \<Rightarrow>
          (case Submit_Execute (sv_env sv) (sv_retry sv) (sv_waiting sv) c cmd (x_world x) of
             (q, ms, w) \<Rightarrow>
               let x = x\<lparr>x_world := w, x_meters := x_meters x @ map Business ms\<rparr> in
               (case q of
                  Inl e \<Rightarrow> answer_error c e x
                | Inr result \<Rightarrow> writeJSON (submitStatus result) (SubmitBody (toSubmitResponse result)) x)))"

definition toTransactionResponse :: "WagerTransaction \<Rightarrow> transactionResponse" where
  "toTransactionResponse t =
     \<lparr>tb_transactionID = ident_String (t_id t), tb_externalID = ident_String (t_externalID t),
      tb_providerID = ident_String (t_providerID t), tb_walletID = ident_String (t_walletID t),
      tb_playerID = ident_String (t_playerID t), tb_roundID = ident_String (t_roundID t),
      tb_gameID = ident_String (t_gameID t), tb_kind = string_of_kind (t_kind t), tb_status = string_of_status (t_status t),
      tb_money = toMoneyDTO (t_money t), tb_referenceExternalID = ident_String (t_referenceExternalID t),
      tb_failureCode = string_of_code (t_failureCode t),
      tb_balance = (if Money_IsInitialised (t_balanceAfter t) then Money_String (t_balanceAfter t) else ''''),
      tb_createdAt = t_createdAt t, tb_updatedAt = t_updatedAt t\<rparr>"

definition TransactionHandler_Get :: "service \<Rightarrow> string \<Rightarrow> endpoint" where
  "TransactionHandler_Get sv transactionID r c x =
     answering c (TransactionQueries_Get (sv_env sv) c transactionID)
       (\<lambda>t. writeJSON StatusOK (TransactionBody (toTransactionResponse t))) x"

definition TransactionHandler_GetByProvider :: "service \<Rightarrow> string \<Rightarrow> string \<Rightarrow> endpoint" where
  "TransactionHandler_GetByProvider sv providerID externalID r c x =
     answering c (TransactionQueries_GetByBusinessID (sv_env sv) c providerID externalID)
       (\<lambda>t. writeJSON StatusOK (TransactionBody (toTransactionResponse t))) x"

section \<open>Reconciliation and health\<close>

definition toReconciliationResponse :: "Reconciliation \<Rightarrow> reconciliationResponse" where
  "toReconciliationResponse result =
     \<lparr>rr_walletID = ident_String (rn_walletID result), rr_stored = toMoneyDTO (rn_stored result),
      rr_rebuilt = toMoneyDTO (rn_rebuilt result), rr_difference = toMoneyDTO (rn_difference result),
      rr_entries = rn_entries result, rr_version = rn_version result,
      rr_consistent = (\<not> Reconciliation_Drifted result), rr_checkedAt = rn_checkedAt result\<rparr>"

definition ReconciliationHandler_Check :: "service \<Rightarrow> string \<Rightarrow> endpoint" where
  "ReconciliationHandler_Check sv walletID r c x =
     (case ReconcileWallet_Execute (sv_env sv) c walletID (x_world x) of
        (q, drifts, w) \<Rightarrow>
          let x = x\<lparr>x_world := w, x_meters := x_meters x @ map Reconciled drifts\<rparr> in
          (case q of
             Inl e \<Rightarrow> answer_error c e x
           | Inr result \<Rightarrow> writeJSON StatusOK (ReconciliationBody (toReconciliationResponse result)) x))"

definition HealthHandler_Live :: endpoint where
  "HealthHandler_Live r c x = writeJSON StatusOK (HealthBody \<lparr>hr_status = ''ok'', hr_dependents = []\<rparr>) x"

definition probe_one :: "nat \<Rightarrow> string \<times> (nat \<Rightarrow> goerror option) \<Rightarrow> nat \<times> healthResponse \<Rightarrow> nat \<times> healthResponse" where
  "probe_one now = (\<lambda>(name, ping) (status, body).
     if ping now \<noteq> None
     then (StatusServiceUnavailable,
           body\<lparr>hr_dependents := AList.update name ''unavailable'' (hr_dependents body), hr_status := ''unavailable''\<rparr>)
     else (status, body\<lparr>hr_dependents := AList.update name ''ok'' (hr_dependents body)\<rparr>))"

definition HealthHandler_Ready :: "service \<Rightarrow> endpoint" where
  "HealthHandler_Ready sv r c x =
     (case fold (probe_one (calls (x_world x))) (sv_probes sv) (StatusOK, \<lparr>hr_status = ''ok'', hr_dependents = []\<rparr>) of
        (status, body) \<Rightarrow> writeJSON status (HealthBody body) x)"

end
