(* ===== verification/Http_Server.thy ===== *)
theory Http_Server
  imports Http
begin

text \<open>
  The edge (\<open>internal/adapter/http/auth.go\<close> and \<open>server.go\<close>): authentication, the table of
  routes, the middleware around it and the settings of the server.

  \<open>http.ServeMux\<close> is modelled as far as the patterns of this table need it: a method, literal
  segments and single-segment wildcards; a pattern for GET also serves HEAD; a path known under
  another method is answered 405 and an unknown one 404. At most one pattern of the table
  matches a request, so precedence between patterns plays no part.
\<close>

section \<open>Authentication\<close>

definition realm :: string where
  "realm = ''wagering-core''"

text \<open>\<open>strings.Cut\<close>.\<close>

definition Cut :: "char \<Rightarrow> string \<Rightarrow> (string \<times> string) option" where
  "Cut sep s =
     (case dropWhile (\<lambda>c. c \<noteq> sep) s of [] \<Rightarrow> None | _ # rest \<Rightarrow> Some (takeWhile (\<lambda>c. c \<noteq> sep) s, rest))"

definition bearerToken :: "request \<Rightarrow> string res" where
  "bearerToken r =
     (let header = first_value (rq_header r) ''Authorization'' in
      if header = '''' then Inl (OtherErr ''the Authorization header is missing'')
      else case Cut (CHR '' '') header of
        None \<Rightarrow> Inl (OtherErr ''the Authorization header is not a bearer credential'')
      | Some (scheme, token) \<Rightarrow>
          if fold_name scheme \<noteq> fold_name ''Bearer''
          then Inl (OtherErr ''the Authorization header is not a bearer credential'')
          else if TrimSpace token = '''' then Inl (OtherErr ''the bearer credential is empty'')
          else Inr (TrimSpace token))"

definition challenge :: string where
  "challenge = ''Bearer realm='' @ [char_of (34 :: nat)] @ realm @ [char_of (34 :: nat)] @ '', error=''
     @ [char_of (34 :: nat)] @ ''invalid_token'' @ [char_of (34 :: nat)]"

definition unauthenticated_body :: "ctx \<Rightarrow> ErrorBody" where
  "unauthenticated_body c =
     \<lparr>eb_code = ''UNAUTHENTICATED'', eb_message = Fixed ''a valid bearer token is required'',
      eb_correlationID = c_correlationID c\<rparr>"

definition Authenticator_refuse :: "ctx \<Rightarrow> exchange \<Rightarrow> exchange" where
  "Authenticator_refuse c x =
     writeJSON StatusUnauthorized (Failure (unauthenticated_body c))
       (x\<lparr>x_writer := Header_Set ''WWW-Authenticate'' challenge (x_writer x)\<rparr>)"

definition Authenticator_require :: "service \<Rightarrow> endpoint \<Rightarrow> endpoint" where
  "Authenticator_require sv next r c x =
     (case bearerToken r of
        Inl e \<Rightarrow> Authenticator_refuse c x
      | Inr token \<Rightarrow>
          (case sv_verify sv (calls (x_world x)) token of
             Inl e \<Rightarrow> Authenticator_refuse c x
           | Inr identity \<Rightarrow> next r (WithIdentity c identity) x))"

section \<open>Routes\<close>

record route =
  rt_pattern :: string
  rt_handler :: "(string \<Rightarrow> string) \<Rightarrow> endpoint"
  rt_public :: bool

text \<open>The handler of a route takes \<open>r.PathValue\<close> as its first argument.\<close>

definition routeTable :: "service \<Rightarrow> route list" where
  "routeTable sv =
     [\<lparr>rt_pattern = ''POST /wallets'', rt_handler = (\<lambda>_. WalletHandler_Open sv), rt_public = False\<rparr>,
      \<lparr>rt_pattern = ''GET /wallets/{walletId}'', rt_handler = (\<lambda>v. WalletHandler_Get sv (v ''walletId'')), rt_public = False\<rparr>,
      \<lparr>rt_pattern = ''GET /wallets/{walletId}/ledger'', rt_handler = (\<lambda>v. WalletHandler_Ledger sv (v ''walletId'')), rt_public = False\<rparr>,
      \<lparr>rt_pattern = ''POST /wallets/{walletId}/reconciliation'',
       rt_handler = (\<lambda>v. ReconciliationHandler_Check sv (v ''walletId'')), rt_public = False\<rparr>,
      \<lparr>rt_pattern = ''POST /wagering/transactions'', rt_handler = (\<lambda>_. TransactionHandler_Submit sv), rt_public = False\<rparr>,
      \<lparr>rt_pattern = ''GET /wagering/transactions/{transactionId}'',
       rt_handler = (\<lambda>v. TransactionHandler_Get sv (v ''transactionId'')), rt_public = False\<rparr>,
      \<lparr>rt_pattern = ''GET /providers/{providerId}/wagering/transactions/{externalTransactionId}'',
       rt_handler = (\<lambda>v. TransactionHandler_GetByProvider sv (v ''providerId'') (v ''externalTransactionId'')), rt_public = False\<rparr>,
      \<lparr>rt_pattern = ''GET /health/live'', rt_handler = (\<lambda>_. HealthHandler_Live), rt_public = True\<rparr>,
      \<lparr>rt_pattern = ''GET /health/ready'', rt_handler = (\<lambda>_. HealthHandler_Ready sv), rt_public = True\<rparr>]"

text \<open>The segments of a path, after its leading slash.\<close>

fun split_slash :: "string \<Rightarrow> string list" where
  "split_slash [] = [[]]"
| "split_slash (c # cs) =
     (if c = CHR ''/'' then [] # split_slash cs
      else case split_slash cs of [] \<Rightarrow> [[c]] | s # ss \<Rightarrow> (c # s) # ss)"

definition pattern_method :: "string \<Rightarrow> string" where
  "pattern_method p = (case Cut (CHR '' '') p of Some (m, _) \<Rightarrow> m | None \<Rightarrow> '''')"

definition pattern_path :: "string \<Rightarrow> string" where
  "pattern_path p = (case Cut (CHR '' '') p of Some (_, path) \<Rightarrow> path | None \<Rightarrow> p)"

definition is_wildcard :: "string \<Rightarrow> bool" where
  "is_wildcard s \<longleftrightarrow> s \<noteq> '''' \<and> hd s = CHR ''{''"

fun match_segments :: "string list \<Rightarrow> string list \<Rightarrow> (string \<times> string) list option" where
  "match_segments [] [] = Some []"
| "match_segments (p # ps) (s # ss) =
     (if is_wildcard p
      then if s = '''' then None else map_option ((#) (butlast (tl p), s)) (match_segments ps ss)
      else if p = s then match_segments ps ss else None)"
| "match_segments _ _ = None"

definition match_path :: "string \<Rightarrow> request \<Rightarrow> (string \<times> string) list option" where
  "match_path p r = match_segments (tl (split_slash (pattern_path p))) (rq_path r)"

definition method_matches :: "string \<Rightarrow> string \<Rightarrow> bool" where
  "method_matches m m' \<longleftrightarrow> m = m' \<or> m = ''GET'' \<and> m' = ''HEAD''"

fun find_route :: "route list \<Rightarrow> request \<Rightarrow> (route \<times> (string \<times> string) list) option" where
  "find_route [] r = None"
| "find_route (rt # rts) r =
     (case match_path (rt_pattern rt) r of
        Some vs \<Rightarrow> if method_matches (pattern_method (rt_pattern rt)) (rq_method r) then Some (rt, vs) else find_route rts r
      | None \<Rightarrow> find_route rts r)"

definition allowed_methods :: "route list \<Rightarrow> request \<Rightarrow> string list" where
  "allowed_methods rts r =
     filter (\<lambda>m. list_ex (\<lambda>rt. match_path (rt_pattern rt) r \<noteq> None \<and> method_matches (pattern_method (rt_pattern rt)) m) rts)
       [''GET'', ''HEAD'', ''POST'']"

fun join_comma :: "string list \<Rightarrow> string" where
  "join_comma [] = ''''"
| "join_comma [s] = s"
| "join_comma (s # ss) = s @ '', '' @ join_comma ss"

text \<open>\<open>http.Error\<close>.\<close>

definition http_Error :: "string \<Rightarrow> nat \<Rightarrow> exchange \<Rightarrow> exchange" where
  "http_Error text status x =
     x\<lparr>x_writer := Write (PlainText text) (WriteHeader status
         (Header_Set ''X-Content-Type-Options'' ''nosniff'' (Header_Set ''Content-Type'' ''text/plain; charset=utf-8'' (x_writer x))))\<rparr>"

definition no_route :: "route list \<Rightarrow> request \<Rightarrow> exchange \<Rightarrow> exchange" where
  "no_route rts r x =
     (case allowed_methods rts r of
        [] \<Rightarrow> http_Error ''404 page not found'' StatusNotFound x
      | ms \<Rightarrow> http_Error ''Method Not Allowed'' StatusMethodNotAllowed
                 (x\<lparr>x_writer := Header_Set ''Allow'' (join_comma ms) (x_writer x)\<rparr>))"

section \<open>Middleware\<close>

text \<open>
  How a handler ends: it returns, or panics, on purpose (\<open>http.ErrAbortHandler\<close>) or not. The
  endpoints of this program return.
\<close>

datatype flow = Returned | Panicked | Aborted

type_synonym handler = "request \<Rightarrow> ctx \<Rightarrow> exchange \<Rightarrow> flow \<times> exchange"

text \<open>\<open>statusRecorder\<close>: the last status written through it, 200 when nothing was.\<close>

definition recorded_status :: "exchange \<Rightarrow> exchange \<Rightarrow> nat" where
  "recorded_status x x' =
     (case drop (length (wt_statuses (x_writer x))) (wt_statuses (x_writer x')) of [] \<Rightarrow> StatusOK | ss \<Rightarrow> last ss)"

definition observe :: "bool \<Rightarrow> string \<Rightarrow> endpoint \<Rightarrow> endpoint" where
  "observe observer pattern next r c x =
     (if \<not> observer then next r c x
      else let x' = next r c x in
        x'\<lparr>x_meters := x_meters x' @
             [RequestObserved (pattern_path pattern) (pattern_method pattern) (recorded_status x x')]\<rparr>)"

definition Routes :: "service \<Rightarrow> handler" where
  "Routes sv r c x =
     (Returned,
      case find_route (routeTable sv) r of
        None \<Rightarrow> no_route (routeTable sv) r x
      | Some (rt, values) \<Rightarrow>
          let handler = rt_handler rt (first_value values);
              handler = (if rt_public rt then handler else Authenticator_require sv handler) in
          observe (sv_observer sv) (rt_pattern rt) handler r c x)"

definition CorrelationIDHeader :: string where
  "CorrelationIDHeader = ''X-Correlation-Id''"

definition maxCorrelationIDLength :: nat where
  "maxCorrelationIDLength = 128"

definition correlation_of :: "service \<Rightarrow> request \<Rightarrow> exchange \<Rightarrow> string" where
  "correlation_of sv r x =
     (let id = first_value (rq_header r) CorrelationIDHeader in
      if id = '''' \<or> maxCorrelationIDLength < length id then sv_requestID sv (calls (x_world x)) else id)"

definition withCorrelationID :: "service \<Rightarrow> handler \<Rightarrow> handler" where
  "withCorrelationID sv next r c x =
     (let id = correlation_of sv r x in
      next r (WithCorrelationID c id) (x\<lparr>x_writer := Header_Set CorrelationIDHeader id (x_writer x)\<rparr>))"

definition withRequestLog :: "handler \<Rightarrow> handler" where
  "withRequestLog next r c x =
     (case next r c x of
        (Returned, x') \<Rightarrow>
          (Returned, x'\<lparr>x_log := x_log x' @
             [\<lparr>ll_method = rq_method r, ll_path = rq_path r, ll_status = recorded_status x x',
               ll_correlationID = c_correlationID c\<rparr>]\<rparr>)
      | (f, x') \<Rightarrow> (f, x'))"

text \<open>The context here is the one the request came with: the correlation id is set inside.\<close>

definition withRecovery :: "handler \<Rightarrow> handler" where
  "withRecovery next r c x =
     (case next r c x of
        (Panicked, x') \<Rightarrow>
          (Returned, writeJSON StatusInternalServerError
             (Failure \<lparr>eb_code = ''INTERNAL'', eb_message = Fixed ''internal error'', eb_correlationID = c_correlationID c\<rparr>) x')
      | (f, x') \<Rightarrow> (f, x'))"

definition Handler :: "service \<Rightarrow> handler \<Rightarrow> handler" where
  "Handler sv mux = withRecovery (withCorrelationID sv (withRequestLog mux))"

section \<open>The server\<close>

record ServerConfig =
  sg_Addr :: string
  sg_ShutdownTimeout :: duration
  sg_ReadHeaderTimeout :: duration
  sg_ReadTimeout :: duration
  sg_WriteTimeout :: duration
  sg_IdleTimeout :: duration

definition orDefault :: "duration \<Rightarrow> duration \<Rightarrow> duration" where
  "orDefault value fallback = (if value \<le>s 0 then fallback else value)"

definition NewServer :: "ServerConfig \<Rightarrow> ServerConfig" where
  "NewServer cfg =
     cfg\<lparr>sg_ReadHeaderTimeout := orDefault (sg_ReadHeaderTimeout cfg) (5 * second),
         sg_ReadTimeout := orDefault (sg_ReadTimeout cfg) (15 * second),
         sg_WriteTimeout := orDefault (sg_WriteTimeout cfg) (15 * second),
         sg_IdleTimeout := orDefault (sg_IdleTimeout cfg) (60 * second)\<rparr>"


section \<open>Who is served\<close>

lemma Write_simps [simp]:
  "wt_header (Write b w) = wt_header w" "wt_bodies (Write b w) = wt_bodies w @ [b]"
  "wt_statuses (Write b w) = (if wt_statuses w = [] then [StatusOK] else wt_statuses w)"
  "wt_header (WriteHeader s w) = wt_header w" "wt_bodies (WriteHeader s w) = wt_bodies w"
  "wt_statuses (WriteHeader s w) = wt_statuses w @ [s]"
  "wt_header (Header_Set k v w) = AList.update k v (wt_header w)" "wt_bodies (Header_Set k v w) = wt_bodies w"
  "wt_statuses (Header_Set k v w) = wt_statuses w"
  by (simp_all add: Write_def WriteHeader_def Header_Set_def Let_def)

lemma writeJSON_simps [simp]:
  "x_world (writeJSON s b x) = x_world x" "x_meters (writeJSON s b x) = x_meters x" "x_log (writeJSON s b x) = x_log x"
  "wt_bodies (x_writer (writeJSON s b x)) = wt_bodies (x_writer x) @ [b]"
  "wt_statuses (x_writer (writeJSON s b x)) = wt_statuses (x_writer x) @ [s]"
  "wt_header (x_writer (writeJSON s b x)) =
     AList.update ''Content-Type'' ''application/json; charset=utf-8'' (wt_header (x_writer x))"
  by (simp_all add: writeJSON_def)

text \<open>The credential of a request, checked.\<close>

definition authenticate :: "service \<Rightarrow> request \<Rightarrow> exchange \<Rightarrow> Identity res" where
  "authenticate sv r x = andThen (bearerToken r) (sv_verify sv (calls (x_world x)))"

lemma require_cases:
  "Authenticator_require sv next r c x =
     (case authenticate sv r x of Inl _ \<Rightarrow> Authenticator_refuse c x | Inr i \<Rightarrow> next r (WithIdentity c i) x)"
  by (auto simp: Authenticator_require_def authenticate_def andThen_def split: sum.splits)

text \<open>What reaches an endpoint: the exchange with the correlation header set, and the context with the id.\<close>

definition inside :: "service \<Rightarrow> request \<Rightarrow> exchange \<Rightarrow> exchange" where
  "inside sv r x = x\<lparr>x_writer := Header_Set CorrelationIDHeader (correlation_of sv r x) (x_writer x)\<rparr>"

lemma inside_simps [simp]: "x_world (inside sv r x) = x_world x" "x_meters (inside sv r x) = x_meters x"
  "wt_bodies (x_writer (inside sv r x)) = wt_bodies (x_writer x)"
  "wt_statuses (x_writer (inside sv r x)) = wt_statuses (x_writer x)"
  by (simp_all add: inside_def)

lemma observe_simps [simp]: "x_world (observe on p f r c x) = x_world (f r c x)" "x_writer (observe on p f r c x) = x_writer (f r c x)"
  by (simp_all add: observe_def Let_def)

lemma authenticate_inside [simp]: "authenticate sv r (inside sv r x) = authenticate sv r x"
  by (simp add: authenticate_def)

text \<open>Serving a request, seen from outside: what the middleware adds is a header, a log line and a meter.\<close>

lemma Handler_served:
  "\<exists>x'. Handler sv (Routes sv) r c x = (Returned, x') \<and>
     (let y = (case find_route (routeTable sv) r of
         None \<Rightarrow> no_route (routeTable sv) r (inside sv r x)
       | Some (rt, vs) \<Rightarrow>
           (if rt_public rt then rt_handler rt (first_value vs) else Authenticator_require sv (rt_handler rt (first_value vs)))
             r (WithCorrelationID c (correlation_of sv r x)) (inside sv r x)) in
      x_world x' = x_world y \<and> x_writer x' = x_writer y)"
  by (auto simp: Handler_def withRecovery_def withCorrelationID_def withRequestLog_def Routes_def Let_def inside_def
      split: option.splits)

lemma no_route_simps [simp]: "x_world (no_route rts r x) = x_world x"
  "wt_statuses (x_writer (no_route rts r x)) =
     wt_statuses (x_writer x) @ [if allowed_methods rts r = [] then StatusNotFound else StatusMethodNotAllowed]"
  by (simp_all add: no_route_def http_Error_def split: list.splits)

lemma find_route_mem: "find_route rts r = Some (rt, vs) \<Longrightarrow> rt \<in> set rts"
  by (induction rts) (auto split: option.splits if_splits)

lemma public_routes: "rt \<in> set (routeTable sv) \<Longrightarrow> rt_public rt \<Longrightarrow>
   rt_handler rt = (\<lambda>_. HealthHandler_Live) \<or> rt_handler rt = (\<lambda>_. HealthHandler_Ready sv)"
  by (auto simp: routeTable_def)

lemma health_simps:
  "x_world (HealthHandler_Live r c x) = x_world x" "x_world (HealthHandler_Ready sv r c x) = x_world x"
  "wt_bodies (x_writer x) = [] \<Longrightarrow> \<exists>h. wt_bodies (x_writer (HealthHandler_Live r c x)) = [HealthBody h]"
  "wt_bodies (x_writer x) = [] \<Longrightarrow> \<exists>h. wt_bodies (x_writer (HealthHandler_Ready sv r c x)) = [HealthBody h]"
  by (auto simp: HealthHandler_Live_def HealthHandler_Ready_def split: prod.splits)

text \<open>
  C33. Nobody is served without a credential the verifier accepts. A request that matches no route
  is answered 404 or 405. On a public route, and those are the two health probes, the answer is a
  health report. On every other route, a request whose bearer token is missing, malformed or
  refused is answered 401 with the challenge and one fixed body whatever the reason, and
  otherwise the endpoint runs in the context of the very identity the verifier returned.
  Except for what that endpoint does, the database is not touched.
\<close>

theorem only_verified_callers:
  assumes "x_writer x = \<lparr>wt_header = [], wt_statuses = [], wt_bodies = []\<rparr>"
  shows "case Handler sv (Routes sv) r c x of (f, x') \<Rightarrow> f = Returned \<and>
    (case find_route (routeTable sv) r of
       None \<Rightarrow> x_world x' = x_world x \<and> sent_status (x_writer x') \<in> {StatusNotFound, StatusMethodNotAllowed}
     | Some (rt, vs) \<Rightarrow>
         if rt_public rt then x_world x' = x_world x \<and> (\<exists>h. wt_bodies (x_writer x') = [HealthBody h])
         else case authenticate sv r x of
           Inl _ \<Rightarrow> x_world x' = x_world x \<and> sent_status (x_writer x') = StatusUnauthorized
             \<and> map_of (wt_header (x_writer x')) ''WWW-Authenticate'' = Some challenge
             \<and> wt_bodies (x_writer x') =
                 [Failure (unauthenticated_body (WithCorrelationID c (correlation_of sv r x)))]
         | Inr i \<Rightarrow>
             (let y = rt_handler rt (first_value vs) r (WithIdentity (WithCorrelationID c (correlation_of sv r x)) i) (inside sv r x) in
              x_world x' = x_world y \<and> x_writer x' = x_writer y))"
proof -
  obtain x' where served: "Handler sv (Routes sv) r c x = (Returned, x')"
    "(let y = (case find_route (routeTable sv) r of
         None \<Rightarrow> no_route (routeTable sv) r (inside sv r x)
       | Some (rt, vs) \<Rightarrow>
           (if rt_public rt then rt_handler rt (first_value vs) else Authenticator_require sv (rt_handler rt (first_value vs)))
             r (WithCorrelationID c (correlation_of sv r x)) (inside sv r x)) in
      x_world x' = x_world y \<and> x_writer x' = x_writer y)"
    using Handler_served by blast
  show ?thesis
  proof (cases "find_route (routeTable sv) r")
    case None
    then show ?thesis using served assms by (simp add: sent_status_def)
  next
    case (Some m)
    obtain rt vs where m: "m = (rt, vs)" by (cases m)
    show ?thesis
    proof (cases "rt_public rt")
      case True
      then have "rt_handler rt = (\<lambda>_. HealthHandler_Live) \<or> rt_handler rt = (\<lambda>_. HealthHandler_Ready sv)"
        using public_routes find_route_mem Some m by blast
      moreover have "wt_bodies (x_writer (inside sv r x)) = []" using assms by simp
      note health_simps(3,4) [OF this]
      ultimately show ?thesis using served assms Some m True health_simps(1,2) by (auto simp: Let_def)
    next
      case False
      then show ?thesis
        using served assms Some m
        by (cases "authenticate sv r x")
          (simp_all add: Let_def require_cases Authenticator_refuse_def sent_status_def AList.update_conv')
    qed
  qed
qed

text \<open>A panic below is answered as an internal error, and its body names no correlation id: that was set further in.\<close>

lemma recovered_panic:
  assumes "next r (WithCorrelationID c (correlation_of sv r x)) (inside sv r x) = (Panicked, y)" "c_correlationID c = ''''"
  shows "Handler sv next r c x = (Returned, writeJSON StatusInternalServerError
      (Failure \<lparr>eb_code = ''INTERNAL'', eb_message = Fixed ''internal error'', eb_correlationID = ''''\<rparr>) y)"
  using assms by (simp add: Handler_def withRecovery_def withCorrelationID_def withRequestLog_def inside_def Let_def)

lemma correlation_bounded:
  assumes "\<And>n. length (sv_requestID sv n) = 36"
  shows "correlation_of sv r x \<noteq> '''' \<and> length (correlation_of sv r x) \<le> maxCorrelationIDLength"
proof -
  have "sv_requestID sv n \<noteq> ''''" for n using assms [of n] by auto
  then show ?thesis using assms by (auto simp: correlation_of_def Let_def maxCorrelationIDLength_def)
qed

lemma orDefault_positive: "0 <s d \<Longrightarrow> 0 <s orDefault v d"
  by (simp add: orDefault_def) (meson not_less signed.not_le)

lemma defaults_positive: "0 <s 5 * second" "0 <s 15 * second" "0 <s 60 * second"
  by (simp_all add: second_def word_sless_alt)

lemma timeouts_set:
  "0 <s sg_ReadHeaderTimeout (NewServer cfg)" "0 <s sg_ReadTimeout (NewServer cfg)"
  "0 <s sg_WriteTimeout (NewServer cfg)" "0 <s sg_IdleTimeout (NewServer cfg)"
  by (simp_all add: NewServer_def orDefault_positive defaults_positive)

end
