(* ===== verification/Http_Answers.thy ===== *)
theory Http_Answers
  imports Http_Server
begin

text \<open>What a client sees over HTTP of an operation that is submitted again.\<close>

section \<open>The route\<close>

lemma submit_route:
  assumes "rq_method r = ''POST''" "rq_path r = [''wagering'', ''transactions'']"
  shows "find_route (routeTable sv) r = Some (routeTable sv ! 4, [])"
proof -
  have p: "match_path ''POST /wallets'' r = None" "match_path ''GET /wallets/{walletId}'' r = None"
    "match_path ''GET /wallets/{walletId}/ledger'' r = None" "match_path ''POST /wallets/{walletId}/reconciliation'' r = None"
    "match_path ''POST /wagering/transactions'' r = Some []"
    unfolding match_path_def assms(2) by code_simp+
  have m: "method_matches (pattern_method ''POST /wagering/transactions'') ''POST''" by code_simp
  show ?thesis by (simp add: routeTable_def p assms(1) m)
qed

text \<open>A trailing value after the first one is refused only when it decodes into an empty struct.\<close>

lemma trailing_content_accepted:
  assumes "length (rq_body r) \<le> maxRequestBody" "json_decode (rq_body r) = Some (v, rest)"
    "decode_struct spec v zero = Some x" "json_decode rest = Some (JObject (m # ms), s) \<or> json_decode rest = None"
  shows "decodeJSON spec zero r = Inr x"
proof -
  have "decode_struct [] (JObject (m # ms)) () = None" by (cases m) (simp add: decode_struct_def)
  then show ?thesis using assms by (auto simp: decodeJSON_def next_value_def)
qed

section \<open>Submitting again\<close>

text \<open>The answer to an operation that is stored already.\<close>

definition stored_body :: "WagerTransaction \<Rightarrow> submitResponse" where
  "stored_body t =
     \<lparr>sb_transactionID = ident_String (t_id t), sb_status = string_of_status (t_status t),
      sb_balance = toMoneyDTO (t_balanceAfter t), sb_idempotentReplay = True,
      sb_failureCode = string_of_code (t_failureCode t)\<rparr>"

lemma conflict_answer: "writeError cid (Wrapped ErrConflict) =
   (StatusConflict, \<lparr>eb_code = ''CONFLICT'', eb_message = Fixed ''the request conflicts with the current state'', eb_correlationID = cid\<rparr>)"
  by (simp add: writeError_def statusFor_def conflictCode_def http_status_defs)

lemma submit_stored:
  assumes "Submit_execute (sv_env sv) (sv_retry sv) (sv_waiting sv) c cmd (x_world x) =
      ((if same then Inr \<lparr>sr_transaction = t, sr_balance = t_balanceAfter t, sr_replay = True\<rparr> else Inl (Wrapped ErrConflict)), w')"
    "read_submit r = Inr cmd" "wt_bodies (x_writer x) = []" "wt_statuses (x_writer x) = []"
  shows "let y = TransactionHandler_Submit sv r c x in x_world y = w' \<and>
    (if same then sent_status (x_writer y) = submitStatus (answer t (t_balanceAfter t)) \<and> wt_bodies (x_writer y) = [SubmitBody (stored_body t)]
     else sent_status (x_writer y) = StatusConflict \<and> (\<exists>b. wt_bodies (x_writer y) = [Failure b] \<and> eb_code b = ''CONFLICT''))"
  using assms
  by (cases same) (simp_all add: TransactionHandler_Submit_def Submit_Execute_def Let_def answer_error_def conflict_answer
      sent_status_def toSubmitResponse_def stored_body_def answer_def submitStatus_def)

text \<open>
  A resend over HTTP. When the transaction a request describes is stored already, whatever
  happened since, an authenticated request of its provider is answered from the stored
  transaction and the stored data stay as they are: with the same content and idempotency key the
  status and body of the stored outcome, a rejection staying a rejection, marked as a replay; with
  another content or key 409.
\<close>

lemma http_resend:
  assumes "x_writer x = \<lparr>wt_header = [], wt_statuses = [], wt_bodies = []\<rparr>"
    "rq_method r = ''POST''" "rq_path r = [''wagering'', ''transactions'']" "read_submit r = Inr cmd"
    "authenticate sv r x = Inr i" "ScopeSubmit \<in> set (i_scopes i)" "i_providerID i = t_providerID t"
    and db: "healthy (sv_env sv)" "idle (x_world x)" "represents (db (x_world x)) b" "bank_ok b" "t \<in> set (b_txs b)"
    and p: "Submit_parse cmd = Inr p" "t_providerID t = ps_providerID p" "t_externalID t = ps_externalID p"
    and c: "\<not> c_insideUnitOfWork c"
  shows "case Handler sv (Routes sv) r c x of (f, x') \<Rightarrow>
    f = Returned \<and> db (x_world x') = db (x_world x) \<and> idle (x_world x') \<and>
    (if t_payloadHash t = ps_hash p \<and> t_idempotencyKey t = ps_key p
     then sent_status (x_writer x') = submitStatus (answer t (t_balanceAfter t)) \<and> wt_bodies (x_writer x') = [SubmitBody (stored_body t)]
     else sent_status (x_writer x') = StatusConflict \<and> (\<exists>b. wt_bodies (x_writer x') = [Failure b] \<and> eb_code b = ''CONFLICT''))"
proof -
  let ?c = "WithIdentity (WithCorrelationID c (correlation_of sv r x)) i"
  let ?same = "t_payloadHash t = ps_hash p \<and> t_idempotencyKey t = ps_key p"
  have may: "may_submit ?c p" "\<not> c_insideUnitOfWork ?c"
    using assms(6,7) p(2) c by (auto simp: may_submit_def WithIdentity_def WithCorrelationID_def)
  obtain w' where run: "Submit_execute (sv_env sv) (sv_retry sv) (sv_waiting sv) ?c cmd (x_world (inside sv r x)) =
      ((if ?same then Inr \<lparr>sr_transaction = t, sr_balance = t_balanceAfter t, sr_replay = True\<rparr>
        else Inl (Wrapped ErrConflict)), w')" "idle w'" "db w' = db (x_world x)"
    using stored_answer [OF db p may] by auto
  have handler: "rt_handler (routeTable sv ! 4) = (\<lambda>_. TransactionHandler_Submit sv)" "\<not> rt_public (routeTable sv ! 4)"
    by (simp_all add: routeTable_def)
  obtain x' where x': "Handler sv (Routes sv) r c x = (Returned, x')"
    "x_world x' = x_world (TransactionHandler_Submit sv r ?c (inside sv r x))"
    "x_writer x' = x_writer (TransactionHandler_Submit sv r ?c (inside sv r x))"
    using Handler_served [of sv r c x] submit_route [OF assms(2,3)] handler assms(5)
    by (auto simp: Let_def require_cases)
  show ?thesis
    using submit_stored [OF run(1) assms(4)] assms(1) x' run(2,3) by (simp add: Let_def)
qed

section \<open>An instance\<close>

definition demo_json_body :: string where
  "demo_json_body = ''{\"providerId\":\"prov\",\"externalTransactionId\":\"x2\",\"playerId\":\"p1\",\"walletId\":\"w1\",'' @
     ''\"roundId\":\"r1\",\"gameId\":\"g1\",\"kind\":\"ROLLBACK\",\"money\":{\"amount\":\"5.00\",\"currency\":\"BRL\"},'' @
     ''\"referenceExternalTransactionId\":\"x1\"}''"

definition demo_request :: request where
  "demo_request =
     \<lparr>rq_method = ''POST'', rq_path = [''wagering'', ''transactions''], rq_query = [],
      rq_header = [(''Authorization'', ''bearer tok''), (''Idempotency-Key'', ''k2'')], rq_body = demo_json_body\<rparr>"

definition demo_service :: service where
  "demo_service =
     \<lparr>sv_env = calm, sv_retry = DefaultRetryPolicy, sv_waiting = DefaultReferencePolicy,
      sv_verify = (\<lambda>_ token. if token = ''tok''
        then Inr \<lparr>i_subject = ''client'', i_providerID = Identifier ''prov'', i_scopes = [ScopeSubmit]\<rparr>
        else Inl (Wrapped ErrUnauthenticated)),
      sv_probes = [], sv_requestID = (\<lambda>_. ''id''), sv_observer = True\<rparr>"

definition demo_exchange :: exchange where
  "demo_exchange =
     \<lparr>x_writer = \<lparr>wt_header = [], wt_statuses = [], wt_bodies = []\<rparr>, x_meters = [], x_log = [], x_world = start demo_db\<rparr>"

definition demo_value :: json where
  "demo_value =
     JObject [(''providerId'', JString ''prov''), (''externalTransactionId'', JString ''x2''), (''playerId'', JString ''p1''),
       (''walletId'', JString ''w1''), (''roundId'', JString ''r1''), (''gameId'', JString ''g1''), (''kind'', JString ''ROLLBACK''),
       (''money'', JObject [(''amount'', JString ''5.00''), (''currency'', JString ''BRL'')]),
       (''referenceExternalTransactionId'', JString ''x1'')]"

lemma demo_json_value: "json_decode demo_json_body = Some (demo_value, '''')"
  unfolding demo_value_def by code_simp

lemma demo_submit_struct: "decode_struct submit_spec demo_value no_submit_request = Some
   \<lparr>sq_providerID = ''prov'', sq_externalID = ''x2'', sq_playerID = ''p1'', sq_walletID = ''w1'', sq_roundID = ''r1'',
    sq_gameID = ''g1'', sq_kind = ''ROLLBACK'', sq_money = Some \<lparr>mo_amount = ''5.00'', mo_currency = ''BRL''\<rparr>,
    sq_referenceExternalID = ''x1''\<rparr>"
  by (simp add: demo_value_def decode_struct_def submit_spec_def dto_spec_def decode_dto_def decode_pointer_def no_dto_def
      string_field_def names_field_def unquote_plain fold_name_plain decode_string_def no_submit_request_def)

lemma demo_length: "length demo_json_body \<le> maxRequestBody"
  by (simp add: demo_json_body_def maxRequestBody_def)

lemma demo_read: "read_submit demo_request = Inr demo_command"
proof -
  have "json_decode '''' = None" by code_simp
  then have "decodeJSON submit_spec no_submit_request demo_request = Inr
     \<lparr>sq_providerID = ''prov'', sq_externalID = ''x2'', sq_playerID = ''p1'', sq_walletID = ''w1'', sq_roundID = ''r1'',
      sq_gameID = ''g1'', sq_kind = ''ROLLBACK'', sq_money = Some \<lparr>mo_amount = ''5.00'', mo_currency = ''BRL''\<rparr>,
      sq_referenceExternalID = ''x1''\<rparr>"
    using demo_length demo_json_value demo_submit_struct by (simp add: decodeJSON_def next_value_def demo_request_def)
  then show ?thesis
    by (simp add: read_submit_def demo_request_def first_value_def IdempotencyKeyHeader_def submit_command_def demo_command_def)
qed

lemma demo_token: "bearerToken demo_request = Inr ''tok''"
proof -
  have "TrimSpace ''tok'' = ''tok''" "char_of (66 :: nat) = CHR ''B''" by code_simp+
  then show ?thesis
    by (simp add: bearerToken_def demo_request_def first_value_def Cut_def fold_name_plain)
qed

theorem http_resend_witness:
  "case Handler demo_service (Routes demo_service) demo_request no_caller demo_exchange of (f, x') \<Rightarrow>
     db (x_world x') = demo_db \<and> sent_status (x_writer x') = StatusConflict"
proof -
  have d: "db (x_world demo_exchange) = demo_db" "idle (x_world demo_exchange)"
    using idle_start by (simp_all add: demo_exchange_def start_def)
  have rep: "represents (db (x_world demo_exchange)) demo_bank" by (simp add: d demo_represents)
  have t: "demo_pending \<in> set (b_txs demo_bank)" by (simp add: demo_bank_def)
  have ids: "t_providerID demo_pending = ps_providerID demo_parsed" "t_externalID demo_pending = ps_externalID demo_parsed"
    by (simp_all add: demo_pending_def demo_parsed_def)
  have hash: "t_payloadHash demo_pending \<noteq> ps_hash demo_parsed"
    by (simp add: demo_pending_def demo_parsed_def hashPrefix_def)
  have auth: "authenticate demo_service demo_request demo_exchange =
      Inr \<lparr>i_subject = ''client'', i_providerID = Identifier ''prov'', i_scopes = [ScopeSubmit]\<rparr>"
    using demo_token by (simp add: authenticate_def demo_service_def)
  have "healthy (sv_env demo_service)" using healthy_calm by (simp add: demo_service_def)
  from http_resend [OF _ _ _ demo_read auth _ _ this d(2) rep demo_bank_ok t demo_parse ids, of no_caller]
  show ?thesis
    using hash d by (simp add: demo_exchange_def demo_request_def demo_pending_def no_caller_def split: prod.splits)
qed

theorem only_verified_callers_witness:
  "case Handler demo_service (Routes demo_service) (demo_request\<lparr>rq_header := [(''Authorization'', ''Basic tok'')]\<rparr>) no_caller demo_exchange of
     (f, x') \<Rightarrow> x_world x' = start demo_db \<and> sent_status (x_writer x') = StatusUnauthorized"
proof -
  let ?r = "demo_request\<lparr>rq_header := [(''Authorization'', ''Basic tok'')]\<rparr>"
  have "bearerToken ?r = Inl (OtherErr ''the Authorization header is not a bearer credential'')"
    by (simp add: bearerToken_def first_value_def Cut_def fold_name_plain)
  then have "authenticate demo_service ?r demo_exchange = Inl (OtherErr ''the Authorization header is not a bearer credential'')"
    by (simp add: authenticate_def)
  moreover have "find_route (routeTable demo_service) ?r = Some (routeTable demo_service ! 4, [])"
    by (rule submit_route) (simp_all add: demo_request_def)
  moreover have "\<not> rt_public (routeTable demo_service ! 4)" by (simp add: routeTable_def)
  ultimately show ?thesis
    using only_verified_callers [where x = demo_exchange and sv = demo_service and r = ?r and c = no_caller]
    by (simp add: demo_exchange_def split: prod.splits)
qed

end
