(* ===== verification/Oidc.thy ===== *)
theory Oidc
  imports Cursor Json Identity "HOL-Library.AList"
begin

text \<open>
  The OpenID Connect adapter (\<open>internal/adapter/oidc\<close>): discovery, the cached key set of the
  issuer, and the verification of a bearer token.

  The issuer, the clock and the token library are parameters. The issuer is what the HTTP client
  gets for a URL, request by request; the library (\<open>golang-jwt\<close>) splits a token into its header,
  or refuses it, and checks it with a key: signature, algorithm, issuer, audience and times.
\<close>

section \<open>Parameters\<close>

datatype fetched = Unreachable | Answered nat string

record issuer_env =
  ie_get :: "nat \<Rightarrow> string \<Rightarrow> fetched"
  ie_now :: "nat \<Rightarrow> gotime"

record rsaKey =
  rk_N :: nat
  rk_E :: i64

record parser_options =
  po_methods :: "string list"
  po_issuer :: string
  po_audience :: string
  po_expirationRequired :: bool
  po_leeway :: duration

type_synonym claims = "string \<Rightarrow> json option"

record jwt_parser =
  jp_header :: "parser_options \<Rightarrow> string \<Rightarrow> (string \<Rightarrow> json option) option"
  jp_check :: "parser_options \<Rightarrow> nat \<Rightarrow> string \<Rightarrow> rsaKey \<Rightarrow> claims option"
  jp_subject :: "claims \<Rightarrow> string option"

text \<open>\<open>time.Time.Sub\<close>: the difference, at the ends of the range of a duration when it does not fit.\<close>

definition time_Sub :: "gotime \<Rightarrow> gotime \<Rightarrow> duration" where
  "time_Sub t u =
     (let d = instant t - instant u in
      word_of_int (if 2 ^ 63 \<le> d then 2 ^ 63 - 1 else if d < - (2 ^ 63) then - (2 ^ 63) else d))"

section \<open>Documents\<close>

text \<open>Decoding into a struct without \<open>DisallowUnknownFields\<close>: a key that names no field is skipped.\<close>

fun decode_known :: "(string \<times> (json \<Rightarrow> 'a \<Rightarrow> 'a option)) list \<Rightarrow> (string \<times> json) list \<Rightarrow> 'a \<Rightarrow> 'a option" where
  "decode_known spec [] x = Some x"
| "decode_known spec ((k, v) # ms) x =
     (case find (\<lambda>(f, _). names_field f k) spec of
        None \<Rightarrow> decode_known spec ms x
      | Some (_, upd) \<Rightarrow> Option.bind (upd v x) (decode_known spec ms))"

definition decode_lenient :: "(string \<times> (json \<Rightarrow> 'a \<Rightarrow> 'a option)) list \<Rightarrow> json \<Rightarrow> 'a \<Rightarrow> 'a option" where
  "decode_lenient spec v x =
     (case v of JObject ms \<Rightarrow> decode_known spec ms x | JNull \<Rightarrow> Some x | _ \<Rightarrow> None)"

text \<open>
  A slice: \<open>null\<close> clears it; an element is decoded onto the element that is there already, when the
  member is repeated, or onto a new one.
\<close>

fun decode_elems :: "(json \<Rightarrow> 'a \<Rightarrow> 'a option) \<Rightarrow> 'a \<Rightarrow> json list \<Rightarrow> 'a list \<Rightarrow> 'a list option" where
  "decode_elems dec zero [] olds = Some []"
| "decode_elems dec zero (v # vs) olds =
     Option.bind (dec v (case olds of [] \<Rightarrow> zero | x # _ \<Rightarrow> x)) (\<lambda>y.
       map_option ((#) y) (decode_elems dec zero vs (tl olds)))"

definition decode_slice :: "(json \<Rightarrow> 'a \<Rightarrow> 'a option) \<Rightarrow> 'a \<Rightarrow> json \<Rightarrow> 'a list \<Rightarrow> 'a list option" where
  "decode_slice dec zero v olds =
     (case v of JNull \<Rightarrow> Some [] | JArray vs \<Rightarrow> decode_elems dec zero vs olds | _ \<Rightarrow> None)"

record jsonWebKey =
  jk_Kty :: string
  jk_Kid :: string
  jk_Use :: string
  jk_Alg :: string
  jk_N :: string
  jk_E :: string

definition no_key :: jsonWebKey where
  "no_key = \<lparr>jk_Kty = '''', jk_Kid = '''', jk_Use = '''', jk_Alg = '''', jk_N = '''', jk_E = ''''\<rparr>"

definition key_spec :: "(string \<times> (json \<Rightarrow> jsonWebKey \<Rightarrow> jsonWebKey option)) list" where
  "key_spec =
     [string_field ''kty'' jk_Kty (\<lambda>s x. x\<lparr>jk_Kty := s\<rparr>), string_field ''kid'' jk_Kid (\<lambda>s x. x\<lparr>jk_Kid := s\<rparr>),
      string_field ''use'' jk_Use (\<lambda>s x. x\<lparr>jk_Use := s\<rparr>), string_field ''alg'' jk_Alg (\<lambda>s x. x\<lparr>jk_Alg := s\<rparr>),
      string_field ''n'' jk_N (\<lambda>s x. x\<lparr>jk_N := s\<rparr>), string_field ''e'' jk_E (\<lambda>s x. x\<lparr>jk_E := s\<rparr>)]"

definition jwks_spec :: "(string \<times> (json \<Rightarrow> jsonWebKey list \<Rightarrow> jsonWebKey list option)) list" where
  "jwks_spec = [(''keys'', decode_slice (decode_lenient key_spec) no_key)]"

text \<open>\<open>big.Int.SetBytes\<close>.\<close>

definition big_endian :: "string \<Rightarrow> nat" where
  "big_endian s = foldl (\<lambda>n c. n * 256 + of_char c) 0 s"

definition jsonWebKey_public :: "jsonWebKey \<Rightarrow> rsaKey option" where
  "jsonWebKey_public k =
     (if jk_Kid k = '''' \<or> (jk_Use k \<noteq> '''' \<and> jk_Use k \<noteq> ''sig'') then None
      else if jk_Kty k \<noteq> ''RSA'' then None
      else case b64_decode (jk_N k) of
        None \<Rightarrow> None
      | Some modulus \<Rightarrow>
          if modulus = '''' then None
          else case b64_decode (jk_E k) of
            None \<Rightarrow> None
          | Some exponent \<Rightarrow>
              if exponent = '''' \<or> 8 < length exponent then None
              else let e = word_of_int (int (big_endian exponent)) :: i64 in
                if e \<le>s 0 \<or> 2 ^ 31 <s e then None
                else Some \<lparr>rk_N = big_endian modulus, rk_E = e\<rparr>)"

definition maxJWKSBytes :: nat where
  "maxJWKSBytes = 2 ^ 20"

definition jwks_document :: "string \<Rightarrow> jsonWebKey list option" where
  "jwks_document body =
     Option.bind (json_decode (take maxJWKSBytes body)) (\<lambda>(v, _). decode_lenient jwks_spec v [])"

text \<open>The usable keys by id; of two with the same id the later one is kept.\<close>

fun usable_keys :: "jsonWebKey list \<Rightarrow> (string \<times> rsaKey) list \<Rightarrow> (string \<times> rsaKey) list" where
  "usable_keys [] acc = acc"
| "usable_keys (k # ks) acc =
     usable_keys ks (case jsonWebKey_public k of None \<Rightarrow> acc | Some public \<Rightarrow> AList.update (jk_Kid k) public acc)"

section \<open>The key set\<close>

definition minRefreshInterval :: duration where
  "minRefreshInterval = 5 * 1000000000"

text \<open>The last two fields count the readings of the clock and the requests sent.\<close>

record keySet =
  ks_uri :: string
  ks_ttl :: duration
  ks_keys :: "(string \<times> rsaKey) list option"
  ks_fetchedAt :: gotime
  ks_readings :: nat
  ks_requests :: nat

definition newKeySet :: "string \<Rightarrow> duration \<Rightarrow> keySet" where
  "newKeySet uri ttl =
     \<lparr>ks_uri = uri, ks_ttl = ttl, ks_keys = None, ks_fetchedAt = time_zero, ks_readings = 0, ks_requests = 0\<rparr>"

definition keySet_now :: "issuer_env \<Rightarrow> keySet \<Rightarrow> gotime \<times> keySet" where
  "keySet_now E k = (ie_now E (ks_readings k), k\<lparr>ks_readings := Suc (ks_readings k)\<rparr>)"

definition keySet_fetch :: "issuer_env \<Rightarrow> keySet \<Rightarrow> unit res \<times> keySet" where
  "keySet_fetch E k =
     (let response = ie_get E (ks_requests k) (ks_uri k); k = k\<lparr>ks_requests := Suc (ks_requests k)\<rparr> in
      case response of
        Unreachable \<Rightarrow> (Inl (Wrapped (OtherErr ''fetching the jwks'')), k)
      | Answered status body \<Rightarrow>
          if status \<noteq> 200 then (Inl (OtherErr ''fetching the jwks''), k)
          else case jwks_document body of
            None \<Rightarrow> (Inl (Wrapped (OtherErr ''decoding the jwks'')), k)
          | Some document \<Rightarrow>
              let keys = usable_keys document [] in
              if keys = [] then (Inl (OtherErr ''no usable signing key''), k)
              else case keySet_now E k of (t, k) \<Rightarrow> (Inr (), k\<lparr>ks_keys := Some keys, ks_fetchedAt := t\<rparr>))"

text \<open>How old the keys are, as far as the clock is asked.\<close>

definition keySet_aged :: "issuer_env \<Rightarrow> duration \<Rightarrow> keySet \<Rightarrow> bool \<times> keySet" where
  "keySet_aged E limit k = (case keySet_now E k of (t, k) \<Rightarrow> (limit \<le>s time_Sub t (ks_fetchedAt k), k))"

definition keySet_lookup :: "keySet \<Rightarrow> string \<Rightarrow> rsaKey option" where
  "keySet_lookup k kid = (case ks_keys k of None \<Rightarrow> None | Some keys \<Rightarrow> map_of keys kid)"

definition no_such_key :: goerror where
  "no_such_key = OtherErr ''no signing key with this id''"

definition keySet_rotate :: "issuer_env \<Rightarrow> string \<Rightarrow> keySet \<Rightarrow> rsaKey res \<times> keySet" where
  "keySet_rotate E kid k =
     (case keySet_aged E minRefreshInterval k of
        (False, k) \<Rightarrow> (Inl no_such_key, k)
      | (True, k) \<Rightarrow>
          (case keySet_fetch E k of
             (Inl e, k) \<Rightarrow> (Inl e, k)
           | (Inr _, k) \<Rightarrow>
               (case keySet_lookup k kid of Some key \<Rightarrow> (Inr key, k) | None \<Rightarrow> (Inl no_such_key, k))))"

definition keySet_refresh :: "issuer_env \<Rightarrow> keySet \<Rightarrow> unit res \<times> keySet" where
  "keySet_refresh E k =
     (case (if ks_keys k = None then (True, k) else keySet_aged E (ks_ttl k) k) of
        (True, k) \<Rightarrow> keySet_fetch E k
      | (False, k) \<Rightarrow> (Inr (), k))"

definition keySet_key :: "issuer_env \<Rightarrow> string \<Rightarrow> keySet \<Rightarrow> rsaKey res \<times> keySet" where
  "keySet_key E kid k =
     (case keySet_refresh E k of
        (Inl e, k) \<Rightarrow>
          if ks_keys k = None then (Inl e, k)
          else (case keySet_lookup k kid of Some key \<Rightarrow> (Inr key, k) | None \<Rightarrow> (Inl e, k))
      | (Inr _, k) \<Rightarrow>
          (case keySet_lookup k kid of Some key \<Rightarrow> (Inr key, k) | None \<Rightarrow> keySet_rotate E kid k))"

section \<open>Discovery\<close>

record discovery =
  ds_Issuer :: string
  ds_JWKSURI :: string

definition discovery_spec :: "(string \<times> (json \<Rightarrow> discovery \<Rightarrow> discovery option)) list" where
  "discovery_spec =
     [string_field ''issuer'' ds_Issuer (\<lambda>s x. x\<lparr>ds_Issuer := s\<rparr>),
      string_field ''jwks_uri'' ds_JWKSURI (\<lambda>s x. x\<lparr>ds_JWKSURI := s\<rparr>)]"

definition maxDiscoveryBytes :: nat where
  "maxDiscoveryBytes = 2 ^ 20"

definition discovery_document :: "string \<Rightarrow> discovery option" where
  "discovery_document body =
     Option.bind (json_decode (take maxDiscoveryBytes body)) (\<lambda>(v, _).
       decode_lenient discovery_spec v \<lparr>ds_Issuer = '''', ds_JWKSURI = ''''\<rparr>)"

text \<open>\<open>strings.TrimSuffix(s, "/")\<close>.\<close>

definition trim_slash :: "string \<Rightarrow> string" where
  "trim_slash s = (if s \<noteq> '''' \<and> last s = CHR ''/'' then butlast s else s)"

definition discovery_url :: "string \<Rightarrow> string" where
  "discovery_url issuer = issuer @ ''/.well-known/openid-configuration''"

definition discover :: "(string \<Rightarrow> fetched) \<Rightarrow> string \<Rightarrow> string res" where
  "discover get issuer =
     (case get (discovery_url issuer) of
        Unreachable \<Rightarrow> Inl (Wrapped (OtherErr ''reaching the identity provider''))
      | Answered status body \<Rightarrow>
          if status \<noteq> 200 then Inl (OtherErr ''the identity provider answered'')
          else case discovery_document body of
            None \<Rightarrow> Inl (Wrapped (OtherErr ''decoding the discovery document''))
          | Some document \<Rightarrow>
              if trim_slash (ds_Issuer document) \<noteq> issuer then Inl (OtherErr ''the discovery document claims another issuer'')
              else if ds_JWKSURI document = '''' then Inl (OtherErr ''the discovery document has no jwks_uri'')
              else Inr (ds_JWKSURI document))"

section \<open>The verifier\<close>

record Config =
  cf_IssuerURL :: string
  cf_Audience :: string
  cf_ProviderClaim :: string
  cf_CacheTTL :: duration
  cf_Leeway :: duration

definition DefaultProviderClaim :: string where "DefaultProviderClaim = ''provider_id''"
definition DefaultLeeway :: duration where "DefaultLeeway = 30 * 1000000000"
definition DefaultCacheTTL :: duration where "DefaultCacheTTL = 5 * 60 * 1000000000"

definition signingMethods :: "string list" where
  "signingMethods = [''RS256'', ''RS384'', ''RS512'', ''PS256'', ''PS384'', ''PS512'']"

record Verifier =
  vf_issuer :: string
  vf_providerClaim :: string
  vf_keys :: keySet
  vf_options :: parser_options

text \<open>The first argument is what the client gets when the verifier is built.\<close>

definition New :: "(string \<Rightarrow> fetched) \<Rightarrow> Config \<Rightarrow> Verifier res" where
  "New get cfg =
     (if cf_IssuerURL cfg = '''' then Inl (OtherErr ''the oidc issuer url is required'')
      else if cf_Audience cfg = '''' then Inl (OtherErr ''the oidc audience is required'')
      else let issuer = trim_slash (cf_IssuerURL cfg) in
        andThen (discover get issuer) (\<lambda>jwksURI.
          let providerClaim = (if cf_ProviderClaim cfg = '''' then DefaultProviderClaim else cf_ProviderClaim cfg);
              ttl = (if cf_CacheTTL cfg \<le>s 0 then DefaultCacheTTL else cf_CacheTTL cfg);
              leeway = (if cf_Leeway cfg \<le>s 0 then DefaultLeeway else cf_Leeway cfg) in
          Inr \<lparr>vf_issuer = issuer, vf_providerClaim = providerClaim, vf_keys = newKeySet jwksURI ttl,
               vf_options = \<lparr>po_methods = signingMethods, po_issuer = issuer, po_audience = cf_Audience cfg,
                             po_expirationRequired = True, po_leeway = leeway\<rparr>\<rparr>))"

definition stringClaim :: "claims \<Rightarrow> string \<Rightarrow> string option" where
  "stringClaim cl name =
     (case cl name of
        None \<Rightarrow> Some ''''
      | Some JNull \<Rightarrow> Some ''''
      | Some (JString raw) \<Rightarrow> Some (unquote raw)
      | Some _ \<Rightarrow> None)"

text \<open>\<open>strings.Fields\<close>: the maximal runs without white space.\<close>

function fields_from :: "string \<Rightarrow> string \<Rightarrow> string list" where
  "fields_from word s =
     (let ready = (if word = '''' then [] else [word]) in
      case strip_rune s of
        Some rest \<Rightarrow> ready @ fields_from '''' rest
      | None \<Rightarrow> (case s of [] \<Rightarrow> ready | c # cs \<Rightarrow> fields_from (word @ [c]) cs))"
  by pat_completeness auto
termination by (relation "measure (\<lambda>(_, s). length s)") (auto dest: strip_rune_shorter)

declare fields_from.simps [simp del]

definition Fields :: "string \<Rightarrow> string list" where
  "Fields s = fields_from '''' s"

fun string_items :: "json list \<Rightarrow> string list" where
  "string_items [] = []"
| "string_items (JString raw # vs) = unquote raw # string_items vs"
| "string_items (_ # vs) = string_items vs"

definition scopesOf :: "claims \<Rightarrow> string list" where
  "scopesOf cl =
     (case cl ''scope'' of Some (JString raw) \<Rightarrow> Fields (unquote raw) | _ \<Rightarrow> []) @
     (case cl ''scp'' of Some (JArray vs) \<Rightarrow> string_items vs | _ \<Rightarrow> [])"

definition header_kid :: "(string \<Rightarrow> json option) \<Rightarrow> string" where
  "header_kid h = (case h ''kid'' of Some (JString raw) \<Rightarrow> unquote raw | _ \<Rightarrow> '''')"

definition Verifier_key :: "issuer_env \<Rightarrow> (string \<Rightarrow> json option) \<Rightarrow> keySet \<Rightarrow> rsaKey res \<times> keySet" where
  "Verifier_key E h k =
     (if header_kid h = '''' then (Inl (OtherErr ''the token header has no key id''), k)
      else keySet_key E (header_kid h) k)"

text \<open>\<open>ParseWithClaims\<close>: the header, then the key function, then the check. The number is the time of the check.\<close>

definition ParseWithClaims ::
  "jwt_parser \<Rightarrow> issuer_env \<Rightarrow> parser_options \<Rightarrow> nat \<Rightarrow> string \<Rightarrow> keySet \<Rightarrow> claims option \<times> keySet" where
  "ParseWithClaims P E opts now raw k =
     (case jp_header P opts raw of
        None \<Rightarrow> (None, k)
      | Some h \<Rightarrow>
          (case Verifier_key E h k of
             (Inl e, k) \<Rightarrow> (None, k)
           | (Inr key, k) \<Rightarrow> (jp_check P opts now raw key, k)))"

definition identity_of :: "jwt_parser \<Rightarrow> Verifier \<Rightarrow> claims \<Rightarrow> Identity res" where
  "identity_of P v cl =
     (case jp_subject P cl of
        None \<Rightarrow> Inl (Wrapped ErrUnauthenticated)
      | Some subject \<Rightarrow>
          (case stringClaim cl (vf_providerClaim v) of
             None \<Rightarrow> Inl (Wrapped ErrUnauthenticated)
           | Some providerID \<Rightarrow>
               NewIdentity \<lparr>ip_subject = subject, ip_providerID = providerID, ip_scopes = scopesOf cl\<rparr>))"

definition Verify :: "jwt_parser \<Rightarrow> issuer_env \<Rightarrow> nat \<Rightarrow> string \<Rightarrow> Verifier \<Rightarrow> Identity res \<times> Verifier" where
  "Verify P E now raw v =
     (case ParseWithClaims P E (vf_options v) now raw (vf_keys v) of
        (None, k) \<Rightarrow> (Inl (Wrapped ErrUnauthenticated), v\<lparr>vf_keys := k\<rparr>)
      | (Some cl, k) \<Rightarrow> (identity_of P v cl, v\<lparr>vf_keys := k\<rparr>))"


section \<open>Which keys are handed out\<close>

lemma usable_key_source:
  "map_of (usable_keys doc acc) kid = Some key \<Longrightarrow>
     map_of acc kid = Some key \<or> (\<exists>w\<in>set doc. jk_Kid w = kid \<and> jsonWebKey_public w = Some key)"
  by (induction doc arbitrary: acc) (fastforce simp: AList.update_conv' split: option.splits if_splits)+

lemma public_usable:
  "jsonWebKey_public w = Some key \<Longrightarrow> jk_Kid w \<noteq> '''' \<and> jk_Kty w = ''RSA'' \<and> jk_Use w \<in> {'''', ''sig''}"
  by (auto simp: jsonWebKey_public_def split: if_splits)

text \<open>The usable keys of a document the issuer served.\<close>

definition served :: "issuer_env \<Rightarrow> string \<Rightarrow> (string \<times> rsaKey) list \<Rightarrow> bool" where
  "served E uri keys \<longleftrightarrow>
     (\<exists>n body doc. ie_get E n uri = Answered 200 body \<and> jwks_document body = Some doc \<and> keys = usable_keys doc [])"

definition keySet_ok :: "issuer_env \<Rightarrow> keySet \<Rightarrow> bool" where
  "keySet_ok E k \<longleftrightarrow> (\<forall>keys. ks_keys k = Some keys \<longrightarrow> served E (ks_uri k) keys)"

lemma fetch_ok:
  assumes "keySet_fetch E k = (r, k')" "keySet_ok E k"
  shows "keySet_ok E k'" "ks_uri k' = ks_uri k" "ks_ttl k' = ks_ttl k" "ks_requests k' = Suc (ks_requests k)"
  using assms by (auto simp: keySet_fetch_def keySet_now_def keySet_ok_def served_def Let_def
      split: fetched.splits if_splits option.splits) blast

lemma aged_same:
  assumes "keySet_aged E l k = (a, k')"
  shows "k' = k\<lparr>ks_readings := Suc (ks_readings k)\<rparr>"
    "a = (l \<le>s time_Sub (ie_now E (ks_readings k)) (ks_fetchedAt k))"
  using assms by (auto simp: keySet_aged_def keySet_now_def)

lemma keySet_ok_readings [simp]: "keySet_ok E (k\<lparr>ks_readings := n\<rparr>) = keySet_ok E k"
  by (simp add: keySet_ok_def)

lemma refresh_ok:
  assumes "keySet_refresh E k = (r, k')" "keySet_ok E k"
  shows "keySet_ok E k' \<and> ks_uri k' = ks_uri k \<and> ks_ttl k' = ks_ttl k"
proof -
  obtain a k1 where a: "(if ks_keys k = None then (True, k) else keySet_aged E (ks_ttl k) k) = (a, k1)" by (metis surj_pair)
  then have k1: "keySet_ok E k1" "ks_uri k1 = ks_uri k" "ks_ttl k1 = ks_ttl k"
    using assms(2) aged_same(1) [of E "ks_ttl k" k a k1] by (auto split: if_splits)
  then show ?thesis using assms(1) a fetch_ok [of E k1 r k'] by (cases a) (auto simp: keySet_refresh_def)
qed

lemma rotate_ok:
  assumes "keySet_rotate E kid k = (r, k')" "keySet_ok E k"
  shows "keySet_ok E k' \<and> ks_uri k' = ks_uri k \<and> ks_ttl k' = ks_ttl k \<and> (\<forall>key. r = Inr key \<longrightarrow> keySet_lookup k' kid = Some key)"
proof -
  obtain a k1 where a: "keySet_aged E minRefreshInterval k = (a, k1)" by (metis surj_pair)
  then have k1: "keySet_ok E k1" "ks_uri k1 = ks_uri k" "ks_ttl k1 = ks_ttl k" using assms(2) aged_same(1) [OF a] by auto
  obtain f k2 where f: "keySet_fetch E k1 = (f, k2)" by (metis surj_pair)
  show ?thesis
    using assms(1) a k1 f fetch_ok [OF f k1(1)] by (auto simp: keySet_rotate_def split: bool.splits sum.splits option.splits)
qed

lemma key_ok:
  assumes "keySet_key E kid k = (r, k')" "keySet_ok E k"
  shows "keySet_ok E k' \<and> ks_uri k' = ks_uri k \<and> ks_ttl k' = ks_ttl k \<and> (\<forall>key. r = Inr key \<longrightarrow> keySet_lookup k' kid = Some key)"
proof -
  obtain q k1 where q: "keySet_refresh E k = (q, k1)" by (metis surj_pair)
  note k1 = refresh_ok [OF q assms(2)]
  show ?thesis
    using assms(1) q k1 rotate_ok [of E kid k1 r k']
    by (auto simp: keySet_key_def split: sum.splits option.splits if_splits)
qed

lemma lookup_source:
  assumes "keySet_lookup k kid = Some key" "keySet_ok E k"
  shows "\<exists>n body doc. ie_get E n (ks_uri k) = Answered 200 body \<and> jwks_document body = Some doc
    \<and> (\<exists>w\<in>set doc. jk_Kid w = kid \<and> jsonWebKey_public w = Some key)"
proof -
  obtain keys where keys: "ks_keys k = Some keys" "map_of keys kid = Some key"
    using assms(1) by (auto simp: keySet_lookup_def split: option.splits)
  then obtain n body doc where "ie_get E n (ks_uri k) = Answered 200 body" "jwks_document body = Some doc" "keys = usable_keys doc []"
    using assms(2) by (auto simp: keySet_ok_def served_def)
  moreover have "\<exists>w\<in>set doc. jk_Kid w = kid \<and> jsonWebKey_public w = Some key"
    using usable_key_source [of doc "[]" kid key] keys(2) calculation(3) by simp
  ultimately show ?thesis by blast
qed

section \<open>What a verified token proves\<close>

inductive verifier_reach :: "jwt_parser \<Rightarrow> issuer_env \<Rightarrow> (string \<Rightarrow> fetched) \<Rightarrow> Config \<Rightarrow> Verifier \<Rightarrow> bool"
  for P :: jwt_parser and E :: issuer_env and get :: "string \<Rightarrow> fetched" and cfg :: Config where
  built: "New get cfg = Inr v \<Longrightarrow> verifier_reach P E get cfg v"
| verified: "verifier_reach P E get cfg v \<Longrightarrow> Verify P E now raw v = (r, v') \<Longrightarrow> verifier_reach P E get cfg v'"

definition verifier_ok :: "issuer_env \<Rightarrow> (string \<Rightarrow> fetched) \<Rightarrow> Config \<Rightarrow> Verifier \<Rightarrow> bool" where
  "verifier_ok E get cfg v \<longleftrightarrow>
     keySet_ok E (vf_keys v) \<and> cf_Audience cfg \<noteq> ''''
     \<and> discover get (trim_slash (cf_IssuerURL cfg)) = Inr (ks_uri (vf_keys v))
     \<and> po_methods (vf_options v) = signingMethods \<and> po_issuer (vf_options v) = trim_slash (cf_IssuerURL cfg)
     \<and> po_audience (vf_options v) = cf_Audience cfg \<and> po_expirationRequired (vf_options v)
     \<and> 0 <s po_leeway (vf_options v)"

lemma New_ok: "New get cfg = Inr v \<Longrightarrow> verifier_ok E get cfg v"
  by (auto simp: New_def verifier_ok_def andThen_Inr_iff Let_def newKeySet_def keySet_ok_def DefaultLeeway_def word_sless_alt
      word_sle_eq split: if_splits)

lemma ParseWithClaims_ok:
  assumes "ParseWithClaims P E opts now raw k = (c, k')" "keySet_ok E k"
  shows "keySet_ok E k' \<and> ks_uri k' = ks_uri k \<and> (\<forall>cl. c = Some cl \<longrightarrow>
    (\<exists>h key. jp_header P opts raw = Some h \<and> keySet_lookup k' (header_kid h) = Some key \<and> jp_check P opts now raw key = Some cl))"
proof (cases "jp_header P opts raw")
  case (Some h)
  obtain q k1 where q: "keySet_key E (header_kid h) k = (q, k1)" by (metis surj_pair)
  show ?thesis
    using assms Some q key_ok [OF q assms(2)]
    by (auto simp: ParseWithClaims_def Verifier_key_def split: if_splits sum.splits)
qed (use assms in \<open>simp add: ParseWithClaims_def\<close>)

lemma Verify_ok:
  assumes "Verify P E now raw v = (r, v')" "verifier_ok E get cfg v"
  shows "verifier_ok E get cfg v'"
proof -
  obtain c k where c: "ParseWithClaims P E (vf_options v) now raw (vf_keys v) = (c, k)" by (metis surj_pair)
  then have "v' = v\<lparr>vf_keys := k\<rparr>" using assms(1) by (auto simp: Verify_def split: option.splits)
  then show ?thesis using ParseWithClaims_ok [OF c] assms(2) by (simp add: verifier_ok_def)
qed

lemma reach_ok: "verifier_reach P E get cfg v \<Longrightarrow> verifier_ok E get cfg v"
  by (induction rule: verifier_reach.induct) (auto intro: New_ok Verify_ok)

lemma identity_error:
  assumes "identity_of P v cl = Inl e"
  shows "errors_Is e ErrUnauthenticated \<and> as_domain e = None"
  using assms by (auto simp: identity_of_def NewIdentity_def andThen_Inl_iff split: option.splits sum.splits if_splits)

text \<open>
  C34. A caller is who the issuer says, or nobody. A verifier is only built for an issuer whose
  discovery document names it, and for a configured audience; from then on, whatever tokens it has
  seen and whatever the issuer answered in between, a token is accepted only after the library
  checked it with an RSA signing key that the issuer itself published, in a key set it served,
  under the very id the token names, restricted to the RSA algorithms, this issuer and audience,
  and with an expiry required; the identity is the one of its claims. Every failure, of whatever
  cause, is the error of a caller that is not authenticated.
\<close>

theorem verified_callers:
  assumes "verifier_reach P E get cfg v" "Verify P E now raw v = (r, v')"
  shows "case r of
      Inl e \<Rightarrow> errors_Is e ErrUnauthenticated \<and> as_domain e = None
    | Inr i \<Rightarrow> \<exists>h uri n body doc w key opts cl.
        jp_header P opts raw = Some h \<and> discover get (trim_slash (cf_IssuerURL cfg)) = Inr uri
        \<and> ie_get E n uri = Answered 200 body \<and> jwks_document body = Some doc \<and> w \<in> set doc
        \<and> jk_Kid w = header_kid h \<and> jk_Kid w \<noteq> '''' \<and> jk_Kty w = ''RSA'' \<and> jk_Use w \<in> {'''', ''sig''}
        \<and> jsonWebKey_public w = Some key \<and> jp_check P opts now raw key = Some cl \<and> identity_of P v cl = Inr i
        \<and> po_methods opts = signingMethods \<and> po_issuer opts = trim_slash (cf_IssuerURL cfg)
        \<and> po_audience opts = cf_Audience cfg \<and> cf_Audience cfg \<noteq> '''' \<and> po_expirationRequired opts"
proof -
  note ok = reach_ok [OF assms(1), unfolded verifier_ok_def]
  obtain c k where c: "ParseWithClaims P E (vf_options v) now raw (vf_keys v) = (c, k)" by (metis surj_pair)
  show ?thesis
  proof (cases c)
    case None
    then show ?thesis using assms(2) c by (auto simp: Verify_def)
  next
    case (Some cl)
    have r: "r = identity_of P v cl" using assms(2) c Some by (simp add: Verify_def)
    show ?thesis
    proof (cases r)
      case (Inl e)
      then show ?thesis using r identity_error [of P v cl e] by simp
    next
      case (Inr i)
      obtain h key where h: "jp_header P (vf_options v) raw = Some h" "keySet_lookup k (header_kid h) = Some key"
        "jp_check P (vf_options v) now raw key = Some cl" "keySet_ok E k" "ks_uri k = ks_uri (vf_keys v)"
        using ParseWithClaims_ok [OF c] ok Some by auto
      obtain n body doc w where "ie_get E n (ks_uri (vf_keys v)) = Answered 200 body" "jwks_document body = Some doc"
        "w \<in> set doc" "jk_Kid w = header_kid h" "jsonWebKey_public w = Some key"
        using lookup_source [OF h(2,4)] h(5) by auto
      then show ?thesis
        unfolding Inr sum.case using ok h(1,3) r Inr public_usable [of w key] by blast
    qed
  qed
qed


section \<open>How often the issuer is asked\<close>

fun keySet_run :: "issuer_env \<Rightarrow> string list \<Rightarrow> keySet \<Rightarrow> keySet" where
  "keySet_run E [] k = k"
| "keySet_run E (kid # kids) k = keySet_run E kids (snd (keySet_key E kid k))"

definition clock_monotone :: "issuer_env \<Rightarrow> bool" where
  "clock_monotone E \<longleftrightarrow> (\<forall>n m. n \<le> m \<longrightarrow> instant (ie_now E n) \<le> instant (ie_now E m))"

definition issuer_serves :: "issuer_env \<Rightarrow> string \<Rightarrow> bool" where
  "issuer_serves E uri \<longleftrightarrow>
     (\<forall>n. \<exists>body doc. ie_get E n uri = Answered 200 body \<and> jwks_document body = Some doc \<and> usable_keys doc [] \<noteq> [])"

definition interval :: "duration \<Rightarrow> int" where
  "interval ttl = min (sint ttl) (sint minRefreshInterval)"

text \<open>Every request after the first was sent at least one interval after the one before it.\<close>

definition spaced :: "issuer_env \<Rightarrow> keySet \<Rightarrow> bool" where
  "spaced E k \<longleftrightarrow>
     (if ks_keys k = None then ks_requests k = 0
      else (\<exists>m<ks_readings k. ks_fetchedAt k = ie_now E m)
        \<and> (int (ks_requests k) - 1) * interval (ks_ttl k) \<le> instant (ks_fetchedAt k) - instant (ie_now E 0))"

lemma sub_spaced:
  assumes "l \<le>s time_Sub t u" "instant u \<le> instant t"
  shows "sint l \<le> instant t - instant u"
proof -
  define d where "d = instant t - instant u"
  have d: "0 \<le> d" using assms(2) by (simp add: d_def)
  show ?thesis
  proof (cases "d < 2 ^ 63")
    case True
    then have "time_Sub t u = word_of_int d" using d by (simp add: time_Sub_def Let_def flip: d_def)
    moreover have "fits64 d" using True d by (simp add: fits64_def)
    ultimately show ?thesis using assms(1) sint_of_int64 [of d] unfolding d_def [symmetric] by (simp add: word_sle_eq)
  next
    case False
    then show ?thesis using sint64_range [of l] unfolding d_def [symmetric] by simp
  qed
qed

lemma fetch_serves:
  assumes "issuer_serves E (ks_uri k)"
  shows "\<exists>keys. keySet_fetch E k = (Inr (), k\<lparr>ks_requests := Suc (ks_requests k), ks_readings := Suc (ks_readings k),
      ks_keys := Some keys, ks_fetchedAt := ie_now E (ks_readings k)\<rparr>)"
proof -
  obtain body doc where "ie_get E (ks_requests k) (ks_uri k) = Answered 200 body" "jwks_document body = Some doc"
    "usable_keys doc [] \<noteq> []"
    using assms unfolding issuer_serves_def by blast
  then show ?thesis
    by (intro exI [of _ "usable_keys doc []"]) (simp add: keySet_fetch_def keySet_now_def Let_def)
qed

lemma fetch_spaced:
  assumes "issuer_serves E (ks_uri k)" "clock_monotone E" "spaced E k"
    and due: "ks_keys k \<noteq> None \<Longrightarrow> \<exists>m<ks_readings k. interval (ks_ttl k) \<le> instant (ie_now E m) - instant (ks_fetchedAt k)"
  shows "spaced E (snd (keySet_fetch E k))"
proof -
  obtain keys where f: "snd (keySet_fetch E k) = k\<lparr>ks_requests := Suc (ks_requests k), ks_readings := Suc (ks_readings k),
      ks_keys := Some keys, ks_fetchedAt := ie_now E (ks_readings k)\<rparr>" using fetch_serves [OF assms(1)] by auto
  have mono: "instant (ie_now E n) \<le> instant (ie_now E (ks_readings k))" if "n \<le> ks_readings k" for n
    using assms(2) that by (simp add: clock_monotone_def)
  have "int (ks_requests k) * interval (ks_ttl k) \<le> instant (ie_now E (ks_readings k)) - instant (ie_now E 0)"
  proof (cases "ks_keys k = None")
    case True
    then show ?thesis using assms(3) mono [of 0] by (simp add: spaced_def)
  next
    case False
    then obtain m where "m < ks_readings k" "interval (ks_ttl k) \<le> instant (ie_now E m) - instant (ks_fetchedAt k)"
      using due by blast
    then show ?thesis using assms(3) False mono [of m] by (simp add: spaced_def algebra_simps)
  qed
  then show ?thesis unfolding f by (auto simp: spaced_def)
qed

lemma aged_spaced:
  assumes "keySet_aged E l k = (a, k')" "spaced E k" "ks_keys k \<noteq> None" "clock_monotone E" "interval (ks_ttl k) \<le> sint l"
  shows "spaced E k' \<and> ks_uri k' = ks_uri k \<and> ks_ttl k' = ks_ttl k \<and> ks_keys k' = ks_keys k
    \<and> (a \<longrightarrow> (\<exists>m<ks_readings k'. interval (ks_ttl k') \<le> instant (ie_now E m) - instant (ks_fetchedAt k')))"
proof -
  note k' = aged_same [OF assms(1)]
  obtain m where m: "m < ks_readings k" "ks_fetchedAt k = ie_now E m" using assms(2,3) by (auto simp: spaced_def)
  then have "instant (ks_fetchedAt k) \<le> instant (ie_now E (ks_readings k))"
    using assms(4) by (simp add: clock_monotone_def)
  then have "a \<Longrightarrow> interval (ks_ttl k) \<le> instant (ie_now E (ks_readings k)) - instant (ks_fetchedAt k)"
    using sub_spaced [of l "ie_now E (ks_readings k)" "ks_fetchedAt k"] k'(2) assms(5) by simp
  moreover have "spaced E k'" using assms(2,3) k'(1) by (auto simp: spaced_def intro: less_SucI)
  ultimately show ?thesis using k'(1) by auto
qed

lemma interval_le: "interval ttl \<le> sint ttl" "interval ttl \<le> sint minRefreshInterval"
  by (simp_all add: interval_def)

lemma key_spaced:
  assumes "issuer_serves E (ks_uri k)" "clock_monotone E" "spaced E k"
  shows "spaced E (snd (keySet_key E kid k)) \<and> ks_uri (snd (keySet_key E kid k)) = ks_uri k
    \<and> ks_ttl (snd (keySet_key E kid k)) = ks_ttl k"
proof -
  have refreshed: "\<exists>k1. keySet_refresh E k = (Inr (), k1) \<and> spaced E k1 \<and> ks_uri k1 = ks_uri k \<and> ks_ttl k1 = ks_ttl k \<and> ks_keys k1 \<noteq> None"
  proof (cases "ks_keys k = None")
    case True
    then show ?thesis
      using fetch_serves [OF assms(1)] fetch_spaced [OF assms] by (auto simp: keySet_refresh_def)
  next
    case False
    obtain a k1 where a: "keySet_aged E (ks_ttl k) k = (a, k1)" by (metis surj_pair)
    note s = aged_spaced [OF a assms(3) False assms(2) interval_le(1)]
    show ?thesis
    proof (cases a)
      case True
      have serves: "issuer_serves E (ks_uri k1)" using s assms(1) by simp
      obtain keys where f: "keySet_fetch E k1 = (Inr (), k1\<lparr>ks_requests := Suc (ks_requests k1), ks_readings := Suc (ks_readings k1),
          ks_keys := Some keys, ks_fetchedAt := ie_now E (ks_readings k1)\<rparr>)" using fetch_serves [OF serves] by blast
      have "spaced E (snd (keySet_fetch E k1))" using fetch_spaced [OF serves assms(2)] s True by blast
      then show ?thesis using a f s True False by (auto simp: keySet_refresh_def)
    qed (use s a False in \<open>auto simp: keySet_refresh_def\<close>)
  qed
  then obtain k1 where k1: "keySet_refresh E k = (Inr (), k1)" "spaced E k1" "ks_uri k1 = ks_uri k" "ks_ttl k1 = ks_ttl k"
    "ks_keys k1 \<noteq> None" by blast
  have "spaced E (snd (keySet_rotate E kid k1)) \<and> ks_uri (snd (keySet_rotate E kid k1)) = ks_uri k
      \<and> ks_ttl (snd (keySet_rotate E kid k1)) = ks_ttl k"
  proof -
    obtain a k2 where a: "keySet_aged E minRefreshInterval k1 = (a, k2)" by (metis surj_pair)
    note s = aged_spaced [OF a k1(2,5) assms(2) interval_le(2)]
    show ?thesis
    proof (cases a)
      case True
      have serves: "issuer_serves E (ks_uri k2)" using s k1(3) assms(1) by simp
      obtain keys where f: "keySet_fetch E k2 = (Inr (), k2\<lparr>ks_requests := Suc (ks_requests k2), ks_readings := Suc (ks_readings k2),
          ks_keys := Some keys, ks_fetchedAt := ie_now E (ks_readings k2)\<rparr>)" using fetch_serves [OF serves] by blast
      have "spaced E (snd (keySet_fetch E k2))" using fetch_spaced [OF serves assms(2)] s True by blast
      then show ?thesis using a f s k1 True by (auto simp: keySet_rotate_def split: option.splits)
    qed (use s a k1 in \<open>auto simp: keySet_rotate_def\<close>)
  qed
  then show ?thesis using k1 by (auto simp: keySet_key_def split: option.splits)
qed

lemma run_spaced:
  assumes "issuer_serves E (ks_uri k)" "clock_monotone E" "spaced E k"
  shows "spaced E (keySet_run E kids k) \<and> ks_ttl (keySet_run E kids k) = ks_ttl k"
  using assms
proof (induction kids arbitrary: k)
  case (Cons kid kids)
  then show ?case using key_spaced [OF Cons.prems, of kid] by simp
qed simp

text \<open>
  C35. The requests to a working issuer are bounded, whoever asks and for whatever key ids. Over any
  sequence of lookups, made-up ids included, the key set sends at most one request more than
  the number of intervals that have passed on the clock, the interval being five seconds, or the
  lifetime of the cache when that is shorter.
\<close>

theorem refresh_rate:
  assumes "issuer_serves E uri" "clock_monotone E" "0 <s ttl"
  shows "let k = keySet_run E kids (newKeySet uri ttl) in
    (int (ks_requests k) - 1) * min (sint ttl) (sint minRefreshInterval)
      \<le> instant (ie_now E (ks_readings k)) - instant (ie_now E 0)"
proof -
  let ?k = "keySet_run E kids (newKeySet uri ttl)"
  have start: "ks_uri (newKeySet uri ttl) = uri" "ks_ttl (newKeySet uri ttl) = ttl" "spaced E (newKeySet uri ttl)"
    by (simp_all add: newKeySet_def spaced_def)
  have s: "spaced E ?k" "ks_ttl ?k = ttl"
    using run_spaced [of E "newKeySet uri ttl" kids, OF _ assms(2) start(3)] assms(1) start(1,2) by simp_all
  have pos: "0 \<le> interval ttl" using assms(3) by (simp add: interval_def word_sless_alt minRefreshInterval_def)
  have mono: "n \<le> m \<Longrightarrow> instant (ie_now E n) \<le> instant (ie_now E m)" for n m
    using assms(2) by (simp add: clock_monotone_def)
  have "(int (ks_requests ?k) - 1) * interval ttl \<le> instant (ie_now E (ks_readings ?k)) - instant (ie_now E 0)"
  proof (cases "ks_keys ?k = None")
    case True
    then show ?thesis using s pos mono [of 0 "ks_readings ?k"] by (simp add: spaced_def)
  next
    case False
    then obtain m where m: "m < ks_readings ?k" "ks_fetchedAt ?k = ie_now E m" using s by (auto simp: spaced_def)
    then show ?thesis
      using s False mono [of m "ks_readings ?k"] by (simp add: spaced_def)
  qed
  then show ?thesis by (simp only: interval_def Let_def)
qed

text \<open>A request that fails does not count: with an issuer that is down, every lookup of an unknown id sends one more.\<close>

lemma failed_refresh_repeats:
  assumes "ks_keys k = Some keys" "map_of keys kid = None" "ie_get E (ks_requests k) (ks_uri k) = Unreachable"
    "\<not> ks_ttl k \<le>s time_Sub (ie_now E (ks_readings k)) (ks_fetchedAt k)"
    "minRefreshInterval \<le>s time_Sub (ie_now E (Suc (ks_readings k))) (ks_fetchedAt k)"
  shows "snd (keySet_key E kid k) = k\<lparr>ks_requests := Suc (ks_requests k), ks_readings := Suc (Suc (ks_readings k))\<rparr>"
  using assms
  by (simp add: keySet_key_def keySet_refresh_def keySet_rotate_def keySet_aged_def keySet_now_def keySet_lookup_def keySet_fetch_def)


section \<open>An instance\<close>

definition demo_discovery :: string where
  "demo_discovery = ''{\"issuer\":\"iss/\",\"jwks_uri\":\"jwks\",\"scopes_supported\":[]}''"

definition demo_jwks :: string where
  "demo_jwks = ''{\"keys\":[{\"kty\":\"RSA\",\"kid\":\"k1\",\"use\":\"sig\",\"n\":\"AQAB\",\"e\":\"AQAB\"}]}''"

definition demo_get :: "string \<Rightarrow> fetched" where
  "demo_get url = Answered 200 (if url = ''jwks'' then demo_jwks else demo_discovery)"

definition demo_issuer :: issuer_env where
  "demo_issuer = \<lparr>ie_get = (\<lambda>_. demo_get), ie_now = (\<lambda>n. \<lparr>instant = int n * 1000000000, loc = LocUTC\<rparr>)\<rparr>"

definition demo_jwt :: jwt_parser where
  "demo_jwt =
     \<lparr>jp_header = (\<lambda>_ raw. if raw = ''tok'' then Some [''kid'' \<mapsto> JString ''k1''] else None),
      jp_check = (\<lambda>_ _ raw key. if rk_E key = 65537 then Some [''sub'' \<mapsto> JString ''client''] else None),
      jp_subject = (\<lambda>cl. stringClaim cl ''sub'')\<rparr>"

definition demo_config :: Config where
  "demo_config = \<lparr>cf_IssuerURL = ''iss'', cf_Audience = ''wagering'', cf_ProviderClaim = '''', cf_CacheTTL = 0, cf_Leeway = 0\<rparr>"

definition demo_jwk :: jsonWebKey where
  "demo_jwk = \<lparr>jk_Kty = ''RSA'', jk_Kid = ''k1'', jk_Use = ''sig'', jk_Alg = '''', jk_N = ''AQAB'', jk_E = ''AQAB''\<rparr>"

lemma demo_document: "jwks_document demo_jwks = Some [demo_jwk]"
proof -
  have "json_decode (take maxJWKSBytes demo_jwks) = Some (JObject [(''keys'', JArray [JObject [(''kty'', JString ''RSA''),
     (''kid'', JString ''k1''), (''use'', JString ''sig''), (''n'', JString ''AQAB''), (''e'', JString ''AQAB'')]])], '''')"
  proof -
    have "take maxJWKSBytes demo_jwks = demo_jwks" by (simp add: maxJWKSBytes_def demo_jwks_def)
    moreover have "json_decode demo_jwks = Some (JObject [(''keys'', JArray [JObject [(''kty'', JString ''RSA''),
     (''kid'', JString ''k1''), (''use'', JString ''sig''), (''n'', JString ''AQAB''), (''e'', JString ''AQAB'')]])], '''')"
      by code_simp
    ultimately show ?thesis by simp
  qed
  then show ?thesis
    by (simp add: jwks_document_def decode_lenient_def jwks_spec_def decode_slice_def key_spec_def string_field_def names_field_def
        unquote_plain fold_name_plain decode_string_def no_key_def demo_jwk_def)
qed

lemma demo_public: "jsonWebKey_public demo_jwk = Some \<lparr>rk_N = 65537, rk_E = 65537\<rparr>"
proof -
  have "b64_encode [char_of (1 :: nat), char_of (0 :: nat), char_of (1 :: nat)] = ''AQAB''" by code_simp
  then have b: "b64_decode ''AQAB'' = Some [char_of (1 :: nat), char_of (0 :: nat), char_of (1 :: nat)]"
    using b64_roundtrip by metis
  have n: "big_endian [char_of (1 :: nat), char_of (0 :: nat), char_of (1 :: nat)] = 65537" by (simp add: big_endian_def)
  show ?thesis using b n by (simp add: jsonWebKey_public_def demo_jwk_def Let_def word_sle_eq word_sless_alt)
qed

lemma demo_serves: "issuer_serves demo_issuer ''jwks''"
  using demo_document demo_public by (simp add: issuer_serves_def demo_issuer_def demo_get_def)

lemma demo_discover: "discover demo_get ''iss'' = Inr ''jwks''"
proof -
  have "take maxDiscoveryBytes demo_discovery = demo_discovery" by (simp add: maxDiscoveryBytes_def demo_discovery_def)
  moreover have "json_decode demo_discovery = Some (JObject [(''issuer'', JString ''iss/''), (''jwks_uri'', JString ''jwks''),
     (''scopes_supported'', JArray [])], '''')"
    by code_simp
  ultimately show ?thesis
    by (simp add: discover_def demo_get_def discovery_url_def discovery_document_def decode_lenient_def discovery_spec_def
        string_field_def names_field_def unquote_plain fold_name_plain decode_string_def trim_slash_def)
qed

definition demo_verifier :: Verifier where
  "demo_verifier =
     \<lparr>vf_issuer = ''iss'', vf_providerClaim = DefaultProviderClaim, vf_keys = newKeySet ''jwks'' DefaultCacheTTL,
      vf_options = \<lparr>po_methods = signingMethods, po_issuer = ''iss'', po_audience = ''wagering'',
                    po_expirationRequired = True, po_leeway = DefaultLeeway\<rparr>\<rparr>"

lemma demo_reach: "verifier_reach demo_jwt demo_issuer demo_get demo_config demo_verifier"
  using demo_discover
  by (intro verifier_reach.built)
    (simp add: New_def demo_config_def trim_slash_def demo_verifier_def Let_def word_sle_eq)

theorem verified_callers_witness:
  "\<exists>v'. Verify demo_jwt demo_issuer 0 ''tok'' demo_verifier =
      (Inr \<lparr>i_subject = ''client'', i_providerID = ident_zero, i_scopes = []\<rparr>, v')
    \<and> (\<exists>n body doc w. ie_get demo_issuer n ''jwks'' = Answered 200 body \<and> jwks_document body = Some doc \<and> w \<in> set doc \<and> jk_Kid w = ''k1'')"
proof -
  have key: "\<exists>k. keySet_key demo_issuer ''k1'' (newKeySet ''jwks'' DefaultCacheTTL) = (Inr \<lparr>rk_N = 65537, rk_E = 65537\<rparr>, k)"
    using demo_document demo_public
    by (simp add: keySet_key_def keySet_refresh_def newKeySet_def keySet_fetch_def demo_issuer_def demo_get_def keySet_now_def
        keySet_lookup_def Let_def) (simp add: demo_jwk_def)
  have kid: "header_kid [''kid'' \<mapsto> JString ''k1''] = ''k1''" by (simp add: header_kid_def unquote_plain)
  have "\<exists>v'. Verify demo_jwt demo_issuer 0 ''tok'' demo_verifier =
      (Inr \<lparr>i_subject = ''client'', i_providerID = ident_zero, i_scopes = []\<rparr>, v')"
    using key kid
    by (auto simp: Verify_def ParseWithClaims_def Verifier_key_def demo_jwt_def demo_verifier_def identity_of_def stringClaim_def
        DefaultProviderClaim_def unquote_plain scopesOf_def NewIdentity_def andThen_def)
  then obtain v' where v': "Verify demo_jwt demo_issuer 0 ''tok'' demo_verifier =
      (Inr \<lparr>i_subject = ''client'', i_providerID = ident_zero, i_scopes = []\<rparr>, v')" by blast
  from verified_callers [OF demo_reach v'] show ?thesis
    using v' demo_discover kid
    by (auto simp: demo_config_def trim_slash_def demo_jwt_def split: if_splits)
qed

theorem refresh_rate_witness:
  "let k = keySet_run demo_issuer [''k1'', ''k2'', ''k3''] (newKeySet ''jwks'' DefaultCacheTTL) in
    (int (ks_requests k) - 1) * min (sint DefaultCacheTTL) (sint minRefreshInterval) \<le> int (ks_readings k) * 1000000000"
proof -
  have "clock_monotone demo_issuer" by (simp add: clock_monotone_def demo_issuer_def)
  moreover have "0 <s DefaultCacheTTL" by (simp add: DefaultCacheTTL_def word_sless_alt)
  ultimately show ?thesis
    using refresh_rate [OF demo_serves, of DefaultCacheTTL "[''k1'', ''k2'', ''k3'']"] by (simp add: demo_issuer_def Let_def)
qed

end
