(* ===== verification/Frame.thy ===== *)
theory Frame
  imports Open_Wallet Reference_Worker Publisher Delivery
begin

text \<open>
  What the operations leave standing. \<open>keeps R m\<close> says that whatever \<open>m\<close> does, and however it
  ends, the stored data before and after are related by \<open>R\<close>. Three locales collect the laws a
  relation needs: \<open>frame\<close> for the unit of work, \<open>financial_frame\<close> for the statements of the use
  cases, \<open>store_frame\<close> for every statement of the program; inside them each operation is shown
  to keep \<open>R\<close>, once. They are interpreted on \<open>history\<close>, the relation between an earlier and a
  later state of the database, and on the equality of the inbox.
\<close>

section \<open>Computations\<close>

definition keeps :: "(database \<Rightarrow> database \<Rightarrow> bool) \<Rightarrow> 'a pgio \<Rightarrow> bool" where
  "keeps R m \<longleftrightarrow> (\<forall>w. R (db w) (db (snd (m w))))"

definition keeps_body :: "(database \<Rightarrow> database \<Rightarrow> bool) \<Rightarrow> 'v callback \<Rightarrow> bool" where
  "keeps_body R fn \<longleftrightarrow> (\<forall>c v w. R (db w) (db (snd (snd (fn c v w)))))"

lemma keepsD: "keeps R m \<Longrightarrow> m w = (r, w') \<Longrightarrow> R (db w) (db w')"
  unfolding keeps_def by (metis snd_conv)

lemma keeps_option: "(x = None \<Longrightarrow> keeps R m) \<Longrightarrow> (\<And>y. x = Some y \<Longrightarrow> keeps R (f y)) \<Longrightarrow>
   keeps R (case x of None \<Rightarrow> m | Some y \<Rightarrow> f y)"
  by (cases x) auto

lemma keeps_sum: "(\<And>y. x = Inl y \<Longrightarrow> keeps R (f y)) \<Longrightarrow> (\<And>y. x = Inr y \<Longrightarrow> keeps R (g y)) \<Longrightarrow>
   keeps R (case x of Inl y \<Rightarrow> f y | Inr y \<Rightarrow> g y)"
  by (cases x) auto

lemma keeps_prod: "(\<And>y z. x = (y, z) \<Longrightarrow> keeps R (f y z)) \<Longrightarrow> keeps R (case x of (y, z) \<Rightarrow> f y z)"
  by (cases x) auto

lemma keeps_list: "(x = [] \<Longrightarrow> keeps R m) \<Longrightarrow> (\<And>y ys. x = y # ys \<Longrightarrow> keeps R (f y ys)) \<Longrightarrow>
   keeps R (case x of [] \<Rightarrow> m | y # ys \<Rightarrow> f y ys)"
  by (cases x) auto

lemma keeps_if: "keeps R m \<Longrightarrow> keeps R m' \<Longrightarrow> keeps R (if p then m else m')"
  by simp

lemma keeps_resolution: "keeps R m \<Longrightarrow> (\<And>rc. keeps R (f rc)) \<Longrightarrow> (\<And>ref d. keeps R (g ref d)) \<Longrightarrow>
   keeps R (case x of ResolveWait \<Rightarrow> m | ResolveReject rc \<Rightarrow> f rc | ResolveApply ref d \<Rightarrow> g ref d)"
  by (cases x) auto

lemma keeps_kind: "keeps R a \<Longrightarrow> keeps R b \<Longrightarrow> keeps R c \<Longrightarrow>
   keeps R (case x of KindBet \<Rightarrow> a | KindWin \<Rightarrow> b | _ \<Rightarrow> c)"
  by (cases x) auto

lemmas keeps_cases = keeps_if keeps_option keeps_sum keeps_prod keeps_list keeps_resolution keeps_kind

section \<open>The unit of work\<close>

locale frame =
  fixes R :: "database \<Rightarrow> database \<Rightarrow> bool"
  assumes same_data_kept: "same_data d d' \<Longrightarrow> R d d'"
    and kept_trans: "R a b \<Longrightarrow> R b c \<Longrightarrow> R a c"
begin

lemma kept_refl: "R d d"
  by (rule same_data_kept) simp

lemma keeps_same: "(\<And>w r w'. m w = (r, w') \<Longrightarrow> same_world w w') \<Longrightarrow> keeps R m"
  unfolding keeps_def same_world_def by (metis kept_refl prod.collapse)

lemma keeps_pure: "keeps R (ret x)" "keeps R (throw e)" "keeps R (lift r)"
  by (rule keeps_same, simp add: ret_def throw_def lift_def)+

lemma keeps_bind: "keeps R m \<Longrightarrow> (\<And>x. keeps R (f x)) \<Longrightarrow> keeps R (bindE m f)"
  unfolding keeps_def bindE_def by (auto split: prod.splits sum.splits intro: kept_trans) (metis kept_trans snd_conv)+

lemma keeps_handle: "keeps R m \<Longrightarrow> (\<And>x. keeps R (f x)) \<Longrightarrow> keeps R (handle m f)"
  unfolding keeps_def handle_def by (auto split: prod.splits) (metis kept_trans snd_conv)

lemma keeps_wrap: "keeps R m \<Longrightarrow> keeps R (io_wrap m)"
  unfolding keeps_def io_wrap_def by (auto split: prod.splits sum.splits) (metis snd_conv)+

lemma keeps_stmt:
  assumes "\<And>n d. R d (snd (f n d))"
  shows "keeps R (io_translate (stmt \<Gamma> f))"
proof -
  have "R (db w) (db (snd (stmt \<Gamma> f w)))" for w :: "database world"
  proof (cases rule: stmt_exhaust [where w = w and \<Gamma> = \<Gamma> and f = f])
    case (failed e d)
    then show ?thesis using assms [where n = "calls w" and d = "db w"] by (simp add: stmt_cases)
  next
    case (ran x d)
    then show ?thesis using assms [where n = "calls w" and d = "db w"] by (simp add: stmt_cases)
  qed (simp_all add: stmt_cases kept_refl)
  then show ?thesis unfolding keeps_def io_translate_def by (auto split: prod.splits sum.splits) (metis snd_conv)+
qed

lemma keeps_query: "keeps R (io_translate (query \<Gamma> f))"
  unfolding query_def by (rule keeps_stmt) (simp add: kept_refl)

lemma keeps_outside: "keeps R (clock_Now \<Gamma>)" "keeps R (jitter \<Gamma> x)" "keeps R (ids_NewTransactionID \<Gamma> c)"
  "keeps R (ids_NewLedgerEntryID \<Gamma> c)" "keeps R (ids_NewEventID \<Gamma> c)"
  by (rule keeps_same, blast intro: clock_Now_same jitter_same ids_same)+

lemmas keeps_intros = keeps_pure keeps_bind keeps_handle keeps_wrap keeps_query keeps_outside keeps_cases

lemma keeps_assigning: "(\<And>c. keeps R (m c)) \<Longrightarrow> keeps_body R (assigning m zero)"
  unfolding keeps_def keeps_body_def assigning_def by (auto split: prod.splits sum.splits) (metis snd_conv)+

lemma keeps_do:
  assumes "keeps_body R fn" "UnitOfWork_Do \<Gamma> retry c fn v w = (r, v', w')" "idle w"
  shows "R (db w) (db w')"
proof -
  have "R (db w) (db w')" if once: "ran_once c fn (db w) v' (db w')"
  proof -
    obtain v0 w1 w2 where o: "same_data (db w) (db w1)" "fn (c\<lparr>c_insideUnitOfWork := True\<rparr>) v0 w1 = (Inr (), v', w2)"
      "db w' = db w2"
      using once by (auto simp: ran_once_def)
    then have "R (db w1) (db w2)" using assms(1) unfolding keeps_body_def by (metis snd_conv)
    then show ?thesis using o same_data_kept kept_trans by metis
  qed
  then show ?thesis using do_effect [OF assms(2,3)] same_data_kept by (cases r) auto
qed

end

section \<open>The use cases\<close>

definition set_balance :: "i64 \<Rightarrow> i64 \<Rightarrow> int \<Rightarrow> wallet_row \<Rightarrow> wallet_row" where
  "set_balance b v t r = r\<lparr>wr_balance_minor := b, wr_version := v, wr_updated_at := t\<rparr>"

locale financial_frame = frame +
  assumes wallet_inserted: "R d (snd (insert_wallet x d))"
    and wallet_updated: "R d (snd (update_wallets p (set_balance b v t) d))"
    and tx_inserted: "R d (snd (insert_tx y d))"
    and tx_updated: "R d (snd (update_tx (\<lambda>r. tr_id r = i \<and> \<not> terminal_row r) (set_tx_columns y) d))"
    and entry_inserted: "R d (snd (insert_ledger e d))"
    and event_inserted: "R d (snd (insert_outbox o' d))"
begin

lemma keeps_repositories: "keeps R (Wallets_Insert \<Gamma> x)" "keeps R (Wallets_UpdateBalance \<Gamma> x n)"
  "keeps R (Transactions_Insert \<Gamma> t)" "keeps R (Transactions_Update \<Gamma> t)" "keeps R (Ledger_Append \<Gamma> l)"
  "keeps R (Outbox_Append \<Gamma> r)"
  unfolding Wallets_Insert_def Wallets_UpdateBalance_def Transactions_Insert_def Transactions_Update_def
    Ledger_Append_def Outbox_Append_def set_balance_def [symmetric]
  by (intro keeps_intros keeps_stmt wallet_inserted wallet_updated tx_inserted tx_updated entry_inserted event_inserted)+

lemma keeps_lookups: "keeps R (Wallets_FindByIDForUpdate \<Gamma> i)" "keeps R (Transactions_FindByBusinessID \<Gamma> p x)"
  "keeps R (Transactions_FindProcessedReversalOf \<Gamma> t)" "keeps R (Transactions_ClaimDueReferences \<Gamma> now n)"
  unfolding Wallets_FindByIDForUpdate_def Transactions_FindByBusinessID_def Transactions_FindProcessedReversalOf_def
    Transactions_ClaimDueReferences_def
  by (intro keeps_intros)+

lemma keeps_record_loop: "keeps R (record_loop \<Gamma> c now events)"
  by (induction events) (simp_all only: record_loop.simps, (intro keeps_intros keeps_repositories; assumption)+)

lemma keeps_emit: "keeps R (emit \<Gamma> c t x e moved)" "keeps R (eventRecorder_record \<Gamma> c events)"
  unfolding emit_def eventRecorder_record_def by (intro keeps_intros keeps_record_loop)+

lemma keeps_policy: "keeps R (ReferencePolicy_nextAttemptAt \<Gamma> p now n)"
  unfolding ReferencePolicy_nextAttemptAt_def by (intro keeps_intros)

lemmas keeps_parts = keeps_intros keeps_repositories keeps_lookups keeps_emit keeps_policy

lemma keeps_reversal: "keeps R (resolveReference \<Gamma> t)" "keeps R (applyReversal \<Gamma> c t ref d x at)"
  unfolding resolveReference_def decide_found_def applyReversal_def writeReversal_def
  by (intro keeps_parts)+

lemma keeps_submit: "keeps R (ExecuteIn \<Gamma> waiting cmd c)"
proof -
  have u: "keeps R (record_unmoved \<Gamma> c t x)" "keeps R (recordReversalRejection \<Gamma> c t rc x at)" for t x rc at
    unfolding record_unmoved_def recordReversalRejection_def by (intro keeps_parts)+
  have "keeps R (Submit_resolve \<Gamma> waiting c t x at)" for t x at
    unfolding Submit_resolve_def by (intro keeps_parts keeps_reversal u)
  moreover have "keeps R (apply_movement \<Gamma> c t x i at)" for t x i at
    unfolding apply_movement_def Submit_movement_def by (intro keeps_parts u)
  ultimately show ?thesis
    unfolding ExecuteIn_def Submit_apply_def by (intro keeps_parts)
qed

lemma keeps_opening: "keeps R (write_opening \<Gamma> opening otx c)"
proof -
  have "keeps R (append_all \<Gamma> es)" for es
    by (induction es) (simp_all only: append_all.simps, (intro keeps_intros keeps_repositories; assumption)+)
  then show ?thesis unfolding write_opening_def by (intro keeps_parts)
qed

lemma keeps_visit: "keeps R (handle_pending \<Gamma> policy c t now)"
proof -
  have r: "keeps R (Worker_reject \<Gamma> c t rc now)" for rc
    unfolding Worker_reject_def by (intro keeps_parts)
  then have "keeps R (still_waiting \<Gamma> policy c t now)"
    unfolding still_waiting_def by (intro keeps_parts)
  then show ?thesis unfolding handle_pending_def by (intro keeps_parts keeps_reversal r)
qed

lemma keeps_claim: "keeps R (claim_one \<Gamma>)"
  unfolding claim_one_def by (intro keeps_parts)

lemma keeps_worker: "keeps_body R (worker_body policy \<Gamma>)"
  unfolding keeps_body_def
proof (intro allI)
  fix c v and w :: "database world"
  obtain q w1 where q: "claim_one \<Gamma> w = (q, w1)" by (metis surj_pair)
  have one: "R (db w) (db w1)" by (rule keepsD [OF keeps_claim q])
  have visit: "R (db w1) (db w2)" if "handle_pending \<Gamma> policy c t now w1 = (r, w2)" for t now r w2
    by (rule keepsD [OF keeps_visit that])
  show "R (db w) (db (snd (snd (worker_body policy \<Gamma> c v w))))"
    using one visit kept_trans [OF one] unfolding worker_body_def q
    by (auto split: sum.split prod.split list.split)
qed

lemma keeps_Submit_execute:
  assumes "Submit_execute \<Gamma> retry waiting c cmd w = (r, w')" "idle w"
  shows "R (db w) (db w')"
proof -
  let ?fn = "assigning (ExecuteIn \<Gamma> waiting cmd) no_result"
  obtain q v w1 where d: "UnitOfWork_Do \<Gamma> retry c ?fn no_result w = (q, v, w1)" by (metis prod_cases3)
  have one: "R (db w) (db w1)" by (rule keeps_do [OF keeps_assigning [OF keeps_submit] d assms(2)])
  have two: "R (db w1) (db w2)" if "Transactions_FindByBusinessID \<Gamma> p x w1 = (f, w2)" for p x f w2
    by (rule keepsD [OF keeps_lookups(2) that])
  show ?thesis
    using assms(1) one two kept_trans [OF one] unfolding Submit_execute_def d
    by (auto split: sum.splits prod.splits if_splits)
qed

lemma keeps_OpenWallet:
  assumes "OpenWallet_Execute \<Gamma> retry c cmd w = (r, w')" "idle w"
  shows "R (db w) (db w')"
proof -
  obtain q w1 where q: "prepare_opening \<Gamma> c cmd w = (q, w1)" by (metis surj_pair)
  have w1: "db w1 = db w" "idle w1" using prepare_opening_same [OF q] assms(2) by (simp_all add: same_world_def idle_def)
  show ?thesis
  proof (cases q)
    case (Inl e)
    then show ?thesis using assms(1) q w1 kept_refl by (auto simp: OpenWallet_Execute_def bindE_def)
  next
    case (Inr p)
    obtain a og otx where p: "p = (a, og, otx)" by (metis prod_cases3)
    obtain r2 v w2 where d: "UnitOfWork_Do \<Gamma> retry c (assigning (write_opening \<Gamma> og otx) ()) () w1 = (r2, v, w2)"
      by (metis prod_cases3)
    have "w' = w2"
      using assms(1) q d unfolding Inr p by (auto simp: OpenWallet_Execute_def bindE_def split: sum.splits)
    then show ?thesis using keeps_do [OF keeps_assigning [OF keeps_opening] d w1(2)] w1(1) by simp
  qed
qed

lemma keeps_worker_loop:
  "worker_loop \<Gamma> retry policy c left n w = (r, k, w') \<Longrightarrow> idle w \<Longrightarrow> R (db w) (db w')"
proof (induction left arbitrary: n w)
  case 0
  then show ?case by (simp add: kept_refl)
next
  case (Suc left)
  obtain q w1 where q: "ctx_Err \<Gamma> c w = (q, w1)" by (metis surj_pair)
  have w1: "db w1 = db w" "idle w1"
    using q Suc.prems(2) by (auto simp: ctx_Err_def idle_def split: if_splits)
  obtain e worked w2 where h: "handleOne \<Gamma> retry policy c w1 = (e, worked, w2)" by (metis prod_cases3)
  have one: "R (db w) (db w2)" and w2: "idle w2"
    using keeps_do [OF keeps_worker h [unfolded handleOne_def] w1(2)] do_effect [OF h [unfolded handleOne_def] w1(2)] w1(1)
    by auto
  consider "db w' = db w" | "w' = w2" | m where "worker_loop \<Gamma> retry policy c left m w2 = (r, k, w')"
    using Suc.prems(1) q h w1(1) by (auto split: sum.splits if_splits)
  then show ?case using one kept_refl kept_trans [OF one Suc.IH [OF _ w2]] by cases auto
qed

lemma keeps_Worker_RunOnce:
  "Worker_RunOnce \<Gamma> retry policy c w = (r, k, w') \<Longrightarrow> idle w \<Longrightarrow> R (db w) (db w')"
  unfolding Worker_RunOnce_def by (rule keeps_worker_loop)

end

lemma Consumer_handle_idle:
  assumes "Consumer_handle \<Gamma> retry waiting cfg c m w = (ms, what, w')" "idle w"
  shows "idle w'"
proof -
  have "idle w1" if "UnitOfWork_Do \<Gamma> retry wc (consume_body \<Gamma> waiting cfg envelope cmd hash) v w = (r, v', w1)"
    for wc envelope cmd hash v r v' w1
    using do_effect [OF that assms(2)] by simp
  then show ?thesis
    using assms unfolding Consumer_handle_def Consumer_apply_def by (auto split: sum.splits prod.splits)
qed

section \<open>The publisher\<close>

locale publishing_frame = frame +
  assumes event_marked: "R d (snd (update_outbox (unpublished i) (\<lambda>r. r\<lparr>or_published_at := Some t, or_last_error := None\<rparr>) d))"
    and event_rescheduled: "R d (snd (update_outbox (unpublished i)
          (\<lambda>r. r\<lparr>or_attempts := Suc (or_attempts r), or_next_attempt_at := t, or_last_error := s\<rparr>) d))"
begin

lemma keeps_marking: "keeps R (Outbox_MarkPublished \<Gamma> i at)" "keeps R (Outbox_Reschedule \<Gamma> i at cause)"
  "keeps R (Outbox_ClaimDue \<Gamma> now n)" "keeps R (Publisher_nextAttemptAt \<Gamma> p now k)"
  unfolding Outbox_ClaimDue_def Outbox_MarkPublished_def Outbox_Reschedule_def Publisher_nextAttemptAt_def
  by (intro keeps_intros keeps_stmt event_marked event_rescheduled)+

lemma keeps_publishOne: "R (db w) (db (snd (snd (publishOne \<Gamma> policy record now v w))))"
proof -
  obtain q w1 where q: "EventPublisher_Publish \<Gamma> record w = (q, w1)" by (metis surj_pair)
  have w1: "db w1 = db w" using q by (auto simp: EventPublisher_Publish_def split: option.splits)
  have "keeps R (bindE (Publisher_nextAttemptAt \<Gamma> policy now n) (\<lambda>at. Outbox_Reschedule \<Gamma> i at cause))" for n i cause
    by (intro keeps_intros keeps_marking)
  from keepsD [OF this, where w = w1] keepsD [OF keeps_marking(1), where w = w1] show ?thesis
    unfolding publishOne_def q w1 [symmetric] by (auto split: sum.split prod.split)
qed

lemma keeps_publish_loop: "R (db w) (db (snd (snd (publish_loop \<Gamma> policy now events v w))))"
proof (induction events arbitrary: v w)
  case Nil
  then show ?case by (simp add: kept_refl)
next
  case (Cons entry events)
  obtain r v1 w1 where r: "publishOne \<Gamma> policy entry now v w = (r, v1, w1)" by (metis prod_cases3)
  have one: "R (db w) (db w1)" using keeps_publishOne [of w \<Gamma> policy entry now v] r by simp
  then show ?case using r Cons.IH kept_trans [OF one] by (cases r) auto
qed

lemma keeps_publisher: "keeps_body R (publisher_body policy \<Gamma>)"
  unfolding keeps_body_def
proof (intro allI)
  fix c v and w :: "database world"
  let ?m = "bindE (clock_Now \<Gamma>) (\<lambda>now. bindE (Outbox_ClaimDue \<Gamma> now (sint (pp_BatchSize policy))) (\<lambda>due. ret (now, due)))"
  obtain q w1 where q: "?m w = (q, w1)" by (rule prod.exhaust [of "?m w"])
  have "keeps R ?m" by (intro keeps_intros keeps_marking)
  from keepsD [OF this q] have one: "R (db w) (db w1)" .
  show "R (db w) (db (snd (snd (publisher_body policy \<Gamma> c v w))))"
    unfolding publisher_body_def q using one kept_trans [OF one keeps_publish_loop] by (cases q) (simp_all split: prod.split)
qed

lemma keeps_Publisher_RunOnce:
  "Publisher_RunOnce \<Gamma> retry policy c w = (r, v, w') \<Longrightarrow> idle w \<Longrightarrow> R (db w) (db w')"
  unfolding Publisher_RunOnce_def by (rule keeps_do [OF keeps_publisher])

end

section \<open>Every statement\<close>

locale store_frame = financial_frame + publishing_frame +
  assumes message_inserted: "R d (snd (insert_inbox m d))"
    and message_completed: "R d (snd (update_inbox p (\<lambda>r. r\<lparr>ir_completed_at := Some t\<rparr>) d))"
begin

lemma keeps_messaging: "keeps R (Inbox_Claim \<Gamma> m)" "keeps R (Inbox_Complete \<Gamma> cn i at)" "keeps R (Inbox_Find \<Gamma> cn i)"
  unfolding Inbox_Claim_def Inbox_Complete_def Inbox_Find_def
  by (intro keeps_intros keeps_stmt message_inserted message_completed)+

lemma keeps_consume_body: "keeps_body R (consume_body \<Gamma> waiting cfg envelope cmd hash)"
  unfolding keeps_body_def
proof (intro allI)
  fix c v and w :: "database world"
  let ?claim = "\<lambda>now. inbox_claim cfg envelope hash now"
  obtain now w1 where now: "clock_Now \<Gamma> w = (Inr now, w1)" "db w1 = db w" by (simp add: clock_Now_def)
  obtain q w2 where q: "Inbox_Claim \<Gamma> (?claim now) w1 = (q, w2)" by (metis surj_pair)
  have two: "R (db w) (db w2)" using keepsD [OF keeps_messaging(1) q] now(2) by simp
  have seen: "R (db w) (db (snd (snd (alreadySeen \<Gamma> cfg envelope hash v w2))))"
    using kept_trans [OF two] keepsD [OF keeps_messaging(3)] by (auto simp: alreadySeen_def split: sum.split prod.split)
  have fin: "R (db w3) (db (snd (snd (consume_complete \<Gamma> cfg envelope now u w3))))" for u w3
    using keepsD [OF keeps_messaging(2)] by (auto simp: consume_complete_def split: prod.split)
  obtain x w3 where x: "ExecuteIn \<Gamma> waiting cmd c w2 = (x, w3)" by (metis surj_pair)
  have three: "R (db w) (db w3)" using kept_trans [OF two keepsD [OF keeps_submit x]] .
  show "R (db w) (db (snd (snd (consume_body \<Gamma> waiting cfg envelope cmd hash c v w))))"
    using two three seen kept_trans [OF three fin] unfolding consume_body_def now q prod.case sum.case
    by (auto simp: x split: sum.split option.split)
qed

lemma keeps_Consumer_handle:
  assumes "Consumer_handle \<Gamma> retry waiting cfg c m w = (ms, what, w')" "idle w"
  shows "R (db w) (db w')"
proof -
  have "R (db w) (db w1)" if "UnitOfWork_Do \<Gamma> retry wc (consume_body \<Gamma> waiting cfg envelope cmd hash) v w = (r, v', w1)"
    for wc envelope cmd hash v r v' w1
    by (rule keeps_do [OF keeps_consume_body that assms(2)])
  then show ?thesis
    using assms(1) kept_refl unfolding Consumer_handle_def Consumer_apply_def
    by (auto split: sum.splits prod.splits)
qed

lemma keeps_batch: "handle_batch \<Gamma> retry waiting cl cfg c ms w = (metrics, requests, w') \<Longrightarrow> idle w \<Longrightarrow> idle w' \<and> R (db w) (db w')"
proof (induction ms arbitrary: w w' metrics requests)
  case Nil
  then show ?case by (simp add: kept_refl)
next
  case (Cons m ms)
  obtain metrics1 what w1 where h: "Consumer_handle \<Gamma> retry waiting cfg c m w = (metrics1, what, w1)" by (metis prod_cases3)
  obtain metrics2 requests2 w2 where r: "handle_batch \<Gamma> retry waiting cl cfg c ms w1 = (metrics2, requests2, w2)"
    by (metis prod_cases3)
  have w1: "idle w1" by (rule Consumer_handle_idle [OF h Cons.prems(2)])
  then show ?case
    using Cons.IH [OF r w1] kept_trans [OF keeps_Consumer_handle [OF h Cons.prems(2)]] Cons.prems(1) h r by auto
qed

lemma keeps_RunOnce:
  "Consumer_RunOnce \<Gamma> retry waiting cl cfg c reply w = (r, metrics, requests, w') \<Longrightarrow> idle w \<Longrightarrow> R (db w) (db w')"
  using keeps_batch kept_refl unfolding Consumer_RunOnce_def by (auto split: sum.splits prod.splits)

end

section \<open>History\<close>

text \<open>A table grew: the rows that were there are there still, each changed at most as allowed.\<close>

definition grown :: "('r \<Rightarrow> 'r \<Rightarrow> bool) \<Rightarrow> 'r list \<Rightarrow> 'r list \<Rightarrow> bool" where
  "grown P xs ys \<longleftrightarrow> (\<exists>us new. ys = us @ new \<and> list_all2 P xs us)"

definition wallet_kept :: "wallet_row \<Rightarrow> wallet_row \<Rightarrow> bool" where
  "wallet_kept r r' \<longleftrightarrow> set_balance (wr_balance_minor r') (wr_version r') (wr_updated_at r') r = r'"

definition tx_kept :: "tx_row \<Rightarrow> tx_row \<Rightarrow> bool" where
  "tx_kept r r' \<longleftrightarrow> set_tx_columns r' r = r' \<and> (terminal_row r \<longrightarrow> r' = r)"

definition event_kept :: "outbox_row \<Rightarrow> outbox_row \<Rightarrow> bool" where
  "event_kept r r' \<longleftrightarrow> same_event r r' \<and> or_attempts r \<le> or_attempts r' \<and> (or_published_at r \<noteq> None \<longrightarrow> r' = r)"

definition message_kept :: "inbox_row \<Rightarrow> inbox_row \<Rightarrow> bool" where
  "message_kept r r' \<longleftrightarrow> r\<lparr>ir_completed_at := ir_completed_at r'\<rparr> = r' \<and> (ir_completed_at r \<noteq> None \<longrightarrow> ir_completed_at r' \<noteq> None)"

definition history :: "database \<Rightarrow> database \<Rightarrow> bool" where
  "history d d' \<longleftrightarrow>
     grown wallet_kept (d_wallets d) (d_wallets d') \<and> grown (=) (d_ledger d) (d_ledger d')
     \<and> grown event_kept (d_outbox d) (d_outbox d') \<and> grown message_kept (d_inbox d) (d_inbox d')
     \<and> (distinct (map tr_id (d_transactions d)) \<longrightarrow>
          grown tx_kept (d_transactions d) (d_transactions d') \<and> distinct (map tr_id (d_transactions d')))"

lemma kept_refls [simp]: "wallet_kept x x" "tx_kept t t" "event_kept e e" "message_kept m m"
  by (simp_all add: wallet_kept_def set_balance_def tx_kept_def set_tx_columns_def event_kept_def message_kept_def)

lemma set_twice: "set_balance b v t (set_balance b' v' t' r) = set_balance b v t r"
  "set_tx_columns z (set_tx_columns y x) = set_tx_columns z x"
  by (simp_all add: set_balance_def set_tx_columns_def)

lemma kept_transs:
  "wallet_kept x y \<Longrightarrow> wallet_kept y z \<Longrightarrow> wallet_kept x z" "tx_kept r s \<Longrightarrow> tx_kept s t \<Longrightarrow> tx_kept r t"
  "event_kept a b \<Longrightarrow> event_kept b c \<Longrightarrow> event_kept a c" "message_kept m n \<Longrightarrow> message_kept n k \<Longrightarrow> message_kept m k"
  subgoal unfolding wallet_kept_def using set_twice(1) by metis
  subgoal unfolding tx_kept_def using set_twice(2) by metis
  subgoal by (auto simp: event_kept_def same_event_iff)
  subgoal by (cases m; cases n; cases k) (auto simp: message_kept_def)
  done

lemma grown_refl: "(\<And>x. P x x) \<Longrightarrow> grown P xs xs"
  unfolding grown_def by (intro exI [of _ xs] exI [of _ "[]"]) (simp add: list_all2_refl)

lemma grown_append: "(\<And>x. P x x) \<Longrightarrow> grown P xs (xs @ new)"
  unfolding grown_def by (intro exI [of _ xs] exI [of _ new]) (simp add: list_all2_refl)

lemma grown_map: "(\<And>x. x \<in> set xs \<Longrightarrow> P x (f x)) \<Longrightarrow> grown P xs (map f xs)"
  unfolding grown_def by (intro exI [of _ "map f xs"] exI [of _ "[]"]) (simp add: list_all2_conv_all_nth)

lemma grown_trans:
  assumes "\<And>x y z. P x y \<Longrightarrow> P y z \<Longrightarrow> P x z" "grown P xs ys" "grown P ys zs"
  shows "grown P xs zs"
proof -
  obtain us new where u: "ys = us @ new" "list_all2 P xs us" using assms(2) by (auto simp: grown_def)
  obtain vs more where v: "zs = vs @ more" "list_all2 P (us @ new) vs" using assms(3) u(1) by (auto simp: grown_def)
  obtain vs1 vs2 where s: "vs = vs1 @ vs2" "list_all2 P us vs1" using v(2) by (auto simp: list_all2_append1)
  have "list_all2 P xs vs1" using u(2) s(2) assms(1) by (rule list_all2_trans [rotated])
  then show ?thesis unfolding grown_def using v(1) s(1) by (intro exI [of _ vs1] exI [of _ "vs2 @ more"]) simp
qed

lemma grown_same: "grown (=) xs ys \<longleftrightarrow> (\<exists>new. ys = xs @ new)"
  by (auto simp: grown_def list.rel_eq)

lemma history_trans: "history a b \<Longrightarrow> history b c \<Longrightarrow> history a c"
  unfolding history_def
  by (auto intro: grown_trans [OF kept_transs(1)] grown_trans [OF kept_transs(2)] grown_trans [OF kept_transs(3)]
      grown_trans [OF kept_transs(4)] grown_trans [of "(=)"])

text \<open>The inbox is nobody's but the consumer's, and the publisher leaves the books alone.\<close>

interpretation inbox_frame: financial_frame "\<lambda>d d'. d_inbox d' = d_inbox d"
  by unfold_locales
    (auto simp: same_data_iff insert_wallet_def update_wallets_def insert_tx_def update_tx_def insert_ledger_def
      insert_outbox_def Let_def split: option.splits)

interpretation books_frame: publishing_frame "\<lambda>d d'. same_bank d d' \<and> d_inbox d' = d_inbox d"
  by unfold_locales (auto simp: same_data_iff same_bank_def update_outbox_def)

lemma history_same: "same_data d d' \<Longrightarrow> history d d'"
  by (auto simp: same_data_iff history_def intro: grown_refl)

lemma history_rows:
  "history d (d\<lparr>d_wallets := d_wallets d @ [x]\<rparr>)" "history d (d\<lparr>d_ledger_seq := n, d_ledger := d_ledger d @ [l]\<rparr>)"
  "history d (d\<lparr>d_outbox_seq := n, d_outbox := d_outbox d @ [o']\<rparr>)" "history d (d\<lparr>d_inbox := d_inbox d @ [m]\<rparr>)"
  "tr_id t \<notin> tr_id ` set (d_transactions d) \<Longrightarrow> history d (d\<lparr>d_transactions := d_transactions d @ [t]\<rparr>)"
  "history d (d\<lparr>d_ledger_seq := n\<rparr>)" "history d (d\<lparr>d_outbox_seq := n\<rparr>)"
  by (auto simp: history_def intro: grown_refl grown_append)

lemma history_maps:
  "(\<And>r. wallet_kept r (f r)) \<Longrightarrow> history d (d\<lparr>d_wallets := map f (d_wallets d)\<rparr>)"
  "(\<And>r. event_kept r (g r)) \<Longrightarrow> history d (d\<lparr>d_outbox := map g (d_outbox d)\<rparr>)"
  "(\<And>r. message_kept r (h r)) \<Longrightarrow> history d (d\<lparr>d_inbox := map h (d_inbox d)\<rparr>)"
  by (auto simp: history_def intro: grown_refl grown_map)

lemma history_insert_tx: "history d (snd (insert_tx r d))"
proof (cases "too_long (tr_currency r)")
  case True
  then show ?thesis by (simp add: insert_tx_def history_same)
next
  case False
  let ?r = "r\<lparr>tr_currency := char3 (take 3 (tr_currency r))\<rparr>"
  show ?thesis
  proof (cases "refusal ''wager_transactions'' (tx_checks ?r) (tx_uniques (d_transactions d) ?r) (tx_fkeys d ?r)")
    case None
    then have "first_violated (tx_uniques (d_transactions d) ?r) = None"
      by (auto simp: refusal_def split: option.splits)
    then have "\<forall>o'\<in>set (d_transactions d). tr_id o' \<noteq> tr_id ?r"
      by (simp add: first_violated_None tx_uniques_def)
    then have "tr_id ?r \<notin> tr_id ` set (d_transactions d)" by fastforce
    then show ?thesis using None False history_rows(5) by (simp add: insert_tx_def Let_def)
  qed (simp add: False insert_tx_def Let_def history_same)
qed

lemma history_update_tx: "history d (snd (update_tx (\<lambda>r. tr_id r = i \<and> \<not> terminal_row r) (set_tx_columns y) d))"
proof (cases "List.find (\<lambda>r. tr_id r = i \<and> \<not> terminal_row r) (d_transactions d)")
  case None
  then show ?thesis by (simp add: update_tx_def history_same)
next
  case (Some old)
  then have old: "old \<in> set (d_transactions d)" "tr_id old = i" "\<not> terminal_row old"
    by (auto simp: find_Some_iff)
  let ?new = "set_tx_columns y old"
  have new: "tr_id ?new = tr_id old" "tx_kept old ?new"
    using old(3) by (simp_all add: set_tx_columns_def tx_kept_def)
  let ?f = "\<lambda>t. if tr_id t = tr_id old then ?new else t"
  have "history d (d\<lparr>d_transactions := map ?f (d_transactions d)\<rparr>)"
  proof -
    have "t = old" if "distinct (map tr_id (d_transactions d))" "t \<in> set (d_transactions d)" "tr_id t = tr_id old" for t
      using that old(1) by (auto simp: distinct_map inj_on_def)
    then have "distinct (map tr_id (d_transactions d)) \<Longrightarrow> grown tx_kept (d_transactions d) (map ?f (d_transactions d))"
      using new(2) by (intro grown_map) auto
    moreover have "map tr_id (map ?f (d_transactions d)) = map tr_id (d_transactions d)"
      using new(1) by (simp add: comp_def cong: if_cong)
    ultimately show ?thesis by (auto simp: history_def intro: grown_refl simp del: map_map)
  qed
  then show ?thesis using Some by (auto simp: update_tx_def Let_def history_same split: option.split)
qed

interpretation history_frame: store_frame history
proof
  fix d d' :: database and x p b v t y i e o'
  show "same_data d d' \<Longrightarrow> history d d'" by (rule history_same)
  show "history a b \<Longrightarrow> history b c \<Longrightarrow> history a c" for a b c by (rule history_trans)
  show "history d (snd (insert_wallet x d))"
    by (auto simp: insert_wallet_def Let_def history_same history_rows split: option.split)
  show "history d (snd (update_wallets p (set_balance b v t) d))"
  proof -
    have "wallet_kept r (if p r then set_balance b v t r else r)" for r
      by (simp add: wallet_kept_def set_balance_def)
    then show ?thesis
      by (auto simp: update_wallets_def Let_def history_same intro: history_maps split: option.split)
  qed
  show "history d (snd (insert_tx y d))" by (rule history_insert_tx)
  show "history d (snd (update_tx (\<lambda>r. tr_id r = i \<and> \<not> terminal_row r) (set_tx_columns y) d))" by (rule history_update_tx)
  show "history d (snd (insert_ledger e d))"
    using history_rows(2,6) [of d] by (auto simp: insert_ledger_def Let_def history_same split: option.split)
  show "history d (snd (insert_outbox o' d))"
    using history_rows(3,7) [of d] by (auto simp: insert_outbox_def Let_def history_same split: option.split)
next
  fix d i t
  show "history d (snd (update_outbox (unpublished i) (\<lambda>r. r\<lparr>or_published_at := Some t, or_last_error := None\<rparr>) d))"
    by (auto simp: update_outbox_def event_kept_def same_event_def unpublished_def intro: history_maps)
next
  fix d i t s
  show "history d (snd (update_outbox (unpublished i)
      (\<lambda>r. r\<lparr>or_attempts := Suc (or_attempts r), or_next_attempt_at := t, or_last_error := s\<rparr>) d))"
    by (auto simp: update_outbox_def event_kept_def same_event_def unpublished_def intro: history_maps)
next
  fix d p t m
  show "history d (snd (insert_inbox m d))"
    by (auto simp: insert_inbox_def history_same history_rows)
  show "history d (snd (update_inbox p (\<lambda>r. r\<lparr>ir_completed_at := Some t\<rparr>) d))"
    by (auto simp: update_inbox_def message_kept_def intro: history_maps)
qed

section \<open>The outbox\<close>

text \<open>Its events are told apart by their id, and its sequence is ahead of its rows.\<close>

definition outbox_ok :: "database \<Rightarrow> bool" where
  "outbox_ok d \<longleftrightarrow> distinct (map or_event_id (d_outbox d)) \<and> (\<forall>r\<in>set (d_outbox d). or_seq r < d_outbox_seq d)"

lemma outbox_ok_insert: "outbox_ok d \<Longrightarrow> outbox_ok (snd (insert_outbox r d))"
proof -
  let ?r = "r\<lparr>or_seq := d_outbox_seq d\<rparr>"
  let ?uniques = "[(''outbox_events_pkey'', \<forall>o'\<in>set (d_outbox d). or_event_id o' \<noteq> or_event_id ?r),
              (''outbox_events_seq_key'', \<forall>o'\<in>set (d_outbox d). or_seq o' \<noteq> or_seq ?r)]"
  assume d: "outbox_ok d"
  show ?thesis
  proof (cases "refusal ''outbox_events'' (outbox_checks ?r) ?uniques []")
    case None
    then have "first_violated ?uniques = None" by (auto simp: refusal_def split: option.splits)
    then have "\<forall>o'\<in>set (d_outbox d). or_event_id o' \<noteq> or_event_id ?r" by (simp add: first_violated_None)
    then have "or_event_id ?r \<notin> or_event_id ` set (d_outbox d)" by fastforce
    then show ?thesis using d None by (auto simp: insert_outbox_def Let_def outbox_ok_def)
  next
    case (Some e)
    then show ?thesis using d by (auto simp: insert_outbox_def Let_def outbox_ok_def)
  qed
qed

lemma outbox_ok_update: "(\<And>r. or_event_id (f r) = or_event_id r \<and> or_seq (f r) = or_seq r) \<Longrightarrow> outbox_ok d \<Longrightarrow>
    outbox_ok (snd (update_outbox p f d))"
proof -
  assume f: "\<And>r. or_event_id (f r) = or_event_id r \<and> or_seq (f r) = or_seq r" and d: "outbox_ok d"
  have "map or_event_id (map (\<lambda>r. if p r then f r else r) (d_outbox d)) = map or_event_id (d_outbox d)"
    using f by simp
  then show ?thesis using d f by (auto simp: update_outbox_def outbox_ok_def simp del: map_map)
qed

interpretation outbox_frame: store_frame "\<lambda>d d'. outbox_ok d \<longrightarrow> outbox_ok d'"
proof
  fix d d' :: database and x p b v t y i e
  show "same_data d d' \<Longrightarrow> outbox_ok d \<longrightarrow> outbox_ok d'"
    by (auto simp: same_data_iff outbox_ok_def intro: less_le_trans)
  show "outbox_ok d \<longrightarrow> outbox_ok (snd (insert_wallet x d))"
    by (auto simp: insert_wallet_def Let_def outbox_ok_def split: option.split)
  show "outbox_ok d \<longrightarrow> outbox_ok (snd (update_wallets p (set_balance b v t) d))"
    by (auto simp: update_wallets_def Let_def outbox_ok_def split: option.split)
  show "outbox_ok d \<longrightarrow> outbox_ok (snd (insert_tx y d))"
    by (auto simp: insert_tx_def Let_def outbox_ok_def split: option.split)
  show "outbox_ok d \<longrightarrow> outbox_ok (snd (update_tx (\<lambda>r. tr_id r = i \<and> \<not> terminal_row r) (set_tx_columns y) d))"
    by (auto simp: update_tx_def Let_def outbox_ok_def split: option.split)
  show "outbox_ok d \<longrightarrow> outbox_ok (snd (insert_ledger e d))"
    by (auto simp: insert_ledger_def Let_def outbox_ok_def split: option.split)
next
  fix d o'
  show "outbox_ok d \<longrightarrow> outbox_ok (snd (insert_outbox o' d))" using outbox_ok_insert by blast
next
  fix d i t
  show "outbox_ok d \<longrightarrow> outbox_ok (snd (update_outbox (unpublished i) (\<lambda>r. r\<lparr>or_published_at := Some t, or_last_error := None\<rparr>) d))"
    by (intro impI outbox_ok_update) simp_all
next
  fix d i t s
  show "outbox_ok d \<longrightarrow> outbox_ok (snd (update_outbox (unpublished i)
      (\<lambda>r. r\<lparr>or_attempts := Suc (or_attempts r), or_next_attempt_at := t, or_last_error := s\<rparr>) d))"
    by (intro impI outbox_ok_update) simp_all
next
  fix d p t m
  show "outbox_ok d \<longrightarrow> outbox_ok (snd (insert_inbox m d))" by (auto simp: insert_inbox_def outbox_ok_def)
  show "outbox_ok d \<longrightarrow> outbox_ok (snd (update_inbox p (\<lambda>r. r\<lparr>ir_completed_at := Some t\<rparr>) d))"
    by (auto simp: update_inbox_def outbox_ok_def)
qed auto

end
