(* ===== verification/System.thy ===== *)
theory System
  imports Frame Http_Answers
begin

text \<open>
  The whole service. A step is one thing the process does: serve a request, poll the queue once,
  one tick of the reference worker, one run of the publisher; or time passes outside. Steps come
  in any order and any number, with any input, and every one meets whatever the environment
  brings: faults of the database, lost commits, a broker that refuses. Units of work are atomic,
  so concurrent instances are some sequence of such steps.
\<close>

section \<open>Steps\<close>

inductive step :: "env \<Rightarrow> database world \<Rightarrow> database world \<Rightarrow> bool" for \<Gamma> where
  request: "Handler sv (Routes sv) r c x = (f, x') \<Longrightarrow> sv_env sv = \<Gamma> \<Longrightarrow> sv_waiting sv = ReferencePolicy_normalised pol \<Longrightarrow>
    step \<Gamma> (x_world x) (x_world x')"
| poll: "Consumer_RunOnce \<Gamma> retry (ReferencePolicy_normalised pol) cl cfg c reply w = (res, metrics, requests, w') \<Longrightarrow> step \<Gamma> w w'"
| revisit: "Worker_RunOnce \<Gamma> retry (ReferencePolicy_normalised pol) c w = (res, k, w') \<Longrightarrow> step \<Gamma> w w'"
| publish: "Publisher_RunOnce \<Gamma> retry policy c w = (res, v, w') \<Longrightarrow> step \<Gamma> w w'"
| elapse: "step \<Gamma> w (w\<lparr>calls := n\<rparr>)"

section \<open>Serving a request\<close>

text \<open>A computation that only reads.\<close>

definition reading :: "'a pgio \<Rightarrow> bool" where
  "reading m \<longleftrightarrow> (\<forall>w. idle w \<longrightarrow> idle (snd (m w)) \<and> same_data (db w) (db (snd (m w))))"

lemma reading_bind_lift: "(\<And>x. r = Inr x \<Longrightarrow> reading (f x)) \<Longrightarrow> reading (bindE (lift r) f)"
  by (cases r) (auto simp: reading_def)

lemma reading_query: "(\<And>x. reading (f x)) \<Longrightarrow> reading (bindE (bindE (io_translate (query \<Gamma> q)) (\<lambda>x. lift (g x))) f)"
  unfolding reading_def
proof (intro allI impI)
  fix w :: "database world"
  let ?m = "bindE (io_translate (query \<Gamma> q)) (\<lambda>x. lift (g x))"
  assume f: "\<And>x. \<forall>w. idle w \<longrightarrow> idle (snd (f x w)) \<and> same_data (db w) (db (snd (f x w)))" and w: "idle w"
  obtain r w1 where r: "?m w = (r, w1)" by (metis surj_pair)
  have "idle w1 \<and> db w1 = db w" by (rule read_idle [OF r w])
  then show "idle (snd (bindE ?m f w)) \<and> same_data (db w) (db (snd (bindE ?m f w)))"
    using f unfolding bindE_def [of ?m] r by (cases r) (simp_all, metis)
qed

lemma reading_last: "reading (bindE (io_translate (query \<Gamma> q)) (\<lambda>x. lift (g x)))"
  unfolding reading_def using read_idle by (metis prod.collapse same_data_refl)

lemma reading_pure: "reading (ret x)" "reading (throw e)" "reading (lift r)"
  by (simp_all add: reading_def ret_def throw_def lift_def)

lemma reads_read: "reading (WalletQueries_Get \<Gamma> c i)" "reading (TransactionQueries_Get \<Gamma> c i)"
  "reading (TransactionQueries_GetByBusinessID \<Gamma> c p x)" "reading (WalletQueries_Ledger \<Gamma> c i cur n)"
proof -
  have l: "reading (Ledger_ListByWallet \<Gamma> j cur n)" for j n
    unfolding Ledger_ListByWallet_def by (cases "n \<le> 0") (simp_all add: reading_pure reading_last)
  show "reading (WalletQueries_Get \<Gamma> c i)" "reading (TransactionQueries_Get \<Gamma> c i)"
    "reading (TransactionQueries_GetByBusinessID \<Gamma> c p x)" "reading (WalletQueries_Ledger \<Gamma> c i cur n)"
    unfolding WalletQueries_Get_def TransactionQueries_Get_def TransactionQueries_GetByBusinessID_def WalletQueries_Ledger_def
      Wallets_FindByID_def Transactions_FindByID_def Transactions_FindByBusinessID_def
    by (auto intro!: reading_bind_lift reading_query reading_last reading_pure l)
qed

text \<open>What a request does to the stored data: nothing, or what one use case does.\<close>

definition served :: "service \<Rightarrow> database world \<Rightarrow> database world \<Rightarrow> bool" where
  "served sv w w' \<longleftrightarrow>
     idle w' \<and> same_data (db w) (db w')
     \<or> (\<exists>c cmd r. OpenWallet_Execute (sv_env sv) (sv_retry sv) c cmd w = (r, w'))
     \<or> (\<exists>c cmd r. Submit_execute (sv_env sv) (sv_retry sv) (sv_waiting sv) c cmd w = (r, w'))"

lemma answer_error_world [simp]: "x_world (answer_error c e x) = x_world x"
  by (simp add: answer_error_def split: prod.split)

lemma answering_world: "(\<And>v y. x_world (k v y) = x_world y) \<Longrightarrow> x_world (answering c m k x) = snd (m (x_world x))"
  by (simp add: answering_def split: sum.split prod.split)

lemma answering_reads: "reading m \<Longrightarrow> (\<And>v y. x_world (k v y) = x_world y) \<Longrightarrow> idle (x_world x) \<Longrightarrow>
   served sv (x_world x) (x_world (answering c m k x))"
  by (simp add: answering_world served_def reading_def)

lemma served_refl: "idle w \<Longrightarrow> served sv w w"
  by (simp add: served_def)

lemma endpoints_served:
  assumes "idle (x_world x)"
  shows "served sv (x_world x) (x_world (WalletHandler_Open sv r c x))"
    "served sv (x_world x) (x_world (WalletHandler_Get sv i r c x))"
    "served sv (x_world x) (x_world (WalletHandler_Ledger sv i r c x))"
    "served sv (x_world x) (x_world (ReconciliationHandler_Check sv i r c x))"
    "served sv (x_world x) (x_world (TransactionHandler_Submit sv r c x))"
    "served sv (x_world x) (x_world (TransactionHandler_Get sv i r c x))"
    "served sv (x_world x) (x_world (TransactionHandler_GetByProvider sv i j r c x))"
    "served sv (x_world x) (x_world (HealthHandler_Live r c x))"
    "served sv (x_world x) (x_world (HealthHandler_Ready sv r c x))"
proof -
  show "served sv (x_world x) (x_world (WalletHandler_Open sv r c x))"
  proof -
    have "served sv (x_world x) (x_world (answering c (OpenWallet_Execute (sv_env sv) (sv_retry sv) c cmd)
        (\<lambda>wallet. writeJSON StatusCreated (WalletBody (toWalletResponse wallet))) x))" for cmd
      unfolding served_def using answering_world [where c = c and x = x] by (simp add: answering_world) (metis prod.collapse)
    then show ?thesis unfolding WalletHandler_Open_def using assms by (simp add: served_refl split: sum.split option.split)
  qed
  show "served sv (x_world x) (x_world (WalletHandler_Get sv i r c x))"
    unfolding WalletHandler_Get_def using assms by (intro answering_reads reads_read) simp_all
  show "served sv (x_world x) (x_world (WalletHandler_Ledger sv i r c x))"
    unfolding WalletHandler_Ledger_def using assms answering_reads [OF reads_read(4)]
    by (simp add: served_refl split: sum.split)
  show "served sv (x_world x) (x_world (ReconciliationHandler_Check sv i r c x))"
  proof -
    let ?m = "bindE (lift (caller c ScopeWallets)) (\<lambda>_.
            bindE (lift (ParseWalletID i)) (\<lambda>j. Snapshot_Do (sv_env sv) c (reconcile_view (sv_env sv) j)))"
    have "reading (Snapshot_Do (sv_env sv) c (reconcile_view (sv_env sv) j))" for j
      unfolding reading_def using Snapshot_idle by (metis prod.collapse)
    then have "reading ?m" by (auto intro!: reading_bind_lift)
    then have "idle (snd (?m (x_world x))) \<and> same_data (db (x_world x)) (db (snd (?m (x_world x))))"
      using assms by (simp add: reading_def)
    moreover obtain q w1 where "?m (x_world x) = (q, w1)" by (metis surj_pair)
    ultimately show ?thesis
      unfolding ReconciliationHandler_Check_def ReconcileWallet_Execute_def served_def
      by (cases q) (simp_all add: Let_def)
  qed
  show "served sv (x_world x) (x_world (TransactionHandler_Submit sv r c x))"
  proof (cases "read_submit r")
    case (Inl e)
    then show ?thesis using assms by (simp add: TransactionHandler_Submit_def served_refl)
  next
    case (Inr cmd)
    obtain q w1 where q: "Submit_execute (sv_env sv) (sv_retry sv) (sv_waiting sv) c cmd (x_world x) = (q, w1)"
      by (metis surj_pair)
    then have "x_world (TransactionHandler_Submit sv r c x) = w1"
      by (cases q) (simp_all add: TransactionHandler_Submit_def Inr Submit_Execute_def Let_def)
    then show ?thesis unfolding served_def using q by blast
  qed
  show "served sv (x_world x) (x_world (TransactionHandler_Get sv i r c x))"
    unfolding TransactionHandler_Get_def using assms by (intro answering_reads reads_read) simp_all
  show "served sv (x_world x) (x_world (TransactionHandler_GetByProvider sv i j r c x))"
    unfolding TransactionHandler_GetByProvider_def using assms by (intro answering_reads reads_read) simp_all
  show "served sv (x_world x) (x_world (HealthHandler_Live r c x))"
    "served sv (x_world x) (x_world (HealthHandler_Ready sv r c x))"
    using assms by (simp_all add: health_simps served_refl)
qed

lemma routes_served:
  assumes "rt \<in> set (routeTable sv)" "idle (x_world x)"
  shows "served sv (x_world x) (x_world (rt_handler rt vs r c x))"
  using assms endpoints_served [OF assms(2), where sv = sv and r = r and c = c] by (auto simp: routeTable_def)

lemma Handler_world:
  assumes "Handler sv (Routes sv) r c x = (f, x')" "idle (x_world x)"
  shows "served sv (x_world x) (x_world x')"
proof -
  let ?c = "WithCorrelationID c (correlation_of sv r x)" and ?x = "inside sv r x"
  have i: "idle (x_world ?x)" using assms(2) by simp
  show ?thesis
  proof (cases "find_route (routeTable sv) r")
    case None
    then have "x_world x' = x_world x" using Handler_served [of sv r c x] assms(1) by (simp add: Let_def)
    then show ?thesis using assms(2) by (simp add: served_refl)
  next
    case (Some m)
    obtain rt vs where m: "m = (rt, vs)" by (cases m)
    have mem: "rt \<in> set (routeTable sv)" using find_route_mem Some m by blast
    let ?y = "(if rt_public rt then rt_handler rt (first_value vs) else Authenticator_require sv (rt_handler rt (first_value vs)))
             r ?c ?x"
    have "x_world x' = x_world ?y" using Handler_served [of sv r c x] assms(1) Some m by (simp add: Let_def)
    moreover have "x_world (Authenticator_refuse ?c ?x) = x_world x" by (simp add: Authenticator_refuse_def)
    ultimately show ?thesis
      using routes_served [OF mem i] assms(2) served_refl
      by (cases "rt_public rt"; cases "authenticate sv r ?x") (simp_all add: require_cases)
  qed
qed

section \<open>Steps keep the store sound and its history whole\<close>

lemma soundI:
  assumes "sound w b" "idle w'" "evolves commit\<^sup>*\<^sup>* (db w) (db w')" "d_inbox (db w') = d_inbox (db w)"
  shows "\<exists>b'. sound w' b' \<and> commit\<^sup>*\<^sup>* b b'"
  using assms commits_ok unfolding sound_def evolves_def inbox_ok_def by metis

lemma same_data_sound: "sound w b \<Longrightarrow> idle w' \<Longrightarrow> same_data (db w) (db w') \<Longrightarrow> \<exists>b'. sound w' b' \<and> commit\<^sup>*\<^sup>* b b'"
  unfolding sound_def using represents_same_data same_data_inbox by blast

lemma served_sound:
  assumes "served sv w w'" "sound w b" "clock_ok (sv_env sv)" "sv_waiting sv = ReferencePolicy_normalised pol"
  shows "\<exists>b'. sound w' b' \<and> commit\<^sup>*\<^sup>* b b'"
proof -
  have w: "idle w" using assms(2) by (simp add: sound_def)
  consider "idle w'" "same_data (db w) (db w')"
    | c cmd r where "OpenWallet_Execute (sv_env sv) (sv_retry sv) c cmd w = (r, w')"
    | c cmd r where "Submit_execute (sv_env sv) (sv_retry sv) (sv_waiting sv) c cmd w = (r, w')"
    using assms(1) unfolding served_def by blast
  then show ?thesis
  proof cases
    case 1
    then show ?thesis by (rule same_data_sound [OF assms(2)])
  next
    case 2
    then show ?thesis
      using OpenWallet_Execute_ok [OF 2 w assms(3)] inbox_frame.keeps_OpenWallet [OF 2 w] soundI [OF assms(2)] evolves_star by blast
  next
    case 3
    then show ?thesis
      using Submit_execute_books [OF 3 [unfolded assms(4)] w assms(3)] inbox_frame.keeps_Submit_execute [OF 3 w]
        soundI [OF assms(2)] evolves_star by blast
  qed
qed

lemma step_sound:
  assumes "step \<Gamma> w w'" "clock_ok \<Gamma>" "sound w b"
  shows "\<exists>b'. sound w' b' \<and> commit\<^sup>*\<^sup>* b b'"
proof -
  have w: "idle w" using assms(3) by (simp add: sound_def)
  show ?thesis
    using assms(1)
  proof cases
    case (request sv r c x f x' pol)
    then show ?thesis using Handler_world [OF request(3)] w served_sound assms(2,3) by metis
  next
    case (poll retry pol cl cfg c reply res metrics requests)
    then show ?thesis using RunOnce_sound [OF _ assms(2,3)] by blast
  next
    case (revisit retry pol c res k)
    note l = worker_loop_books [OF revisit(1) [unfolded Worker_RunOnce_def] w assms(2)]
    then show ?thesis
      using soundI [OF assms(3)] inbox_frame.keeps_Worker_RunOnce [OF revisit(1) w] by blast
  next
    case (publish retry policy c res v)
    have "idle w'" using do_effect [OF publish(1) [unfolded Publisher_RunOnce_def] w] by simp
    moreover have "same_bank (db w) (db w')" "d_inbox (db w') = d_inbox (db w)"
      using books_frame.keeps_Publisher_RunOnce [OF publish(1) w] by auto
    ultimately show ?thesis using soundI [OF assms(3)] evolves_star evolves_same_bank by blast
  next
    case (elapse n)
    then have "sound w' b" using assms(3) by (simp add: sound_def idle_def)
    then show ?thesis by blast
  qed
qed

text \<open>What every statement keeps, every step keeps.\<close>

context store_frame
begin

lemma keeps_served: "served sv w w' \<Longrightarrow> idle w \<Longrightarrow> R (db w) (db w')"
  unfolding served_def using same_data_kept keeps_OpenWallet keeps_Submit_execute by blast

lemma keeps_step:
  assumes "step \<Gamma> w w'" "idle w"
  shows "R (db w) (db w')"
  using assms(1)
proof cases
  case (request sv r c x f x' pol)
  then show ?thesis using Handler_world [OF request(3)] keeps_served assms(2) by metis
next
  case (poll retry pol cl cfg c reply res metrics requests)
  show ?thesis by (rule keeps_RunOnce [OF poll(1) assms(2)])
next
  case (revisit retry pol c res k)
  show ?thesis by (rule keeps_Worker_RunOnce [OF revisit(1) assms(2)])
next
  case (publish retry policy c res v)
  show ?thesis by (rule keeps_Publisher_RunOnce [OF publish(1) assms(2)])
next
  case (elapse n)
  then show ?thesis by (simp add: kept_refl)
qed

end

lemma steps_sound:
  assumes "(step \<Gamma>)\<^sup>*\<^sup>* w w'" "clock_ok \<Gamma>" "sound w b"
  shows "\<exists>b'. sound w' b' \<and> commit\<^sup>*\<^sup>* b b' \<and> history (db w) (db w') \<and> (outbox_ok (db w) \<longrightarrow> outbox_ok (db w'))"
  using assms(1)
proof (induction rule: rtranclp_induct)
  case base
  then show ?case using assms(3) history_same by auto
next
  case (step y z)
  then obtain b' where b': "sound y b'" "commit\<^sup>*\<^sup>* b b'" "history (db w) (db y)" "outbox_ok (db w) \<longrightarrow> outbox_ok (db y)" by blast
  moreover have "idle y" using b'(1) by (simp add: sound_def)
  ultimately show ?case
    using step_sound [OF step(2) assms(2) b'(1)] history_frame.keeps_step [OF step(2)] outbox_frame.keeps_step [OF step(2)]
    by (meson history_trans rtranclp_trans)
qed

section \<open>What sound books say\<close>

lemma books_balance:
  assumes "bank_ok b" "x \<in> set (b_wallets b)"
  shows "0 \<le> balance_value (w_balance x)"
    "balance_value (w_balance x) = sum_list (map entry_delta (entries_of b (w_id x)))"
proof -
  have bal: "chain 0 (entries_of b (w_id x)) (balance_value (w_balance x))" and st: "wallet_st x"
    using assms by (auto simp: bank_ok_def balanced_def wallets_ok_def)
  have "\<forall>e\<in>set (entries_of b (w_id x)). entry_ok e"
    using assms(1) by (auto simp: bank_ok_def entries_ok_def entries_of_def entry_st_def)
  then show "balance_value (w_balance x) = sum_list (map entry_delta (entries_of b (w_id x)))"
    using chain_sum [OF bal] by simp
  show "0 \<le> balance_value (w_balance x)" using st by (simp add: wallet_st_def wallet_ok_def)
qed

lemma books_posted:
  assumes "bank_ok b" "t \<in> set (b_txs b)" "moved_money t"
  shows "\<exists>!e. e \<in> snd ` set (b_entries b) \<and> e_transactionID e = t_id t"
proof -
  have e: "entries_ok b" and u: "distinct (map t_id (b_txs b))" using assms(1) by (auto simp: bank_ok_def txs_ok_def)
  then obtain e0 where "e0 \<in> snd ` set (b_entries b)" "e_transactionID e0 = t_id t"
    using assms(2,3) unfolding entries_ok_def by force
  moreover have "x = y" if "x \<in> snd ` set (b_entries b)" "y \<in> snd ` set (b_entries b)" "e_transactionID x = e_transactionID y" for x y
  proof -
    have "inj_on (\<lambda>se. e_transactionID (snd se)) (set (b_entries b))"
      using e by (simp add: entries_ok_def distinct_map)
    then show ?thesis using that by (auto simp: inj_on_def)
  qed
  ultimately show ?thesis by metis
qed

lemma stored_distinct:
  assumes "represents d b" "bank_ok b"
  shows "distinct (map tr_id (d_transactions d))"
proof -
  have "d_transactions d = map tx_row_of (b_txs b)" using assms(1) by (simp add: represents_def tt.holds_def)
  moreover have "distinct (map (\<lambda>t. tr_id (tx_row_of t)) (b_txs b))"
    using assms(2) by (auto simp: bank_ok_def txs_ok_def distinct_map inj_on_def tx_row_of_def ident_String_def ident.expand)
  ultimately show ?thesis by (simp add: comp_def)
qed

lemma grown_member: "grown P xs ys \<Longrightarrow> x \<in> set xs \<Longrightarrow> \<exists>y\<in>set ys. P x y"
  unfolding grown_def by (auto simp: list_all2_conv_all_nth in_set_conv_nth) (metis nth_append nth_mem Un_iff)

section \<open>Properties\<close>

text \<open>
  C1. The books are right in every state the service can reach. Start with a store that is in order,
  the empty one for example, and let the service run: requests of any kind with any input,
  deliveries, ticks of the worker and of the publisher, in any order, any number of them, with
  any fault of the database, any lost answer of a commit and any behaviour of the broker. At
  every moment no transaction is open and the stored rows are books that came about by commits
  of the specification: no balance is negative, every balance is exactly the sum of the signed
  entries of its ledger, every processed operation that moves money has exactly one entry, every
  entry belongs to such an operation and has its amount and direction, and any two operations
  are compatible: no two of them share a business identity or an idempotency key, open the same
  wallet or undo the same operation. Every message of the inbox is settled, and the events of
  the outbox are told apart by their ids.
\<close>

theorem books_right_everywhere:
  assumes "clock_ok \<Gamma>" "idle w0" "represents (db w0) b0" "bank_ok b0" "inbox_ok (db w0)" "outbox_ok (db w0)" "(step \<Gamma>)\<^sup>*\<^sup>* w0 w"
  shows "idle w \<and> inbox_ok (db w) \<and> outbox_ok (db w) \<and> (\<exists>b. represents (db w) b \<and> commit\<^sup>*\<^sup>* b0 b
    \<and> (\<forall>x\<in>set (b_wallets b). 0 \<le> balance_value (w_balance x)
         \<and> balance_value (w_balance x) = sum_list (map entry_delta (entries_of b (w_id x))))
    \<and> (\<forall>t\<in>set (b_txs b). moved_money t \<longrightarrow> (\<exists>!e. e \<in> snd ` set (b_entries b) \<and> e_transactionID e = t_id t))
    \<and> (\<forall>e\<in>snd ` set (b_entries b). \<exists>t\<in>set (b_txs b). posted_as (b_txs b) t e)
    \<and> (\<forall>t\<in>set (b_txs b). \<forall>u\<in>set (b_txs b). t \<noteq> u \<longrightarrow> tx_compat t u))"
proof -
  have "sound w0 b0" using assms by (simp add: sound_def)
  then obtain b where b: "sound w b" "commit\<^sup>*\<^sup>* b0 b" "outbox_ok (db w)" using steps_sound [OF assms(7,1)] assms(6) by blast
  then have ok: "bank_ok b" and rep: "idle w" "inbox_ok (db w)" "represents (db w) b" by (auto simp: sound_def)
  have "(\<forall>e\<in>snd ` set (b_entries b). \<exists>t\<in>set (b_txs b). posted_as (b_txs b) t e)"
    "(\<forall>t\<in>set (b_txs b). \<forall>u\<in>set (b_txs b). t \<noteq> u \<longrightarrow> tx_compat t u)"
    using ok by (auto simp: bank_ok_def entries_ok_def txs_ok_def)
  then show ?thesis using rep b(2,3) books_balance [OF ok] books_posted [OF ok] by (intro conjI exI [of _ b]) auto
qed

text \<open>
  C2. Nothing is taken back. Between any two moments of a run the ledger only grows at its end, no
  transaction disappears or changes its request, and one that reached a final status is the
  very same row for ever, so an answer that was given stays the answer; no event disappears or
  changes the facts it carries, a published one stays published, and a message that was
  handled stays handled.
\<close>

theorem nothing_taken_back:
  assumes "clock_ok \<Gamma>" "idle w" "represents (db w) b" "bank_ok b" "inbox_ok (db w)" "(step \<Gamma>)\<^sup>*\<^sup>* w w'"
  shows "(\<exists>rows. d_ledger (db w') = d_ledger (db w) @ rows)
    \<and> (\<forall>t\<in>set (d_transactions (db w)). \<exists>t'\<in>set (d_transactions (db w')).
         t' = set_tx_columns t' t \<and> (terminal_row t \<longrightarrow> t' = t))
    \<and> (\<forall>e\<in>set (d_outbox (db w)). \<exists>e'\<in>set (d_outbox (db w')).
         same_event e e' \<and> (or_published_at e \<noteq> None \<longrightarrow> e' = e))
    \<and> (\<forall>m\<in>set (d_inbox (db w)). \<exists>m'\<in>set (d_inbox (db w')).
         m' = m\<lparr>ir_completed_at := ir_completed_at m'\<rparr> \<and> (ir_completed_at m \<noteq> None \<longrightarrow> ir_completed_at m' \<noteq> None))"
proof -
  have "sound w b" using assms by (simp add: sound_def)
  then have "history (db w) (db w')" using steps_sound [OF assms(6,1)] by blast
  moreover have "distinct (map tr_id (d_transactions (db w)))" by (rule stored_distinct [OF assms(3,4)])
  ultimately have h: "grown (=) (d_ledger (db w)) (d_ledger (db w'))" "grown tx_kept (d_transactions (db w)) (d_transactions (db w'))"
    "grown event_kept (d_outbox (db w)) (d_outbox (db w'))" "grown message_kept (d_inbox (db w)) (d_inbox (db w'))"
    by (auto simp: history_def)
  have "\<forall>t\<in>set (d_transactions (db w)). \<exists>t'\<in>set (d_transactions (db w')).
         t' = set_tx_columns t' t \<and> (terminal_row t \<longrightarrow> t' = t)"
    using grown_member [OF h(2)] unfolding tx_kept_def by metis
  moreover have "\<forall>e\<in>set (d_outbox (db w)). \<exists>e'\<in>set (d_outbox (db w')).
         same_event e e' \<and> (or_published_at e \<noteq> None \<longrightarrow> e' = e)"
    using grown_member [OF h(3)] unfolding event_kept_def by metis
  moreover have "\<forall>m\<in>set (d_inbox (db w)). \<exists>m'\<in>set (d_inbox (db w')).
         m' = m\<lparr>ir_completed_at := ir_completed_at m'\<rparr> \<and> (ir_completed_at m \<noteq> None \<longrightarrow> ir_completed_at m' \<noteq> None)"
    using grown_member [OF h(4)] unfolding message_kept_def by metis
  ultimately show ?thesis using h(1) by (simp add: grown_same)
qed

section \<open>An instance\<close>

text \<open>A request and a tick of the worker, on the store of the samples.\<close>

definition demo_run :: "database world" where
  "demo_run =
     (let x = snd (Handler (demo_service\<lparr>sv_waiting := ReferencePolicy_normalised DefaultReferencePolicy\<rparr>)
            (Routes (demo_service\<lparr>sv_waiting := ReferencePolicy_normalised DefaultReferencePolicy\<rparr>))
            demo_request no_caller demo_exchange) in
      snd (snd (Worker_RunOnce calm DefaultRetryPolicy (ReferencePolicy_normalised DefaultReferencePolicy) no_caller (x_world x))))"

lemma demo_steps: "(step calm)\<^sup>*\<^sup>* (start demo_db) demo_run"
proof -
  let ?sv = "demo_service\<lparr>sv_waiting := ReferencePolicy_normalised DefaultReferencePolicy\<rparr>"
  obtain f x where x: "Handler ?sv (Routes ?sv) demo_request no_caller demo_exchange = (f, x)" by (rule prod.exhaust)
  obtain r k w where w: "Worker_RunOnce calm DefaultRetryPolicy (ReferencePolicy_normalised DefaultReferencePolicy) no_caller (x_world x) = (r, k, w)"
    by (rule prod_cases3)
  have "step calm (x_world demo_exchange) (x_world x)"
    by (rule step.request [OF x, where pol = DefaultReferencePolicy]) (simp_all add: demo_service_def)
  moreover have "step calm (x_world x) w" by (rule step.revisit [OF w])
  moreover have "demo_run = w" by (simp add: demo_run_def x w)
  moreover have "x_world demo_exchange = start demo_db" by (simp add: demo_exchange_def)
  ultimately show ?thesis by (auto intro: rtranclp.rtrancl_into_rtrancl)
qed

lemma demo_outbox: "outbox_ok (db (start demo_db))"
  by (simp add: start_def demo_db_def empty_db_def outbox_ok_def)

theorem books_right_everywhere_witness:
  "idle demo_run \<and> (\<exists>b. represents (db demo_run) b \<and> commit\<^sup>*\<^sup>* demo_bank b \<and> (\<forall>x\<in>set (b_wallets b). 0 \<le> balance_value (w_balance x)))"
  using books_right_everywhere [OF clock_ok_calm idle_start demo_sound(1) demo_bank_ok demo_sound(2) demo_outbox demo_steps]
  by (elim conjE exE) (intro conjI exI ballI; (assumption | drule (1) bspec, simp))

theorem nothing_taken_back_witness:
  "\<exists>rows. d_ledger (db demo_run) = d_ledger demo_db @ rows"
  using nothing_taken_back [OF clock_ok_calm idle_start demo_sound(1) demo_bank_ok demo_sound(2) demo_steps]
  by (simp add: start_def)

end
