(* ===== verification/Writes.thy ===== *)
theory Writes
  imports Samples
begin

text \<open>
  The write direction of the repositories: what the domain builds satisfies every \<open>CHECK\<close> of the
  schema, so that a refused write is a collision or a missing parent; and on a database that
  answers, a write that collides with nothing succeeds.
\<close>

section \<open>Checks\<close>

lemma kind_strings:
  assumes "Kind_Valid k"
  shows "string_of_kind k \<in> {''OPENING'', ''BET'', ''WIN'', ''LOSS'', ''REFUND'', ''ROLLBACK''}"
    "string_of_kind k = ''LOSS'' \<longleftrightarrow> k = KindLoss" "string_of_kind k = ''OPENING'' \<longleftrightarrow> k = KindOpening"
    "string_of_kind k \<in> {''REFUND'', ''ROLLBACK''} \<longleftrightarrow> Kind_IsReversal k"
  using assms by (cases k; simp add: Kind_Valid_def Kind_IsReversal_def)+

lemma status_strings:
  assumes "Status_Valid s"
  shows "string_of_status s \<in> {''PENDING'', ''PENDING_REFERENCE'', ''PROCESSED'', ''REJECTED'', ''FAILED''}"
    "string_of_status s \<in> {''REJECTED'', ''FAILED''} \<longleftrightarrow> s = StatusRejected \<or> s = StatusFailed"
    "string_of_status s = ''PENDING_REFERENCE'' \<longleftrightarrow> s = StatusPendingReference"
  using assms by (cases s; simp add: Status_Valid_def)+

lemma nullable_None: "nullable s = None \<longleftrightarrow> s = ''''" by (simp add: nullable_def)

lemma nullable_ident: "nullable (ident_String i) = None \<longleftrightarrow> ident_IsZero i"
  by (simp add: nullable_None ident_IsZero_def)

lemma code_empty: "proper_code c \<Longrightarrow> string_of_code c = '''' \<longleftrightarrow> c = CodeOther ''''"
proof -
  assume "proper_code c"
  moreover have "code_of_string '''' = CodeOther ''''" by code_simp
  moreover have "string_of_code (CodeOther '''') = ''''" by simp
  ultimately show ?thesis unfolding proper_code_def by metis
qed

lemma nullableTime_None: "nullableTime t = None \<longleftrightarrow> time_IsZero t" by (simp add: nullableTime_def)

lemma tx_row_checks:
  assumes t: "tx_storable t" and b: "0 \<le> balance_value (t_balanceAfter t)" and a: "0 \<le> sint (t_referenceAttempts t)"
  shows "\<forall>(n, ok)\<in>set (tx_checks (tx_row_of t)). ok"
proof -
  note sel = tx_row_of_def tx_row.select_convs
  have sh: "tx_shape t" "tx_life t" and pc: "proper_code (t_failureCode t)" and iso: "iso4217 (code_str (currency (t_money t)))"
    using t by (auto simp: tx_storable_def tx_ok_def)
  have kv: "Kind_Valid (t_kind t)" and sv: "Status_Valid (t_status t)" and am: "amount_ok (t_kind t) (t_money t)"
    and md: "tx_metadata_ok t" using sh(1) by (auto simp: tx_shape_def)
  note ks = kind_strings [OF kv] and ss = status_strings [OF sv]
  have amount: "(tr_kind (tx_row_of t) = ''LOSS'' \<and> tr_amount_minor (tx_row_of t) = 0)
         \<or> (tr_kind (tx_row_of t) \<noteq> ''LOSS'' \<and> 0 < sint (tr_amount_minor (tx_row_of t)))"
    using am IsZero_iff [of "t_money t"] unfolding sel ks(2) by (auto simp: amount_ok_def Money_IsZero_def split: if_splits)
  have after: "case tr_balance_after_minor (tx_row_of t) of None \<Rightarrow> True | Some v \<Rightarrow> 0 \<le> sint v"
    using b unfolding sel by (simp add: nullableMinor_def)
  have cur: "iso4217 (tr_currency (tx_row_of t))" using iso unfolding sel by (simp add: Currency_String_def)
  have ext: "tr_origin (tx_row_of t) \<noteq> ''EXTERNAL'' \<or> (tr_kind (tx_row_of t) \<noteq> ''OPENING'' \<and> tr_provider_id (tx_row_of t) \<noteq> None
       \<and> tr_external_id (tx_row_of t) \<noteq> None \<and> tr_idempotency_key (tx_row_of t) \<noteq> None \<and> tr_payload_hash (tx_row_of t) \<noteq> None
       \<and> tr_round_id (tx_row_of t) \<noteq> None \<and> tr_game_id (tx_row_of t) \<noteq> None)"
    using md unfolding sel ks(3) nullable_ident by (auto simp: tx_metadata_ok_def split: if_splits)
  have fail: "(tr_status (tx_row_of t) \<in> {''REJECTED'', ''FAILED''} \<and> tr_failure_code (tx_row_of t) \<noteq> None)
         \<or> (tr_status (tx_row_of t) \<notin> {''REJECTED'', ''FAILED''} \<and> tr_failure_code (tx_row_of t) = None)"
    using sh(2) unfolding sel ss(2) nullable_None code_empty [OF pc] by (auto simp: tx_life_def)
  have int: "tr_origin (tx_row_of t) \<noteq> ''INTERNAL'' \<or> (tr_kind (tx_row_of t) = ''OPENING'' \<and> tr_provider_id (tx_row_of t) = None
       \<and> tr_external_id (tx_row_of t) = None \<and> tr_idempotency_key (tx_row_of t) = None \<and> tr_payload_hash (tx_row_of t) = None
       \<and> tr_round_id (tx_row_of t) = None \<and> tr_game_id (tx_row_of t) = None \<and> tr_reference_external_id (tx_row_of t) = None)"
    using md unfolding sel ks(3) nullable_ident by (auto simp: tx_metadata_ok_def ident_IsZero_iff split: if_splits)
  have kind: "tr_kind (tx_row_of t) \<in> {''OPENING'', ''BET'', ''WIN'', ''LOSS'', ''REFUND'', ''ROLLBACK''}" using ks(1) unfolding sel .
  have origin: "tr_origin (tx_row_of t) \<in> {''INTERNAL'', ''EXTERNAL''}"
    using md unfolding sel by (auto simp: tx_metadata_ok_def split: if_splits)
  have ref: "(tr_kind (tx_row_of t) \<in> {''REFUND'', ''ROLLBACK''} \<and> tr_reference_external_id (tx_row_of t) \<noteq> None)
         \<or> (tr_kind (tx_row_of t) \<notin> {''REFUND'', ''ROLLBACK''} \<and> tr_reference_external_id (tx_row_of t) = None)"
    using md unfolding sel ks(4) nullable_ident
    by (auto simp: tx_metadata_ok_def ident_IsZero_iff Kind_IsReversal_def split: if_splits)
  have wait: "(tr_status (tx_row_of t) = ''PENDING_REFERENCE'' \<and> tr_kind (tx_row_of t) \<in> {''REFUND'', ''ROLLBACK''}
          \<and> tr_reference_next_attempt_at (tx_row_of t) \<noteq> None \<and> tr_reference_deadline_at (tx_row_of t) \<noteq> None)
         \<or> tr_status (tx_row_of t) \<noteq> ''PENDING_REFERENCE''"
    using sh(2) unfolding sel ss(3) ks(4) nullableTime_None by (auto simp: tx_life_def)
  have status: "tr_status (tx_row_of t) \<in> {''PENDING'', ''PENDING_REFERENCE'', ''PROCESSED'', ''REJECTED'', ''FAILED''}"
    using ss(1) unfolding sel .
  have att: "0 \<le> sint (tr_reference_attempts (tx_row_of t))" using a unfolding sel .
  show ?thesis
    unfolding tx_checks_def using amount after cur ext fail int kind origin ref wait status att by simp
qed

lemma entry_row_checks:
  assumes e: "entry_st (trunc_entry e)" and b: "0 \<le> balance_value (e_balanceBefore e)" "0 \<le> balance_value (e_balanceAfter e)"
  shows "\<forall>(n, ok)\<in>set (ledger_checks (numbered_row (s, trunc_entry e))). ok"
proof -
  have ok: "entry_ok (trunc_entry e)" and iso: "iso4217 (code_str (currency (e_amount e)))" using e by (auto simp: entry_st_def)
  have dir: "e_direction e = Debit \<or> e_direction e = Credit"
    using ok by (auto simp: entry_ok_def Direction_Valid_def)
  have sum: "balance_value (e_balanceAfter e) = balance_value (e_balanceBefore e) + direction_sign (e_direction e) * balance_value (e_amount e)"
    "0 < balance_value (e_amount e)"
    using ok by (auto simp: entry_ok_def entry_delta_def)
  then show ?thesis
    using dir iso b
    by (auto simp: ledger_checks_def numbered_row_def ledger_row_of_def Currency_String_def direction_sign_def)
qed

lemma wallet_row_checks:
  assumes "wallet_st (trunc_wallet x)"
  shows "\<forall>(n, ok)\<in>set (wallet_checks (wallet_row_of x)). ok"
  using assms by (auto simp: wallet_st_def wallet_ok_def wallet_checks_def wallet_row_of_def Currency_String_def)

section \<open>What can refuse a write\<close>

lemma refusal_checked:
  assumes "\<forall>(n, ok)\<in>set checks. ok"
  shows "refusal tbl checks uniques fkeys = None
    \<or> (\<exists>n. n \<in> fst ` set uniques \<and> refusal tbl checks uniques fkeys = Some (PgError codeUniqueViolation n tbl ''''))
    \<or> (\<exists>n. n \<in> fst ` set fkeys \<and> refusal tbl checks uniques fkeys = Some (PgError codeForeignKeyViolation n tbl ''''))"
proof -
  have c: "first_violated checks = None" using assms by (simp add: first_violated_None)
  have mem: "first_violated rs = Some n \<Longrightarrow> n \<in> fst ` set rs" for rs n
    by (auto simp: first_violated_def find_Some_iff) (metis nth_mem image_eqI fst_conv)
  show ?thesis using mem [of uniques] mem [of fkeys] by (auto simp: refusal_def c split: option.splits)
qed

lemma insert_wallet_checked:
  assumes x: "wallet_st (trunc_wallet x)"
  shows "fst (insert_wallet (wallet_row_of x) d) = Inr ()
     \<or> (\<exists>n\<in>{''wallets_pkey'', ''wallets_one_per_player_and_currency''}.
          insert_wallet (wallet_row_of x) d = (Inl (PgError codeUniqueViolation n ''wallets'' ''''), d))"
proof -
  have "iso4217 (code_str (w_currency x))" using x by (simp add: wallet_st_def)
  then have row: "(wallet_row_of x)\<lparr>wr_currency := char3 (take 3 (wr_currency (wallet_row_of x)))\<rparr> = wallet_row_of x"
    "\<not> too_long (wr_currency (wallet_row_of x))"
    by (simp_all add: wallet_row_of_def Currency_String_def currency_column)
  show ?thesis
    using refusal_checked [OF wallet_row_checks [OF x], of "''wallets''" "wallet_uniques (d_wallets d) (wallet_row_of x)" "[]"] row(2)
    by (auto simp: insert_wallet_def Let_def row(1) wallet_uniques_def)
qed

lemma insert_ledger_checked:
  assumes e: "entry_st (trunc_entry e)" "0 \<le> balance_value (e_balanceBefore e)" "0 \<le> balance_value (e_balanceAfter e)"
  shows "fst (insert_ledger (ledger_row_of e) d) = Inr ()
     \<or> (\<exists>n. fst (insert_ledger (ledger_row_of e) d) = Inl (PgError codeUniqueViolation n ''wallet_ledger_entries'' '''')
            \<or> fst (insert_ledger (ledger_row_of e) d) = Inl (PgError codeForeignKeyViolation n ''wallet_ledger_entries'' ''''))"
proof -
  have "iso4217 (code_str (currency (e_amount e)))" using e by (simp add: entry_st_def)
  then have row: "(ledger_row_of e)\<lparr>lr_currency := char3 (take 3 (lr_currency (ledger_row_of e))), lr_seq := s\<rparr>
      = numbered_row (s, trunc_entry e)" "\<not> too_long (lr_currency (ledger_row_of e))" for s
    by (simp_all add: ledger_row_of_def Currency_String_def currency_column)
  show ?thesis
    using refusal_checked [OF entry_row_checks [OF e, of "d_ledger_seq d"], of "''wallet_ledger_entries''"
        "ledger_uniques (d_ledger d) (numbered_row (d_ledger_seq d, trunc_entry e))"
        "ledger_fkeys (d\<lparr>d_ledger_seq := Suc (d_ledger_seq d)\<rparr>) (numbered_row (d_ledger_seq d, trunc_entry e))"] row(2)
    unfolding insert_ledger_def Let_def row(1) by auto
qed

lemma insert_tx_checked:
  assumes t: "tx_storable t" "0 \<le> balance_value (t_balanceAfter t)" "0 \<le> sint (t_referenceAttempts t)"
  shows "fst (insert_tx (tx_row_of t) d) = Inr ()
     \<or> (\<exists>n. insert_tx (tx_row_of t) d = (Inl (PgError codeUniqueViolation n ''wager_transactions'' ''''), d)
            \<or> insert_tx (tx_row_of t) d = (Inl (PgError codeForeignKeyViolation n ''wager_transactions'' ''''), d))"
proof -
  have "iso4217 (code_str (currency (t_money t)))" using t by (simp add: tx_storable_def)
  then have row: "(tx_row_of t)\<lparr>tr_currency := char3 (take 3 (tr_currency (tx_row_of t)))\<rparr> = tx_row_of t"
    "\<not> too_long (tr_currency (tx_row_of t))"
    by (simp_all add: tx_row_of_def Currency_String_def currency_column)
  show ?thesis
    using refusal_checked [OF tx_row_checks [OF t], of "''wager_transactions''" "tx_uniques (d_transactions d) (tx_row_of t)"
        "tx_fkeys d (tx_row_of t)"] row(2)
    unfolding insert_tx_def Let_def row(1) by auto
qed



definition demo_entry :: LedgerEntry where
  "demo_entry = \<lparr>e_id = Identifier ''e1'', e_walletID = Identifier ''w1'', e_transactionID = Identifier ''t1'',
     e_direction = Credit, e_amount = \<lparr>minor = 500, currency = \<lparr>code_str = ''BRL''\<rparr>\<rparr>,
     e_balanceBefore = \<lparr>minor = 0, currency = \<lparr>code_str = ''BRL''\<rparr>\<rparr>,
     e_balanceAfter = \<lparr>minor = 500, currency = \<lparr>code_str = ''BRL''\<rparr>\<rparr>, e_createdAt = demo_time\<rparr>"


end
