(* ===== verification/Completion.thy ===== *)
theory Completion
  imports Verdict Writes Frame
begin

text \<open>
  A submission is always answered. While the database, the clock and the identifier generator do
  their work, a valid first submission is not lost in an error: it is recorded, with the outcome
  the rules give it. The proof goes statement by statement: none of them is refused.
\<close>

section \<open>Computations that succeed\<close>

definition works :: "('d, 'a) io \<Rightarrow> 'd world \<Rightarrow> bool" where
  "works m w \<longleftrightarrow> (\<exists>x w'. m w = (Inr x, w'))"

lemma worksE: "works m w \<Longrightarrow> (\<And>x w'. m w = (Inr x, w') \<Longrightarrow> P) \<Longrightarrow> P"
  unfolding works_def by blast

lemma works_bind: "works m w \<Longrightarrow> (\<And>x w'. m w = (Inr x, w') \<Longrightarrow> works (f x) w') \<Longrightarrow> works (bindE m f) w"
  unfolding works_def by (auto simp: bindE_def)

lemma works_simps [simp]: "works (ret x) w" "works (lift (Inr x)) w" "works (io_wrap m) w = works m w"
  by (auto simp: works_def io_wrap_def split: prod.splits sum.splits)

lemma works_handle: "m w = (r, w') \<Longrightarrow> works (handle m g) w = works (g r) w'"
  by (simp add: works_def handle_def)

lemma works_step: "m w = (Inr x, w') \<Longrightarrow> works (bindE m f) w = works (f x) w'"
  by (simp add: works_def bindE_def)

lemma works_bind_lift [simp]: "works (bindE (lift (Inr x)) f) w = works (f x) w"
  by (simp add: works_def)

lemma works_lift: "(\<exists>x. r = Inr x) \<Longrightarrow> works (lift r) w"
  by (auto simp: works_def)

lemma works_stmt:
  fixes w :: "'d world"
  assumes "healthy \<Gamma>" "\<not> aborted w" "\<exists>x. fst (f (calls w) (db w)) = Inr x"
  shows "works (io_translate (stmt \<Gamma> f)) w"
proof -
  obtain x where x: "fst (f (calls w) (db w)) = Inr x" using assms(3) by blast
  then have "f (calls w) (db w) = (Inr x, snd (f (calls w) (db w)))" by (simp add: prod_eq_iff)
  then have "stmt \<Gamma> f w = (Inr x, (tick w)\<lparr>db := snd (f (calls w) (db w))\<rparr>)"
    using assms(1,2) by (intro stmt_cases(4)) (auto simp: healthy_def)
  then show ?thesis by (simp add: works_def io_translate_def)
qed

text \<open>Time only goes forward.\<close>

definition later :: "('d, 'a) io \<Rightarrow> bool" where
  "later m \<longleftrightarrow> (\<forall>w r w'. m w = (r, w') \<longrightarrow> calls w \<le> calls w')"

lemma laterD: "later m \<Longrightarrow> m w = (r, w') \<Longrightarrow> calls w \<le> calls w'"
  by (auto simp: later_def)

lemma later_intros:
  "later (ret x)" "later (throw e)" "later (lift r)" "later (clock_Now \<Gamma>)" "later (rand_Int64N \<Gamma> n)"
  "later m \<Longrightarrow> (\<And>x. later (f x)) \<Longrightarrow> later (bindE m f)" "later m \<Longrightarrow> (\<And>x. later (g x)) \<Longrightarrow> later (handle m g)"
  "later m \<Longrightarrow> later (io_wrap m)" "later m \<Longrightarrow> later m' \<Longrightarrow> later (if p then m else m')"
  "(\<And>e. later (h e)) \<Longrightarrow> (\<And>x. later (f x)) \<Longrightarrow> later (case s of Inl e \<Rightarrow> h e | Inr x \<Rightarrow> f x)"
  subgoal by (simp add: later_def ret_def)
  subgoal by (simp add: later_def throw_def)
  subgoal by (simp add: later_def lift_def)
  subgoal by (simp add: later_def clock_Now_def)
  subgoal by (simp add: later_def rand_Int64N_def)
  subgoal unfolding later_def bindE_def by (auto split: prod.splits sum.splits) (metis le_trans)
  subgoal unfolding later_def handle_def by (auto split: prod.splits) (metis le_trans)
  subgoal unfolding later_def io_wrap_def by (auto split: prod.splits sum.splits)
  subgoal by simp
  subgoal by (cases s) auto
  done

lemma stmt_calls: "stmt \<Gamma> f w = (r, w') \<Longrightarrow> calls w \<le> calls w'"
  by (cases rule: stmt_exhaust [where w = w and \<Gamma> = \<Gamma> and f = f]) (auto simp: stmt_cases)

lemma later_stmt: "later (io_translate (stmt \<Gamma> f))" "later (io_translate (query \<Gamma> g))"
  unfolding later_def io_translate_def query_def by (auto split: prod.splits sum.splits dest: stmt_calls)

section \<open>A generator that keeps its promise\<close>

definition used_ids :: "database \<Rightarrow> string set" where
  "used_ids d = tr_id ` set (d_transactions d) \<union> lr_id ` set (d_ledger d) \<union> or_event_id ` set (d_outbox d)"

text \<open>
  From call \<open>n\<close> on: the database answers, the context is not cancelled, and the generator mints
  identifiers, none that is stored and none twice within sixteen calls.
\<close>

definition ready :: "env \<Rightarrow> ctx \<Rightarrow> database \<Rightarrow> nat \<Rightarrow> bool" where
  "ready \<Gamma> c d n \<longleftrightarrow> healthy \<Gamma> \<and> ids_usable \<Gamma> \<and> (\<forall>k\<ge>n. inj_on (env_uuid \<Gamma>) {k..<k + 16})
     \<and> (\<forall>k\<ge>n. \<not> (c_cancellable c \<and> env_done \<Gamma> k))
     \<and> (\<forall>k\<ge>n. \<exists>s. env_uuid \<Gamma> k = Some s \<and> s \<notin> used_ids d)"

lemma ready_later: "ready \<Gamma> c d n \<Longrightarrow> n \<le> m \<Longrightarrow> ready \<Gamma> c d m"
  unfolding ready_def by auto

lemma ids_next_run:
  assumes "ready \<Gamma> c d n" "n \<le> calls w"
  shows "\<exists>s. ids_next \<Gamma> c w = (Inr s, tick (tick w)) \<and> env_uuid \<Gamma> (Suc (calls w)) = Some s \<and> s \<notin> used_ids d
    \<and> s \<noteq> '''' \<and> length s \<le> maxIdentifierLength"
proof -
  have c: "\<not> (c_cancellable c \<and> env_done \<Gamma> (calls w))" using assms by (simp add: ready_def)
  have "n \<le> Suc (calls w)" using assms(2) by simp
  then obtain s where s: "env_uuid \<Gamma> (Suc (calls w)) = Some s" "s \<notin> used_ids d"
    using assms(1) unfolding ready_def by blast
  then have "s \<noteq> ''''" "length s \<le> maxIdentifierLength" using assms(1) by (auto simp: ready_def ids_usable_def)
  then show ?thesis using c s by (auto simp: ids_next_def ctx_Err_def bindE_def)
qed

lemma minted:
  assumes "ready \<Gamma> c d n" "n \<le> calls w"
  shows "\<exists>s. ids_NewTransactionID \<Gamma> c w = (Inr (Identifier s), tick (tick w))
      \<and> ids_NewLedgerEntryID \<Gamma> c w = (Inr (Identifier s), tick (tick w)) \<and> ids_NewEventID \<Gamma> c w = (Inr s, tick (tick w))
      \<and> s \<notin> used_ids d \<and> env_uuid \<Gamma> (Suc (calls w)) = Some s"
  using ids_next_run [OF assms]
  by (auto simp: ids_NewTransactionID_def ids_NewLedgerEntryID_def ids_NewEventID_def ParseTransactionID_def
      ParseLedgerEntryID_def parseIdentifier_def bindE_def)

section \<open>Writes that are not refused\<close>

lemma refusal_none: "refusal tbl checks uniques fkeys = None \<longleftrightarrow> (\<forall>(n, ok)\<in>set checks. ok) \<and> (\<forall>(n, ok)\<in>set uniques. ok) \<and> (\<forall>(n, ok)\<in>set fkeys. ok)"
  unfolding first_violated_None [symmetric] refusal_def by (auto split: option.split)

lemma processed_string: "Status_Valid s \<Longrightarrow> string_of_status s = ''PROCESSED'' \<longleftrightarrow> s = StatusProcessed"
  by (cases s) (simp_all add: Status_Valid_def)

lemma works_Transactions_Insert:
  assumes env: "healthy \<Gamma>" "\<not> aborted w" and rep: "represents (db w) b" "bank_ok b"
    and t: "tx_storable t" "t_kind t \<noteq> KindOpening" "0 \<le> balance_value (t_balanceAfter t)" "0 \<le> sint (t_referenceAttempts t)"
      "fits32 (t_referenceAttempts t)"
    and fresh: "t_id t \<notin> t_id ` set (b_txs b)"
      "\<forall>x\<in>set (b_txs b). \<not> (t_providerID x = t_providerID t \<and> (t_externalID x = t_externalID t \<or> t_idempotencyKey x = t_idempotencyKey t))"
      "t_status t = StatusProcessed \<Longrightarrow> \<not> ident_IsZero (t_resolvedReferenceID t) \<Longrightarrow>
         \<not> reversed_by (b_txs b) (t_resolvedReferenceID t) \<and> t_resolvedReferenceID t \<in> t_id ` set (b_txs b)"
      "t_status t \<noteq> StatusProcessed \<Longrightarrow> t_resolvedReferenceID t = ident_zero"
    and x: "t_walletID t \<in> w_id ` set (b_wallets b)"
  shows "works (Transactions_Insert \<Gamma> t) w"
proof -
  let ?d = "db w"
  note sel = tx_row_of_def tx_row.select_convs
  have txs: "d_transactions ?d = map tx_row_of (b_txs b)" and ws: "d_wallets ?d = map wallet_row_of (b_wallets b)"
    using rep(1) by (auto simp: represents_def tt.holds_def wt.holds_def)
  have "iso4217 (code_str (currency (t_money t)))" using t by (simp add: tx_storable_def)
  then have row: "(tx_row_of t)\<lparr>tr_currency := char3 (take 3 (tr_currency (tx_row_of t)))\<rparr> = tx_row_of t"
    "\<not> too_long (tr_currency (tx_row_of t))"
    by (simp_all add: tx_row_of_def Currency_String_def currency_column)
  have kv: "Kind_Valid (t_kind t)" using t(1) by (simp add: tx_storable_def tx_ok_def tx_shape_def)
  have u: "\<forall>(n, ok)\<in>set (tx_uniques (d_transactions ?d) (tx_row_of t)). ok"
  proof -
    have "\<forall>o'\<in>set (d_transactions ?d). tr_id o' \<noteq> tr_id (tx_row_of t)"
      using fresh(1) unfolding txs by (clarsimp simp: tx_row_of_def) (metis imageI)
    moreover have "\<forall>o'\<in>set (d_transactions ?d). \<not> (same_value (tr_provider_id o') (tr_provider_id (tx_row_of t))
         \<and> same_value (tr_external_id o') (tr_external_id (tx_row_of t)))"
      using fresh(2) unfolding txs sel by auto
    moreover have "\<forall>o'\<in>set (d_transactions ?d). \<not> (same_value (tr_provider_id o') (tr_provider_id (tx_row_of t))
         \<and> same_value (tr_idempotency_key o') (tr_idempotency_key (tx_row_of t)))"
      using fresh(2) unfolding txs sel by auto
    moreover have "tr_kind (tx_row_of t) \<noteq> ''OPENING''"
      using t(2) kind_strings(3) [OF kv] unfolding sel by simp
    moreover have "tr_status (tx_row_of t) = ''PROCESSED'' \<longrightarrow> (\<forall>o'\<in>set (d_transactions ?d). \<not> (tr_status o' = ''PROCESSED''
        \<and> same_value (tr_resolved_reference_id o') (tr_resolved_reference_id (tx_row_of t))))"
    proof (intro impI ballI notI)
      fix o'
      assume p: "tr_status (tx_row_of t) = ''PROCESSED''" "o' \<in> set (d_transactions ?d)"
        "tr_status o' = ''PROCESSED'' \<and> same_value (tr_resolved_reference_id o') (tr_resolved_reference_id (tx_row_of t))"
      then obtain y where y: "y \<in> set (b_txs b)" "o' = tx_row_of y" unfolding txs by auto
      have "Status_Valid (t_status y)"
        using y(1) rep(2) by (auto simp: bank_ok_def txs_ok_def tx_st_def tx_ok_def tx_shape_def)
      moreover have "Status_Valid (t_status t)" using t(1) by (simp add: tx_storable_def tx_ok_def tx_shape_def)
      moreover have "string_of_status (t_status t) = ''PROCESSED''" "string_of_status (t_status y) = ''PROCESSED''"
        using p(1,3) y(2) by (simp_all add: tx_row_of_def)
      ultimately have st: "t_status t = StatusProcessed" "t_status y = StatusProcessed"
        by (simp_all add: processed_string)
      have "t_resolvedReferenceID y = t_resolvedReferenceID t" "\<not> ident_IsZero (t_resolvedReferenceID t)"
        using p(3) y(2) by (auto simp: tx_row_of_def)
      then show False using st y(1) fresh(3) by (auto simp: reversed_by_def)
    qed
    ultimately show ?thesis by (simp add: tx_uniques_def)
  qed
  have f: "\<forall>(n, ok)\<in>set (tx_fkeys ?d (tx_row_of t)). ok"
  proof -
    have "\<exists>w'\<in>set (d_wallets ?d). wr_id w' = tr_wallet_id (tx_row_of t)"
      using x unfolding ws by (auto simp: tx_row_of_def wallet_row_of_def)
    moreover have "case tr_resolved_reference_id (tx_row_of t) of None \<Rightarrow> True
         | Some i \<Rightarrow> i = tr_id (tx_row_of t) \<or> (\<exists>y\<in>set (d_transactions ?d). tr_id y = i)"
    proof (cases "ident_IsZero (t_resolvedReferenceID t)")
      case True
      then show ?thesis by (simp add: tx_row_of_def nullable_def)
    next
      case False
      then have "t_resolvedReferenceID t \<in> t_id ` set (b_txs b)"
        using fresh(3,4) by (cases "t_status t = StatusProcessed") (auto simp: ident_IsZero_iff)
      then show ?thesis unfolding txs by (auto simp: tx_row_of_def split: option.split)
    qed
    ultimately show ?thesis by (simp add: tx_fkeys_def)
  qed
  have "refusal ''wager_transactions'' (tx_checks (tx_row_of t)) (tx_uniques (d_transactions ?d) (tx_row_of t)) (tx_fkeys ?d (tx_row_of t)) = None"
    unfolding refusal_none using tx_row_checks [OF t(1,3,4)] u f by (intro conjI)
  then have "fst (insert_tx (tx_row_of t) ?d) = Inr ()"
    using row(2) unfolding insert_tx_def Let_def row(1) by simp
  then have "works (io_translate (stmt \<Gamma> (\<lambda>_. insert_tx (tx_row_of t)))) w"
    using env by (intro works_stmt) auto
  moreover have "Tx_IsInitialised t" using t(1) by (simp add: Tx_IsInitialised_def tx_storable_def tx_ok_def tx_shape_def)
  ultimately show ?thesis using t(5) by (simp add: Transactions_Insert_def)
qed

lemma filter_key: "distinct (map f xs) \<Longrightarrow> y \<in> set xs \<Longrightarrow> filter (\<lambda>z. f z = f y) xs = [y]"
  by (induction xs) (force simp: filter_empty_conv image_iff)+

lemma works_UpdateBalance:
  assumes env: "healthy \<Gamma>" "\<not> aborted w" and rep: "represents (db w) b" "distinct (map w_id (b_wallets b))"
    and y: "y \<in> set (b_wallets b)" "w_id x = w_id y" "w_playerID x = w_playerID y" "w_currency x = w_currency y"
      "w_createdAt x = w_createdAt y"
    and st: "wallet_st (trunc_wallet x)"
  shows "works (Wallets_UpdateBalance \<Gamma> x (w_version y)) w"
proof -
  let ?p = "\<lambda>r. wr_id r = ident_String (w_id x) \<and> wr_version r = w_version y"
  let ?f = "\<lambda>r. r\<lparr>wr_balance_minor := minor (w_balance x), wr_version := w_version x,
                   wr_updated_at := pg_time (w_updatedAt x)\<rparr>"
  have rows: "d_wallets (db w) = map wallet_row_of (b_wallets b)" using rep by (simp add: represents_def wt.holds_def)
  have "filter (?p \<circ> wallet_row_of) (b_wallets b) = filter (\<lambda>z. w_version z = w_version y) (filter (\<lambda>z. w_id z = w_id y) (b_wallets b))"
    unfolding filter_filter using y(2) by (intro filter_cong) (auto simp: wallet_row_of_def)
  then have hit: "filter ?p (d_wallets (db w)) = [wallet_row_of y]"
    unfolding rows filter_map filter_key [OF rep(2) y(1)] by simp
  have new: "?f (wallet_row_of y) = wallet_row_of (trunc_wallet x)"
    using y by (simp add: wallet_row_of_def trunc_wallet_def)
  have "first_violated (concat (map (\<lambda>r. wallet_checks (?f r)) (filter ?p (d_wallets (db w))))) = None"
    unfolding hit list.map new first_violated_None using wallet_row_checks [OF st] by simp
  then have one: "fst (update_wallets ?p ?f (db w)) = Inr 1"
    unfolding update_wallets_def Let_def hit by (simp only: option.case fst_conv list.size One_nat_def add_0)
  then have u: "update_wallets ?p ?f (db w) = (Inr 1, snd (update_wallets ?p ?f (db w)))" by (simp only: prod_eq_iff fst_conv snd_conv simp_thms)
  have "stmt \<Gamma> (\<lambda>_. update_wallets ?p ?f) w = (Inr 1, (tick w)\<lparr>db := snd (update_wallets ?p ?f (db w))\<rparr>)"
    using env u by (intro stmt_cases(4)) (auto simp: healthy_def)
  moreover have "Wallet_IsInitialised x" using st by (simp add: wallet_st_def wallet_ok_def Wallet_IsInitialised_def trunc_wallet_def)
  ultimately show ?thesis
    by (simp add: Wallets_UpdateBalance_def works_def bindE_def io_translate_def ret_def)
qed

lemma works_Ledger_Append:
  assumes env: "healthy \<Gamma>" "\<not> aborted w" and rep: "represents (db w) b"
    and e: "entry_st (trunc_entry e)" "0 \<le> balance_value (e_balanceBefore e)" "0 \<le> balance_value (e_balanceAfter e)"
    and fresh: "ident_String (e_id e) \<notin> lr_id ` set (d_ledger (db w))"
      "e_transactionID e \<notin> (\<lambda>se. e_transactionID (snd se)) ` set (b_entries b)"
    and fk: "e_walletID e \<in> w_id ` set (b_wallets b)" "e_transactionID e \<in> t_id ` set (b_txs b)"
  shows "works (Ledger_Append \<Gamma> e) w"
proof -
  let ?d = "db w"
  let ?r = "numbered_row (d_ledger_seq ?d, trunc_entry e)" and ?d' = "?d\<lparr>d_ledger_seq := Suc (d_ledger_seq ?d)\<rparr>"
  have rows: "d_ledger ?d = map numbered_row (b_entries b)" "d_wallets ?d = map wallet_row_of (b_wallets b)"
    "d_transactions ?d = map tx_row_of (b_txs b)" "\<forall>n\<in>fst ` set (b_entries b). n < d_ledger_seq ?d"
    using rep by (auto simp: represents_def wt.holds_def tt.holds_def lt.holds_def)
  have "iso4217 (code_str (currency (e_amount e)))" using e by (simp add: entry_st_def trunc_entry_def)
  then have row: "(ledger_row_of e)\<lparr>lr_currency := char3 (take 3 (lr_currency (ledger_row_of e))), lr_seq := d_ledger_seq ?d\<rparr> = ?r"
    "\<not> too_long (lr_currency (ledger_row_of e))"
    by (simp_all add: ledger_row_of_def Currency_String_def currency_column)
  have u: "\<forall>(n, ok)\<in>set (ledger_uniques (d_ledger ?d) ?r). ok"
  proof -
    have "\<forall>o'\<in>set (d_ledger ?d). lr_id o' \<noteq> lr_id ?r" using fresh(1) by (clarsimp simp: numbered_row_def ledger_row_of_def trunc_entry_def) (metis imageI)
    moreover have "\<forall>o'\<in>set (d_ledger ?d). lr_seq o' \<noteq> lr_seq ?r" using rows(1,4) by (auto simp: numbered_row_def)
    moreover have "\<forall>o'\<in>set (d_ledger ?d). lr_transaction_id o' \<noteq> lr_transaction_id ?r"
      using fresh(2) unfolding rows(1) by (auto simp: numbered_row_def ledger_row_of_def trunc_entry_def image_iff)
    ultimately show ?thesis by (simp add: ledger_uniques_def)
  qed
  have f: "\<forall>(n, ok)\<in>set (ledger_fkeys ?d' ?r). ok"
    using fk rows(2,3) by (auto simp: ledger_fkeys_def numbered_row_def ledger_row_of_def trunc_entry_def wallet_row_of_def tx_row_of_def)
  have "refusal ''wallet_ledger_entries'' (ledger_checks ?r) (ledger_uniques (d_ledger ?d') ?r) (ledger_fkeys ?d' ?r) = None"
    unfolding refusal_none using entry_row_checks [OF e] u f by simp
  then have "fst (insert_ledger (ledger_row_of e) ?d) = Inr ()"
    using row(2) unfolding insert_ledger_def Let_def row(1) by simp
  then show ?thesis unfolding Ledger_Append_def using env by (intro works_stmt) auto
qed

section \<open>Events\<close>

lemma outcome_versions: "eventsForOutcome t x e moved = Inr events \<Longrightarrow> \<forall>ev\<in>set events. ev_version ev = 1"
proof -
  have m: "marshalEvent ty a at pl = Inr ev \<Longrightarrow> ev_version ev = 1" for ty a at pl ev
    by (auto simp: marshalEvent_def currentEventVersion_def fail_def split: if_splits)
  have "NewWagerTransactionProcessed t = Inr ev \<Longrightarrow> ev_version ev = 1" "NewWalletBalanceChanged x e = Inr ev \<Longrightarrow> ev_version ev = 1"
    "NewWagerTransactionRejected t = Inr ev \<Longrightarrow> ev_version ev = 1" "NewWagerTransactionPendingReference t = Inr ev \<Longrightarrow> ev_version ev = 1" for ev
    unfolding NewWagerTransactionProcessed_def NewWalletBalanceChanged_def NewWagerTransactionRejected_def NewWagerTransactionPendingReference_def
    by (auto simp: fail_def split: if_splits dest: m)
  then show "eventsForOutcome t x e moved = Inr events \<Longrightarrow> \<forall>ev\<in>set events. ev_version ev = 1"
    by (auto simp: eventsForOutcome_def andThen_Inr_iff split: status.splits if_splits)
qed

lemma Outbox_Append_run:
  assumes env: "healthy \<Gamma>" "\<not> aborted w" and d: "outbox_ok (db w)" "ob_eventID r \<notin> or_event_id ` set (d_outbox (db w))"
    and r: "ob_attempts r = 0" "ev_version (ob_event r) = 1"
  shows "\<exists>row. or_event_id row = ob_eventID r \<and> or_seq row = d_outbox_seq (db w) \<and>
    Outbox_Append \<Gamma> r w = (Inr (), (tick w)\<lparr>db := (db w)\<lparr>d_outbox_seq := Suc (d_outbox_seq (db w)),
        d_outbox := d_outbox (db w) @ [row]\<rparr>\<rparr>)"
proof -
  let ?row = "(outbox_row_of r)\<lparr>or_seq := d_outbox_seq (db w)\<rparr>"
  let ?uniques = "[(''outbox_events_pkey'', \<forall>o'\<in>set (d_outbox (db w)). or_event_id o' \<noteq> or_event_id ?row),
              (''outbox_events_seq_key'', \<forall>o'\<in>set (d_outbox (db w)). or_seq o' \<noteq> or_seq ?row)]"
  have id: "or_event_id ?row = ob_eventID r" by (simp add: outbox_row_of_def)
  have "\<forall>o'\<in>set (d_outbox (db w)). or_event_id o' \<noteq> or_event_id ?row" using d(2) unfolding id by (metis imageI)
  moreover have "\<forall>o'\<in>set (d_outbox (db w)). or_seq o' \<noteq> or_seq ?row" using d(1) by (auto simp: outbox_ok_def)
  moreover have "\<forall>(n, ok)\<in>set (outbox_checks ?row). ok" using r by (simp add: outbox_checks_def outbox_row_of_def)
  ultimately have "refusal ''outbox_events'' (outbox_checks ?row) ?uniques [] = None"
    unfolding refusal_none by simp
  then have "insert_outbox (outbox_row_of r) (db w) = (Inr (), (db w)\<lparr>d_outbox_seq := Suc (d_outbox_seq (db w)),
        d_outbox := d_outbox (db w) @ [?row]\<rparr>)"
    unfolding insert_outbox_def Let_def by simp
  then have "stmt \<Gamma> (\<lambda>_. insert_outbox (outbox_row_of r)) w = (Inr (), (tick w)\<lparr>db := (db w)\<lparr>d_outbox_seq := Suc (d_outbox_seq (db w)),
        d_outbox := d_outbox (db w) @ [?row]\<rparr>\<rparr>)"
    using env by (intro stmt_cases(4)) (auto simp: healthy_def)
  then show ?thesis
    using id by (intro exI [of _ ?row]) (simp add: Outbox_Append_def io_translate_def)
qed

text \<open>Every event id of the outbox was there before, or was minted since call \<open>m\<close>.\<close>

definition minted_since :: "env \<Rightarrow> database \<Rightarrow> nat \<Rightarrow> database world \<Rightarrow> bool" where
  "minted_since \<Gamma> d m w \<longleftrightarrow> outbox_ok (db w) \<and>
     (\<forall>r\<in>set (d_outbox (db w)). or_event_id r \<in> used_ids d \<or> (\<exists>k. m \<le> k \<and> k < calls w \<and> env_uuid \<Gamma> k = Some (or_event_id r)))"

lemma works_record_loop:
  assumes r: "ready \<Gamma> c d n" "n \<le> m"
  shows "m \<le> calls w \<Longrightarrow> calls w + 3 * length events \<le> m + 15 \<Longrightarrow> \<not> aborted w \<Longrightarrow> minted_since \<Gamma> d m w \<Longrightarrow>
    \<forall>e\<in>set events. ev_version e = 1 \<Longrightarrow> works (record_loop \<Gamma> c now events) w"
proof (induction events arbitrary: w)
  case (Cons e es)
  let ?w = "tick (tick w)"
  have n: "n \<le> calls w" using r(2) Cons.prems(1) by simp
  obtain s where s: "ids_NewEventID \<Gamma> c w = (Inr s, ?w)" "s \<notin> used_ids d" "env_uuid \<Gamma> (Suc (calls w)) = Some s"
    using minted [OF r(1) n] by blast
  have inj: "inj_on (env_uuid \<Gamma>) {m..<m + 16}" using r by (simp add: ready_def)
  have "env_uuid \<Gamma> k \<noteq> Some s" if "m \<le> k" "k < calls w" for k
    using inj_onD [OF inj, of k "Suc (calls w)"] that s(3) Cons.prems(1,2) by auto
  then have fresh: "s \<notin> or_event_id ` set (d_outbox (db ?w))"
    using Cons.prems(4) s(2) by (auto simp: minted_since_def)
  let ?r = "\<lparr>ob_eventID = s, ob_event = e, ob_correlationID = CorrelationIDFrom c, ob_causationID = '''', ob_attempts = 0,
     ob_nextAttemptAt = now, ob_publishedAt = time_zero, ob_lastError = ''''\<rparr>"
  have h: "healthy \<Gamma>" using r(1) by (simp add: ready_def)
  obtain row where row: "or_event_id row = s" "or_seq row = d_outbox_seq (db w)"
    and app: "Outbox_Append \<Gamma> ?r ?w = (Inr (), (tick ?w)\<lparr>db := (db w)\<lparr>d_outbox_seq := Suc (d_outbox_seq (db w)),
        d_outbox := d_outbox (db w) @ [row]\<rparr>\<rparr>)"
    using Outbox_Append_run [of \<Gamma> ?w ?r] h fresh Cons.prems by (auto simp: minted_since_def)
  let ?v = "(tick ?w)\<lparr>db := (db w)\<lparr>d_outbox_seq := Suc (d_outbox_seq (db w)), d_outbox := d_outbox (db w) @ [row]\<rparr>\<rparr>"
  have m: "minted_since \<Gamma> d m ?v"
    unfolding minted_since_def
  proof (intro conjI ballI)
    show "outbox_ok (db ?v)" using Cons.prems(4) row fresh by (auto simp: minted_since_def outbox_ok_def less_Suc_eq)
    fix q
    assume "q \<in> set (d_outbox (db ?v))"
    then consider "q = row" | "q \<in> set (d_outbox (db w))" by auto
    then show "or_event_id q \<in> used_ids d \<or> (\<exists>k. m \<le> k \<and> k < calls ?v \<and> env_uuid \<Gamma> k = Some (or_event_id q))"
    proof cases
      case 1
      then show ?thesis using Cons.prems(1) row(1) s(3) by (intro disjI2 exI [of _ "Suc (calls w)"]) simp
    next
      case 2
      then show ?thesis using Cons.prems(4) unfolding minted_since_def by (auto intro: less_SucI)
    qed
  qed
  have "works (record_loop \<Gamma> c now es) ?v"
    using Cons.prems(1,2,3,5) by (intro Cons.IH m) simp_all
  then show ?case by (simp add: works_def bindE_def s(1) app)
qed simp

text \<open>Nothing was told yet: the events are those of \<open>d\<close>.\<close>

definition untold :: "database \<Rightarrow> database world \<Rightarrow> bool" where
  "untold d w \<longleftrightarrow> outbox_ok (db w) \<and> or_event_id ` set (d_outbox (db w)) \<subseteq> used_ids d"

lemma outcome_length: "eventsForOutcome t x e moved = Inr events \<Longrightarrow> length events \<le> 2"
  by (auto simp: eventsForOutcome_def andThen_Inr_iff split: status.splits if_splits)

lemma works_emit:
  assumes r: "ready \<Gamma> c d n" and w: "n \<le> calls w" "\<not> aborted w" "untold d w"
    and ev: "\<exists>events. eventsForOutcome t x e moved = Inr events"
  shows "works (emit \<Gamma> c t x e moved) w"
proof -
  obtain events where e: "eventsForOutcome t x e moved = Inr events" using ev by blast
  have "minted_since \<Gamma> d (calls w) (tick w)" using w(3) by (auto simp: minted_since_def untold_def)
  then have "works (record_loop \<Gamma> c now events) (tick w)" for now
    using w outcome_versions [OF e] outcome_length [OF e] by (intro works_record_loop [OF r, of "calls w"]) simp_all
  then show ?thesis by (simp add: emit_def e eventRecorder_record_def works_def bindE_def clock_Now_def)
qed

section \<open>Where a submission stands\<close>

text \<open>Only time passed, and rows were written; the outbox is as it was.\<close>

definition onward :: "database world \<Rightarrow> database world \<Rightarrow> bool" where
  "onward w w' \<longleftrightarrow> calls w \<le> calls w' \<and> aborted w' = aborted w \<and> d_outbox (db w') = d_outbox (db w)
     \<and> d_outbox_seq (db w') = d_outbox_seq (db w)"

lemma onward_trans: "onward a b \<Longrightarrow> onward b c \<Longrightarrow> onward a c"
  by (auto simp: onward_def)

lemma onward_same: "same_world w w' \<Longrightarrow> calls w \<le> calls w' \<Longrightarrow> onward w w'"
  by (simp add: onward_def same_world_def)

lemma untold_onward: "onward w w' \<Longrightarrow> untold d w \<Longrightarrow> untold d w'"
  by (simp add: onward_def untold_def outbox_ok_def)

lemma stmt_onward:
  assumes "io_translate (stmt \<Gamma> f) w = (Inr x, w')"
    "\<And>n d. d_outbox (snd (f n d)) = d_outbox d \<and> d_outbox_seq (snd (f n d)) = d_outbox_seq d"
  shows "onward w w'"
proof -
  have s: "stmt \<Gamma> f w = (Inr x, w')" using assms(1) by (auto elim: io_translate_okE)
  then have "f (calls w) (db w) = (Inr x, db w')" "aborted w' = aborted w" by (auto elim: stmt_okE)
  then show ?thesis using assms(2) [of "calls w" "db w"] stmt_calls [OF s] by (simp add: onward_def)
qed

lemma writes_onward:
  "Transactions_Insert \<Gamma> t w = (Inr u, w') \<Longrightarrow> onward w w'"
  "Ledger_Append \<Gamma> l w = (Inr u, w') \<Longrightarrow> onward w w'"
  "Wallets_UpdateBalance \<Gamma> x v w = (Inr u, w') \<Longrightarrow> onward w w'"
  unfolding Transactions_Insert_def Ledger_Append_def Wallets_UpdateBalance_def
  by (auto split: if_splits elim!: bindE_okE stmt_onward
      simp: insert_tx_def insert_ledger_def update_wallets_def Let_def split: option.splits)

lemma Insert_keeps_ledger: "Transactions_Insert \<Gamma> t w = (Inr u, w') \<Longrightarrow> d_ledger (db w') = d_ledger (db w)"
  "Wallets_UpdateBalance \<Gamma> x v w = (Inr u, w') \<Longrightarrow> d_ledger (db w') = d_ledger (db w)"
proof -
  have s: "io_translate (stmt \<Gamma> f) w = (Inr y, w') \<Longrightarrow> (\<And>n d. d_ledger (snd (f n d)) = d_ledger d) \<Longrightarrow> d_ledger (db w') = d_ledger (db w)"
    for f and w w' :: "database world" and y :: "'z"
    by (elim io_translate_okE stmt_okE) (metis snd_conv)
  show "Transactions_Insert \<Gamma> t w = (Inr u, w') \<Longrightarrow> d_ledger (db w') = d_ledger (db w)"
    unfolding Transactions_Insert_def
    by (auto split: if_splits elim!: s simp: insert_tx_def Let_def split: option.splits)
  show "Wallets_UpdateBalance \<Gamma> x v w = (Inr u, w') \<Longrightarrow> d_ledger (db w') = d_ledger (db w)"
    unfolding Wallets_UpdateBalance_def
    by (auto split: if_splits elim!: bindE_okE s simp: update_wallets_def Let_def split: option.splits)
qed

definition fit :: "env \<Rightarrow> ctx \<Rightarrow> database \<Rightarrow> nat \<Rightarrow> bank \<Rightarrow> database world \<Rightarrow> bool" where
  "fit \<Gamma> c d n b w \<longleftrightarrow> ready \<Gamma> c d n \<and> n \<le> calls w \<and> \<not> aborted w \<and> untold d w \<and> represents (db w) b
     \<and> lr_id ` set (d_ledger (db w)) \<subseteq> used_ids d \<and> tr_id ` set (d_transactions (db w)) \<subseteq> used_ids d"

lemma fit_same: "fit \<Gamma> c d n b w \<Longrightarrow> same_world w w' \<Longrightarrow> calls w \<le> calls w' \<Longrightarrow> fit \<Gamma> c d n b w'"
  unfolding fit_def using untold_onward [OF onward_same] by (auto simp: same_world_def)

text \<open>An operation the store has not seen, for a wallet it has.\<close>

definition unseen :: "bank \<Rightarrow> WagerTransaction \<Rightarrow> bool" where
  "unseen b t \<longleftrightarrow> t_kind t \<noteq> KindOpening \<and> t_id t \<notin> t_id ` set (b_txs b) \<and> t_walletID t \<in> w_id ` set (b_wallets b)
     \<and> (\<forall>x\<in>set (b_txs b). \<not> (t_providerID x = t_providerID t \<and> (t_externalID x = t_externalID t \<or> t_idempotencyKey x = t_idempotencyKey t)))"

lemma unseen_same_request: "same_request t t' \<Longrightarrow> unseen b t' = unseen b t"
  by (simp add: unseen_def same_request_def)

text \<open>A new operation with an outcome, ready to be stored.\<close>

definition storing :: "bank \<Rightarrow> WagerTransaction \<Rightarrow> bool" where
  "storing b t \<longleftrightarrow> tx_storable t \<and> unseen b t \<and> 0 \<le> balance_value (t_balanceAfter t) \<and> t_referenceAttempts t \<in> {0, 1}
     \<and> (if t_status t = StatusProcessed \<and> \<not> ident_IsZero (t_resolvedReferenceID t)
        then \<not> reversed_by (b_txs b) (t_resolvedReferenceID t) \<and> t_resolvedReferenceID t \<in> t_id ` set (b_txs b)
        else ident_IsZero (t_resolvedReferenceID t))"

lemma works_store: "fit \<Gamma> c d n b w \<Longrightarrow> bank_ok b \<Longrightarrow> storing b t \<Longrightarrow> works (Transactions_Insert \<Gamma> t) w"
  by (rule works_Transactions_Insert)
    (auto simp: fit_def ready_def storing_def unseen_def fits32_def ident_IsZero_iff split: if_splits)

lemma works_record_unmoved:
  assumes f: "fit \<Gamma> c d n b w" and b: "bank_ok b" and t: "storing b t"
  shows "works (record_unmoved \<Gamma> c t x) w"
  unfolding record_unmoved_def
proof (intro works_bind)
  show "works (Transactions_Insert \<Gamma> t) w" by (rule works_store [OF f b t])
  fix u w1
  assume "Transactions_Insert \<Gamma> t w = (Inr u, w1)"
  then have o: "onward w w1" by (rule writes_onward)
  have "tx_ok t" using t by (simp add: storing_def tx_storable_def)
  then show "works (emit \<Gamma> c t x no_entry False) w1"
    using f o untold_onward [OF o] eventsForOutcome_ok [of t False x no_entry]
    by (intro works_emit) (auto simp: fit_def onward_def)
qed simp

lemma works_writeReversal:
  assumes f: "fit \<Gamma> c d n b w" and b: "bank_ok b" and t: "storing b t" "t_referenceAttempts t = 0"
    and x: "x \<in> set (b_wallets b)" "t_walletID t = w_id x" "sint (w_version x) < 2 ^ 63 - 1"
    and mv: "Wallet_move x dir eid (t_id t) (t_money t) at = Inr mv" "ident_ok eid" "time_set at"
    and eid: "ident_String eid \<notin> used_ids d"
  shows "works (writeReversal \<Gamma> t mv (w_version x)) w"
proof -
  have st: "wallet_st x" and dist: "distinct (map w_id (b_wallets b))"
    using b x by (auto simp: bank_ok_def wallets_ok_def)
  have xok: "wallet_ok x" using st by (simp add: wallet_st_def)
  have tid: "ident_ok (t_id t)" using t(1) by (simp add: storing_def tx_storable_def tx_ids_ok_def)
  note eff = Wallet_move_effect [OF mv(1) xok] and mst = movement_st [OF mv(1) st mv(2) tid mv(3)]
  have v: "1 \<le> sint (w_version (mv_wallet mv))"
    using eff(5) sint64_add_fits [of "w_version x" 1] x(3) xok by (simp add: wallet_ok_def fits64_def)
  have env: "healthy \<Gamma>" using f by (simp add: fit_def ready_def)
  show ?thesis
    unfolding writeReversal_def t(2)
  proof (simp, intro works_bind)
    show "works (Transactions_Insert \<Gamma> t) w" by (rule works_store [OF f b t(1)])
    fix u w1
    assume i: "Transactions_Insert \<Gamma> t w = (Inr u, w1)"
    have rep1: "represents (db w1) (b\<lparr>b_txs := b_txs b @ [trunc_tx t]\<rparr>)"
      using Transactions_Insert_ok [OF i, of b] f t(1) by (simp add: fit_def storing_def)
    have o1: "\<not> aborted w1" using writes_onward(1) [OF i] f by (simp add: onward_def fit_def)
    show "works (Wallets_UpdateBalance \<Gamma> (mv_wallet mv) (w_version x)) w1"
      using works_UpdateBalance [OF env o1 rep1, of x "mv_wallet mv"] dist x(1) eff(1-4) mst(2) [OF v] by simp
    fix u' w2
    assume p: "Wallets_UpdateBalance \<Gamma> (mv_wallet mv) (w_version x) w1 = (Inr u', w2)"
    have rep2: "represents (db w2) (b\<lparr>b_txs := b_txs b @ [trunc_tx t], b_wallets := put_wallet (b_wallets b) (trunc_wallet (mv_wallet mv))\<rparr>)"
      using Wallets_UpdateBalance_ok [OF p rep1, of x] dist x(1) eff(1-4) mst(2) by auto
    have ids: "w_id ` set (put_wallet (b_wallets b) y) = w_id ` set (b_wallets b)" for y
    proof -
      have "map w_id (put_wallet (b_wallets b) y) = map w_id (b_wallets b)" by (simp add: put_wallet_def)
      then show ?thesis by (metis set_map)
    qed
    have "t_id t \<notin> (\<lambda>se. e_transactionID (snd se)) ` set (b_entries b)"
    proof
      assume "t_id t \<in> (\<lambda>se. e_transactionID (snd se)) ` set (b_entries b)"
      then obtain e where e: "e \<in> snd ` set (b_entries b)" "e_transactionID e = t_id t" by force
      then obtain q where "q \<in> set (b_txs b)" "posted_as (b_txs b) q e" using b by (auto simp: bank_ok_def entries_ok_def)
      then have "t_id t \<in> t_id ` set (b_txs b)" using e(2) by (metis posted_as_def imageI)
      then show False using t(1) by (simp add: storing_def unseen_def)
    qed
    moreover have "ident_String eid \<notin> lr_id ` set (d_ledger (db w2))"
      using Insert_keeps_ledger(1) [OF i] Insert_keeps_ledger(2) [OF p] f eid by (auto simp: fit_def)
    moreover have "\<not> aborted w2" using writes_onward(3) [OF p] o1 by (simp add: onward_def)
    moreover have "0 \<le> balance_value (w_balance x)" using xok by (simp add: wallet_ok_def)
    ultimately show "works (Ledger_Append \<Gamma> (mv_entry mv)) w2"
      using env rep2 mst(1) eff(8,10-14) x(1)
      by (intro works_Ledger_Append [OF env _ rep2]) (auto simp: ids)
  qed
qed

lemma writeReversal_onward:
  assumes "writeReversal \<Gamma> t mv v w = (Inr u, w')" "t_referenceAttempts t = 0"
  shows "onward w w'"
  using assms by (auto simp: writeReversal_def elim!: bindE_okE dest!: writes_onward) (metis onward_trans)

text \<open>A movement is stored and told.\<close>

lemma works_posting:
  assumes f: "fit \<Gamma> c d n b w" and b: "bank_ok b" and t: "storing b t" "t_referenceAttempts t = 0"
    and x: "x \<in> set (b_wallets b)" "t_walletID t = w_id x" "sint (w_version x) < 2 ^ 63 - 1"
    and mv: "Wallet_move x dir eid (t_id t) (t_money t) at = Inr mv" "ident_ok eid" "time_set at"
    and eid: "ident_String eid \<notin> used_ids d"
  shows "works (bindE (writeReversal \<Gamma> t mv (w_version x)) (\<lambda>_. bindE (emit \<Gamma> c t (mv_wallet mv) (mv_entry mv) True) (\<lambda>_. ret res))) w"
proof (intro works_bind works_writeReversal [OF assms])
  fix u w1
  assume "writeReversal \<Gamma> t mv (w_version x) w = (Inr u, w1)"
  then have o: "onward w w1" using writeReversal_onward t(2) by blast
  have "wallet_ok x" using b x by (auto simp: bank_ok_def wallets_ok_def wallet_st_def)
  note eff = Wallet_move_effect [OF mv(1) this]
  have "\<not> ident_IsZero (w_id x)" using \<open>wallet_ok x\<close> by (simp add: wallet_ok_def)
  then have "\<exists>events. eventsForOutcome t (mv_wallet mv) (mv_entry mv) True = Inr events"
    using t(1) eff by (intro eventsForOutcome_ok) (auto simp: storing_def tx_storable_def)
  then show "works (emit \<Gamma> c t (mv_wallet mv) (mv_entry mv) True) w1"
    using f o untold_onward [OF o] by (intro works_emit) (auto simp: fit_def onward_def)
qed simp

section \<open>Outcomes\<close>

lemma bindE_assoc: "bindE (bindE m f) g = bindE m (\<lambda>x. bindE (f x) g)"
  by (rule ext) (simp add: bindE_def split: prod.split sum.split)

text \<open>A new operation before its outcome.\<close>

definition fresh_tx :: "bank \<Rightarrow> WagerTransaction \<Rightarrow> bool" where
  "fresh_tx b t \<longleftrightarrow> tx_storable t \<and> unseen b t \<and> t_status t = StatusPending \<and> t_referenceAttempts t = 0
     \<and> ident_IsZero (t_resolvedReferenceID t) \<and> balance_value (t_balanceAfter t) = 0"

lemma fresh_initialised: "fresh_tx b t \<Longrightarrow> Tx_IsInitialised t"
  by (simp add: fresh_tx_def Tx_IsInitialised_def tx_storable_def tx_ok_def tx_shape_def)

lemma fresh_rejected:
  assumes t: "fresh_tx b t" and rc: "rc \<in> set all_codes" and at: "time_set at"
  shows "\<exists>t'. Tx_Reject t rc at = Inr t' \<and> storing b t'"
proof -
  have pc: "proper_code rc" "rc \<noteq> CodeOther ''''" using rc proper_code_constants by (auto simp: all_codes_def)
  have r: "Tx_Reject t rc at = Inr (t\<lparr>t_status := StatusRejected, t_updatedAt := time_UTC at, t_failureCode := rc\<rparr>)"
    using t pc(2) fresh_initialised [OF t] time_set_not_zero [OF at]
    by (simp add: Tx_Reject_def Tx_transition_def fresh_tx_def allowedTransitions.simps)
  have st: "tx_storable t" using t by (simp add: fresh_tx_def)
  note rt = rejected_tx [OF r st at pc(1)]
  then have "storing b (t\<lparr>t_status := StatusRejected, t_updatedAt := time_UTC at, t_failureCode := rc\<rparr>)"
    using t unseen_same_request [of t "t\<lparr>t_status := StatusRejected, t_updatedAt := time_UTC at, t_failureCode := rc\<rparr>"]
    by (simp add: storing_def fresh_tx_def)
  then show ?thesis using r by blast
qed

lemma fresh_processed:
  assumes t: "fresh_tx b t" and m: "Money_IsInitialised m" "currency m = currency (t_money t)" "0 \<le> balance_value m" and at: "time_set at"
  shows "\<exists>t'. Tx_MarkProcessed t m at = Inr t' \<and> storing b t' \<and> t_referenceAttempts t' = 0 \<and> same_request t t'"
proof -
  let ?t = "t\<lparr>t_status := StatusProcessed, t_updatedAt := time_UTC at, t_balanceAfter := m\<rparr>"
  have r: "Tx_MarkProcessed t m at = Inr ?t"
    using t m fresh_initialised [OF t] time_set_not_zero [OF at]
    by (simp add: Tx_MarkProcessed_def Tx_transition_def fresh_tx_def allowedTransitions.simps)
  have st: "tx_storable t" using t by (simp add: fresh_tx_def)
  note pt = processed_tx [OF r st at]
  then have "storing b ?t"
    using t m(3) unseen_same_request [of t ?t] by (simp add: storing_def fresh_tx_def)
  then show ?thesis using r pt t by (auto simp: fresh_tx_def)
qed

lemma move_codes: "move_verdict x d m = Refused rc \<Longrightarrow> rc \<in> set all_codes"
  by (auto simp: move_verdict_def Let_def all_codes_def split: if_splits)

lemma works_apply_movement:
  assumes f: "fit \<Gamma> c d n b w" and b: "bank_ok b" and t: "fresh_tx b t" "\<not> Kind_IsReversal (t_kind t)"
    and x: "x \<in> set (b_wallets b)" "t_walletID t = w_id x" "sint (w_version x) < 2 ^ 63 - 1" and at: "time_set at"
    and loss: "t_kind t = KindLoss \<Longrightarrow> currency (t_money t) = w_currency x"
  shows "works (apply_movement \<Gamma> c t x (t_id t) at) w"
proof -
  have xok: "wallet_ok x" using b x by (auto simp: bank_ok_def wallets_ok_def wallet_st_def)
  have st: "tx_storable t" "t_kind t \<noteq> KindOpening" "Kind_Valid (t_kind t)"
    using t(1) by (auto simp: fresh_tx_def unseen_def tx_storable_def tx_ok_def tx_shape_def)
  have bal: "Money_IsInitialised (w_balance x)" "currency (w_balance x) = w_currency x" "0 \<le> balance_value (w_balance x)"
    using xok by (auto simp: wallet_ok_def)
  consider "t_kind t = KindLoss" | dir where "t_kind t = KindBet \<and> dir = Debit \<or> t_kind t = KindWin \<and> dir = Credit"
    using st t(2) by (cases "t_kind t") (auto simp: Kind_Valid_def Kind_IsReversal_def)
  then show ?thesis
  proof cases
    case 1
    obtain t' where p: "Tx_MarkProcessed t (w_balance x) at = Inr t'" "storing b t'"
      using fresh_processed [OF t(1) bal(1) _ bal(3) at] bal(2) loss [OF 1] by auto
    then show ?thesis
      using works_record_unmoved [OF f b p(2), of x] 1
      by (simp add: apply_movement_def works_handle Submit_movement_def Kind_MovesMoney_def ret_def balanceAfter_def)
  next
    case 2
    obtain s where s: "ids_NewLedgerEntryID \<Gamma> c w = (Inr (Identifier s), tick (tick w))" "s \<notin> used_ids d"
      using minted [of \<Gamma> c d n w] f by (auto simp: fit_def)
    let ?w = "tick (tick w)" and ?eid = "Identifier s :: LedgerEntryID"
    have eid: "ident_ok ?eid" by (rule ids_ok(3) [OF s(1)])
    have f2: "fit \<Gamma> c d n b ?w" by (rule fit_same [OF f ids_same(3) [OF s(1)]]) simp
    have nl: "t_kind t \<noteq> KindLoss" and dd: "dir = Debit \<or> dir = Credit" using 2 by auto
    have m: "Submit_movement \<Gamma> c x t (t_id t) at w
        = (case Wallet_move x dir ?eid (t_id t) (t_money t) at of Inl e \<Rightarrow> Inl e | Inr mv \<Rightarrow> Inr (Some mv), ?w)"
      using 2 s(1) by (auto simp: Submit_movement_def Kind_MovesMoney_def bindE_def io_wrap_def Wallet_Debit_def Wallet_Credit_def
          ret_def lift_def split: sum.split)
    show ?thesis
    proof (cases "Wallet_move x dir ?eid (t_id t) (t_money t) at")
      case (Inl e)
      then obtain rc where rc: "e = DomainErr rc" "rc \<in> set all_codes"
        using moved_verdict [OF Inl xok eid st(1) nl at dd] move_codes by auto
      obtain t' where "Tx_Reject t rc at = Inr t'" "storing b t'" using fresh_rejected [OF t(1) rc(2) at] by blast
      then show ?thesis
        using works_record_unmoved [OF f2 b, of t' x] m Inl rc(1)
        unfolding apply_movement_def works_handle [of "Submit_movement \<Gamma> c x t (t_id t) at", OF m] by (simp add: Submit_reject_def)
    next
      case (Inr mv)
      note eff = Wallet_move_effect [OF Inr xok]
      have cur: "currency (t_money t) = w_currency x" using Inr by (auto elim: Wallet_move_okE)
      have "Money_IsInitialised (w_balance (mv_wallet mv))" using eff(7) bal by (simp add: Money_IsInitialised_def)
      then obtain t' where p: "Tx_MarkProcessed t (w_balance (mv_wallet mv)) at = Inr t'" "storing b t'" "t_referenceAttempts t' = 0"
        "same_request t t'"
        using fresh_processed [OF t(1) _ _ eff(8) at] eff(7) cur by auto
      have "Wallet_move x dir ?eid (t_id t') (t_money t') at = Inr mv" "t_walletID t' = w_id x"
        using Inr p(4) x(2) by (simp_all add: same_request_def)
      from works_posting [OF f2 b p(2,3) x(1) this(2) x(3) this(1) eid at] s(2)
      show ?thesis
        unfolding apply_movement_def works_handle [of "Submit_movement \<Gamma> c x t (t_id t) at", OF m]
        using Inr p(1,3) by (simp add: balanceAfter_def writeReversal_def bindE_assoc)
    qed
  qed
qed

section \<open>Lookups answer\<close>

lemma fit_clean:
  assumes "fit \<Gamma> c d n b w"
  shows "wt.holds (db w) (b_wallets b)" "tt.holds (db w) (b_txs b)" "\<not> (in_tx w \<and> aborted w)" "env_fault \<Gamma> (calls w) = None"
  using assms by (auto simp: fit_def represents_def ready_def healthy_def)

lemma find_tx_run:
  assumes "fit \<Gamma> c d n b w"
  shows "\<exists>q. tt.lookup \<Gamma> p w = (q, tick w) \<and> (\<forall>e. q = Inl e \<longrightarrow> e = ErrNotFound)"
  using tt.lookup_clean [OF fit_clean(2-4) [OF assms], of p] by (auto split: option.split)

lemma fit_tick: "fit \<Gamma> c d n b w \<Longrightarrow> fit \<Gamma> c d n b (tick w)"
  by (rule fit_same [where w = w]) (simp_all add: same_world_def)

lemma works_resolveReference:
  assumes f: "fit \<Gamma> c d n b w"
  shows "works (resolveReference \<Gamma> r) w"
proof -
  obtain q where q: "Transactions_FindByBusinessID \<Gamma> (t_providerID r) (t_referenceExternalID r) w = (q, tick w)"
    "\<And>e. q = Inl e \<Longrightarrow> e = ErrNotFound"
    using find_tx_run [OF f] unfolding find_tx_eq(2) by blast
  show ?thesis
  proof (cases q)
    case (Inl e)
    then show ?thesis using q(2) by (simp add: resolveReference_def works_handle [of "Transactions_FindByBusinessID \<Gamma> (t_providerID r) (t_referenceExternalID r)", OF q(1)])
  next
    case (Inr ref)
    obtain q' where q': "Transactions_FindProcessedReversalOf \<Gamma> (t_id ref) (tick w) = (q', tick (tick w))"
      "\<And>e. q' = Inl e \<Longrightarrow> e = ErrNotFound"
      using find_tx_run [OF fit_tick [OF f]] unfolding find_tx_eq(3) by blast
    have "works (decide_found \<Gamma> r ref) (tick w)"
      using q'(2) CanReverse_direction [of "t_kind r" "t_kind ref"]
      by (cases q') (simp_all add: decide_found_def works_handle [of "Transactions_FindProcessedReversalOf \<Gamma> (t_id ref)", OF q'(1)])
    then show ?thesis using Inr by (simp add: resolveReference_def works_handle [of "Transactions_FindByBusinessID \<Gamma> (t_providerID r) (t_referenceExternalID r)", OF q(1)])
  qed
qed

lemma later_resolveReference: "later (resolveReference \<Gamma> r)"
proof -
  have l: "later (Transactions_FindByBusinessID \<Gamma> p x)" "later (Transactions_FindProcessedReversalOf \<Gamma> i)" for p x i
    unfolding Transactions_FindByBusinessID_def Transactions_FindProcessedReversalOf_def
    by (auto intro!: later_intros later_stmt)
  have "later (decide_found \<Gamma> r ref)" for ref
    unfolding decide_found_def by (intro later_intros l)
  then show ?thesis unfolding resolveReference_def by (intro later_intros l)
qed

section \<open>Reversals\<close>

lemma works_rejection:
  assumes "fit \<Gamma> c d n b w" "bank_ok b" "fresh_tx b t" "rc \<in> set all_codes" "time_set at"
  shows "works (recordReversalRejection \<Gamma> c t rc x at) w"
proof -
  obtain t' where "Tx_Reject t rc at = Inr t'" "storing b t'" using fresh_rejected [OF assms(3,4,5)] by blast
  then show ?thesis using works_record_unmoved [OF assms(1,2)] by (simp add: recordReversalRejection_def)
qed

lemma works_park:
  assumes f: "fit \<Gamma> c d n b w" and b: "bank_ok b" and t: "fresh_tx b t" "Kind_IsReversal (t_kind t)" and at: "time_set at"
  shows "works (bindE (ReferencePolicy_nextAttemptAt \<Gamma> (ReferencePolicy_normalised pol) at 1) (\<lambda>next.
           bindE (lift (Tx_MarkPendingReference t at next (time_Add at (rp_TTL (ReferencePolicy_normalised pol))))) (\<lambda>parked.
             record_unmoved \<Gamma> c parked x))) w"
proof -
  let ?dl = "time_Add at (rp_TTL (ReferencePolicy_normalised pol))"
  have one: "1 \<le> sint (1 :: i64)" by simp
  obtain nx where nx: "ReferencePolicy_nextAttemptAt \<Gamma> (ReferencePolicy_normalised pol) at 1 w = (Inr nx, tick w)"
    using ref_policy.next_at_ok [OF one, of \<Gamma> pol at w] by blast
  have ns: "time_set nx" using nextAttemptAt_ok [OF nx one at] by simp
  let ?t = "t\<lparr>t_status := StatusPendingReference, t_updatedAt := time_UTC at, t_referenceAttempts := t_referenceAttempts t + 1,
       t_referenceNextAttemptAt := time_UTC nx, t_referenceDeadlineAt := time_UTC ?dl\<rparr>"
  have p: "Tx_MarkPendingReference t at nx ?dl = Inr ?t"
    using t fresh_initialised [OF t(1)] time_set_not_zero at ns deadline_set [OF at, of pol]
    by (simp add: Tx_MarkPendingReference_def Tx_transition_def fresh_tx_def allowedTransitions.simps)
  have "storing b ?t"
    using parked_tx [OF p _ at ns deadline_set [OF at]] t unseen_same_request [of t ?t]
    by (simp add: storing_def fresh_tx_def)
  then show ?thesis
    using works_record_unmoved [OF fit_tick [OF f] b] by (simp add: works_step [of "ReferencePolicy_nextAttemptAt \<Gamma> (ReferencePolicy_normalised pol) at 1", OF nx] p)
qed

lemma works_reversal:
  assumes f: "fit \<Gamma> c d n b w" and b: "bank_ok b" and t: "fresh_tx b t" and at: "time_set at"
    and x: "x \<in> set (b_wallets b)" "t_walletID t = w_id x" "sint (w_version x) < 2 ^ 63 - 1"
    and dec: "decision (b_txs b) t = ResolveApply ref dir"
  shows "works (handle (applyReversal \<Gamma> c t ref dir x at) (\<lambda>r.
             case r of
               Inl e \<Rightarrow>
                 (case as_domain e of
                    None \<Rightarrow> throw e
                  | Some rc \<Rightarrow> recordReversalRejection \<Gamma> c t rc x at)
             | Inr (applied, movement) \<Rightarrow>
                 bindE (emit \<Gamma> c applied (mv_wallet movement) (mv_entry movement) True) (\<lambda>_.
                   ret (answer applied (w_balance (mv_wallet movement)))))) w"
    (is "works (handle ?apply ?rest) w")
proof -
  note da = decision_apply [OF dec]
  have xok: "wallet_ok x" using b x by (auto simp: bank_ok_def wallets_ok_def wallet_st_def)
  have st: "tx_storable t" using t by (simp add: fresh_tx_def)
  have kind: "Kind_IsReversal (t_kind t)" "t_kind t \<noteq> KindLoss"
    using da(3) by (auto simp: Kind_CanReverse_def split: kind.splits)
  have refst: "tx_st ref" using b da(1) by (auto simp: bank_ok_def txs_ok_def)
  then have ref: "\<not> ident_IsZero (t_id ref)" by (simp add: tx_st_def tx_ok_def tx_shape_def)
  have dd: "dir = Debit \<or> dir = Credit" using da(8) by blast
  obtain s where s: "ids_NewLedgerEntryID \<Gamma> c w = (Inr (Identifier s), tick (tick w))" "s \<notin> used_ids d"
    using minted [of \<Gamma> c d n w] f by (auto simp: fit_def)
  let ?w = "tick (tick w)" and ?eid = "Identifier s :: LedgerEntryID"
  have eid: "ident_ok ?eid" by (rule ids_ok(3) [OF s(1)])
  have f2: "fit \<Gamma> c d n b ?w" by (intro fit_tick f)
  show ?thesis
  proof (cases "reversal_movement x dir ?eid t at")
    case (Inl e)
    then obtain rc0 where "Wallet_move x dir ?eid (t_id t) (t_money t) at = Inl (DomainErr rc0)" "rc0 \<in> set all_codes"
      "e = DomainErr rc0 \<or> e = DomainErr CodeReversalExceedsBalance"
      using moved_verdict [OF refl xok eid st kind(2) at dd] move_codes dd
      by (auto simp: reversal_movement_def Wallet_Credit_def Wallet_Debit_def fail_def split: sum.splits if_splits)
    then obtain rc where rc: "e = DomainErr rc" "rc \<in> set all_codes" by (auto simp: all_codes_def)
    have "?apply w = (Inl e, ?w)" using Inl by (simp add: applyReversal_def bindE_def s(1) lift_def)
    then have "works (handle ?apply ?rest) w = works (?rest (Inl e)) ?w" by (rule works_handle)
    then show ?thesis using rc(1) works_rejection [OF f2 b t rc(2) at] by simp
  next
    case (Inr mv)
    have mv: "Wallet_move x dir ?eid (t_id t) (t_money t) at = Inr mv" by (rule reversal_movement_okE [OF Inr da(8)])
    note eff = Wallet_move_effect [OF mv xok]
    have cur: "currency (t_money t) = w_currency x" using mv by (auto elim: Wallet_move_okE)
    let ?rs = "t\<lparr>t_resolvedReferenceID := t_id ref, t_updatedAt := time_UTC at\<rparr>"
    let ?t = "t\<lparr>t_resolvedReferenceID := t_id ref, t_updatedAt := time_UTC at, t_status := StatusProcessed,
      t_balanceAfter := w_balance (mv_wallet mv)\<rparr>"
    have rs: "Tx_ResolveReference t (t_id ref) at = Inr ?rs"
      using t kind ref time_set_not_zero [OF at] by (simp add: Tx_ResolveReference_def Tx_IsTerminal_def fresh_tx_def)
    have "Money_IsInitialised (w_balance (mv_wallet mv))" using eff(7) xok by (auto simp: Money_IsInitialised_def wallet_ok_def)
    then have pr: "Tx_MarkProcessed ?rs (w_balance (mv_wallet mv)) at = Inr ?t"
      using t eff(7) cur time_set_not_zero [OF at] fresh_initialised [OF t]
      by (simp add: Tx_MarkProcessed_def Tx_transition_def fresh_tx_def allowedTransitions.simps Tx_IsInitialised_def)
    have steps: "tx_step t ?rs" "tx_step ?rs ?t" using rs pr by (auto intro: tx_step.intros)
    have sr: "same_request t ?t" using steps tx_step_same_request same_request_trans by blast
    have "tx_ok ?t" using steps st tx_ok_step by (auto simp: tx_storable_def)
    then have "tx_storable ?t"
      using st refst at survives_time_set
      by (intro tx_storable_step [OF st _ sr]) (auto simp: tx_storable_def tx_st_def tx_ids_ok_def optional_ok_def)
    then have stor: "storing b ?t" "t_referenceAttempts ?t = 0"
      using t unseen_same_request [OF sr] da(1,6) ref eff(8) by (auto simp: storing_def fresh_tx_def)
    have "Wallet_move x dir ?eid (t_id ?t) (t_money ?t) at = Inr mv" "t_walletID ?t = w_id x" using mv x(2) by simp_all
    from works_posting [OF f2 b stor x(1) this(2) x(3) this(1) eid at, where res = "answer ?t (w_balance (mv_wallet mv))"] s(2)
    have post: "works (bindE (writeReversal \<Gamma> ?t mv (w_version x)) (\<lambda>_. bindE (emit \<Gamma> c ?t (mv_wallet mv) (mv_entry mv) True) (\<lambda>_.
        ret (answer ?t (w_balance (mv_wallet mv)))))) ?w" by simp
    then obtain u w2 where wr: "writeReversal \<Gamma> ?t mv (w_version x) ?w = (Inr u, w2)"
      by (auto simp: works_def elim!: bindE_okE)
    have ap: "?apply w = (Inr (?t, mv), w2)"
      unfolding applyReversal_def using Inr rs pr wr by (simp add: bindE_def s(1) lift_def ret_def)
    have "works (handle ?apply ?rest) w = works (?rest (Inr (?t, mv))) w2" using ap by (rule works_handle)
    then show ?thesis using post by (simp add: works_step [of "writeReversal \<Gamma> ?t mv (w_version x)", OF wr])
  qed
qed

lemma works_Submit_resolve:
  assumes f: "fit \<Gamma> c d n b w" and b: "bank_ok b" and t: "fresh_tx b t" "Kind_IsReversal (t_kind t)" and at: "time_set at"
    and ids: "\<not> ident_IsZero (t_providerID t)" "\<not> ident_IsZero (t_referenceExternalID t)"
    and x: "x \<in> set (b_wallets b)" "t_walletID t = w_id x" "sint (w_version x) < 2 ^ 63 - 1"
  shows "works (Submit_resolve \<Gamma> (ReferencePolicy_normalised pol) c t x at) w"
  unfolding Submit_resolve_def
proof (intro works_bind works_resolveReference [OF f])
  fix dec w1
  assume d: "resolveReference \<Gamma> t w = (Inr dec, w1)"
  have "represents (db w) b" "txs_ok b" using f b by (simp_all add: fit_def bank_ok_def)
  note rr = resolveReference_ok [OF d this ids]
  have f1: "fit \<Gamma> c d n b w1"
    using fit_same [OF f _ laterD [OF later_resolveReference d]] rr by blast
  show "works (case dec of
         ResolveWait \<Rightarrow>
           bindE (ReferencePolicy_nextAttemptAt \<Gamma> (ReferencePolicy_normalised pol) at 1) (\<lambda>next.
           bindE (lift (Tx_MarkPendingReference t at next (time_Add at (rp_TTL (ReferencePolicy_normalised pol))))) (\<lambda>parked.
             record_unmoved \<Gamma> c parked x))
       | ResolveReject rc \<Rightarrow> recordReversalRejection \<Gamma> c t rc x at
       | ResolveApply ref dir \<Rightarrow>
           handle (applyReversal \<Gamma> c t ref dir x at) (\<lambda>r.
             case r of
               Inl e \<Rightarrow>
                 (case as_domain e of
                    None \<Rightarrow> throw e
                  | Some rc \<Rightarrow> recordReversalRejection \<Gamma> c t rc x at)
             | Inr (applied, movement) \<Rightarrow>
                 bindE (emit \<Gamma> c applied (mv_wallet movement) (mv_entry movement) True) (\<lambda>_.
                   ret (answer applied (w_balance (mv_wallet movement)))))) w1"
  proof (cases dec)
    case ResolveWait
    then show ?thesis using works_park [OF f1 b t at, of pol x] by simp
  next
    case (ResolveReject rc)
    then show ?thesis using works_rejection [OF f1 b t(1) _ at] decision_code [of "b_txs b" t rc] rr by simp
  next
    case (ResolveApply ref dir)
    then show ?thesis using works_reversal [OF f1 b t(1) at x, of ref dir] rr by simp
  qed
qed

section \<open>The whole submission\<close>

text \<open>
  A request the rules accept as new: it parses, the caller may submit for its provider, its kind,
  amount and reference fit together, no stored operation has its business identity or its
  idempotency key, and the wallet it names is there and is the player's. A loss names the
  wallet's currency; for the other kinds another currency is a recorded refusal.
\<close>

definition acceptable :: "ctx \<Rightarrow> bank \<Rightarrow> SubmitCommand \<Rightarrow> parsedSubmit \<Rightarrow> bool" where
  "acceptable c b cmd p \<longleftrightarrow> Submit_parse cmd = Inr p \<and> may_submit c p
     \<and> ps_kind p \<noteq> KindOpening \<and> amount_ok (ps_kind p) (ps_money p)
     \<and> (Kind_IsReversal (ps_kind p) \<longleftrightarrow> \<not> ident_IsZero (ps_reference p))
     \<and> (\<forall>t\<in>set (b_txs b). \<not> (t_providerID t = ps_providerID p \<and> (t_externalID t = ps_externalID p \<or> t_idempotencyKey t = ps_key p)))
     \<and> (\<exists>x\<in>set (b_wallets b). w_id x = ps_walletID p \<and> w_playerID x = ps_playerID p \<and> sint (w_version x) < 2 ^ 63 - 1
          \<and> (ps_kind p = KindLoss \<longrightarrow> currency (ps_money p) = w_currency x))"

lemma parse_kind: "Submit_parse cmd = Inr p \<Longrightarrow> Kind_Valid (ps_kind p)"
  by (auto simp: Submit_parse_def andThen_Inr_iff split: if_splits)

lemma find_for_update_run:
  assumes f: "fit \<Gamma> c d n b w" and b: "bank_ok b" and x: "x \<in> set (b_wallets b)"
  shows "Wallets_FindByIDForUpdate \<Gamma> (w_id x) w = (Inr x, tick w)"
  using find_wallet_run [of w b x \<Gamma>] f b x unfolding find_wallet_eq by (simp add: fit_def ready_def)

lemma new_external_ok:
  assumes p: "parsed_ok p" "Kind_Valid (ps_kind p)" and id: "ident_ok tid" "time_set at"
    and k: "ps_kind p \<noteq> KindOpening" "amount_ok (ps_kind p) (ps_money p)"
      "Kind_IsReversal (ps_kind p) \<longleftrightarrow> \<not> ident_IsZero (ps_reference p)"
  shows "\<exists>t. NewExternalTransaction (external_params p tid at) = Inr t
    \<and> t_resolvedReferenceID t = ident_zero \<and> t_balanceAfter t = Money_zero"
proof -
  have nz: "ident_ok i \<Longrightarrow> \<not> ident_IsZero i" for i :: "'k ident" by (auto simp: ident_ok_def ident_IsZero_def)
  have "\<not> ident_IsZero (ps_key p)" "\<not> ident_IsZero (ps_hash p)" "\<not> ident_IsZero (ps_providerID p)" "\<not> ident_IsZero (ps_externalID p)"
    "\<not> ident_IsZero (ps_playerID p)" "\<not> ident_IsZero (ps_walletID p)" "\<not> ident_IsZero (ps_roundID p)" "\<not> ident_IsZero (ps_gameID p)"
    using p(1) unfolding parsed_ok_def by (simp_all add: nz)
  moreover have "Kind_validateAmount (ps_kind p) (ps_money p) = Inr ()" using k(2) by (simp add: validateAmount_iff)
  moreover have "\<not> time_IsZero at" "\<not> ident_IsZero tid" using id by (simp_all add: time_set_not_zero nz)
  ultimately show ?thesis
    using p(2) k(1,3) by (cases "Kind_IsReversal (ps_kind p)") (simp_all add: NewExternalTransaction_def external_params_def Let_def)
qed

lemma works_Submit_apply:
  assumes f: "fit \<Gamma> c d n b w" and b: "bank_ok b" and a: "acceptable c b cmd p" and clock: "clock_ok \<Gamma>"
  shows "works (Submit_apply \<Gamma> (ReferencePolicy_normalised pol) c p) w"
proof -
  have pok: "parsed_ok p" and kv: "Kind_Valid (ps_kind p)" using a Submit_parse_ok parse_kind by (auto simp: acceptable_def)
  obtain x where x: "x \<in> set (b_wallets b)" "w_id x = ps_walletID p" "w_playerID x = ps_playerID p" "sint (w_version x) < 2 ^ 63 - 1"
    "ps_kind p = KindLoss \<longrightarrow> currency (ps_money p) = w_currency x" using a by (auto simp: acceptable_def)
  obtain s where s: "ids_NewTransactionID \<Gamma> c w = (Inr (Identifier s), tick (tick w))" "s \<notin> used_ids d"
    using minted [of \<Gamma> c d n w] f by (auto simp: fit_def)
  let ?w = "tick (tick w)" and ?id = "Identifier s :: TransactionID"
  let ?at = "time_UTC (env_now \<Gamma> (calls ?w))"
  have at: "time_set ?at" using clock by (simp add: clock_okD)
  have id: "ident_ok ?id" by (rule ids_ok(2) [OF s(1)])
  obtain t where t: "NewExternalTransaction (external_params p ?id ?at) = Inr t"
    and t0: "t_resolvedReferenceID t = ident_zero" "t_balanceAfter t = Money_zero"
    using new_external_ok [OF pok kv id at] a by (auto simp: acceptable_def)
  note nt = new_tx [OF t pok id at]
  have f3: "fit \<Gamma> c d n b (tick (tick ?w))" by (intro fit_tick f)
  have "?id \<notin> t_id ` set (b_txs b)"
  proof
    assume "?id \<in> t_id ` set (b_txs b)"
    then obtain y where "y \<in> set (b_txs b)" "t_id y = ?id" by auto
    moreover have "d_transactions (db w) = map tx_row_of (b_txs b)" using f by (simp add: fit_def represents_def tt.holds_def)
    ultimately have "tx_row_of y \<in> set (d_transactions (db w))" "tr_id (tx_row_of y) = s"
      by (simp, simp add: tx_row_of_def)
    then have "s \<in> tr_id ` set (d_transactions (db w))" by blast
    then show False using f s(2) by (auto simp: fit_def)
  qed
  moreover have "ps_walletID p \<in> w_id ` set (b_wallets b)" unfolding x(2) [symmetric] using x(1) by (rule imageI)
  moreover have "\<forall>y\<in>set (b_txs b). \<not> (t_providerID y = ps_providerID p \<and> (t_externalID y = ps_externalID p \<or> t_idempotencyKey y = ps_key p))"
    "ps_kind p \<noteq> KindOpening" using a by (simp_all add: acceptable_def)
  ultimately have fresh: "fresh_tx b t"
    using nt t0 by (simp add: fresh_tx_def unseen_def Money_zero_def)
  have branch: "works (if Kind_IsReversal (t_kind t) then Submit_resolve \<Gamma> (ReferencePolicy_normalised pol) c t x ?at
         else apply_movement \<Gamma> c t x ?id ?at) (tick (tick ?w))"
  proof (cases "Kind_IsReversal (t_kind t)")
    case True
    have "\<not> ident_IsZero (t_providerID t)" "\<not> ident_IsZero (t_referenceExternalID t)" "t_walletID t = w_id x"
      using nt True x(2) by auto
    from works_Submit_resolve [OF f3 b fresh True at this(1,2) x(1) this(3) x(4)] True show ?thesis by simp
  next
    case False
    then show ?thesis using works_apply_movement [OF f3 b fresh False x(1) _ x(4) at] nt x(2,5) by simp
  qed
  have fx: "Wallets_FindByIDForUpdate \<Gamma> (ps_walletID p) (tick ?w) = (Inr x, tick (tick ?w))"
    using find_for_update_run [OF fit_tick [OF fit_tick [OF fit_tick [OF f]]] b x(1)] x(2) by simp
  have iw: "io_wrap (ids_NewTransactionID \<Gamma> c) w = (Inr ?id, ?w)" by (simp add: io_wrap_def s(1))
  have now: "clock_Now \<Gamma> ?w = (Inr ?at, tick ?w)" by (simp add: clock_Now_def)
  show ?thesis
    unfolding Submit_apply_def works_step [of "io_wrap (ids_NewTransactionID \<Gamma> c)", OF iw] works_step [of "clock_Now \<Gamma>", OF now]
      t works_bind_lift works_step [of "Wallets_FindByIDForUpdate \<Gamma> (ps_walletID p)", OF fx]
    using branch x(3) by simp
qed

lemma works_ExecuteIn:
  assumes f: "fit \<Gamma> c d n b w" and b: "bank_ok b" and a: "acceptable c b cmd p" and clock: "clock_ok \<Gamma>"
  shows "\<exists>res w'. ExecuteIn \<Gamma> (ReferencePolicy_normalised pol) cmd c w = (Inr res, w') \<and> \<not> sr_replay res"
proof -
  have p: "Submit_parse cmd = Inr p" and pok: "parsed_ok p" using a Submit_parse_ok by (auto simp: acceptable_def)
  obtain i where i: "c_identity c = Some i" "ScopeSubmit \<in> set (i_scopes i)" "i_providerID i = ps_providerID p"
    using a by (auto simp: acceptable_def may_submit_def)
  have cl: "caller c ScopeSubmit = Inr i" using i by (simp add: caller_def Identity_authorise_def Identity_Has_def)
  have ma: "Identity_mayActAs i (ps_providerID p) = Inr ()"
    using i(3) pok by (simp add: mayActAs_iff parsed_ok_def ident_ok_def ident_IsZero_def)
  obtain q where q: "Transactions_FindByBusinessID \<Gamma> (ps_providerID p) (ps_externalID p) w = (q, tick w)"
    "\<And>e. q = Inl e \<Longrightarrow> e = ErrNotFound"
    using find_tx_run [OF f] unfolding find_tx_eq(2) by blast
  have "q = Inl ErrNotFound"
  proof (cases q)
    case (Inr t)
    then show ?thesis
      using find_business_ok [of \<Gamma> "ps_providerID p" "ps_externalID p" w t "tick w" b] q f a by (auto simp: fit_def acceptable_def)
  qed (use q(2) in simp)
  then have run: "ExecuteIn \<Gamma> (ReferencePolicy_normalised pol) cmd c w = Submit_apply \<Gamma> (ReferencePolicy_normalised pol) c p (tick w)"
    using q(1) by (simp add: ExecuteIn_def cl p ma handle_def bindE_def lift_def)
  obtain res w' where r: "Submit_apply \<Gamma> (ReferencePolicy_normalised pol) c p (tick w) = (Inr res, w')"
    using works_Submit_apply [OF fit_tick [OF f] b a clock, of pol] by (auto simp: works_def)
  have "represents (db (tick w)) b" using f by (simp add: fit_def)
  from Submit_apply_ok [OF r this b pok clock_okD [OF clock]] have "\<not> sr_replay res" by (auto simp: outcome_of_def)
  then show ?thesis using run r by simp
qed

lemma attempt_done:
  assumes "healthy \<Gamma>" and run: "fn (c\<lparr>c_insideUnitOfWork := True\<rparr>) v ((tick w)\<lparr>in_tx := True, aborted := False\<rparr>) = (Inr (), v', w2)" "\<not> aborted w2"
  shows "attempt \<Gamma> c fn v w = (Inr (), v', tx_closed w2)"
  using assms by (simp add: attempt_def pool_Begin_def tx_Commit_def healthy_def)

lemma Submit_execute_answers:
  assumes w: "idle w" and clock: "clock_ok \<Gamma>" and rep: "represents (db w) b" "bank_ok b" "outbox_ok (db w)"
    and r: "ready \<Gamma> c (db w) (calls w)" "\<not> c_insideUnitOfWork c" and a: "acceptable c b cmd p"
  shows "\<exists>res w'. Submit_execute \<Gamma> retry (ReferencePolicy_normalised pol) c cmd w = (Inr res, w') \<and> \<not> sr_replay res \<and> idle w'
    \<and> applied_once c b p res (db w) (db w') \<and> decided_on b res"
proof -
  let ?c = "c\<lparr>c_insideUnitOfWork := True\<rparr>" and ?w = "(tick w)\<lparr>in_tx := True, aborted := False\<rparr>"
  let ?fn = "assigning (ExecuteIn \<Gamma> (ReferencePolicy_normalised pol) cmd) no_result"
  have h: "healthy \<Gamma>" and ids: "ids_usable \<Gamma>" using r by (simp_all add: ready_def)
  have "untold (db w) ?w" using rep(3) by (auto simp: untold_def used_ids_def)
  then have f: "fit \<Gamma> ?c (db w) (calls w) b ?w"
    using r rep(1) by (auto simp: fit_def ready_def used_ids_def)
  have a': "acceptable ?c b cmd p" using a by (simp add: acceptable_def may_submit_def)
  obtain res w2 where run: "ExecuteIn \<Gamma> (ReferencePolicy_normalised pol) cmd ?c ?w = (Inr res, w2)" "\<not> sr_replay res"
    using works_ExecuteIn [OF f rep(2) a' clock, of pol] by blast
  have rw: "represents (db ?w) b" using rep(1) by simp
  have p: "Submit_parse cmd = Inr p" using a by (simp add: acceptable_def)
  have sub: "submitted ?c b p res ?w w2" using ExecuteIn_ok [OF run(1) rw rep(2) clock_okD [OF clock]] p by auto
  then have ab: "\<not> aborted w2" using run(2) by (simp add: submitted_def settles_def)
  have "attempt \<Gamma> c ?fn no_result w = (Inr (), res, tx_closed w2)"
    using run(1) ab by (intro attempt_done [OF h]) (simp_all add: assigning_ok)
  then have d: "UnitOfWork_Do \<Gamma> retry c ?fn no_result w = (Inr (), res, tx_closed w2)"
    using r(2) by (simp add: UnitOfWork_Do_def do_loop.simps)
  then have ex: "Submit_execute \<Gamma> retry (ReferencePolicy_normalised pol) c cmd w = (Inr res, tx_closed w2)"
    by (simp add: Submit_execute_def)
  have "ran_once c ?fn (db w) res (db (tx_closed w2))" "idle (tx_closed w2)" using do_effect [OF d w] by auto
  then have "submission c b cmd res (db w) (db (tx_closed w2))" using ran_submission [OF _ rep(1,2) clock] by blast
  then have "applied_once c b p res (db w) (db (tx_closed w2))"
    unfolding submission_def using p run(2) by auto
  moreover have "decided_on b res" by (rule ExecuteIn_verdict [OF run rw rep(2) clock_okD [OF clock] ids])
  ultimately show ?thesis using ex run(2) \<open>idle (tx_closed w2)\<close> by blast
qed

section \<open>Properties\<close>


text \<open>A win for the wallet of the samples, with a generator that repeats itself after sixty-four calls.\<close>

definition minting :: env where
  "minting = calm\<lparr>env_uuid := \<lambda>n. Some (''id'' @ replicate (n mod 64) CHR ''x'')\<rparr>"

definition demo_win :: SubmitCommand where
  "demo_win =
     \<lparr>sc_idempotencyKey = ''k9'', sc_providerID = ''prov'', sc_externalID = ''x9'', sc_playerID = ''p1'',
      sc_walletID = ''w1'', sc_roundID = ''r1'', sc_gameID = ''g1'', sc_kind = ''WIN'', sc_amount = ''5.00'',
      sc_currency = ''BRL'', sc_referenceExternalID = ''''\<rparr>"

definition demo_win_parsed :: parsedSubmit where
  "demo_win_parsed =
     \<lparr>ps_key = Identifier ''k9'',
      ps_hash = Identifier (hashPrefix @ EncodeToString (Sum256 (canonicalise (hashed_fields demo_win)))),
      ps_providerID = Identifier ''prov'', ps_externalID = Identifier ''x9'', ps_playerID = Identifier ''p1'',
      ps_walletID = Identifier ''w1'', ps_roundID = Identifier ''r1'', ps_gameID = Identifier ''g1'',
      ps_kind = KindWin, ps_money = \<lparr>minor = 500, currency = \<lparr>code_str = ''BRL''\<rparr>\<rparr>, ps_reference = ident_zero\<rparr>"

lemma demo_win_parse: "Submit_parse demo_win = Inr demo_win_parsed"
proof -
  have cur: "ParseCurrency ''BRL'' = Inr \<lparr>code_str = ''BRL''\<rparr>" by code_simp
  have amount: "ParseExternalMoney ''5.00'' \<lparr>code_str = ''BRL''\<rparr> = Inr \<lparr>minor = 500, currency = \<lparr>code_str = ''BRL''\<rparr>\<rparr>"
    by code_simp
  have kind: "kind_of_string ''WIN'' = KindWin" "Kind_Valid KindWin" by code_simp+
  show ?thesis
    using cur amount kind
    by (simp add: Submit_parse_def PayloadHash_eq parse_id_defs parseIdentifier_def maxIdentifierLength_def
        demo_win_parsed_def)
      (simp add: demo_win_def)
qed

lemma mod_near:
  assumes "i mod 64 = j mod (64 :: nat)" "i < j + 16" "j < i + 16"
  shows "i = j"
proof -
  have "i div 64 * 64 + i mod 64 = i" "j div 64 * 64 + j mod 64 = j" by simp_all
  then show ?thesis using assms by (cases rule: linorder_cases [of "i div 64" "j div 64"]) linarith+
qed

lemma demo_ready: "ready minting demo_provider demo_db 0"
proof -
  have "healthy minting" by (simp add: minting_def calm_def healthy_def)
  moreover have "ids_usable minting" by (auto simp: minting_def ids_usable_def maxIdentifierLength_def)
  moreover have "inj_on (env_uuid minting) {k..<k + 16}" for k
  proof (rule inj_onI)
    fix i j
    assume "i \<in> {k..<k + 16}" "j \<in> {k..<k + 16}" "env_uuid minting i = env_uuid minting j"
    then have "i mod 64 = j mod 64" "i < j + 16" "j < i + 16" by (auto simp: minting_def dest: arg_cong [of _ _ length])
    then show "i = j" by (rule mod_near)
  qed
  moreover have "''id'' @ replicate m CHR ''x'' \<notin> used_ids demo_db" for m
    by (simp add: used_ids_def demo_db_def empty_db_def demo_rows)
  ultimately show ?thesis by (simp add: ready_def minting_def demo_provider_def WithIdentity_def no_caller_def calm_def)
qed

lemma demo_acceptable: "acceptable demo_provider demo_bank demo_win demo_win_parsed"
proof -
  have "may_submit demo_provider demo_win_parsed"
    by (simp add: may_submit_def demo_provider_def WithIdentity_def demo_win_parsed_def)
  moreover have "amount_ok KindWin \<lparr>minor = 500, currency = \<lparr>code_str = ''BRL''\<rparr>\<rparr>" by code_simp
  ultimately show ?thesis
    using demo_win_parse
    by (simp add: acceptable_def demo_win_parsed_def demo_bank_def demo_pending_def demo_wallet_def Kind_IsReversal_def
        ident_IsZero_iff)
qed

lemma demo_start: "represents (db (start demo_db)) demo_bank" "outbox_ok (db (start demo_db))"
  "ready minting demo_provider (db (start demo_db)) (calls (start demo_db))" "clock_ok minting" "\<not> c_insideUnitOfWork demo_provider"
  using demo_represents demo_ready clock_ok_calm
  by (simp_all add: start_def outbox_ok_def demo_db_def empty_db_def clock_ok_def minting_def demo_provider_def WithIdentity_def no_caller_def)


theorem submission_outcome_witness:
  "\<exists>res w'. Submit_execute minting DefaultRetryPolicy (ReferencePolicy_normalised DefaultReferencePolicy) demo_provider
      demo_win (start demo_db) = (Inr res, w') \<and>
     delivers demo_wallet (verdict_of (b_txs demo_bank) demo_wallet (sr_transaction res)) res"
proof -
  obtain res w' where r: "Submit_execute minting DefaultRetryPolicy (ReferencePolicy_normalised DefaultReferencePolicy) demo_provider
      demo_win (start demo_db) = (Inr res, w')" "\<not> sr_replay res"
    using Submit_execute_answers [OF idle_start demo_start(4,1) demo_bank_ok demo_start(2,3,5) demo_acceptable] by blast
  have "ids_usable minting" using demo_ready by (simp add: ready_def)
  from submission_outcome [OF idle_start demo_start(4) this demo_start(1) demo_bank_ok r]
  show ?thesis using r(1) by (auto simp: demo_bank_def)
qed

end
