(* ===== verification/Metrics.thy ===== *)
theory Metrics
  imports Delivery Publisher Http_Answers
begin

text \<open>
  The meters (\<open>internal/adapter/metrics/prometheus.go\<close> and \<open>internal/app/metrics.go\<close>): the collectors
  the recorder registers and, for every meter the components report, the call it makes on one of them.
  The client library itself is not modelled; what the code relies on is that a call panics unless it
  names as many label values as the collector has labels (\<open>accepted\<close>), and that every combination of
  label values is a time series of its own, which is why the values have to come from closed sets.
\<close>

section \<open>The collectors\<close>

text \<open>The bounds of a histogram, in nanoseconds.\<close>

datatype collector_kind = CounterKind | HistogramKind "nat list"

record collector =
  cl_Name :: string
  cl_Labels :: "string list"
  cl_Kind :: collector_kind

definition namespace :: string where "namespace = ''wagering''"

definition operations :: collector where
  "operations = \<lparr>cl_Name = ''operations_total'', cl_Labels = [''source'', ''kind'', ''status''], cl_Kind = CounterKind\<rparr>"

definition latency :: collector where
  "latency = \<lparr>cl_Name = ''operation_duration_seconds'', cl_Labels = [''source''],
     cl_Kind = HistogramKind [1000000, 2500000, 5000000, 10000000, 25000000, 50000000, 100000000, 250000000, 500000000,
       1000000000, 2500000000, 5000000000]\<rparr>"

definition contention :: collector where
  "contention = \<lparr>cl_Name = ''wallet_contention_total'', cl_Labels = [], cl_Kind = CounterKind\<rparr>"

definition retries :: collector where
  "retries = \<lparr>cl_Name = ''transaction_retries_total'', cl_Labels = [], cl_Kind = CounterKind\<rparr>"

definition deduped :: collector where
  "deduped = \<lparr>cl_Name = ''queue_duplicates_total'', cl_Labels = [], cl_Kind = CounterKind\<rparr>"

definition discarded_vec :: collector where
  "discarded_vec = \<lparr>cl_Name = ''queue_discarded_total'', cl_Labels = [''reason''], cl_Kind = CounterKind\<rparr>"

definition released :: collector where
  "released = \<lparr>cl_Name = ''queue_released_total'', cl_Labels = [], cl_Kind = CounterKind\<rparr>"

definition publishLag :: collector where
  "publishLag = \<lparr>cl_Name = ''outbox_publish_lag_seconds'', cl_Labels = [],
     cl_Kind = HistogramKind [50000000, 100000000, 250000000, 500000000, 1000000000, 2500000000, 5000000000, 10000000000,
       30000000000, 60000000000, 300000000000]\<rparr>"

definition publishFail :: collector where
  "publishFail = \<lparr>cl_Name = ''outbox_publish_failures_total'', cl_Labels = [], cl_Kind = CounterKind\<rparr>"

definition reconciled :: collector where
  "reconciled = \<lparr>cl_Name = ''reconciliations_total'', cl_Labels = [''result''], cl_Kind = CounterKind\<rparr>"

definition requests :: collector where
  "requests = \<lparr>cl_Name = ''http_request_duration_seconds'', cl_Labels = [''route'', ''method'', ''status''],
     cl_Kind = HistogramKind [1000000, 5000000, 10000000, 25000000, 50000000, 100000000, 250000000, 500000000,
       1000000000, 2500000000, 5000000000]\<rparr>"

text \<open>\<open>New\<close>: what it registers; the collectors of the runtime are the library's.\<close>

definition registered :: "collector list" where
  "registered =
     [operations, latency, contention, retries, deduped, discarded_vec, released, publishLag, publishFail, reconciled, requests]"

definition full_name :: "collector \<Rightarrow> string" where
  "full_name c = namespace @ ''_'' @ cl_Name c"

lemmas collector_defs = operations_def latency_def contention_def retries_def deduped_def discarded_vec_def released_def
  publishLag_def publishFail_def reconciled_def requests_def

text \<open>\<open>MustRegister\<close> panics on a second collector of a name, the histograms on bounds that do not increase.\<close>

lemma registration_succeeds:
  "distinct (map full_name registered)"
  "c \<in> set registered \<Longrightarrow> cl_Kind c = HistogramKind bounds \<Longrightarrow> sorted_wrt (<) bounds"
  by (auto simp: registered_def full_name_def namespace_def collector_defs)

section \<open>The recorder\<close>

datatype what = Inc | Observe duration

record sample =
  sa_Collector :: collector
  sa_Values :: "string list"
  sa_What :: what

definition Recorder_OperationSettled :: "string \<Rightarrow> string \<Rightarrow> string \<Rightarrow> sample" where
  "Recorder_OperationSettled source kind status =
     \<lparr>sa_Collector = operations, sa_Values = [source, kind, status], sa_What = Inc\<rparr>"

definition Recorder_OperationLatency :: "string \<Rightarrow> duration \<Rightarrow> sample" where
  "Recorder_OperationLatency source took = \<lparr>sa_Collector = latency, sa_Values = [source], sa_What = Observe took\<rparr>"

definition Recorder_WalletContention :: sample where
  "Recorder_WalletContention = \<lparr>sa_Collector = contention, sa_Values = [], sa_What = Inc\<rparr>"

definition Recorder_TransactionRetried :: sample where
  "Recorder_TransactionRetried = \<lparr>sa_Collector = retries, sa_Values = [], sa_What = Inc\<rparr>"

definition Recorder_MessageDeduplicated :: sample where
  "Recorder_MessageDeduplicated = \<lparr>sa_Collector = deduped, sa_Values = [], sa_What = Inc\<rparr>"

definition Recorder_MessageDiscarded :: "string \<Rightarrow> sample" where
  "Recorder_MessageDiscarded reason = \<lparr>sa_Collector = discarded_vec, sa_Values = [reason], sa_What = Inc\<rparr>"

definition Recorder_MessageReleased :: sample where
  "Recorder_MessageReleased = \<lparr>sa_Collector = released, sa_Values = [], sa_What = Inc\<rparr>"

definition Recorder_EventPublished :: "duration \<Rightarrow> sample" where
  "Recorder_EventPublished lag =
     (let lag = (if lag <s 0 then 0 else lag) in \<lparr>sa_Collector = publishLag, sa_Values = [], sa_What = Observe lag\<rparr>)"

definition Recorder_EventPublishFailed :: sample where
  "Recorder_EventPublishFailed = \<lparr>sa_Collector = publishFail, sa_Values = [], sa_What = Inc\<rparr>"

definition Recorder_ReconciliationRun :: "bool \<Rightarrow> sample" where
  "Recorder_ReconciliationRun drifted =
     (let result = (if drifted then ''drift'' else ''match'') in
      \<lparr>sa_Collector = reconciled, sa_Values = [result], sa_What = Inc\<rparr>)"

definition Recorder_RequestObserved :: "string \<Rightarrow> string \<Rightarrow> string \<Rightarrow> duration \<Rightarrow> sample" where
  "Recorder_RequestObserved route method status took =
     \<lparr>sa_Collector = requests, sa_Values = [route, method, status], sa_What = Observe took\<rparr>"

lemmas recorder_defs = Recorder_OperationSettled_def Recorder_OperationLatency_def Recorder_WalletContention_def
  Recorder_TransactionRetried_def Recorder_MessageDeduplicated_def Recorder_MessageDiscarded_def
  Recorder_MessageReleased_def Recorder_EventPublished_def Recorder_EventPublishFailed_def
  Recorder_ReconciliationRun_def Recorder_RequestObserved_def

section \<open>What the components report\<close>

text \<open>The durations are measured by the callers: \<open>took\<close> for the one at hand.\<close>

fun operation_sample :: "duration \<Rightarrow> metric \<Rightarrow> sample" where
  "operation_sample took (OperationLatency source) = Recorder_OperationLatency source took"
| "operation_sample took WalletContention = Recorder_WalletContention"
| "operation_sample took (OperationSettled source kind status) = Recorder_OperationSettled source kind status"

fun queue_sample :: "duration \<Rightarrow> queue_metric \<Rightarrow> sample" where
  "queue_sample took MessageDeduplicated = Recorder_MessageDeduplicated"
| "queue_sample took (MessageDiscarded reason) = Recorder_MessageDiscarded reason"
| "queue_sample took MessageReleased = Recorder_MessageReleased"
| "queue_sample took (Operation m) = operation_sample took m"

fun outbox_sample :: "duration \<Rightarrow> outbox_metric \<Rightarrow> sample" where
  "outbox_sample lag EventPublished = Recorder_EventPublished lag"
| "outbox_sample lag EventPublishFailed = Recorder_EventPublishFailed"

fun http_sample :: "duration \<Rightarrow> meter \<Rightarrow> sample" where
  "http_sample took (Business m) = operation_sample took m"
| "http_sample took (Reconciled drifted) = Recorder_ReconciliationRun drifted"
| "http_sample took (RequestObserved route method status) = Recorder_RequestObserved route method (utoa status) took"

text \<open>
  \<open>NoMetrics\<close> stands in for a recorder that was not given: \<open>operationMetricsOr\<close>,
  \<open>queueMetricsOr\<close>, \<open>outboxMetricsOr\<close> and \<open>reconciliationMetricsOr\<close>.
\<close>

definition NoMetrics :: "'m \<Rightarrow> sample list" where
  "NoMetrics m = []"

definition metricsOr :: "('m \<Rightarrow> sample list) option \<Rightarrow> 'm \<Rightarrow> sample list" where
  "metricsOr m = (case m of None \<Rightarrow> NoMetrics | Some recorder \<Rightarrow> recorder)"

section \<open>Closed sets of series\<close>

definition accepted :: "sample \<Rightarrow> bool" where
  "accepted s \<longleftrightarrow>
     sa_Collector s \<in> set registered \<and> length (sa_Values s) = length (cl_Labels (sa_Collector s))
     \<and> (case (cl_Kind (sa_Collector s), sa_What s) of
          (CounterKind, Inc) \<Rightarrow> True
        | (HistogramKind _, Observe d) \<Rightarrow> 0 \<le>s d
        | _ \<Rightarrow> False)"

definition sources :: "string list" where "sources = [''http'', ''queue'']"

definition kinds :: "string list" where
  "kinds = map string_of_kind [KindOpening, KindBet, KindWin, KindLoss, KindRefund, KindRollback]"

definition statuses :: "string list" where
  "statuses = map string_of_status [StatusPending, StatusPendingReference, StatusProcessed, StatusRejected, StatusFailed]"

definition reasons :: "string list" where
  "reasons = [DiscardMalformed, DiscardUnusable, DiscardNoProvider, DiscardReusedID]"

definition answer_statuses :: "nat list" where
  "answer_statuses =
     [StatusOK, StatusCreated, StatusAccepted, StatusBadRequest, StatusUnauthorized, StatusForbidden, StatusNotFound,
      StatusConflict, StatusUnprocessableEntity, StatusInternalServerError, StatusNotImplemented, StatusServiceUnavailable]"

definition patterns :: "string list" where
  "patterns =
     [''POST /wallets'', ''GET /wallets/{walletId}'', ''GET /wallets/{walletId}/ledger'', ''POST /wallets/{walletId}/reconciliation'',
      ''POST /wagering/transactions'', ''GET /wagering/transactions/{transactionId}'',
      ''GET /providers/{providerId}/wagering/transactions/{externalTransactionId}'', ''GET /health/live'', ''GET /health/ready'']"

text \<open>
  The series of one collector. \<open>blank\<close> admits a settled operation without kind and status, which the
  consumer reports for a command the domain refused.
\<close>

definition series :: "bool \<Rightarrow> collector \<Rightarrow> string list list" where
  "series blank c =
     (if c = operations
      then [[s, k, t]. s \<leftarrow> sources, k \<leftarrow> kinds, t \<leftarrow> statuses] @ (if blank then [[''queue'', '''', '''']] else [])
      else if c = latency then [[s]. s \<leftarrow> sources]
      else if c = discarded_vec then [[r]. r \<leftarrow> reasons]
      else if c = reconciled then [[''match''], [''drift'']]
      else if c = requests then [[pattern_path p, pattern_method p, utoa s]. p \<leftarrow> patterns, s \<leftarrow> answer_statuses]
      else [[]])"

definition closed :: "bool \<Rightarrow> sample \<Rightarrow> bool" where
  "closed blank s \<longleftrightarrow> accepted s \<and> sa_Values s \<in> set (series blank (sa_Collector s))"

section \<open>What a submission settles\<close>

lemma valid_labels:
  "Kind_Valid k \<Longrightarrow> string_of_kind k \<in> set kinds"
  "Status_Valid s \<Longrightarrow> string_of_status s \<in> set statuses"
  by (cases k; simp add: kinds_def Kind_Valid_def) (cases s; simp add: statuses_def Status_Valid_def)

definition settled_labels :: "SubmitResult \<Rightarrow> bool" where
  "settled_labels res \<longleftrightarrow> Kind_Valid (t_kind (sr_transaction res)) \<and> Status_Valid (t_status (sr_transaction res))"

lemma stored_labels: "bank_ok b \<Longrightarrow> t \<in> set (b_txs b) \<Longrightarrow> Kind_Valid (t_kind t) \<and> Status_Valid (t_status t)"
  by (auto simp: bank_ok_def txs_ok_def tx_st_def tx_storable_def tx_ok_def tx_shape_def)

lemma put_tx_mem: "t \<in> set (put_tx ts t)"
  by (auto simp: put_tx_def)

lemma recorded_labels:
  assumes "commit b b'" "bank_ok b" "b_txs b' = put_tx (b_txs b) (trunc_tx t)"
  shows "Kind_Valid (t_kind t) \<and> Status_Valid (t_status t)"
  using stored_labels [of b' "trunc_tx t"] commits_ok [of b b'] assms put_tx_mem by auto

lemma Submit_execute_labels:
  assumes "idle w" "clock_ok \<Gamma>" "represents (db w) b" "bank_ok b"
    and "Submit_execute \<Gamma> retry (ReferencePolicy_normalised pol) c cmd w = (Inr res, w')"
  shows "settled_labels res"
  using submission_refined [OF assms] recorded_labels [OF _ assms(4)] stored_labels [OF assms(4)]
  by (auto simp: settled_labels_def replayed_def applied_once_def split: if_splits)

lemma ExecuteIn_labels:
  assumes "ExecuteIn \<Gamma> (ReferencePolicy_normalised pol) cmd c w = (Inr res, w')"
    and "represents (db w) b" "bank_ok b" "clock_ok \<Gamma>"
  shows "settled_labels res"
  using ExecuteIn_ok [OF assms(1-3)] clock_okD [OF assms(4)] recorded_labels [OF _ assms(3)] stored_labels [OF assms(3)]
  by (fastforce simp: settled_labels_def submitted_def settles_def replayed_def split: if_splits)

section \<open>The edge\<close>

text \<open>One answer: one status, of the closed set, and meters of the closed set.\<close>

definition answered :: "exchange \<Rightarrow> exchange \<Rightarrow> bool" where
  "answered x x' \<longleftrightarrow>
     (\<exists>s ms. s \<in> set answer_statuses \<and> wt_statuses (x_writer x') = wt_statuses (x_writer x) @ [s]
        \<and> x_meters x' = x_meters x @ ms \<and> (\<forall>m\<in>set ms. \<forall>took. 0 \<le>s took \<longrightarrow> closed False (http_sample took m)))"

lemma answered_writeJSON: "s \<in> set answer_statuses \<Longrightarrow> answered x (writeJSON s b (x\<lparr>x_world := w\<rparr>))"
  "s \<in> set answer_statuses \<Longrightarrow> answered x (writeJSON s b x)"
  by (auto simp: answered_def)

lemma statusFor_closed: "fst (statusFor e) \<in> set answer_statuses"
proof -
  have "map_of domainStatus c = Some s \<Longrightarrow> s \<in> set answer_statuses" for c s
    by (drule map_of_SomeD) (auto simp: domainStatus_def answer_statuses_def)
  then show ?thesis
    by (auto simp: statusFor_def answer_statuses_def split: option.splits)
qed

lemma answered_error: "answered x (answer_error c e (x\<lparr>x_world := w\<rparr>))" "answered x (answer_error c e x)"
  using statusFor_closed [of e] answered_writeJSON
  by (auto simp: answer_error_def writeError_def Let_def split: prod.splits)

lemma answered_answering:
  "s \<in> set answer_statuses \<Longrightarrow> answered x (answering c m (\<lambda>v. writeJSON s (f v)) x)"
  by (auto simp: answering_def answered_error answered_writeJSON split: prod.splits sum.splits)

lemma answered_meters:
  assumes "answered y x'" "wt_statuses (x_writer y) = wt_statuses (x_writer x)" "x_meters y = x_meters x @ ms"
    and "\<forall>m\<in>set ms. \<forall>took. 0 \<le>s took \<longrightarrow> closed False (http_sample took m)"
  shows "answered x x'"
  using assms unfolding answered_def by (metis UnE append.assoc set_append)

lemma listed_statuses [simp]:
  "StatusOK \<in> set answer_statuses" "StatusCreated \<in> set answer_statuses" "StatusUnauthorized \<in> set answer_statuses"
  "StatusServiceUnavailable \<in> set answer_statuses" "submitStatus res \<in> set answer_statuses"
  by (auto simp: answer_statuses_def submitStatus_def split: status.splits)

lemma latency_closed: "0 \<le>s took \<Longrightarrow> s \<in> set sources \<Longrightarrow> closed blank (operation_sample took (OperationLatency s))"
  by (auto simp: closed_def accepted_def series_def recorder_defs registered_def collector_defs)

lemma contention_closed: "closed blank (operation_sample took WalletContention)"
  by (auto simp: closed_def accepted_def series_def recorder_defs registered_def collector_defs)

lemma settled_closed:
  "s \<in> set sources \<Longrightarrow> k \<in> set kinds \<Longrightarrow> t \<in> set statuses \<Longrightarrow> closed blank (operation_sample took (OperationSettled s k t))"
  by (auto simp: closed_def accepted_def series_def recorder_defs registered_def)
    (simp_all add: operations_def)

lemma Settled_closed:
  assumes "0 \<le>s took" "s \<in> set sources" "case err of None \<Rightarrow> settled_labels res | Some _ \<Rightarrow> True" "m \<in> set (Submit_Settled s res err)"
  shows "closed blank (operation_sample took m)"
  using assms latency_closed contention_closed settled_closed valid_labels
  by (cases err) (auto simp: Submit_Settled_def settled_labels_def split: if_splits)

lemma drift_closed: "closed blank (http_sample took (Reconciled d))"
  by (auto simp: closed_def accepted_def series_def recorder_defs registered_def collector_defs)

lemma observed_closed:
  "0 \<le>s took \<Longrightarrow> p \<in> set patterns \<Longrightarrow> s \<in> set answer_statuses \<Longrightarrow>
     closed blank (http_sample took (RequestObserved (pattern_path p) (pattern_method p) s))"
  by (auto simp: closed_def accepted_def series_def recorder_defs registered_def)
    (auto simp: collector_defs)

lemma route_patterns: "rt \<in> set (routeTable sv) \<Longrightarrow> rt_pattern rt \<in> set patterns"
  by (auto simp: routeTable_def patterns_def)

lemma probes_answer:
  "fst (fold (probe_one n) ps (s, b)) \<in> {s, StatusServiceUnavailable}"
  by (induction ps arbitrary: s b) (force simp: probe_one_def)+

lemma answered_Submit:
  assumes "idle (x_world x)" "clock_ok (sv_env sv)" "represents (db (x_world x)) b" "bank_ok b"
    and "sv_waiting sv = ReferencePolicy_normalised pol"
  shows "answered x (TransactionHandler_Submit sv r c x)"
proof (cases "read_submit r")
  case (Inl e)
  then show ?thesis by (simp add: TransactionHandler_Submit_def answered_error)
next
  case (Inr cmd)
  obtain q w where e: "Submit_execute (sv_env sv) (sv_retry sv) (sv_waiting sv) c cmd (x_world x) = (q, w)" by (metis surj_pair)
  have ok: "settled_labels res" if "q = Inr res" for res
    using Submit_execute_labels [OF assms(1-4)] e that assms(5) by auto
  show ?thesis
  proof (cases q)
    case (Inl err)
    have "\<forall>m\<in>set (map Business (Submit_Settled ''http'' no_result (Some err))). \<forall>took. 0 \<le>s took \<longrightarrow> closed False (http_sample took m)"
      using Settled_closed [where s = "''http''" and err = "Some err" and res = no_result] by (auto simp: sources_def)
    then show ?thesis
      using answered_meters [OF answered_error(2)] Inr e Inl
      by (simp add: TransactionHandler_Submit_def Submit_Execute_def Let_def)
  next
    case (Inr res)
    have "\<forall>m\<in>set (map Business (Submit_Settled ''http'' res None)). \<forall>took. 0 \<le>s took \<longrightarrow> closed False (http_sample took m)"
      using Settled_closed [where s = "''http''" and err = None and res = res] ok [OF Inr] by (auto simp: sources_def)
    then show ?thesis
      using answered_meters [OF answered_writeJSON(2)] \<open>read_submit r = Inr cmd\<close> e Inr
      by (simp add: TransactionHandler_Submit_def Submit_Execute_def Let_def)
  qed
qed

lemma answered_Check: "answered x (ReconciliationHandler_Check sv i r c x)"
proof -
  obtain q ds w where e: "ReconcileWallet_Execute (sv_env sv) c i (x_world x) = (q, ds, w)" by (metis prod_cases3)
  have d: "\<forall>m\<in>set (map Reconciled ds). \<forall>took. 0 \<le>s took \<longrightarrow> closed False (http_sample took m)" using drift_closed by auto
  show ?thesis
    using answered_meters [OF answered_error(2) _ _ d] answered_meters [OF answered_writeJSON(2) _ _ d] e
    by (cases q) (simp_all add: ReconciliationHandler_Check_def Let_def)
qed

lemma answered_routes:
  assumes "rt \<in> set (routeTable sv)"
    and "idle (x_world x)" "clock_ok (sv_env sv)" "represents (db (x_world x)) b" "bank_ok b"
    and "sv_waiting sv = ReferencePolicy_normalised pol"
  shows "answered x (rt_handler rt v r c x)"
proof -
  have ready: "answered x (HealthHandler_Ready sv r c x)"
    using probes_answer [of "calls (x_world x)" "sv_probes sv" StatusOK "\<lparr>hr_status = ''ok'', hr_dependents = []\<rparr>"] answered_writeJSON(2)
    by (auto simp: HealthHandler_Ready_def split: prod.splits)
  have opened: "answered x (WalletHandler_Open sv r c x)" "answered x (WalletHandler_Ledger sv i r c x)" for i
    by (auto simp: WalletHandler_Open_def WalletHandler_Ledger_def answered_error answered_answering split: sum.splits option.splits)
  have gets: "answered x (WalletHandler_Get sv i r c x)" "answered x (TransactionHandler_Get sv i r c x)"
    "answered x (TransactionHandler_GetByProvider sv i j r c x)" "answered x (HealthHandler_Live r c x)" for i j
    by (simp_all add: WalletHandler_Get_def TransactionHandler_Get_def TransactionHandler_GetByProvider_def
        HealthHandler_Live_def answered_answering answered_writeJSON)
  show ?thesis
    using assms(1) ready opened gets answered_Check answered_Submit [OF assms(2-6)]
    by (auto simp: routeTable_def)
qed

lemma answered_observe:
  assumes "answered x (f r c x)" "p \<in> set patterns" "x_meters x = []" "m \<in> set (x_meters (observe on p f r c x))" "0 \<le>s took"
  shows "closed False (http_sample took m)"
proof -
  obtain s ms where s: "s \<in> set answer_statuses" "wt_statuses (x_writer (f r c x)) = wt_statuses (x_writer x) @ [s]"
    "x_meters (f r c x) = ms" "\<forall>m\<in>set ms. \<forall>took. 0 \<le>s took \<longrightarrow> closed False (http_sample took m)"
    using assms(1,3) by (auto simp: answered_def)
  then have "recorded_status x (f r c x) = s" by (simp add: recorded_status_def)
  then show ?thesis
    using s assms(4,5) observed_closed [OF assms(5,2) s(1)] by (auto simp: observe_def Let_def split: if_splits)
qed

lemma answered_require:
  assumes "\<And>c. answered x (f r c x)"
  shows "answered x (Authenticator_require sv f r c x)"
proof -
  have "answered x (Authenticator_refuse c x)"
    by (auto simp: Authenticator_refuse_def answered_def)
  then show ?thesis using assms by (auto simp: require_cases split: sum.splits)
qed

section \<open>The queue\<close>

text \<open>What the callback of a delivery has reported so far, and the result it may hold.\<close>

definition consume_closed :: "consume_state \<Rightarrow> bool" where
  "consume_closed v \<longleftrightarrow>
     (\<forall>m\<in>set (cs_metrics v). \<forall>took. closed True (queue_sample took m)) \<and> (cs_result v = no_result \<or> settled_labels (cs_result v))"

lemma discard_closed: "reason \<in> set reasons \<Longrightarrow> closed blank (queue_sample took (MessageDiscarded reason))"
  by (auto simp: closed_def accepted_def series_def recorder_defs registered_def collector_defs)

lemma queue_closed: "closed blank (queue_sample took MessageReleased)" "closed blank (queue_sample took MessageDeduplicated)"
  by (auto simp: closed_def accepted_def series_def recorder_defs registered_def collector_defs)

lemma discarded_closed: "consume_closed v \<Longrightarrow> reason \<in> set reasons \<Longrightarrow> consume_closed (discarded reason v)"
  by (auto simp: consume_closed_def discarded_def discard_closed simp del: queue_sample.simps)

lemma listed_reasons [simp]:
  "DiscardMalformed \<in> set reasons" "DiscardUnusable \<in> set reasons" "DiscardNoProvider \<in> set reasons" "DiscardReusedID \<in> set reasons"
  by (simp_all add: reasons_def)

lemma alreadySeen_closed: "alreadySeen \<Gamma> cfg envelope hash v w = (r, v', w') \<Longrightarrow> consume_closed v \<Longrightarrow> consume_closed v'"
  by (auto simp: alreadySeen_def discarded_closed split: prod.splits sum.splits if_splits)

lemma complete_closed: "consume_complete \<Gamma> cfg envelope now v w = (r, v', w') \<Longrightarrow> consume_closed v \<Longrightarrow> consume_closed v'"
  by (auto simp: consume_complete_def consume_closed_def split: prod.splits)

lemma consume_body_closed:
  assumes I: "consume_closed v" and rep: "represents d b" "bank_ok b" "clock_ok \<Gamma>" and sd: "same_data d (db w)"
    and run: "consume_body \<Gamma> (ReferencePolicy_normalised pol) cfg envelope cmd hash c v w = (r, v', w')"
  shows "consume_closed v'"
proof -
  let ?now = "time_UTC (env_now \<Gamma> (calls w))"
  obtain q w2 where q: "Inbox_Claim \<Gamma> (inbox_claim cfg envelope hash ?now) (tick w) = (q, w2)" by (metis surj_pair)
  show ?thesis
  proof (cases q)
    case (Inl e)
    then show ?thesis
      using run q I alreadySeen_closed by (auto simp: consume_body_def clock_Now_def split: if_splits)
  next
    case (Inr u)
    have "represents (db w2) b"
      using q represents_same_data [OF rep(1) sd] Inr by (cases rule: Inbox_Claim_cases) simp_all
    note labels = ExecuteIn_labels [OF _ this rep(2,3)]
    obtain x w3 where x: "ExecuteIn \<Gamma> (ReferencePolicy_normalised pol) cmd c w2 = (x, w3)" by (metis surj_pair)
    show ?thesis
    proof (cases x)
      case (Inl e)
      then show ?thesis
        using run q x Inr I discarded_closed [OF I]
        by (auto simp: consume_body_def clock_Now_def split: option.splits dest!: complete_closed)
    next
      case (Inr res)
      have "consume_closed (v\<lparr>cs_result := res\<rparr>)"
        using I labels x Inr by (auto simp: consume_closed_def)
      then show ?thesis
        using run q x Inr \<open>q = Inr u\<close> by (auto simp: consume_body_def clock_Now_def dest!: complete_closed)
    qed
  qed
qed

lemma do_keeps:
  assumes "UnitOfWork_Do \<Gamma> retry c fn v w = (r, v', w')" "idle w" "I v"
    and "\<And>c v w r v' w'. I v \<Longrightarrow> same_data d (db w) \<Longrightarrow> fn c v w = (r, v', w') \<Longrightarrow> I v'" "same_data d (db w)"
  shows "I v'"
proof (cases "c_insideUnitOfWork c")
  case True
  then show ?thesis using assms(1,3) by (auto simp: UnitOfWork_Do_def)
next
  case False
  then obtain k where "tried \<Gamma> c fn k v w (r, v', w')"
    using do_loop_tried [of 1 "RetryPolicy_normalised retry" \<Gamma> c fn v w] RetryPolicy_normal assms(1)
    by (auto simp: UnitOfWork_Do_def)
  then show ?thesis using tried_keeps [of \<Gamma> c fn k v w "(r, v', w')" I d] assms by auto
qed

lemma Settled_queue:
  assumes "res = no_result \<or> settled_labels res" "m \<in> set (Submit_Settled ''queue'' res None)" "0 \<le>s took"
  shows "closed True (operation_sample took m)"
proof (cases "settled_labels res")
  case True
  then show ?thesis using Settled_closed [OF assms(3) _ _ assms(2)] by (simp add: sources_def)
next
  case False
  have "closed True (operation_sample took (OperationSettled ''queue'' '''' ''''))"
    by (auto simp: closed_def accepted_def series_def recorder_defs registered_def) (simp_all add: operations_def)
  then show ?thesis
    using False assms latency_closed [OF assms(3), of "''queue''"] by (auto simp: Submit_Settled_def no_result_def sources_def)
qed

lemma Consumer_handle_closed:
  assumes "idle w" "clock_ok \<Gamma>" "represents (db w) b" "bank_ok b"
    and run: "Consumer_handle \<Gamma> retry (ReferencePolicy_normalised pol) cfg c message w = (metrics, what, w')"
    and "m \<in> set metrics" "0 \<le>s took"
  shows "closed True (queue_sample took m)"
proof (cases "undeliverable cfg message")
  case True
  then show ?thesis
    using run assms(6) discard_closed by (auto simp: undeliverable_def Consumer_handle_def split: sum.splits prod.splits)
next
  case False
  then obtain envelope cmd identity where e: "decodeEnvelope (qm_body message) = Inr (envelope, cmd)"
    and i: "Consumer_identity cfg envelope = Inr identity"
    by (auto simp: undeliverable_def split: sum.splits)
  obtain hash where h: "SubmitCommand_PayloadHash cmd = Inr hash" using PayloadHash_eq by blast
  let ?fn = "consume_body \<Gamma> (ReferencePolicy_normalised pol) cfg envelope cmd hash"
  obtain q v w1 where u: "UnitOfWork_Do \<Gamma> retry (work_context c envelope identity) ?fn fresh_state w = (q, v, w1)" by (metis prod_cases3)
  have "consume_closed fresh_state" by (simp add: consume_closed_def fresh_state_def)
  then have v: "consume_closed v"
    using do_keeps [OF u assms(1), of consume_closed "db w"] consume_body_closed [OF _ assms(3,4,2)] by auto
  then show ?thesis
    using run e i h u assms(6,7) queue_closed Settled_queue [of "cs_result v"]
    by (auto simp: Consumer_handle_def Consumer_apply_def consume_closed_def split: sum.splits if_splits)
qed

section \<open>Every meter is a series of a closed set\<close>


lemma default_normal: "ReferencePolicy_normalised DefaultReferencePolicy = DefaultReferencePolicy"
  by (simp add: ReferencePolicy_normalised_def DefaultReferencePolicy_def second_def Let_def signed_defs)


text \<open>
  A lag that the clocks make negative is observed as none, so the sum of the histogram never falls.
\<close>

lemma lag_not_negative: "\<exists>d. Recorder_EventPublished lag = \<lparr>sa_Collector = publishLag, sa_Values = [], sa_What = Observe d\<rparr> \<and> 0 \<le>s d"
  by (auto simp: Recorder_EventPublished_def signed_defs)

lemma outbox_closed: "closed False (outbox_sample lag m)"
  by (cases m) (auto simp: closed_def accepted_def series_def recorder_defs registered_def collector_defs signed_defs)

text \<open>How many series there can be.\<close>

lemma series_count: "sum_list (map (length \<circ> series True) registered) = 183"
  by (simp add: registered_def series_def collector_defs sources_def kinds_def statuses_def reasons_def patterns_def answer_statuses_def)

end
