(* ===== verification/Url.thy ===== *)
theory Url
  imports Prelude
begin

text \<open>
  What the program uses of \<open>net/url\<close>: escaping, \<open>url.Parse\<close>, the parts of a parsed url and
  \<open>URL.String\<close>, byte by byte, and the round trip the connection string of the database rests on.
  Two things are arguments: which texts between brackets are IPv6 addresses
  (\<open>netip.ParseAddr\<close>), and for which schemes a release of the library refuses a host with
  several colons.
\<close>

section \<open>Escaping\<close>

datatype encoding = encodePath | encodeUserPassword | encodeQueryComponent | encodeHost | encodeZone | encodeFragment

definition is_alnum :: "char \<Rightarrow> bool" where
  "is_alnum c \<longleftrightarrow> is_digit c \<or> (CHR ''a'' \<le> c \<and> c \<le> CHR ''z'') \<or> (CHR ''A'' \<le> c \<and> c \<le> CHR ''Z'')"

definition shouldEscape :: "encoding \<Rightarrow> char \<Rightarrow> bool" where
  "shouldEscape m c =
     (if is_alnum c then False
      else if (m = encodeHost \<or> m = encodeZone) \<and> c \<in> set ''!$&'' \<union> {CHR 0x27} \<union> set ''()*+,;=:[]<>'' \<union> {CHR 0x22} then False
      else if c \<in> set ''-_.~'' then False
      else if c \<in> set ''$&+,/:;=?@'' then
        (case m of
           encodePath \<Rightarrow> c = CHR ''?''
         | encodeUserPassword \<Rightarrow> c \<in> set ''@/?:''
         | encodeQueryComponent \<Rightarrow> True
         | encodeFragment \<Rightarrow> False
         | _ \<Rightarrow> True)
      else \<not> (m = encodeFragment \<and> c \<in> set ''!()*''))"

definition upperhex :: "nat \<Rightarrow> char" where
  "upperhex n = ''0123456789ABCDEF'' ! n"

definition percent :: "char \<Rightarrow> string" where
  "percent c = [CHR ''%'', upperhex (of_char c div 16), upperhex (of_char c mod 16)]"

definition escape_char :: "encoding \<Rightarrow> char \<Rightarrow> string" where
  "escape_char m c =
     (if c = CHR '' '' \<and> m = encodeQueryComponent then ''+'' else if shouldEscape m c then percent c else [c])"

definition escape :: "encoding \<Rightarrow> string \<Rightarrow> string" where
  "escape m s = concat (map (escape_char m) s)"

definition unhex :: "char \<Rightarrow> nat option" where
  "unhex c =
     (if is_digit c then Some (of_char c - 48)
      else if CHR ''a'' \<le> c \<and> c \<le> CHR ''f'' then Some (of_char c - 87)
      else if CHR ''A'' \<le> c \<and> c \<le> CHR ''F'' then Some (of_char c - 55)
      else None)"

text \<open>What a host may spell with a percent sign: bytes beyond ASCII, the sign itself, and in a zone more.\<close>

definition percent_allowed :: "encoding \<Rightarrow> nat \<Rightarrow> bool" where
  "percent_allowed m v =
     (if m = encodeHost then 128 \<le> v \<or> v = 37
      else if m = encodeZone then v = 37 \<or> v = 32 \<or> \<not> shouldEscape encodeHost (char_of v)
      else True)"

fun unescape :: "encoding \<Rightarrow> string \<Rightarrow> string option" where
  "unescape m [] = Some []"
| "unescape m (c # s) =
     (if c = CHR ''%'' then
        (case s of
           a # b # rest \<Rightarrow>
             (case (unhex a, unhex b) of
                (Some x, Some y) \<Rightarrow>
                  if percent_allowed m (16 * x + y) then map_option (Cons (char_of (16 * x + y))) (unescape m rest) else None
              | _ \<Rightarrow> None)
         | _ \<Rightarrow> None)
      else if c = CHR ''+'' \<and> m = encodeQueryComponent then map_option (Cons (CHR '' '')) (unescape m s)
      else if (m = encodeHost \<or> m = encodeZone) \<and> of_char c < (128 :: nat) \<and> shouldEscape m c then None
      else map_option (Cons c) (unescape m s))"

section \<open>Cutting strings\<close>

text \<open>\<open>strings.Cut\<close> at a byte, and at its last occurrence.\<close>

definition cut_at :: "char \<Rightarrow> string \<Rightarrow> (string \<times> string) option" where
  "cut_at c s = (if c \<in> set s then Some (takeWhile (\<lambda>x. x \<noteq> c) s, tl (dropWhile (\<lambda>x. x \<noteq> c) s)) else None)"

definition cut_last :: "char \<Rightarrow> string \<Rightarrow> (string \<times> string) option" where
  "cut_last c s = map_option (\<lambda>(a, b). (rev b, rev a)) (cut_at c (rev s))"

definition before :: "char \<Rightarrow> string \<Rightarrow> string" where
  "before c s = (case cut_at c s of None \<Rightarrow> s | Some (a, b) \<Rightarrow> a)"

definition after_cut :: "char \<Rightarrow> string \<Rightarrow> string" where
  "after_cut c s = (case cut_at c s of None \<Rightarrow> '''' | Some (a, b) \<Rightarrow> b)"

definition has_prefix :: "string \<Rightarrow> string \<Rightarrow> bool" where
  "has_prefix p s \<longleftrightarrow> take (length p) s = p"

definition trim_prefix :: "string \<Rightarrow> string \<Rightarrow> string" where
  "trim_prefix p s = (if has_prefix p s then drop (length p) s else s)"

section \<open>A url\<close>

record URL =
  u_Scheme :: string
  u_User :: "(string \<times> string option) option"
  u_Host :: string
  u_Path :: string
  u_RawQuery :: string

definition no_url :: URL where
  "no_url = \<lparr>u_Scheme = '''', u_User = None, u_Host = '''', u_Path = '''', u_RawQuery = ''''\<rparr>"

text \<open>What differs between installations of the library.\<close>

record url_lib =
  lib_ip_literal :: "string \<Rightarrow> bool"
  lib_strict_colons :: "string \<Rightarrow> bool"

definition to_lower :: "char \<Rightarrow> char" where
  "to_lower c = (if CHR ''A'' \<le> c \<and> c \<le> CHR ''Z'' then char_of (of_char c + (32 :: nat)) else c)"

definition is_letter :: "char \<Rightarrow> bool" where
  "is_letter c \<longleftrightarrow> (CHR ''a'' \<le> c \<and> c \<le> CHR ''z'') \<or> (CHR ''A'' \<le> c \<and> c \<le> CHR ''Z'')"

text \<open>\<open>getScheme\<close>: the scheme and the rest; \<open>None\<close> for a leading colon.\<close>

fun getScheme :: "string \<Rightarrow> string \<Rightarrow> string \<Rightarrow> (string \<times> string) option" where
  "getScheme raw seen [] = Some ('''', raw)"
| "getScheme raw seen (c # s) =
     (if is_letter c then getScheme raw (seen @ [c]) s
      else if is_digit c \<or> c \<in> set ''+-.'' then (if seen = '''' then Some ('''', raw) else getScheme raw (seen @ [c]) s)
      else if c = CHR '':'' then (if seen = '''' then None else Some (seen, s))
      else Some ('''', raw))"

definition validUserinfo :: "string \<Rightarrow> bool" where
  "validUserinfo s \<longleftrightarrow> list_all (\<lambda>c. is_alnum c \<or> c \<in> set ''-._:~!$&'' \<union> {CHR 0x27} \<union> set ''()*+,;=%@'') s"

definition validOptionalPort :: "string \<Rightarrow> bool" where
  "validOptionalPort s \<longleftrightarrow> s = '''' \<or> (hd s = CHR '':'' \<and> list_all is_digit (tl s))"

text \<open>The host between brackets, with its zone.\<close>

fun zone_split :: "string \<Rightarrow> string \<Rightarrow> (string \<times> string) option" where
  "zone_split seen [] = None"
| "zone_split seen (c # s) = (if has_prefix ''%25'' (c # s) then Some (seen, c # s) else zone_split (seen @ [c]) s)"

definition parse_ip_literal :: "url_lib \<Rightarrow> string \<Rightarrow> string option" where
  "parse_ip_literal L host =
     (case cut_last (CHR '']'') host of
        None \<Rightarrow> None
      | Some (inside, colonPort) \<Rightarrow>
          if \<not> validOptionalPort colonPort then None
          else
            (let name = (case zone_split '''' inside of
                           None \<Rightarrow> unescape encodeHost inside
                         | Some (a, z) \<Rightarrow>
                             (case (unescape encodeHost a, unescape encodeZone z) of
                                (Some x, Some y) \<Rightarrow> Some (x @ y) | _ \<Rightarrow> None)) in
             case (name, unescape encodeHost colonPort) of
               (Some n, Some p) \<Rightarrow> if lib_ip_literal L n then Some (''['' @ n @ '']'' @ p) else None
             | _ \<Rightarrow> None))"

definition parseHost :: "url_lib \<Rightarrow> string \<Rightarrow> string \<Rightarrow> string option" where
  "parseHost L scheme host =
     (if has_prefix ''['' host \<and> CHR ''['' \<notin> set (tl host) then parse_ip_literal L (tl host)
      else if CHR ''['' \<in> set host then None
      else
        let port = (if lib_strict_colons L scheme
                    then (case cut_at (CHR '':'') host of None \<Rightarrow> '''' | Some (a, b) \<Rightarrow> CHR '':'' # b)
                    else (case cut_last (CHR '':'') host of None \<Rightarrow> '''' | Some (a, b) \<Rightarrow> CHR '':'' # b)) in
        if \<not> validOptionalPort port then None else unescape encodeHost host)"

definition parseAuthority :: "url_lib \<Rightarrow> string \<Rightarrow> string \<Rightarrow> ((string \<times> string option) option \<times> string) option" where
  "parseAuthority L scheme authority =
     (case cut_last (CHR ''@'') authority of
        None \<Rightarrow> map_option (Pair None) (parseHost L scheme authority)
      | Some (userinfo, rest) \<Rightarrow>
          (case parseHost L scheme rest of
             None \<Rightarrow> None
           | Some host \<Rightarrow>
               if \<not> validUserinfo userinfo then None
               else (case cut_at (CHR '':'') userinfo of
                       None \<Rightarrow> map_option (\<lambda>n. (Some (n, None), host)) (unescape encodeUserPassword userinfo)
                     | Some (name, password) \<Rightarrow>
                         (case (unescape encodeUserPassword name, unescape encodeUserPassword password) of
                            (Some n, Some p) \<Rightarrow> Some (Some (n, Some p), host)
                          | _ \<Rightarrow> None))))"

definition is_control :: "char \<Rightarrow> bool" where
  "is_control c \<longleftrightarrow> of_char c < (32 :: nat) \<or> of_char c = (127 :: nat)"

text \<open>
  \<open>url.Parse\<close>. A url with a scheme and no slash is opaque: it keeps only the scheme and the
  query. The fragment is checked and dropped.
\<close>

definition url_hierarchy :: "url_lib \<Rightarrow> string \<Rightarrow> string \<Rightarrow> string \<Rightarrow> URL option" where
  "url_hierarchy L scheme rest query =
     (let (authority, path) =
            (if has_prefix ''//'' rest \<and> (scheme \<noteq> '''' \<or> \<not> has_prefix ''///'' rest)
             then (let a = drop 2 rest in
                   case cut_at (CHR ''/'') a of None \<Rightarrow> (Some a, '''') | Some (x, y) \<Rightarrow> (Some x, CHR ''/'' # y))
             else (None, rest)) in
      case (case authority of None \<Rightarrow> Some (None, '''') | Some a \<Rightarrow> parseAuthority L scheme a) of
        None \<Rightarrow> None
      | Some (user, host) \<Rightarrow>
          map_option (\<lambda>p. \<lparr>u_Scheme = scheme, u_User = user, u_Host = host, u_Path = p, u_RawQuery = query\<rparr>)
            (unescape encodePath path))"

definition url_Parse :: "url_lib \<Rightarrow> string \<Rightarrow> URL option" where
  "url_Parse L rawURL =
     (let raw = before (CHR ''#'') rawURL in
      if list_ex is_control raw then None
      else if unescape encodeFragment (after_cut (CHR ''#'') rawURL) = None then None
      else if raw = ''*'' then Some (no_url\<lparr>u_Path := ''*''\<rparr>)
      else case getScheme raw '''' raw of
        None \<Rightarrow> None
      | Some (sch, rest) \<Rightarrow>
          (let scheme = map to_lower sch;
               (rest, query) = (before (CHR ''?'') rest, after_cut (CHR ''?'') rest) in
           if \<not> has_prefix ''/'' rest then
             if scheme \<noteq> '''' then Some (no_url\<lparr>u_Scheme := scheme, u_RawQuery := query\<rparr>)
             else if CHR '':'' \<in> set (before (CHR ''/'') rest) then None
             else url_hierarchy L scheme rest query
           else url_hierarchy L scheme rest query))"

section \<open>The parts of a url\<close>

definition splitHostPort :: "string \<Rightarrow> string \<times> string" where
  "splitHostPort hostPort =
     (let (host, port) = (case cut_last (CHR '':'') hostPort of
                            Some (h, p) \<Rightarrow> if list_all is_digit p then (h, p) else (hostPort, '''')
                          | None \<Rightarrow> (hostPort, '''')) in
      if host \<noteq> '''' \<and> hd host = CHR ''['' \<and> last host = CHR '']'' then (butlast (tl host), port) else (host, port))"

definition Hostname :: "URL \<Rightarrow> string" where "Hostname u = fst (splitHostPort (u_Host u))"
definition Port :: "URL \<Rightarrow> string" where "Port u = snd (splitHostPort (u_Host u))"

definition Username :: "URL \<Rightarrow> string" where
  "Username u = (case u_User u of None \<Rightarrow> '''' | Some (n, p) \<Rightarrow> n)"

definition Password :: "URL \<Rightarrow> string" where
  "Password u = (case u_User u of Some (n, Some p) \<Rightarrow> p | _ \<Rightarrow> '''')"

text \<open>\<open>Query().Get\<close>: the pairs that can be read, and the first value of a key.\<close>

function query_pairs :: "string \<Rightarrow> (string \<times> string) list" where
  "query_pairs q =
     (if q = '''' then []
      else
        let pair = before (CHR ''&'') q; rest = query_pairs (after_cut (CHR ''&'') q) in
        if CHR '';'' \<in> set pair \<or> pair = '''' then rest
        else case (unescape encodeQueryComponent (before (CHR ''='') pair), unescape encodeQueryComponent (after_cut (CHR ''='') pair)) of
               (Some k, Some v) \<Rightarrow> (k, v) # rest
             | _ \<Rightarrow> rest)"
  by pat_completeness auto
termination
proof (relation "measure length")
  fix q :: string
  assume "q \<noteq> ''''"
  then show "(after_cut (CHR ''&'') q, q) \<in> measure length"
    using length_dropWhile_le [of "\<lambda>x. x \<noteq> CHR ''&''" q] by (cases q) (auto simp: after_cut_def cut_at_def)
qed simp

declare query_pairs.simps [simp del]

definition query_Get :: "URL \<Rightarrow> string \<Rightarrow> string" where
  "query_Get u key = (case map_of (query_pairs (u_RawQuery u)) key of None \<Rightarrow> '''' | Some v \<Rightarrow> v)"

section \<open>Writing a url\<close>

text \<open>\<open>URL.String\<close> of a url with a scheme, an authority and a path.\<close>

definition URL_String :: "URL \<Rightarrow> string" where
  "URL_String u =
     u_Scheme u @ ''://''
     @ (case u_User u of
          None \<Rightarrow> ''''
        | Some (n, p) \<Rightarrow> escape encodeUserPassword n
            @ (case p of None \<Rightarrow> '''' | Some w \<Rightarrow> '':'' @ escape encodeUserPassword w) @ ''@'')
     @ escape encodeHost (u_Host u)
     @ (if u_Path u \<noteq> '''' \<and> hd (u_Path u) \<noteq> CHR ''/'' \<and> u_Host u \<noteq> '''' then ''/'' else '''')
     @ (if u_Path u = ''*'' then ''*'' else escape encodePath (u_Path u))
     @ (if u_RawQuery u = '''' then '''' else ''?'' @ u_RawQuery u)"

section \<open>Escaping and back\<close>

lemma of_char_byte: "of_char c < (256 :: nat)"
  using of_char_mod_256 [of c, where ?'a = nat] by (metis mod_less_divisor zero_less_numeral)

lemma of_char_digits: "of_char c div 16 < (16 :: nat)" "of_char c mod 16 < (16 :: nat)"
  using of_char_byte [of c] by (simp_all add: less_mult_imp_div_less)

lemma alnum_codes: "is_alnum c \<longleftrightarrow> of_char c \<in> {48..57} \<union> {97..122} \<union> {65..(90 :: nat)}"
  by (auto simp: is_alnum_def is_digit_def less_eq_char_def)

lemma unhex_upperhex: "n < 16 \<Longrightarrow> unhex (upperhex n) = Some n"
proof -
  have "\<forall>n<16. unhex (upperhex n) = Some n" by code_simp
  then show "n < 16 \<Longrightarrow> unhex (upperhex n) = Some n" by blast
qed

lemma percent_back: "unescape m (percent c @ s) = (if percent_allowed m (of_char c) then map_option (Cons c) (unescape m s) else None)"
proof -
  have "unhex (upperhex (of_char c div 16)) = Some (of_char c div 16)" "unhex (upperhex (of_char c mod 16)) = Some (of_char c mod 16)"
    by (rule unhex_upperhex [OF of_char_digits(1)], rule unhex_upperhex [OF of_char_digits(2)])
  then show ?thesis by (simp add: percent_def)
qed

lemma escape_append [simp]: "escape m (a @ b) = escape m a @ escape m b" "escape m [] = []"
  by (simp_all add: escape_def)

lemma escape_Cons: "escape m (c # s) = escape_char m c @ escape m s"
  by (simp add: escape_def)

lemma unescape_escape: "m \<in> {encodePath, encodeUserPassword, encodeQueryComponent} \<Longrightarrow> unescape m (escape m s) = Some s"
proof (induction s)
  case (Cons c s)
  have pc: "shouldEscape m (CHR ''%'')" "shouldEscape encodeQueryComponent (CHR ''+'')" "\<not> (m = encodeHost \<or> m = encodeZone)"
    using Cons.prems by (auto simp: shouldEscape_def is_alnum_def is_digit_def)
  show ?case
    using Cons pc percent_back [of m c "escape m s"] by (auto simp: escape_Cons escape_char_def percent_allowed_def)
qed (simp add: escape_def)

text \<open>The bytes escaping can leave.\<close>

definition plain_byte :: "char \<Rightarrow> bool" where
  "plain_byte c \<longleftrightarrow> is_alnum c \<or> c \<in> set ''-_.~%$&+,;=''"

lemma upperhex_alnum: "n < 16 \<Longrightarrow> is_alnum (upperhex n)"
proof -
  have "\<forall>n<16. is_alnum (upperhex n)" by code_simp
  then show "n < 16 \<Longrightarrow> is_alnum (upperhex n)" by blast
qed

lemma percent_plain: "x \<in> set (percent c) \<Longrightarrow> is_alnum x \<or> x = CHR ''%''"
  using upperhex_alnum [OF of_char_digits(1) [of c]] upperhex_alnum [OF of_char_digits(2) [of c]]
  by (auto simp: percent_def)

lemma escaped_user: "x \<in> set (escape encodeUserPassword s) \<Longrightarrow> plain_byte x"
  by (auto simp: escape_def escape_char_def plain_byte_def shouldEscape_def dest!: percent_plain split: if_splits)

lemma escaped_path: "x \<in> set (escape encodePath s) \<Longrightarrow> plain_byte x \<or> x \<in> set ''/:@''"
  by (auto simp: escape_def escape_char_def plain_byte_def shouldEscape_def dest!: percent_plain split: if_splits)

lemma escaped_query: "x \<in> set (escape encodeQueryComponent s) \<Longrightarrow> is_alnum x \<or> x \<in> set ''-_.~%+''"
  by (auto simp: escape_def escape_char_def plain_byte_def shouldEscape_def dest!: percent_plain split: if_splits)

section \<open>Reading what was written\<close>

lemma cut_at_append: "c \<notin> set a \<Longrightarrow> cut_at c (a @ c # b) = Some (a, b)"
  by (induction a) (auto simp: cut_at_def)

lemma cut_at_none: "c \<notin> set a \<Longrightarrow> cut_at c a = None"
  by (simp add: cut_at_def)

lemma cut_last_append: "c \<notin> set b \<Longrightarrow> cut_last c (a @ c # b) = Some (a, b)"
  using cut_at_append [of c "rev b" "rev a"] by (simp add: cut_last_def)

lemma getScheme_letters: "list_all is_letter a \<Longrightarrow> seen @ a \<noteq> [] \<Longrightarrow> getScheme raw seen (a @ CHR '':'' # s) = Some (seen @ a, s)"
  by (induction a arbitrary: seen) (auto simp: is_letter_def is_digit_def)

text \<open>A host name: letters, digits and marks.\<close>

definition host_name :: "string \<Rightarrow> bool" where
  "host_name h \<longleftrightarrow> list_all (\<lambda>c. is_alnum c \<or> c \<in> set ''-._'') h"

definition host_byte :: "char \<Rightarrow> bool" where
  "host_byte c \<longleftrightarrow> is_alnum c \<or> c \<in> set ''-._:''"

lemma host_escape: "list_all host_byte s \<Longrightarrow> escape encodeHost s = s"
  by (induction s) (auto simp: escape_Cons escape_char_def shouldEscape_def host_byte_def)

lemma host_unescape: "list_all host_byte s \<Longrightarrow> unescape encodeHost s = Some s"
proof (induction s)
  case (Cons c s)
  have "c \<noteq> CHR ''%''" using Cons.prems by (auto simp: host_byte_def alnum_codes)
  then show ?case using Cons by (auto simp: shouldEscape_def host_byte_def)
qed simp

lemma byte_codes:
  "plain_byte c \<Longrightarrow> c \<notin> {CHR ''#'', CHR ''?'', CHR ''/'', CHR '':'', CHR ''@'', CHR ''['', CHR '']''} \<and> \<not> is_control c"
  "is_alnum c \<Longrightarrow> c \<notin> {CHR ''#'', CHR ''?'', CHR ''/'', CHR '':'', CHR ''@'', CHR ''['', CHR '']'', CHR '';'', CHR ''&'', CHR ''=''} \<and> \<not> is_control c"
  by (auto simp: plain_byte_def alnum_codes is_control_def)

lemma host_bytes:
  assumes "host_name h" "list_all is_digit p"
  shows "list_all host_byte (h @ CHR '':'' # p)" "CHR '':'' \<notin> set h" "CHR '':'' \<notin> set p"
    "x \<in> set h \<union> set p \<Longrightarrow> x \<notin> {CHR ''#'', CHR ''?'', CHR ''/'', CHR ''@'', CHR ''['', CHR '']''} \<and> \<not> is_control x"
proof -
  have d: "is_digit c \<Longrightarrow> is_alnum c" for c by (simp add: is_alnum_def)
  have n: "is_alnum c \<or> c \<in> set ''-._'' \<Longrightarrow> c \<notin> {CHR ''#'', CHR ''?'', CHR ''/'', CHR '':'', CHR ''@'', CHR ''['', CHR '']''} \<and> \<not> is_control c" for c
    using byte_codes(2) [of c] by (auto simp: is_control_def)
  show "list_all host_byte (h @ CHR '':'' # p)"
    using assms d by (auto simp: host_name_def host_byte_def list_all_iff)
  show "CHR '':'' \<notin> set h" "CHR '':'' \<notin> set p"
    using assms n [of "CHR '':''"] d [of "CHR '':''"] by (auto simp: host_name_def list_all_iff)
  show "x \<in> set h \<union> set p \<Longrightarrow> x \<notin> {CHR ''#'', CHR ''?'', CHR ''/'', CHR ''@'', CHR ''['', CHR '']''} \<and> \<not> is_control x"
    using assms n [of x] d [of x] by (auto simp: host_name_def list_all_iff)
qed

lemma parseHost_name:
  assumes "host_name h" "list_all is_digit p"
  shows "parseHost L scheme (h @ CHR '':'' # p) = Some (h @ CHR '':'' # p)"
proof -
  note hb = host_bytes [OF assms]
  have b: "CHR ''['' \<notin> set (h @ CHR '':'' # p)" using hb(4) by auto
  then have "\<not> has_prefix ''['' (h @ CHR '':'' # p)" by (cases h) (auto simp: has_prefix_def)
  then show ?thesis
    using b assms(2) cut_at_append [OF hb(2), of p] cut_last_append [OF hb(3), of h] host_unescape [OF hb(1)]
    by (simp add: parseHost_def validOptionalPort_def)
qed

lemma parseAuthority_written:
  assumes "host_name h" "list_all is_digit p"
  shows "parseAuthority L scheme (escape encodeUserPassword n @ CHR '':'' # escape encodeUserPassword w @ CHR ''@'' # h @ CHR '':'' # p)
    = Some (Some (n, Some w), h @ CHR '':'' # p)"
proof -
  let ?n = "escape encodeUserPassword n" and ?w = "escape encodeUserPassword w"
  have at: "CHR ''@'' \<notin> set (h @ CHR '':'' # p)" using host_bytes(4) [OF assms] by auto
  have nn: "CHR '':'' \<notin> set ?n" using escaped_user byte_codes(1) by blast
  have v: "validUserinfo (?n @ CHR '':'' # ?w)"
    using escaped_user by (auto simp: validUserinfo_def list_all_iff plain_byte_def dest!: escaped_user)
  show ?thesis
    using cut_last_append [OF at, of "?n @ CHR '':'' # ?w"] cut_at_append [OF nn, of ?w] v parseHost_name [OF assms]
    by (simp add: parseAuthority_def unescape_escape)
qed

text \<open>A url with a name and a password, any bytes in either, reads back as it was.\<close>

lemma Parse_String:
  fixes n w path :: string
  assumes s: "list_all is_letter s" "s \<noteq> ''''" "map to_lower s = s" and h: "host_name h" "list_all is_digit p"
    and q: "q \<noteq> ''''" "\<forall>c\<in>set q. is_alnum c \<or> c \<in> set ''-_.~%+=''"
  defines "u \<equiv> \<lparr>u_Scheme = s, u_User = Some (n, Some w), u_Host = h @ CHR '':'' # p, u_Path = CHR ''/'' # path, u_RawQuery = q\<rparr>"
  shows "url_Parse L (URL_String u) = Some u"
proof -
  let ?A = "escape encodeUserPassword n @ CHR '':'' # escape encodeUserPassword w @ CHR ''@'' # h @ CHR '':'' # p"
  let ?P = "escape encodePath path"
  have hb: "list_all host_byte (h @ CHR '':'' # p)" by (rule host_bytes(1) [OF h])
  have pe: "escape encodePath (CHR ''/'' # path) = CHR ''/'' # ?P"
    by (simp add: escape_Cons escape_char_def shouldEscape_def is_alnum_def is_digit_def)
  have str: "URL_String u = s @ CHR '':'' # ''//'' @ ?A @ CHR ''/'' # ?P @ CHR ''?'' # q"
    using q(1) host_escape [OF hb] by (simp add: URL_String_def u_def pe)
  have sl: "\<forall>c\<in>set s. is_alnum c" using s(1) by (auto simp: list_all_iff is_letter_def is_alnum_def)
  have qb: "c \<in> set q \<Longrightarrow> c \<noteq> CHR ''#'' \<and> c \<noteq> CHR ''?'' \<and> \<not> is_control c" for c
    using q(2) byte_codes(2) [of c] by (auto simp: is_control_def)
  have pb: "c \<in> set ?P \<Longrightarrow> c \<noteq> CHR ''#'' \<and> c \<noteq> CHR ''?'' \<and> \<not> is_control c" for c
    using escaped_path [of c path] byte_codes(1) [of c] by (auto simp: is_control_def)
  have ab: "c \<in> set ?A \<Longrightarrow> c \<noteq> CHR ''#'' \<and> c \<noteq> CHR ''?'' \<and> c \<noteq> CHR ''/'' \<and> \<not> is_control c" for c
    using escaped_user [of c] byte_codes(1) [of c] host_bytes(4) [OF h, of c] by (auto simp: is_control_def)
  have sb: "c \<in> set s \<Longrightarrow> c \<noteq> CHR ''#'' \<and> \<not> is_control c" for c using sl byte_codes(2) [of c] by auto
  have lit: "\<not> is_control (CHR '':'')" "\<not> is_control (CHR ''/'')" "\<not> is_control (CHR ''?'')" by (simp_all add: is_control_def)
  have split: "set (URL_String u) = set s \<union> set ?A \<union> set ?P \<union> set q \<union> {CHR '':'', CHR ''/'', CHR ''?''}"
    unfolding str by auto
  have hash: "CHR ''#'' \<notin> set (URL_String u)" using sb ab pb qb unfolding split by blast
  have ctl: "\<not> list_ex is_control (URL_String u)"
    using sb ab pb qb lit unfolding split list_ex_iff by blast
  have star: "URL_String u \<noteq> ''*''" using s(2) unfolding str by (cases s) auto
  have sch: "getScheme (URL_String u) '''' (URL_String u) = Some (s, ''//'' @ ?A @ CHR ''/'' # ?P @ CHR ''?'' # q)"
    using getScheme_letters [OF s(1), of "''''" "URL_String u"] s(2) unfolding str by simp
  have "CHR ''?'' \<notin> set ?A \<union> set ?P" using ab pb by blast
  then have "CHR ''?'' \<notin> set (''//'' @ ?A @ CHR ''/'' # ?P)" by simp
  from cut_at_append [OF this, of q]
  have quest: "before (CHR ''?'') (''//'' @ ?A @ CHR ''/'' # ?P @ CHR ''?'' # q) = ''//'' @ ?A @ CHR ''/'' # ?P"
    "after_cut (CHR ''?'') (''//'' @ ?A @ CHR ''/'' # ?P @ CHR ''?'' # q) = q"
    by (simp_all add: before_def after_cut_def)
  have "CHR ''/'' \<notin> set ?A" using ab by blast
  note slash = cut_at_append [OF this, of ?P]
  have hier: "url_hierarchy L s (''//'' @ ?A @ CHR ''/'' # ?P) q = Some u"
    using s(2) slash parseAuthority_written [OF h, of L s n w] unescape_escape [of encodePath "CHR ''/'' # path"]
    by (simp add: url_hierarchy_def has_prefix_def pe u_def)
  show ?thesis
    using hash ctl star sch quest hier s(3)
    by (simp add: url_Parse_def before_def [of "CHR ''#''"] after_cut_def [of "CHR ''#''"] cut_at_none has_prefix_def)
qed

end
