(* ===== verification/Settings.thy ===== *)
theory Settings
  imports Url Oidc Policy Queue Http_Server Consumer
begin

text \<open>
  The settings of the process: \<open>internal/platform/config.go\<close> and \<open>app.go\<close>, which read them from
  the environment, and the constructors of \<open>modules.go\<close> that hand them to the components. The
  environment is a function from names to values, empty when unset, as \<open>os.Getenv\<close> reads it.
\<close>

section \<open>Durations\<close>

text \<open>
  \<open>time.ParseDuration\<close>. The value of a decimal fraction is a product of float64 numbers in the
  library; \<open>fl f unit scale\<close> is that product for \<open>f * unit / scale\<close>, an argument here.
\<close>

fun leadingInt :: "nat \<Rightarrow> string \<Rightarrow> (nat \<times> string) option" where
  "leadingInt x [] = Some (x, [])"
| "leadingInt x (c # s) =
     (if \<not> is_digit c then Some (x, c # s)
      else if 2 ^ 63 div 10 < x then None
      else let y = x * 10 + digit_val c in if 2 ^ 63 < y then None else leadingInt y s)"

fun leadingFraction :: "nat \<Rightarrow> nat \<Rightarrow> bool \<Rightarrow> string \<Rightarrow> nat \<times> nat \<times> string" where
  "leadingFraction x scale overflow [] = (x, scale, [])"
| "leadingFraction x scale overflow (c # s) =
     (if \<not> is_digit c then (x, scale, c # s)
      else if overflow \<or> (2 ^ 63 - 1) div 10 < x then leadingFraction x scale True s
      else let y = x * 10 + digit_val c in
        if 2 ^ 63 < y then leadingFraction x scale True s else leadingFraction y (scale * 10) False s)"

definition unitMap :: "string \<Rightarrow> nat option" where
  "unitMap = map_of
     [(''ns'', 1), (''us'', 1000), ([CHR 0xC2, CHR 0xB5, CHR ''s''], 1000), ([CHR 0xCE, CHR 0xBC, CHR ''s''], 1000),
      (''ms'', 1000000), (''s'', 1000000000), (''m'', 60000000000), (''h'', 3600000000000)]"

definition duration_item :: "(nat \<Rightarrow> nat \<Rightarrow> nat \<Rightarrow> nat) \<Rightarrow> string \<Rightarrow> (nat \<times> string) option" where
  "duration_item fl s =
     (if s = '''' \<or> \<not> (hd s = CHR ''.'' \<or> is_digit (hd s)) then None
      else case leadingInt 0 s of
        None \<Rightarrow> None
      | Some (v, s1) \<Rightarrow>
          let (f, scale, s2, post) =
            (if s1 \<noteq> '''' \<and> hd s1 = CHR ''.''
             then (case leadingFraction 0 1 False (tl s1) of (f, scale, r) \<Rightarrow> (f, scale, r, length r \<noteq> length (tl s1)))
             else (0, 1, s1, False));
            u = takeWhile (\<lambda>c. \<not> (c = CHR ''.'' \<or> is_digit c)) s2 in
          if length s1 = length s \<and> \<not> post then None
          else if u = '''' then None
          else case unitMap u of
            None \<Rightarrow> None
          | Some unit \<Rightarrow>
              if 2 ^ 63 div unit < v then None
              else let v = v * unit + (if 0 < f then fl f unit scale else 0) in
                if 2 ^ 63 < v then None else Some (v, drop (length u) s2))"

lemma leadingInt_rest: "leadingInt x s = Some (v, r) \<Longrightarrow> length r \<le> length s"
  by (induction x s rule: leadingInt.induct) (auto simp: Let_def split: if_splits)

lemma leadingFraction_rest: "leadingFraction x k b s = (f, sc, r) \<Longrightarrow> length r \<le> length s"
  by (induction x k b s rule: leadingFraction.induct) (auto simp: Let_def split: if_splits)

lemma duration_item_shorter:
  assumes "duration_item fl s = Some (v, rest)"
  shows "length rest < length s"
proof -
  obtain v0 s1 where i: "leadingInt 0 s = Some (v0, s1)" using assms by (auto simp: duration_item_def split: if_splits option.splits)
  obtain f scale s2 post where b: "(if s1 \<noteq> '''' \<and> hd s1 = CHR ''.''
             then (case leadingFraction 0 1 False (tl s1) of (f, scale, r) \<Rightarrow> (f, scale, r, length r \<noteq> length (tl s1)))
             else (0, 1, s1, False)) = (f, scale, s2, post)" by (rule prod_cases4)
  have "length s2 \<le> length s1"
    using b leadingFraction_rest [of 0 1 False "tl s1"] by (auto split: if_splits prod.splits intro: le_trans)
  moreover obtain u where "u = takeWhile (\<lambda>c. \<not> (c = CHR ''.'' \<or> is_digit c)) s2" "u \<noteq> ''''" "rest = drop (length u) s2"
    using assms i b by (auto simp: duration_item_def Let_def split: if_splits option.splits)
  moreover from this have "s2 \<noteq> ''''" by auto
  ultimately show ?thesis using leadingInt_rest [OF i] by (cases u; cases s2) auto
qed

function duration_loop :: "(nat \<Rightarrow> nat \<Rightarrow> nat \<Rightarrow> nat) \<Rightarrow> nat \<Rightarrow> string \<Rightarrow> nat option" where
  "duration_loop fl d s =
     (if s = '''' then Some d
      else case duration_item fl s of
        None \<Rightarrow> None
      | Some (v, rest) \<Rightarrow>
          let d' = (d + v) mod 2 ^ 64 in if 2 ^ 63 < d' then None else duration_loop fl d' rest)"
  by pat_completeness auto
termination by (relation "measure (\<lambda>(fl, d, s). length s)") (auto dest: duration_item_shorter)

declare duration_loop.simps [simp del]

definition ParseDuration :: "(nat \<Rightarrow> nat \<Rightarrow> nat \<Rightarrow> nat) \<Rightarrow> string \<Rightarrow> duration option" where
  "ParseDuration fl s =
     (let (neg, s) = (if s \<noteq> '''' \<and> (hd s = CHR ''-'' \<or> hd s = CHR ''+'') then (hd s = CHR ''-'', tl s) else (False, s)) in
      if s = ''0'' then Some 0
      else if s = '''' then None
      else case duration_loop fl 0 s of
        None \<Rightarrow> None
      | Some d \<Rightarrow>
          if neg then Some (- of_nat d) else if 2 ^ 63 - 1 < d then None else Some (of_nat d))"

section \<open>Reading one setting\<close>

type_synonym getenv = "string \<Rightarrow> string"

datatype config_error =
    MissingSettings "string list"
  | InvalidDatabaseURL
  | NotADuration string string
  | NotPositive string string
  | NotAPositiveInteger string string
  | NotALogLevel string string

definition envOr :: "getenv \<Rightarrow> string \<Rightarrow> string \<Rightarrow> string" where
  "envOr E key fallback = (if E key \<noteq> '''' then E key else fallback)"

definition durationEnv :: "(nat \<Rightarrow> nat \<Rightarrow> nat \<Rightarrow> nat) \<Rightarrow> getenv \<Rightarrow> string \<Rightarrow> duration \<Rightarrow> config_error + duration" where
  "durationEnv fl E key fallback =
     (let raw = E key in
      if raw = '''' then Inr fallback
      else case ParseDuration fl raw of
        None \<Rightarrow> Inl (NotADuration key raw)
      | Some value \<Rightarrow> if value \<le>s 0 then Inl (NotPositive key raw) else Inr value)"

definition int32Env :: "getenv \<Rightarrow> string \<Rightarrow> 32 word \<Rightarrow> config_error + 32 word" where
  "int32Env E key fallback =
     (let raw = E key in
      if raw = '''' then Inr fallback
      else case ParseInt raw of
        None \<Rightarrow> Inl (NotAPositiveInteger key raw)
      | Some value \<Rightarrow>
          if \<not> (- (2 ^ 31) \<le> value \<and> value < 2 ^ 31) \<or> value \<le> 0 then Inl (NotAPositiveInteger key raw)
          else Inr (word_of_int value))"

definition intEnv :: "getenv \<Rightarrow> string \<Rightarrow> i64 \<Rightarrow> config_error + i64" where
  "intEnv E key fallback =
     (let raw = E key in
      if raw = '''' then Inr fallback
      else case ParseInt raw of
        None \<Rightarrow> Inl (NotAPositiveInteger key raw)
      | Some value \<Rightarrow> if value \<le> 0 then Inl (NotAPositiveInteger key raw) else Inr (word_of_int value))"

text \<open>
  \<open>slog.Level.UnmarshalText\<close>: a name and an offset. \<open>strings.ToUpper\<close> maps the dotless i to an I;
  any other byte beyond ASCII stays beyond it.
\<close>

fun upper_name :: "string \<Rightarrow> string" where
  "upper_name [] = []"
| "upper_name (c # s) =
     (if c = CHR 0xC4 \<and> s \<noteq> [] \<and> hd s = CHR 0xB1 then CHR ''I'' # upper_name (tl s)
      else (if CHR ''a'' \<le> c \<and> c \<le> CHR ''z'' then char_of (of_char c - (32 :: nat)) else c) # upper_name s)"

abbreviation LevelDebug :: i64 where "LevelDebug \<equiv> - 4"
abbreviation LevelInfo :: i64 where "LevelInfo \<equiv> 0"
abbreviation LevelWarn :: i64 where "LevelWarn \<equiv> 4"
abbreviation LevelError :: i64 where "LevelError \<equiv> 8"

definition parseLevel :: "string \<Rightarrow> i64 option" where
  "parseLevel s =
     (let name = takeWhile (\<lambda>c. c \<noteq> CHR ''+'' \<and> c \<noteq> CHR ''-'') s;
          offset = (if name = s then Some 0 else ParseInt (drop (length name) s)) in
      case offset of
        None \<Rightarrow> None
      | Some n \<Rightarrow>
          map_option (\<lambda>l. l + word_of_int n)
            (map_of [(''DEBUG'', LevelDebug), (''INFO'', LevelInfo), (''WARN'', LevelWarn), (''ERROR'', LevelError)] (upper_name name)))"

definition levelEnv :: "getenv \<Rightarrow> string \<Rightarrow> i64 \<Rightarrow> config_error + i64" where
  "levelEnv E key fallback =
     (let raw = E key in
      if raw = '''' then Inr fallback
      else case parseLevel raw of None \<Rightarrow> Inl (NotALogLevel key raw) | Some level \<Rightarrow> Inr level)"

section \<open>The database\<close>

record DatabaseConfig =
  dc_Host :: string
  dc_Port :: string
  dc_Name :: string
  dc_User :: string
  dc_Password :: string
  dc_SSLMode :: string

definition parseDatabaseURL :: "url_lib \<Rightarrow> getenv \<Rightarrow> string \<Rightarrow> config_error + DatabaseConfig" where
  "parseDatabaseURL L E raw =
     (case url_Parse L raw of
        None \<Rightarrow> Inl InvalidDatabaseURL
      | Some u \<Rightarrow>
          let cfg = \<lparr>dc_Host = Hostname u, dc_Port = Port u, dc_Name = trim_prefix ''/'' (u_Path u), dc_User = Username u,
                     dc_Password = Password u, dc_SSLMode = envOr E ''DB_SSLMODE'' (query_Get u ''sslmode'')\<rparr>;
              cfg = (if dc_Port cfg = '''' then cfg\<lparr>dc_Port := ''5432''\<rparr> else cfg) in
          Inr (if dc_SSLMode cfg = '''' then cfg\<lparr>dc_SSLMode := ''disable''\<rparr> else cfg))"

definition DatabaseConfigFromEnv :: "url_lib \<Rightarrow> getenv \<Rightarrow> config_error + DatabaseConfig" where
  "DatabaseConfigFromEnv L E =
     (if E ''DATABASE_URL'' \<noteq> '''' then parseDatabaseURL L E (E ''DATABASE_URL'')
      else
        let cfg = \<lparr>dc_Host = envOr E ''DB_HOST'' ''localhost'', dc_Port = envOr E ''DB_PORT'' ''5432'', dc_Name = E ''DB_NAME'',
                   dc_User = E ''DB_USER'', dc_Password = E ''DB_PASSWORD'', dc_SSLMode = envOr E ''DB_SSLMODE'' ''disable''\<rparr>;
            missing = (if dc_Name cfg = '''' then [''DB_NAME''] else []) @ (if dc_User cfg = '''' then [''DB_USER''] else []) in
        if 0 < length missing then Inl (MissingSettings missing) else Inr cfg)"

definition dsn_url :: "DatabaseConfig \<Rightarrow> URL" where
  "dsn_url c =
     \<lparr>u_Scheme = ''postgres'', u_User = Some (dc_User c, Some (dc_Password c)), u_Host = dc_Host c @ '':'' @ dc_Port c,
      u_Path = ''/'' @ dc_Name c, u_RawQuery = ''sslmode='' @ escape encodeQueryComponent (dc_SSLMode c)\<rparr>"

definition DSN :: "DatabaseConfig \<Rightarrow> string" where
  "DSN c = URL_String (dsn_url c)"

definition Redacted :: "DatabaseConfig \<Rightarrow> string" where
  "Redacted c =
     ''postgres://'' @ dc_User c @ '':xxxxx@'' @ dc_Host c @ '':'' @ dc_Port c @ ''/'' @ dc_Name c @ ''?sslmode='' @ dc_SSLMode c"

section \<open>The identity provider\<close>

definition OIDCConfigFromEnv :: "(nat \<Rightarrow> nat \<Rightarrow> nat \<Rightarrow> nat) \<Rightarrow> getenv \<Rightarrow> config_error + Config" where
  "OIDCConfigFromEnv fl E =
     (let missing = (if E ''OIDC_ISSUER_URL'' = '''' then [''OIDC_ISSUER_URL''] else [])
            @ (if E ''OIDC_AUDIENCE'' = '''' then [''OIDC_AUDIENCE''] else []) in
      if 0 < length missing then Inl (MissingSettings missing)
      else
        andThen (durationEnv fl E ''OIDC_JWKS_CACHE_TTL'' DefaultCacheTTL) (\<lambda>ttl.
        andThen (durationEnv fl E ''OIDC_CLOCK_SKEW'' DefaultLeeway) (\<lambda>leeway.
          Inr \<lparr>cf_IssuerURL = E ''OIDC_ISSUER_URL'', cf_Audience = E ''OIDC_AUDIENCE'',
               cf_ProviderClaim = envOr E ''OIDC_PROVIDER_CLAIM'' DefaultProviderClaim, cf_CacheTTL = ttl, cf_Leeway = leeway\<rparr>)))"

section \<open>The settings of the process\<close>

record AppConfig =
  ac_Env :: string
  ac_HTTPAddr :: string
  ac_MetricsAddr :: string
  ac_ShutdownTimeout :: duration
  ac_LogLevel :: i64
  ac_DBMaxConns :: "32 word"
  ac_ReferenceMaxAttempts :: i64
  ac_ReferenceBaseBackoff :: duration
  ac_ReferenceTTL :: duration
  ac_QueueEndpoint :: string
  ac_QueueRegion :: string
  ac_QueueName :: string
  ac_QueueDLQName :: string
  ac_QueueVisibilityTimeout :: duration
  ac_QueueWaitTime :: duration
  ac_QueueMaxReceiveCount :: i64
  ac_QueueBatchSize :: i64
  ac_QueueConsumers :: i64
  ac_AWSAccessKeyID :: string
  ac_AWSSecretAccessKey :: string
  ac_QueueEventsName :: string
  ac_PublisherBatchSize :: i64
  ac_PublisherInterval :: duration
  ac_PublisherBaseBackoff :: duration
  ac_PublisherTimeout :: duration

definition AppConfigFromEnv :: "(nat \<Rightarrow> nat \<Rightarrow> nat \<Rightarrow> nat) \<Rightarrow> getenv \<Rightarrow> config_error + AppConfig" where
  "AppConfigFromEnv fl E =
     andThen (durationEnv fl E ''APP_SHUTDOWN_TIMEOUT'' (15 * second)) (\<lambda>shutdown.
     andThen (levelEnv E ''APP_LOG_LEVEL'' LevelInfo) (\<lambda>level.
     andThen (int32Env E ''DB_MAX_CONNS'' 10) (\<lambda>conns.
     andThen (intEnv E ''REFERENCE_MAX_ATTEMPTS'' 8) (\<lambda>attempts.
     andThen (durationEnv fl E ''REFERENCE_BASE_BACKOFF'' second) (\<lambda>backoff.
     andThen (durationEnv fl E ''REFERENCE_TTL'' (2 * (60 * second))) (\<lambda>ttl.
     andThen (durationEnv fl E ''QUEUE_VISIBILITY_TIMEOUT'' (30 * second)) (\<lambda>visibility.
     andThen (durationEnv fl E ''QUEUE_WAIT_TIME'' (10 * second)) (\<lambda>waits.
     andThen (intEnv E ''QUEUE_MAX_RECEIVE_COUNT'' 5) (\<lambda>receives.
     andThen (intEnv E ''QUEUE_BATCH_SIZE'' 10) (\<lambda>batch.
     andThen (intEnv E ''QUEUE_CONSUMERS'' 2) (\<lambda>consumers.
     andThen (intEnv E ''PUBLISHER_BATCH_SIZE'' 50) (\<lambda>pbatch.
     andThen (durationEnv fl E ''PUBLISHER_INTERVAL'' (500 * 1000000)) (\<lambda>interval.
     andThen (durationEnv fl E ''PUBLISHER_BASE_BACKOFF'' second) (\<lambda>pbackoff.
     andThen (durationEnv fl E ''PUBLISHER_TIMEOUT'' (10 * second)) (\<lambda>timeout.
       Inr \<lparr>ac_Env = envOr E ''APP_ENV'' ''local'', ac_HTTPAddr = envOr E ''APP_HTTP_ADDR'' '':8080'',
            ac_MetricsAddr = envOr E ''APP_METRICS_ADDR'' '':9090'', ac_ShutdownTimeout = shutdown, ac_LogLevel = level,
            ac_DBMaxConns = conns, ac_ReferenceMaxAttempts = attempts, ac_ReferenceBaseBackoff = backoff, ac_ReferenceTTL = ttl,
            ac_QueueEndpoint = E ''QUEUE_ENDPOINT'', ac_QueueRegion = envOr E ''QUEUE_REGION'' ''us-east-1'',
            ac_QueueName = envOr E ''QUEUE_NAME'' ''wager-transactions.fifo'',
            ac_QueueDLQName = envOr E ''QUEUE_DLQ_NAME'' ''wager-transactions-dlq.fifo'',
            ac_QueueVisibilityTimeout = visibility, ac_QueueWaitTime = waits, ac_QueueMaxReceiveCount = receives,
            ac_QueueBatchSize = batch, ac_QueueConsumers = consumers,
            ac_AWSAccessKeyID = E ''AWS_ACCESS_KEY_ID'', ac_AWSSecretAccessKey = E ''AWS_SECRET_ACCESS_KEY'',
            ac_QueueEventsName = envOr E ''QUEUE_EVENTS_NAME'' ''wager-events.fifo'', ac_PublisherBatchSize = pbatch,
            ac_PublisherInterval = interval, ac_PublisherBaseBackoff = pbackoff, ac_PublisherTimeout = timeout\<rparr>)))))))))))))))"

section \<open>The settings handed to the components\<close>

definition referencePolicy :: "AppConfig \<Rightarrow> ReferencePolicy" where
  "referencePolicy cfg =
     \<lparr>rp_MaxAttempts = ac_ReferenceMaxAttempts cfg, rp_BaseBackoff = ac_ReferenceBaseBackoff cfg, rp_MaxBackoff = 0,
      rp_TTL = ac_ReferenceTTL cfg, rp_BatchSize = 0, rp_Interval = 0\<rparr>"

definition publisherPolicy :: "AppConfig \<Rightarrow> PublisherPolicy" where
  "publisherPolicy cfg =
     \<lparr>pp_BatchSize = ac_PublisherBatchSize cfg, pp_Interval = ac_PublisherInterval cfg,
      pp_BaseBackoff = ac_PublisherBaseBackoff cfg, pp_MaxBackoff = 0, pp_PublishTimeout = ac_PublisherTimeout cfg\<rparr>"

text \<open>
  \<open>newQueueClient\<close> hands the durations over; the adapter sends them as \<open>int(d.Seconds())\<close>. \<open>fsec\<close> is
  that conversion through float64, an argument: the quotient without its fraction wherever the float
  has room for the nanoseconds (\<open>seconds_exact\<close>, durations below \<open>2^23\<close> seconds).
\<close>

definition seconds_exact :: "(duration \<Rightarrow> int) \<Rightarrow> bool" where
  "seconds_exact fsec \<longleftrightarrow> (\<forall>d. 0 \<le> sint d \<and> sint d < 2 ^ 23 * 1000000000 \<longrightarrow> fsec d = sint d div 1000000000)"

definition newQueueClient :: "(duration \<Rightarrow> int) \<Rightarrow> AppConfig \<Rightarrow> sqs_config" where
  "newQueueClient fsec cfg =
     \<lparr>sq_QueueName = ac_QueueName cfg, sq_DLQName = ac_QueueDLQName cfg,
      sq_VisibilitySeconds = word_of_int (fsec (ac_QueueVisibilityTimeout cfg)),
      sq_WaitSeconds = word_of_int (fsec (ac_QueueWaitTime cfg)), sq_MaxReceiveCount = ac_QueueMaxReceiveCount cfg\<rparr>"

definition runConsumers_loops :: "AppConfig \<Rightarrow> ConsumerConfig list" where
  "runConsumers_loops cfg =
     replicate (nat (sint (ac_QueueConsumers cfg)))
       (NewConsumer \<lparr>cc_Name = ac_QueueName cfg, cc_BatchSize = ac_QueueBatchSize cfg, cc_IdleBackoff = 0\<rparr>)"

definition newServer :: "AppConfig \<Rightarrow> ServerConfig" where
  "newServer cfg =
     NewServer \<lparr>sg_Addr = ac_HTTPAddr cfg, sg_ShutdownTimeout = ac_ShutdownTimeout cfg, sg_ReadHeaderTimeout = 0,
                sg_ReadTimeout = 0, sg_WriteTimeout = 0, sg_IdleTimeout = 0\<rparr>"

definition newAuthenticator :: "(string \<Rightarrow> fetched) \<Rightarrow> Config \<Rightarrow> Verifier res" where
  "newAuthenticator get cfg =
     New get \<lparr>cf_IssuerURL = cf_IssuerURL cfg, cf_Audience = cf_Audience cfg, cf_ProviderClaim = cf_ProviderClaim cfg,
              cf_CacheTTL = cf_CacheTTL cfg, cf_Leeway = cf_Leeway cfg\<rparr>"

section \<open>A connection string reads back\<close>

lemma query_Get_sslmode:
  "m \<noteq> '''' \<Longrightarrow> query_Get (u\<lparr>u_RawQuery := ''sslmode='' @ escape encodeQueryComponent m\<rparr>) ''sslmode'' = m"
proof -
  let ?v = "escape encodeQueryComponent m"
  have v: "c \<in> set ?v \<Longrightarrow> c \<notin> {CHR ''&'', CHR '';''}" for c
    using escaped_query [of c m] byte_codes(2) [of c] by auto
  have amp: "CHR ''&'' \<notin> set (''sslmode='' @ ?v)" "CHR '';'' \<notin> set (''sslmode='' @ ?v)" using v by auto
  have eq: "cut_at (CHR ''='') (''sslmode'' @ CHR ''='' # ?v) = Some (''sslmode'', ?v)" by (rule cut_at_append) simp
  have k: "unescape encodeQueryComponent ''sslmode'' = Some ''sslmode''" by code_simp
  have "query_pairs (''sslmode='' @ ?v) = [(''sslmode'', m)]"
    using amp eq k unescape_escape [of encodeQueryComponent m]
    by (subst query_pairs.simps) (simp add: before_def after_cut_def cut_at_none query_pairs.simps [of "''''"])
  then show ?thesis by (simp add: query_Get_def)
qed

lemma splitHostPort_name:
  assumes "host_name h" "list_all is_digit p"
  shows "splitHostPort (h @ CHR '':'' # p) = (h, p)"
proof -
  note hb = host_bytes [OF assms]
  have "CHR ''['' \<notin> set h" using hb(4) [of "CHR ''[''"] by auto
  then have "h = '''' \<or> hd h \<noteq> CHR ''[''" by (cases h) auto
  then show ?thesis
    using cut_last_append [OF hb(3), of h] assms(2) by (auto simp: splitHostPort_def)
qed

text \<open>
  C39. The connection string reads back: whatever bytes the user, the password and the database's name
  hold, parsing the DSN of a configuration gives that configuration, when its host is a name, its port
  is written in digits and \<open>DB_SSLMODE\<close> does not override it.
\<close>

theorem dsn_roundtrip:
  assumes "host_name (dc_Host c)" "list_all is_digit (dc_Port c)" "dc_Port c \<noteq> ''''" "dc_SSLMode c \<noteq> ''''"
    and "E ''DB_SSLMODE'' = ''''"
  shows "parseDatabaseURL L E (DSN c) = Inr c"
proof -
  let ?q = "''sslmode='' @ escape encodeQueryComponent (dc_SSLMode c)"
  have q: "\<forall>x\<in>set ?q. is_alnum x \<or> x \<in> set ''-_.~%+=''"
    using escaped_query [of _ "dc_SSLMode c"] by (auto simp: is_alnum_def)
  have p: "list_all is_letter ''postgres''" "''postgres'' \<noteq> ''''" "map to_lower ''postgres'' = ''postgres''" by code_simp+
  have "url_Parse L (DSN c) = Some (dsn_url c)"
    using Parse_String [OF p assms(1,2) _ q, of L "dc_User c" "dc_Password c" "dc_Name c"]
    by (simp add: DSN_def dsn_url_def)
  moreover have "query_Get (dsn_url c) ''sslmode'' = dc_SSLMode c"
    using query_Get_sslmode [OF assms(4), of "dsn_url c"] by (simp add: dsn_url_def)
  ultimately show ?thesis
    using assms splitHostPort_name [OF assms(1,2)]
    by (simp add: parseDatabaseURL_def Hostname_def Port_def Username_def Password_def trim_prefix_def has_prefix_def
          envOr_def dsn_url_def Let_def)
qed

definition demo_database :: DatabaseConfig where
  "demo_database = \<lparr>dc_Host = ''db-1.internal'', dc_Port = ''5432'', dc_Name = ''wagering/core'', dc_User = ''a:b@c'',
     dc_Password = [CHR ''%'', CHR ''/'', CHR 0x00, CHR 0xFF], dc_SSLMode = ''verify full&''\<rparr>"

theorem dsn_roundtrip_witness:
  "parseDatabaseURL \<lparr>lib_ip_literal = \<lambda>_. False, lib_strict_colons = \<lambda>_. True\<rparr> (\<lambda>_. '''') (DSN demo_database) = Inr demo_database"
  by (rule dsn_roundtrip) (code_simp, code_simp, simp_all add: demo_database_def)

section \<open>No setting is silently ignored\<close>

text \<open>The numbers of the configuration: the variable, what stands when it is unset, and the value.\<close>

definition duration_settings :: "AppConfig \<Rightarrow> (string \<times> duration \<times> duration) list" where
  "duration_settings cfg =
     [(''APP_SHUTDOWN_TIMEOUT'', 15 * second, ac_ShutdownTimeout cfg),
      (''REFERENCE_BASE_BACKOFF'', second, ac_ReferenceBaseBackoff cfg),
      (''REFERENCE_TTL'', 120 * second, ac_ReferenceTTL cfg),
      (''QUEUE_VISIBILITY_TIMEOUT'', 30 * second, ac_QueueVisibilityTimeout cfg),
      (''QUEUE_WAIT_TIME'', 10 * second, ac_QueueWaitTime cfg),
      (''PUBLISHER_INTERVAL'', 500000000, ac_PublisherInterval cfg),
      (''PUBLISHER_BASE_BACKOFF'', second, ac_PublisherBaseBackoff cfg),
      (''PUBLISHER_TIMEOUT'', 10 * second, ac_PublisherTimeout cfg)]"

definition count_settings :: "AppConfig \<Rightarrow> (string \<times> i64 \<times> i64) list" where
  "count_settings cfg =
     [(''REFERENCE_MAX_ATTEMPTS'', 8, ac_ReferenceMaxAttempts cfg),
      (''QUEUE_MAX_RECEIVE_COUNT'', 5, ac_QueueMaxReceiveCount cfg),
      (''QUEUE_BATCH_SIZE'', 10, ac_QueueBatchSize cfg),
      (''QUEUE_CONSUMERS'', 2, ac_QueueConsumers cfg),
      (''PUBLISHER_BATCH_SIZE'', 50, ac_PublisherBatchSize cfg)]"

definition reads_duration :: "(nat \<Rightarrow> nat \<Rightarrow> nat \<Rightarrow> nat) \<Rightarrow> getenv \<Rightarrow> string \<times> duration \<times> duration \<Rightarrow> bool" where
  "reads_duration fl E s \<longleftrightarrow>
     (case s of (key, fallback, v) \<Rightarrow> 0 <s v \<and> (if E key = '''' then v = fallback else ParseDuration fl (E key) = Some v))"

definition reads_count :: "getenv \<Rightarrow> string \<times> i64 \<times> i64 \<Rightarrow> bool" where
  "reads_count E s \<longleftrightarrow>
     (case s of (key, fallback, v) \<Rightarrow> 0 <s v \<and> (if E key = '''' then v = fallback else ParseInt (E key) = Some (sint v)))"

definition numeric_settings :: "string list" where
  "numeric_settings =
     [''APP_SHUTDOWN_TIMEOUT'', ''APP_LOG_LEVEL'', ''DB_MAX_CONNS'', ''REFERENCE_MAX_ATTEMPTS'', ''REFERENCE_BASE_BACKOFF'',
      ''REFERENCE_TTL'', ''QUEUE_VISIBILITY_TIMEOUT'', ''QUEUE_WAIT_TIME'', ''QUEUE_MAX_RECEIVE_COUNT'', ''QUEUE_BATCH_SIZE'',
      ''QUEUE_CONSUMERS'', ''PUBLISHER_BATCH_SIZE'', ''PUBLISHER_INTERVAL'', ''PUBLISHER_BASE_BACKOFF'', ''PUBLISHER_TIMEOUT'']"

fun names_setting :: "getenv \<Rightarrow> config_error \<Rightarrow> string \<Rightarrow> bool" where
  "names_setting E (NotADuration key raw) k \<longleftrightarrow> key = k \<and> raw = E k"
| "names_setting E (NotPositive key raw) k \<longleftrightarrow> key = k \<and> raw = E k"
| "names_setting E (NotAPositiveInteger key raw) k \<longleftrightarrow> key = k \<and> raw = E k"
| "names_setting E (NotALogLevel key raw) k \<longleftrightarrow> key = k \<and> raw = E k"
| "names_setting E _ k \<longleftrightarrow> False"

lemma durationEnv_reads: "durationEnv fl E key fallback = Inr v \<Longrightarrow> 0 <s fallback \<Longrightarrow> reads_duration fl E (key, fallback, v)"
  by (auto simp: durationEnv_def reads_duration_def Let_def signed_defs split: if_splits option.splits)

lemma durationEnv_fails: "durationEnv fl E key fallback = Inl e \<Longrightarrow> E key \<noteq> '''' \<and> names_setting E e key"
  by (auto simp: durationEnv_def Let_def split: if_splits option.splits)

lemma ParseInt_int: "ParseInt s = Some n \<Longrightarrow> sint (word_of_int n :: i64) = n"
  by (auto simp: ParseInt_def Let_def sint_of_int64 split: if_splits option.splits prod.splits)

lemma intEnv_reads: "intEnv E key fallback = Inr v \<Longrightarrow> 0 <s fallback \<Longrightarrow> reads_count E (key, fallback, v)"
  by (auto simp: intEnv_def reads_count_def Let_def signed_defs ParseInt_int split: if_splits option.splits)

lemma intEnv_fails: "intEnv E key fallback = Inl e \<Longrightarrow> E key \<noteq> '''' \<and> names_setting E e key"
  by (auto simp: intEnv_def Let_def split: if_splits option.splits)

lemma int32Env_reads: "int32Env E key fallback = Inr v \<Longrightarrow> 0 <s fallback \<Longrightarrow> 0 <s v"
  by (auto simp: int32Env_def Let_def word_sless_alt signed_of_int signed_take_bit_int_eq_self split: if_splits option.splits)

lemma int32Env_fails: "int32Env E key fallback = Inl e \<Longrightarrow> E key \<noteq> '''' \<and> names_setting E e key"
  by (auto simp: int32Env_def Let_def split: if_splits option.splits)

lemma levelEnv_fails: "levelEnv E key fallback = Inl e \<Longrightarrow> E key \<noteq> '''' \<and> names_setting E e key"
  by (auto simp: levelEnv_def Let_def split: if_splits option.splits)

lemmas env_fails = durationEnv_fails intEnv_fails int32Env_fails levelEnv_fails

text \<open>What an accepted configuration read.\<close>

lemma AppConfigFromEnv_ok:
  assumes "AppConfigFromEnv fl E = Inr cfg"
  shows "durationEnv fl E ''APP_SHUTDOWN_TIMEOUT'' (15 * second) = Inr (ac_ShutdownTimeout cfg)"
    "int32Env E ''DB_MAX_CONNS'' 10 = Inr (ac_DBMaxConns cfg)"
    "intEnv E ''REFERENCE_MAX_ATTEMPTS'' 8 = Inr (ac_ReferenceMaxAttempts cfg)"
    "durationEnv fl E ''REFERENCE_BASE_BACKOFF'' second = Inr (ac_ReferenceBaseBackoff cfg)"
    "durationEnv fl E ''REFERENCE_TTL'' (120 * second) = Inr (ac_ReferenceTTL cfg)"
    "durationEnv fl E ''QUEUE_VISIBILITY_TIMEOUT'' (30 * second) = Inr (ac_QueueVisibilityTimeout cfg)"
    "durationEnv fl E ''QUEUE_WAIT_TIME'' (10 * second) = Inr (ac_QueueWaitTime cfg)"
    "intEnv E ''QUEUE_MAX_RECEIVE_COUNT'' 5 = Inr (ac_QueueMaxReceiveCount cfg)"
    "intEnv E ''QUEUE_BATCH_SIZE'' 10 = Inr (ac_QueueBatchSize cfg)"
    "intEnv E ''QUEUE_CONSUMERS'' 2 = Inr (ac_QueueConsumers cfg)"
    "intEnv E ''PUBLISHER_BATCH_SIZE'' 50 = Inr (ac_PublisherBatchSize cfg)"
    "durationEnv fl E ''PUBLISHER_INTERVAL'' 500000000 = Inr (ac_PublisherInterval cfg)"
    "durationEnv fl E ''PUBLISHER_BASE_BACKOFF'' second = Inr (ac_PublisherBaseBackoff cfg)"
    "durationEnv fl E ''PUBLISHER_TIMEOUT'' (10 * second) = Inr (ac_PublisherTimeout cfg)"
    "ac_QueueName cfg = envOr E ''QUEUE_NAME'' ''wager-transactions.fifo''"
  using assms by (auto simp: AppConfigFromEnv_def elim!: andThen_okE)

lemma settings_read:
  assumes "AppConfigFromEnv fl E = Inr cfg"
  shows "list_all (reads_duration fl E) (duration_settings cfg)" "list_all (reads_count E) (count_settings cfg)"
    "0 <s ac_DBMaxConns cfg" "ac_QueueName cfg \<noteq> ''''"
proof -
  note ok = AppConfigFromEnv_ok [OF assms]
  have pos: "0 <s second" "0 <s 15 * second" "0 <s 120 * second" "0 <s 30 * second" "0 <s 10 * second"
    "0 <s (500000000 :: duration)" "0 <s (8 :: i64)" "0 <s (5 :: i64)" "0 <s (10 :: i64)" "0 <s (2 :: i64)" "0 <s (50 :: i64)"
    "0 <s (10 :: 32 word)" by (simp_all add: second_def word_sless_alt)
  show "list_all (reads_duration fl E) (duration_settings cfg)" "list_all (reads_count E) (count_settings cfg)"
    using ok(1,4-7,12-14) [THEN durationEnv_reads] ok(3,8-11) [THEN intEnv_reads]
    by (simp_all add: duration_settings_def count_settings_def pos del: word_sless_alt)
  show "0 <s ac_DBMaxConns cfg" using int32Env_reads [OF ok(2)] pos by simp
  show "ac_QueueName cfg \<noteq> ''''" using ok(15) by (simp add: envOr_def)
qed

lemma policies_keep_settings:
  assumes "0 <s ac_ReferenceMaxAttempts cfg" "0 <s ac_ReferenceBaseBackoff cfg" "0 <s ac_ReferenceTTL cfg"
    and "0 <s ac_PublisherBatchSize cfg" "0 <s ac_PublisherInterval cfg" "0 <s ac_PublisherBaseBackoff cfg" "0 <s ac_PublisherTimeout cfg"
  defines "r \<equiv> ReferencePolicy_normalised (referencePolicy cfg)" and "p \<equiv> PublisherPolicy_normalised (publisherPolicy cfg)"
  shows "(rp_MaxAttempts r, rp_BaseBackoff r, rp_TTL r) = (ac_ReferenceMaxAttempts cfg, ac_ReferenceBaseBackoff cfg, ac_ReferenceTTL cfg)"
    "(pp_BatchSize p, pp_Interval p, pp_BaseBackoff p, pp_PublishTimeout p)
       = (ac_PublisherBatchSize cfg, ac_PublisherInterval cfg, ac_PublisherBaseBackoff cfg, ac_PublisherTimeout cfg)"
  using assms(1-7)
  by (simp_all add: r_def p_def referencePolicy_def publisherPolicy_def ReferencePolicy_normalised_def
        PublisherPolicy_normalised_def Let_def signed_defs)

lemma andThen_errE:
  assumes "andThen r f = Inl e"
  obtains "r = Inl e" | x where "r = Inr x" "f x = Inl e"
  using assms by (auto simp: andThen_Inl_iff)

lemma settings_refused:
  assumes "AppConfigFromEnv fl E = Inl err"
  shows "\<exists>key\<in>set numeric_settings. E key \<noteq> '''' \<and> names_setting E err key"
  using assms unfolding AppConfigFromEnv_def numeric_settings_def
  by (elim andThen_errE) (drule env_fails, erule bexI, simp | simp)+


text \<open>Durations read as the documentation of the settings writes them.\<close>

lemmas duration_eval = ParseDuration_def duration_loop.simps duration_item_def is_digit_def digit_val_def Let_def unitMap_def

lemma durations_read:
  "ParseDuration fl ''90s'' = Some 90000000000"
  "ParseDuration fl ''1m30s'' = Some 90000000000"
  "ParseDuration fl ''500ms'' = Some 500000000"
  "ParseDuration fl ''-2h'' = Some (- 7200000000000)"
  "ParseDuration fl ''30'' = None"
  "ParseDuration fl ''s'' = None"
  "ParseDuration fl '''' = None"
  by (simp_all add: duration_eval)

definition demo_settings :: getenv where
  "demo_settings = (\<lambda>_. '''')(''REFERENCE_TTL'' := ''1m30s'', ''QUEUE_CONSUMERS'' := ''4'', ''APP_LOG_LEVEL'' := ''warn'')"

lemma demo_settings_read:
  "\<exists>cfg. AppConfigFromEnv fl demo_settings = Inr cfg \<and> ac_ReferenceTTL cfg = 90 * second \<and> ac_QueueConsumers cfg = 4"
proof -
  have l: "levelEnv demo_settings ''APP_LOG_LEVEL'' LevelInfo = Inr LevelWarn"
    by (simp add: demo_settings_def levelEnv_def) code_simp
  have t: "durationEnv fl demo_settings ''REFERENCE_TTL'' (2 * (60 * second)) = Inr (90 * second)"
    by (simp add: demo_settings_def durationEnv_def durations_read second_def signed_defs)
  have c: "intEnv demo_settings ''QUEUE_CONSUMERS'' 2 = Inr 4"
    by (simp add: demo_settings_def intEnv_def) code_simp
  show ?thesis
    unfolding AppConfigFromEnv_def using l t c by (simp add: demo_settings_def durationEnv_def intEnv_def int32Env_def)
qed


text \<open>
  A visibility timeout below a second is accepted as positive, and the queue is created with none: every
  message is visible again at once. The same holds of the time to wait.
\<close>

lemma visibility_below_a_second:
  assumes "seconds_exact fsec" "0 <s ac_QueueVisibilityTimeout cfg" "ac_QueueVisibilityTimeout cfg <s second"
  shows "sq_VisibilitySeconds (newQueueClient fsec cfg) = 0"
  using assms by (auto simp: seconds_exact_def newQueueClient_def second_def signed_defs)

text \<open>
  The host of an IPv6 url loses its brackets when it is read and the connection string does not put them
  back: the port becomes part of the address.
\<close>

lemma ipv6_loses_brackets:
  "parseDatabaseURL \<lparr>lib_ip_literal = \<lambda>s. s = ''::1'', lib_strict_colons = \<lambda>_. False\<rparr> (\<lambda>_. '''') ''postgres://u:p@[::1]:5432/db''
     = Inr \<lparr>dc_Host = ''::1'', dc_Port = ''5432'', dc_Name = ''db'', dc_User = ''u'', dc_Password = ''p'', dc_SSLMode = ''disable''\<rparr>"
  "DSN \<lparr>dc_Host = ''::1'', dc_Port = ''5432'', dc_Name = ''db'', dc_User = ''u'', dc_Password = ''p'', dc_SSLMode = ''disable''\<rparr>
     = ''postgres://u:p@::1:5432/db?sslmode=disable''"
  by code_simp+

end
