(* ===== verification/Lifecycle.thy ===== *)
theory Lifecycle
  imports Settings "HOL-Library.Sublist"
begin

text \<open>
  The composition (\<open>internal/platform/modules.go\<close>, \<open>internal/adapter/postgres/pool.go\<close>,
  \<open>cmd/migrate/main.go\<close>): which constructor needs what, the hooks of the life cycle, and what starting
  and stopping them does.

  The container that runs the constructors is not part of the repository. What the code relies on of it
  is stated as a condition on the order in which things happen: a constructor runs at most once and after
  the constructors of its parameters, the invoked functions run in the order of the modules
  (\<open>legal_order\<close>), and a stop runs the hooks in the reverse of the order in which they were appended, as
  far as its deadline lets it (a prefix of that).
\<close>

section \<open>The graph\<close>

text \<open>Providers and parameters meet by type, so a provider is the types it takes and the type it gives.\<close>

record provider =
  pv_Name :: string
  pv_Inputs :: "string list"
  pv_Output :: string

definition provide :: "string \<Rightarrow> string list \<Rightarrow> string \<Rightarrow> provider" where
  "provide name inputs result = \<lparr>pv_Name = name, pv_Inputs = inputs, pv_Output = result\<rparr>"

definition ConfigModule :: "provider list" where
  "ConfigModule =
     [provide ''AppConfigFromEnv'' [] ''AppConfig'',
      provide ''DatabaseConfigFromEnv'' [] ''DatabaseConfig'',
      provide ''OIDCConfigFromEnv'' [] ''OIDCConfig'',
      provide ''NewLogger'' [''AppConfig''] ''Logger'']"

definition DatabaseModule :: "provider list" where
  "DatabaseModule =
     [provide ''newPool'' [''AppConfig'', ''DatabaseConfig'', ''Logger''] ''Pool'',
      provide ''NewUnitOfWork'' [''Pool'', ''StorageMetrics''] ''UnitOfWork'',
      provide ''NewSnapshot'' [''Pool''] ''Snapshot'',
      provide ''NewQueries'' [''Pool''] ''Queries'',
      provide ''NewProbe'' [''Pool''] ''Probe'']"

definition MetricsModule :: "provider list" where
  "MetricsModule =
     [provide ''metrics.New'' [] ''Recorder'',
      provide ''OperationMetrics'' [''Recorder''] ''OperationMetrics'',
      provide ''QueueMetrics'' [''Recorder''] ''QueueMetrics'',
      provide ''OutboxMetrics'' [''Recorder''] ''OutboxMetrics'',
      provide ''ReconciliationMetrics'' [''Recorder''] ''ReconciliationMetrics'',
      provide ''StorageMetrics'' [''Recorder''] ''StorageMetrics'',
      provide ''RequestObserver'' [''Recorder''] ''RequestObserver'']"

definition AdaptersModule :: "provider list" where
  "AdaptersModule = [provide ''NewClock'' [] ''Clock'', provide ''NewIDGenerator'' [] ''IDGenerator'']"

definition UseCasesModule :: "provider list" where
  "UseCasesModule =
     [provide ''referencePolicy'' [''AppConfig''] ''ReferencePolicy'',
      provide ''NewOpenWallet'' [''UnitOfWork'', ''IDGenerator'', ''Clock''] ''OpenWallet'',
      provide ''NewSubmitTransaction''
        [''UnitOfWork'', ''Queries'', ''IDGenerator'', ''Clock'', ''ReferencePolicy'', ''OperationMetrics'', ''Logger''] ''SubmitTransaction'',
      provide ''newReferenceWorker'' [''UnitOfWork'', ''IDGenerator'', ''Clock'', ''ReferencePolicy'', ''Logger''] ''ReferenceWorker'',
      provide ''NewWalletQueries'' [''Queries''] ''WalletQueries'',
      provide ''NewTransactionQueries'' [''Queries''] ''TransactionQueries'',
      provide ''NewReconcileWallet'' [''Snapshot'', ''Clock'', ''ReconciliationMetrics'', ''Logger''] ''ReconcileWallet'']"

definition HTTPModule :: "provider list" where
  "HTTPModule =
     [provide ''newAuthenticator'' [''OIDCConfig'', ''Logger''] ''Authenticator'',
      provide ''newWalletHandler'' [''OpenWallet'', ''WalletQueries''] ''WalletHandler'',
      provide ''newTransactionHandler'' [''SubmitTransaction'', ''TransactionQueries''] ''TransactionHandler'',
      provide ''newReconciliationHandler'' [''ReconcileWallet''] ''ReconciliationHandler'',
      provide ''newHealthHandler'' [''Probe''] ''HealthHandler'',
      provide ''Routes''
        [''Authenticator'', ''RequestObserver'', ''WalletHandler'', ''TransactionHandler'', ''ReconciliationHandler'', ''HealthHandler'']
        ''ServeMux'',
      provide ''Handler'' [''ServeMux''] ''Handler'',
      provide ''newServer'' [''AppConfig'', ''Handler''] ''Server'']"

definition QueueModule :: "provider list" where
  "QueueModule =
     [provide ''newQueueClient'' [''AppConfig'', ''Logger''] ''Client'',
      provide ''newEventPublisher'' [''AppConfig'', ''Logger''] ''EventPublisher'',
      provide ''publisherPolicy'' [''AppConfig''] ''PublisherPolicy'',
      provide ''newPublisher''
        [''UnitOfWork'', ''EventPublisher'', ''Clock'', ''PublisherPolicy'', ''OutboxMetrics'', ''Logger''] ''Publisher'']"

text \<open>The invoked functions, in the order of the modules.\<close>

definition invoked :: "provider list" where
  "invoked =
     [provide ''runMetricsServer'' [''Recorder'', ''AppConfig'', ''Logger''] '''',
      provide ''runServer'' [''Server'', ''AppConfig'', ''Logger''] '''',
      provide ''runReferenceWorker'' [''ReferenceWorker'', ''Logger''] '''',
      provide ''runConsumers''
        [''Client'', ''UnitOfWork'', ''SubmitTransaction'', ''Clock'', ''AppConfig'', ''QueueMetrics'', ''Logger''] '''',
      provide ''runPublisher'' [''Publisher'', ''Logger''] '''']"

definition Module :: "provider list" where
  "Module = ConfigModule @ MetricsModule @ DatabaseModule @ AdaptersModule @ UseCasesModule @ QueueModule @ HTTPModule"

lemmas module_defs = Module_def ConfigModule_def DatabaseModule_def MetricsModule_def AdaptersModule_def UseCasesModule_def
  HTTPModule_def QueueModule_def provide_def

definition provider_of :: "string \<Rightarrow> string option" where
  "provider_of type = map_of (map (\<lambda>p. (pv_Output p, pv_Name p)) Module) type"

definition inputs_of :: "string \<Rightarrow> string list" where
  "inputs_of name = (case map_of (map (\<lambda>p. (pv_Name p, pv_Inputs p)) (Module @ invoked)) name of None \<Rightarrow> [] | Some ts \<Rightarrow> ts)"

text \<open>The order in which the container runs the constructors and the invoked functions.\<close>

definition position :: "'a list \<Rightarrow> 'a \<Rightarrow> nat" where
  "position xs x = length (takeWhile (\<lambda>y. y \<noteq> x) xs)"

definition legal_order :: "string list \<Rightarrow> bool" where
  "legal_order order \<longleftrightarrow>
     distinct order
     \<and> filter (\<lambda>x. x \<in> set (map pv_Name invoked)) order = map pv_Name invoked
     \<and> (\<forall>x\<in>set order. \<forall>t\<in>set (inputs_of x).
          case provider_of t of None \<Rightarrow> False | Some p \<Rightarrow> p \<in> set order \<and> position order p < position order x)"

text \<open>The constructors, by following the parameters: what the container does when nothing is built yet.\<close>

fun construct :: "nat \<Rightarrow> string list \<Rightarrow> string list \<Rightarrow> string list" where
  "construct 0 names built = built"
| "construct (Suc n) names built =
     fold (\<lambda>x built.
       if x \<in> set built then built
       else construct n (List.map_filter provider_of (inputs_of x)) built @ [x]) names built"

definition boot_order :: "string list" where
  "boot_order = construct 9 (map pv_Name invoked) []"

text \<open>
  Every type is provided once, every parameter is provided, and following the parameters from the invoked
  functions comes to an end: the graph can be built.
\<close>

lemma graph_provides:
  "distinct (map pv_Output Module)" "distinct (map pv_Name (Module @ invoked))"
  "list_all (\<lambda>p. list_all (\<lambda>t. provider_of t \<noteq> None) (pv_Inputs p)) (Module @ invoked)"
  by code_simp+

lemma boot_order_eq: "boot_order =
  [''metrics.New'', ''AppConfigFromEnv'', ''NewLogger'', ''runMetricsServer'', ''OIDCConfigFromEnv'', ''newAuthenticator'',
   ''RequestObserver'', ''DatabaseConfigFromEnv'', ''newPool'', ''StorageMetrics'', ''NewUnitOfWork'', ''NewIDGenerator'',
   ''NewClock'', ''NewOpenWallet'', ''NewQueries'', ''NewWalletQueries'', ''newWalletHandler'', ''referencePolicy'',
   ''OperationMetrics'', ''NewSubmitTransaction'', ''NewTransactionQueries'', ''newTransactionHandler'', ''NewSnapshot'', ''ReconciliationMetrics'',
   ''NewReconcileWallet'', ''newReconciliationHandler'', ''NewProbe'', ''newHealthHandler'', ''Routes'', ''Handler'',
   ''newServer'', ''runServer'', ''newReferenceWorker'', ''runReferenceWorker'', ''newQueueClient'', ''QueueMetrics'',
   ''runConsumers'', ''newEventPublisher'', ''publisherPolicy'', ''OutboxMetrics'', ''newPublisher'', ''runPublisher'']"
  by code_simp

lemma boot_order_legal: "legal_order boot_order"
  unfolding boot_order_eq by code_simp

section \<open>The hooks\<close>

datatype listener = MetricsListener | BusinessListener
datatype loop = ReferenceLoop | ConsumerLoops | PublisherLoop
datatype hook = PoolHook | ListenerHook listener | LoopHook loop

text \<open>The hook a constructor or an invoked function appends.\<close>

definition hook_of :: "string \<Rightarrow> hook option" where
  "hook_of = map_of
     [(''newPool'', PoolHook), (''runMetricsServer'', ListenerHook MetricsListener),
      (''runServer'', ListenerHook BusinessListener), (''runReferenceWorker'', LoopHook ReferenceLoop),
      (''runConsumers'', LoopHook ConsumerLoops), (''runPublisher'', LoopHook PublisherLoop)]"

definition hooks :: "string list \<Rightarrow> hook list" where
  "hooks order = List.map_filter hook_of order"

text \<open>The process: the pool, who serves, and how many goroutines of each loop run.\<close>

record process =
  pr_pool :: bool
  pr_serving :: "listener \<Rightarrow> bool"
  pr_loops :: "loop \<Rightarrow> nat"
  pr_log :: "string list"

text \<open>
  What the machine answers: the error of opening a listener, the error of a drain whose deadline passed,
  the error of closing a server, and whether a cancelled loop ended before the deadline of the stop.
\<close>

record machine =
  mc_listen :: "string \<Rightarrow> string option"
  mc_shutdown :: "listener \<Rightarrow> string option"
  mc_close :: "listener \<Rightarrow> string option"
  mc_ended :: "loop \<Rightarrow> bool"

definition log_line :: "string \<Rightarrow> process \<Rightarrow> process" where
  "log_line s p = p\<lparr>pr_log := pr_log p @ [s]\<rparr>"

definition listen_on :: "machine \<Rightarrow> string \<Rightarrow> listener \<Rightarrow> string \<Rightarrow> process \<Rightarrow> string + process" where
  "listen_on mc addr l message p =
     (case mc_listen mc addr of
        Some e \<Rightarrow> Inl e
      | None \<Rightarrow> Inr (log_line message (p\<lparr>pr_serving := (pr_serving p)(l := True)\<rparr>)))"

definition runMetricsServer_OnStart :: "machine \<Rightarrow> AppConfig \<Rightarrow> process \<Rightarrow> string + process" where
  "runMetricsServer_OnStart mc cfg p = listen_on mc (ac_MetricsAddr cfg) MetricsListener ''metrics listening'' p"

definition runMetricsServer_OnStop :: "machine \<Rightarrow> process \<Rightarrow> string option \<times> process" where
  "runMetricsServer_OnStop mc p =
     (let p' = p\<lparr>pr_serving := (pr_serving p)(MetricsListener := False)\<rparr> in
      case mc_shutdown mc MetricsListener of
        Some e \<Rightarrow> (mc_close mc MetricsListener, p')
      | None \<Rightarrow> (None, p'))"

definition runServer_OnStart :: "machine \<Rightarrow> AppConfig \<Rightarrow> process \<Rightarrow> string + process" where
  "runServer_OnStart mc cfg p = listen_on mc (sg_Addr (newServer cfg)) BusinessListener ''http server listening'' p"

definition runServer_OnStop :: "machine \<Rightarrow> process \<Rightarrow> string option \<times> process" where
  "runServer_OnStop mc p =
     (let p = log_line ''draining the http server'' p;
          p' = p\<lparr>pr_serving := (pr_serving p)(BusinessListener := False)\<rparr> in
      case mc_shutdown mc BusinessListener of
        Some e \<Rightarrow> (mc_close mc BusinessListener, log_line ''drain did not finish in time; closing'' p')
      | None \<Rightarrow> (None, p'))"

definition loop_OnStop :: "machine \<Rightarrow> loop \<Rightarrow> string \<Rightarrow> string \<Rightarrow> process \<Rightarrow> string option \<times> process" where
  "loop_OnStop mc l stopped overdue p =
     (None, if mc_ended mc l then log_line stopped (p\<lparr>pr_loops := (pr_loops p)(l := 0)\<rparr>) else log_line overdue p)"

definition runReferenceWorker_OnStart :: "process \<Rightarrow> string + process" where
  "runReferenceWorker_OnStart p =
     Inr (log_line ''pending reference worker started'' (p\<lparr>pr_loops := (pr_loops p)(ReferenceLoop := 1)\<rparr>))"

definition runReferenceWorker_OnStop :: "machine \<Rightarrow> process \<Rightarrow> string option \<times> process" where
  "runReferenceWorker_OnStop mc p =
     loop_OnStop mc ReferenceLoop ''pending reference worker stopped'' ''pending reference worker did not stop in time'' p"

definition runConsumers_OnStart :: "AppConfig \<Rightarrow> process \<Rightarrow> string + process" where
  "runConsumers_OnStart cfg p =
     Inr (log_line ''queue consumers started'' (p\<lparr>pr_loops := (pr_loops p)(ConsumerLoops := length (runConsumers_loops cfg))\<rparr>))"

definition runConsumers_OnStop :: "machine \<Rightarrow> process \<Rightarrow> string option \<times> process" where
  "runConsumers_OnStop mc p = loop_OnStop mc ConsumerLoops ''queue consumers stopped'' ''queue consumers did not stop in time'' p"

definition runPublisher_OnStart :: "process \<Rightarrow> string + process" where
  "runPublisher_OnStart p = Inr (log_line ''outbox publisher started'' (p\<lparr>pr_loops := (pr_loops p)(PublisherLoop := 1)\<rparr>))"

definition runPublisher_OnStop :: "machine \<Rightarrow> process \<Rightarrow> string option \<times> process" where
  "runPublisher_OnStop mc p = loop_OnStop mc PublisherLoop ''outbox publisher stopped'' ''outbox publisher did not stop in time'' p"

definition newPool_OnStop :: "process \<Rightarrow> string option \<times> process" where
  "newPool_OnStop p = (None, (log_line ''closing the database pool'' p)\<lparr>pr_pool := False\<rparr>)"

fun OnStart :: "machine \<Rightarrow> AppConfig \<Rightarrow> hook \<Rightarrow> process \<Rightarrow> string + process" where
  "OnStart mc cfg PoolHook p = Inr p"
| "OnStart mc cfg (ListenerHook MetricsListener) p = runMetricsServer_OnStart mc cfg p"
| "OnStart mc cfg (ListenerHook BusinessListener) p = runServer_OnStart mc cfg p"
| "OnStart mc cfg (LoopHook ReferenceLoop) p = runReferenceWorker_OnStart p"
| "OnStart mc cfg (LoopHook ConsumerLoops) p = runConsumers_OnStart cfg p"
| "OnStart mc cfg (LoopHook PublisherLoop) p = runPublisher_OnStart p"

fun OnStop :: "machine \<Rightarrow> hook \<Rightarrow> process \<Rightarrow> string option \<times> process" where
  "OnStop mc PoolHook p = newPool_OnStop p"
| "OnStop mc (ListenerHook MetricsListener) p = runMetricsServer_OnStop mc p"
| "OnStop mc (ListenerHook BusinessListener) p = runServer_OnStop mc p"
| "OnStop mc (LoopHook ReferenceLoop) p = runReferenceWorker_OnStop mc p"
| "OnStop mc (LoopHook ConsumerLoops) p = runConsumers_OnStop mc p"
| "OnStop mc (LoopHook PublisherLoop) p = runPublisher_OnStop mc p"

text \<open>
  A start runs the hooks in order until one fails; it tells which started. A stop runs the hooks it is
  given, whatever errors they report.
\<close>

fun run_start :: "machine \<Rightarrow> AppConfig \<Rightarrow> hook list \<Rightarrow> process \<Rightarrow> hook list \<times> string option \<times> process" where
  "run_start mc cfg [] p = ([], None, p)"
| "run_start mc cfg (h # hs) p =
     (case OnStart mc cfg h p of
        Inl e \<Rightarrow> ([], Some e, p)
      | Inr p' \<Rightarrow> (case run_start mc cfg hs p' of (started, e, q) \<Rightarrow> (h # started, e, q)))"

definition run_stop :: "machine \<Rightarrow> hook list \<Rightarrow> process \<Rightarrow> process" where
  "run_stop mc stops p = fold (\<lambda>h p. snd (OnStop mc h p)) stops p"

text \<open>Before the hooks run: the constructor has opened the pool, and nothing else.\<close>

definition constructed :: process where
  "constructed = \<lparr>pr_pool = True, pr_serving = (\<lambda>_. False), pr_loops = (\<lambda>_. 0), pr_log = []\<rparr>"

section \<open>What depends on the pool is built after it\<close>

text \<open>\<open>y\<close> is \<open>x\<close> or one of the constructors it rests on, at most \<open>n\<close> parameters away.\<close>

fun reaches :: "nat \<Rightarrow> string \<Rightarrow> string \<Rightarrow> bool" where
  "reaches 0 x y \<longleftrightarrow> x = y"
| "reaches (Suc n) x y \<longleftrightarrow>
     x = y \<or> list_ex (\<lambda>t. case provider_of t of None \<Rightarrow> False | Some p \<Rightarrow> reaches n p y) (inputs_of x)"

lemma legal_reaches:
  assumes "legal_order order"
  shows "x \<in> set order \<Longrightarrow> reaches n x y \<Longrightarrow> y \<in> set order \<and> (x = y \<or> position order y < position order x)"
proof (induction n arbitrary: x)
  case 0
  then show ?case by simp
next
  case (Suc n)
  show ?case
  proof (cases "x = y")
    case False
    then obtain t p where t: "t \<in> set (inputs_of x)" "provider_of t = Some p" "reaches n p y"
      using Suc.prems(2) by (auto simp: list_ex_iff split: option.splits)
    then have "p \<in> set order" "position order p < position order x"
      using assms Suc.prems(1) by (auto simp: legal_order_def split: option.splits)
    then show ?thesis using Suc.IH [OF _ t(3)] by auto
  qed (use Suc.prems in simp)
qed

definition users :: "string list" where
  "users = [''runServer'', ''runReferenceWorker'', ''runConsumers'', ''runPublisher'']"

lemma users_reach: "list_all (\<lambda>x. reaches 7 x ''newPool'') users"
  by code_simp

lemma position_append: "x \<notin> set a \<Longrightarrow> position (a @ x # b) x = length a"
  by (induction a) (auto simp: position_def)

lemma position_bound: "x \<in> set a \<Longrightarrow> position (a @ b) x < length a"
  by (induction a) (auto simp: position_def)

lemma users_after_pool:
  assumes "legal_order order"
  obtains a b where "order = a @ ''newPool'' # b" "''newPool'' \<notin> set a \<union> set b" "set users \<subseteq> set b"
proof -
  have inv: "set (map pv_Name invoked) \<subseteq> set order"
    using assms filter_is_subset unfolding legal_order_def by metis
  have names: "set users \<subseteq> set (map pv_Name invoked)" "''newPool'' \<notin> set users"
    by (simp_all add: users_def invoked_def provide_def)
  have u: "''newPool'' \<in> set order \<and> position order ''newPool'' < position order x" if "x \<in> set users" for x
  proof -
    have "x \<in> set order" "x \<noteq> ''newPool''" using that inv names by blast+
    then show ?thesis
      using legal_reaches [OF assms, of x 7 "''newPool''"] users_reach that unfolding list_all_iff by blast
  qed
  moreover have "''runServer'' \<in> set users" by (simp add: users_def)
  ultimately obtain a b where ab: "order = a @ ''newPool'' # b" "''newPool'' \<notin> set a" by (metis split_list_first)
  have "x \<in> set b" if "x \<in> set users" for x
  proof -
    have "length a < position order x" using u [OF that] position_append [OF ab(2), of b] ab(1) by simp
    then have "x \<notin> set a" using position_bound [of x a "''newPool'' # b"] ab(1) by auto
    moreover have "x \<in> set order" "x \<noteq> ''newPool''" using that inv names by blast+
    ultimately show ?thesis using ab(1) by simp
  qed
  moreover have "''newPool'' \<notin> set b" using assms ab(1) by (auto simp: legal_order_def)
  ultimately show thesis using that ab by blast
qed

lemma hook_of_eqs:
  "hook_of x = Some PoolHook \<longleftrightarrow> x = ''newPool''"
  "hook_of x = Some (ListenerHook MetricsListener) \<longleftrightarrow> x = ''runMetricsServer''"
  "hook_of x = Some (ListenerHook BusinessListener) \<longleftrightarrow> x = ''runServer''"
  "hook_of x = Some (LoopHook ReferenceLoop) \<longleftrightarrow> x = ''runReferenceWorker''"
  "hook_of x = Some (LoopHook ConsumerLoops) \<longleftrightarrow> x = ''runConsumers''"
  "hook_of x = Some (LoopHook PublisherLoop) \<longleftrightarrow> x = ''runPublisher''"
  by (auto simp: hook_of_def split: if_splits)

lemma hook_of_inj: "hook_of x = Some h \<Longrightarrow> hook_of y = Some h \<Longrightarrow> x = y"
proof (cases h)
  case (ListenerHook l)
  then show "hook_of x = Some h \<Longrightarrow> hook_of y = Some h \<Longrightarrow> x = y" by (cases l) (simp_all add: hook_of_eqs)
next
  case (LoopHook l)
  then show "hook_of x = Some h \<Longrightarrow> hook_of y = Some h \<Longrightarrow> x = y" by (cases l) (simp_all add: hook_of_eqs)
qed (simp add: hook_of_eqs)

lemma set_hooks: "h \<in> set (hooks order) \<longleftrightarrow> (\<exists>x\<in>set order. hook_of x = Some h)"
  by (force simp: hooks_def map_filter_def image_iff)

definition pool_users :: "hook set" where
  "pool_users = insert (ListenerHook BusinessListener) (range LoopHook)"

lemma pool_user_names: "h \<in> pool_users \<Longrightarrow> hook_of x = Some h \<Longrightarrow> x \<in> set users"
proof -
  assume h: "h \<in> pool_users" and x: "hook_of x = Some h"
  from h consider "h = ListenerHook BusinessListener" | l where "h = LoopHook l" by (auto simp: pool_users_def)
  then show "x \<in> set users"
  proof cases
    case 1
    then show ?thesis using x by (simp add: hook_of_eqs users_def)
  next
    case (2 l)
    then show ?thesis using x by (cases l) (simp_all add: hook_of_eqs users_def)
  qed
qed

lemma hooks_split:
  assumes "legal_order order"
  obtains A B where "hooks order = A @ PoolHook # B" "PoolHook \<notin> set A \<union> set B" "pool_users \<inter> set A = {}"
proof -
  obtain a b where o: "order = a @ ''newPool'' # b" "''newPool'' \<notin> set a \<union> set b" "set users \<subseteq> set b"
    using users_after_pool [OF assms] .
  have d: "distinct order" using assms by (simp add: legal_order_def)
  show thesis
  proof (rule that)
    show "hooks order = hooks a @ PoolHook # hooks b"
      using o(1) by (simp add: hooks_def List.map_filter_def hook_of_def)
    show "PoolHook \<notin> set (hooks a) \<union> set (hooks b)" using o(2) by (auto simp: set_hooks hook_of_eqs)
    show "pool_users \<inter> set (hooks a) = {}"
      using o d pool_user_names by (fastforce simp: set_hooks)
  qed
qed

section \<open>The pool outlives those who use it\<close>

lemmas hook_defs = runMetricsServer_OnStart_def runMetricsServer_OnStop_def runServer_OnStart_def runServer_OnStop_def
  runReferenceWorker_OnStart_def runReferenceWorker_OnStop_def runConsumers_OnStart_def runConsumers_OnStop_def
  runPublisher_OnStart_def runPublisher_OnStop_def newPool_OnStop_def listen_on_def loop_OnStop_def log_line_def

lemma OnStart_effect:
  assumes "OnStart mc cfg h p = Inr p'"
  shows "pr_pool p' = pr_pool p" "ListenerHook l \<noteq> h \<Longrightarrow> pr_serving p' l = pr_serving p l"
    "LoopHook m \<noteq> h \<Longrightarrow> pr_loops p' m = pr_loops p m"
  using assms by (induction mc cfg h p rule: OnStart.induct) (auto simp: hook_defs split: option.splits)

lemma run_start_effect:
  assumes "run_start mc cfg hs p = (started, e, q)"
  shows "prefix started hs \<and> pr_pool q = pr_pool p
    \<and> (\<forall>l. ListenerHook l \<notin> set started \<longrightarrow> pr_serving q l = pr_serving p l)
    \<and> (\<forall>l. LoopHook l \<notin> set started \<longrightarrow> pr_loops q l = pr_loops p l)"
  using assms
proof (induction hs arbitrary: p started e q)
  case Nil
  then show ?case by simp
next
  case (Cons h hs)
  show ?case
  proof (cases "OnStart mc cfg h p")
    case (Inl x)
    then show ?thesis using Cons.prems by simp
  next
    case (Inr p')
    obtain s f q' where r: "run_start mc cfg hs p' = (s, f, q')" by (metis prod_cases3)
    then have "started = h # s" "q = q'" using Cons.prems Inr by auto
    then show ?thesis using Cons.IH [OF r] OnStart_effect [OF Inr] by auto
  qed
qed

lemma OnStop_effect:
  "pr_pool (snd (OnStop mc h p)) = (h \<noteq> PoolHook \<and> pr_pool p)"
  "pr_serving (snd (OnStop mc h p)) l = (ListenerHook l \<noteq> h \<and> pr_serving p l)"
  "pr_loops (snd (OnStop mc h p)) m = (if LoopHook m = h \<and> mc_ended mc m then 0 else pr_loops p m)"
  by (induction mc h p rule: OnStop.induct) (auto simp: hook_defs Let_def split: option.splits)

lemma run_stop_effect:
  "pr_pool (run_stop mc hs p) = (PoolHook \<notin> set hs \<and> pr_pool p)"
  "pr_serving (run_stop mc hs p) l = (ListenerHook l \<notin> set hs \<and> pr_serving p l)"
  "pr_loops (run_stop mc hs p) m = (if LoopHook m \<in> set hs \<and> mc_ended mc m then 0 else pr_loops p m)"
  unfolding run_stop_def by (induction hs arbitrary: p) (auto simp: OnStop_effect)

text \<open>A prefix of a list that holds an element which occurs once holds everything before it.\<close>

lemma prefix_upto:
  assumes "prefix xs (a @ x # b)" "x \<in> set xs" "x \<notin> set a"
  shows "set a \<subseteq> set xs"
proof -
  obtain ys where "a @ x # b = xs @ ys" using assms(1) by (auto simp: prefix_def)
  then obtain us where "xs = a @ us \<or> a = xs @ us" by (auto simp: append_eq_append_conv2)
  then show ?thesis using assms(2,3) by auto
qed

lemma pool_users_stopped:
  assumes "legal_order order" "prefix started (hooks order)" "prefix stops (rev started)" "PoolHook \<in> set stops"
  shows "pool_users \<inter> set started \<subseteq> set stops"
proof -
  obtain A B where h: "hooks order = A @ PoolHook # B" "PoolHook \<notin> set A \<union> set B" "pool_users \<inter> set A = {}"
    using hooks_split [OF assms(1)] .
  have "PoolHook \<in> set started" using assms(3,4) by (metis in_set_conv_decomp prefix_def set_append set_rev Un_iff)
  moreover obtain ys where ys: "A @ PoolHook # B = started @ ys" using assms(2) h(1) by (auto simp: prefix_def)
  ultimately obtain C where C: "started = A @ PoolHook # C"
    using h(2) by (auto simp: append_eq_append_conv2 append_eq_Cons_conv Cons_eq_append_conv)
  then have "PoolHook \<notin> set C" using ys h(2) by auto
  then have "set (rev C) \<subseteq> set stops"
    using prefix_upto [of stops "rev C" PoolHook "rev A"] assms(3,4) C by simp
  then show ?thesis using C h(3) by (auto simp: pool_users_def)
qed

text \<open>
  C36. The pool outlives everything that uses it. Take any order in which the graph may be built, any start,
  complete or cut short by a listener that cannot be opened, and any stop of what started, complete or cut
  short by its deadline. If the pool is closed at the end, the business server serves no more and of every
  background loop nothing runs, unless it failed to end within the deadline it was given. And a complete
  stop leaves nobody serving.
\<close>

theorem pool_outlives_its_users:
  assumes "legal_order order" "run_start mc cfg (hooks order) constructed = (started, e, p)" "prefix stops (rev started)"
  shows "(\<not> pr_pool (run_stop mc stops p) \<longrightarrow>
      \<not> pr_serving (run_stop mc stops p) BusinessListener
      \<and> (\<forall>l. pr_loops (run_stop mc stops p) l = 0 \<or> \<not> mc_ended mc l))
    \<and> (stops = rev started \<longrightarrow> (\<forall>l. \<not> pr_serving (run_stop mc stops p) l))"
proof (intro conjI impI)
  note start = run_start_effect [OF assms(2)]
  have idle: "\<not> pr_serving constructed l" "pr_loops constructed m = 0" "pr_pool constructed" for l m
    by (simp_all add: constructed_def)
  show "\<forall>l. \<not> pr_serving (run_stop mc stops p) l" if "stops = rev started"
    using start idle that by (auto simp: run_stop_effect)
  assume "\<not> pr_pool (run_stop mc stops p)"
  then have "PoolHook \<in> set stops" using start idle by (auto simp: run_stop_effect)
  from pool_users_stopped [OF assms(1) _ assms(3) this] start
  have users: "pool_users \<inter> set started \<subseteq> set stops" by blast
  then show "\<not> pr_serving (run_stop mc stops p) BusinessListener"
    using start idle by (auto simp: run_stop_effect pool_users_def)
  have "LoopHook l \<in> set started \<Longrightarrow> LoopHook l \<in> set stops" for l
    using users by (auto simp: pool_users_def)
  then show "\<forall>l. pr_loops (run_stop mc stops p) l = 0 \<or> \<not> mc_ended mc l"
    using start idle unfolding run_stop_effect by metis
qed

definition demo_machine :: machine where
  "demo_machine = \<lparr>mc_listen = (\<lambda>_. None), mc_shutdown = (\<lambda>_. None), mc_close = (\<lambda>_. None), mc_ended = (\<lambda>_. True)\<rparr>"

theorem pool_outlives_its_users_witness:
  "\<exists>cfg. AppConfigFromEnv (\<lambda>_ _ _. 0) demo_settings = Inr cfg
     \<and> (case run_start demo_machine cfg (hooks boot_order) constructed of
          (started, e, p) \<Rightarrow>
            length started = 6 \<and> pr_loops p ConsumerLoops = 4 \<and> pr_serving p BusinessListener
            \<and> (let q = run_stop demo_machine (rev started) p in
                \<not> pr_pool q \<and> \<not> pr_serving q BusinessListener \<and> (\<forall>l. pr_loops q l = 0)))"
proof -
  obtain cfg where c: "AppConfigFromEnv (\<lambda>_ _ _. 0) demo_settings = Inr cfg" "ac_QueueConsumers cfg = 4"
    using demo_settings_read by blast
  have h: "hooks boot_order =
      [ListenerHook MetricsListener, PoolHook, ListenerHook BusinessListener, LoopHook ReferenceLoop, LoopHook ConsumerLoops,
       LoopHook PublisherLoop]" unfolding boot_order_eq by code_simp
  obtain started e p where r: "run_start demo_machine cfg (hooks boot_order) constructed = (started, e, p)" by (metis prod_cases3)
  have p: "length started = 6" "pr_loops p ConsumerLoops = 4" "pr_serving p BusinessListener" "PoolHook \<in> set started"
    using r c(2) unfolding h by (auto simp: hook_defs demo_machine_def runConsumers_loops_def)
  have "\<not> pr_pool (run_stop demo_machine (rev started) p)" using p(4) by (simp add: run_stop_effect)
  then show ?thesis
    using pool_outlives_its_users [OF boot_order_legal r, of "rev started"] c(1) r p
    by (intro exI [of _ cfg]) (simp add: Let_def demo_machine_def)
qed

end
