(* ===== verification/Startup.thy ===== *)
theory Startup
  imports Lifecycle
begin

text \<open>
  Reaching the database (\<open>internal/adapter/postgres/pool.go\<close>, \<open>health.go\<close> and \<open>migrate.go\<close>, \<open>newPool\<close> of
  \<open>internal/platform/modules.go\<close>) and the command that migrates it (\<open>cmd/migrate/main.go\<close>). The driver and
  the migration library are arguments: their answers, and what a migration does to the version.
\<close>

section \<open>Answers of the libraries\<close>

record driver =
  dr_parse :: "string \<Rightarrow> string option"
  dr_connect :: "string \<Rightarrow> string option"
  dr_ping :: "nat \<Rightarrow> string option"
  dr_sql_open :: "string \<Rightarrow> string option"

record goose =
  go_provider :: "string option"
  go_up :: "int \<Rightarrow> string option \<times> int"
  go_down :: "int \<Rightarrow> string option \<times> int"
  go_version :: "int \<Rightarrow> string + int"

text \<open>What is opened and closed on the way, and the version of the schema.\<close>

datatype resource = Pool | MigrationDB

record site =
  si_open :: "resource list"
  si_version :: int
  si_maxConns :: "32 word"
  si_pings :: nat

definition acquire :: "resource \<Rightarrow> site \<Rightarrow> site" where
  "acquire r s = s\<lparr>si_open := r # si_open s\<rparr>"

definition dispose :: "resource \<Rightarrow> site \<Rightarrow> site" where
  "dispose r s = s\<lparr>si_open := remove1 r (si_open s)\<rparr>"

definition ping :: "driver \<Rightarrow> site \<Rightarrow> string option \<times> site" where
  "ping dr s = (dr_ping dr (si_pings s), s\<lparr>si_pings := Suc (si_pings s)\<rparr>)"

section \<open>The pool\<close>

record PoolConfig =
  pc_DSN :: string
  pc_SafeLabel :: string
  pc_MaxConns :: "32 word"

text \<open>The library's own bound stands, here 0, unless one is configured.\<close>

definition NewPool :: "driver \<Rightarrow> PoolConfig \<Rightarrow> site \<Rightarrow> string option \<times> site" where
  "NewPool dr cfg s =
     (case dr_parse dr (pc_DSN cfg) of
        Some e \<Rightarrow> (Some (''parsing the connection string for '' @ pc_SafeLabel cfg @ '': '' @ e), s)
      | None \<Rightarrow>
          let s = (if 0 <s pc_MaxConns cfg then s\<lparr>si_maxConns := pc_MaxConns cfg\<rparr> else s) in
          (case dr_connect dr (pc_DSN cfg) of
             Some e \<Rightarrow> (Some (''opening '' @ pc_SafeLabel cfg @ '': '' @ e), s)
           | None \<Rightarrow>
               (case ping dr (acquire Pool s) of
                  (Some e, s) \<Rightarrow> (Some (''reaching '' @ pc_SafeLabel cfg @ '': '' @ e), dispose Pool s)
                | (None, s) \<Rightarrow> (None, s))))"

definition Probe_Name :: string where "Probe_Name = ''postgres''"

definition Probe_Ping :: "driver \<Rightarrow> site \<Rightarrow> string option \<times> site" where
  "Probe_Ping dr s = ping dr s"

section \<open>Migrations\<close>

definition newProvider :: "goose \<Rightarrow> string option" where
  "newProvider g = map_option (\<lambda>e. ''building migration provider: '' @ e) (go_provider g)"

definition Migrate :: "goose \<Rightarrow> site \<Rightarrow> string option \<times> site" where
  "Migrate g s =
     (case newProvider g of
        Some e \<Rightarrow> (Some e, s)
      | None \<Rightarrow> (case go_up g (si_version s) of
                   (e, v) \<Rightarrow> (map_option (\<lambda>e. ''applying migrations: '' @ e) e, s\<lparr>si_version := v\<rparr>)))"

definition MigrateDown :: "goose \<Rightarrow> site \<Rightarrow> string option \<times> site" where
  "MigrateDown g s =
     (case newProvider g of
        Some e \<Rightarrow> (Some e, s)
      | None \<Rightarrow> (case go_down g (si_version s) of
                   (e, v) \<Rightarrow> (map_option (\<lambda>e. ''rolling back migration: '' @ e) e, s\<lparr>si_version := v\<rparr>)))"

definition MigrationStatus :: "goose \<Rightarrow> site \<Rightarrow> string + int" where
  "MigrationStatus g s =
     (case newProvider g of
        Some e \<Rightarrow> Inl e
      | None \<Rightarrow> (case go_version g (si_version s) of Inl e \<Rightarrow> Inl (''reading migration version: '' @ e) | Inr v \<Rightarrow> Inr v))"

text \<open>\<open>newPool\<close>: the pool is open at the end exactly when it succeeds, and then its hook is appended.\<close>

definition pool_config :: "AppConfig \<Rightarrow> DatabaseConfig \<Rightarrow> PoolConfig" where
  "pool_config appCfg dbCfg = \<lparr>pc_DSN = DSN dbCfg, pc_SafeLabel = Redacted dbCfg, pc_MaxConns = ac_DBMaxConns appCfg\<rparr>"

definition newPool :: "driver \<Rightarrow> goose \<Rightarrow> AppConfig \<Rightarrow> DatabaseConfig \<Rightarrow> site \<Rightarrow> string option \<times> site" where
  "newPool dr g appCfg dbCfg s =
     (case NewPool dr (pool_config appCfg dbCfg) s of
        (Some e, s) \<Rightarrow> (Some e, s)
      | (None, s) \<Rightarrow>
          (case dr_sql_open dr (DSN dbCfg) of
             Some e \<Rightarrow> (Some e, dispose Pool s)
           | None \<Rightarrow>
               (case Migrate g (acquire MigrationDB s) of
                  (Some e, s) \<Rightarrow> (Some e, dispose MigrationDB (dispose Pool s))
                | (None, s) \<Rightarrow> (None, dispose MigrationDB s))))"

section \<open>The command\<close>

text \<open>\<open>run\<close>: the line it prints, or the error; a word that is no command is refused before anything is migrated.\<close>

definition print_version :: "int \<Rightarrow> string" where
  "print_version v = (if v < 0 then ''-'' @ utoa (nat (- v)) else utoa (nat v))"

text \<open>\<open>%q\<close> of the word is written as the word between quotes; the escapes of unusual characters are left out.\<close>

definition quoted :: "string \<Rightarrow> string" where
  "quoted s = [CHR 0x22] @ s @ [CHR 0x22]"

definition migrate_run ::
  "url_lib \<Rightarrow> getenv \<Rightarrow> driver \<Rightarrow> goose \<Rightarrow> string list \<Rightarrow> site \<Rightarrow> (config_error + (string + string)) \<times> site" where
  "migrate_run L E dr g args s =
     (let command = (case args of _ # c # _ \<Rightarrow> c | _ \<Rightarrow> ''up'') in
      case DatabaseConfigFromEnv L E of
        Inl e \<Rightarrow> (Inl e, s)
      | Inr cfg \<Rightarrow>
          (case dr_sql_open dr (DSN cfg) of
             Some e \<Rightarrow> (Inr (Inl (''opening '' @ Redacted cfg @ '': '' @ e)), s)
           | None \<Rightarrow>
               (case ping dr (acquire MigrationDB s) of
                  (Some e, s) \<Rightarrow> (Inr (Inl (''reaching '' @ Redacted cfg @ '': '' @ e)), dispose MigrationDB s)
                | (None, s) \<Rightarrow>
                    (case (if command = ''up'' then Migrate g s
                           else if command = ''down'' then MigrateDown g s
                           else if command = ''status'' then (None, s)
                           else (Some (''unknown command '' @ quoted command @ ''; want up, down or status''), s)) of
                       (Some e, s) \<Rightarrow> (Inr (Inl e), dispose MigrationDB s)
                     | (None, s) \<Rightarrow>
                         (case MigrationStatus g s of
                            Inl e \<Rightarrow> (Inr (Inl e), dispose MigrationDB s)
                          | Inr v \<Rightarrow> (Inr (Inr (Redacted cfg @ '' at version '' @ print_version v)), dispose MigrationDB s))))))"

section \<open>Nothing stays open that should not\<close>

lemma acquire_dispose [simp]: "si_open (acquire r s) = r # si_open s" "si_open (dispose r s) = remove1 r (si_open s)"
  "si_version (acquire r s) = si_version s" "si_version (dispose r s) = si_version s"
  by (simp_all add: acquire_def dispose_def)

lemma ping_site: "ping dr s = (e, s') \<Longrightarrow> si_open s' = si_open s \<and> si_version s' = si_version s"
  by (auto simp: ping_def)

lemma NewPool_site:
  "NewPool dr cfg s = (e, s') \<Longrightarrow> si_open s' = (if e = None then [Pool] else []) @ si_open s \<and> si_version s' = si_version s"
  by (auto simp: NewPool_def Let_def acquire_def split: option.splits if_splits prod.splits dest!: ping_site)

lemma Migrate_open: "Migrate g s = (e, s') \<Longrightarrow> si_open s' = si_open s"
  "MigrateDown g s = (e, s') \<Longrightarrow> si_open s' = si_open s"
  by (auto simp: Migrate_def MigrateDown_def split: option.splits prod.splits)

text \<open>
  Whatever fails on the way, \<open>newPool\<close> leaves the pool open exactly when it returns it, and closes the
  connection it migrates over in every case; a pool that is handed out is one the database answered on and
  whose migrations ran.
\<close>

lemma newPool_no_leak:
  assumes "newPool dr g appCfg dbCfg s = (e, s')"
  shows "si_open s' = (if e = None then [Pool] else []) @ si_open s"
    "e = None \<Longrightarrow> dr_ping dr (si_pings s) = None \<and> go_provider g = None \<and> go_up g (si_version s) = (None, si_version s')"
proof -
  obtain e1 s1 where 1: "NewPool dr (pool_config appCfg dbCfg) s = (e1, s1)" by (metis surj_pair)
  note s1 = NewPool_site [OF 1]
  show "si_open s' = (if e = None then [Pool] else []) @ si_open s"
    using assms 1 s1 by (auto simp: newPool_def split: option.splits prod.splits dest!: Migrate_open)
  show "dr_ping dr (si_pings s) = None \<and> go_provider g = None \<and> go_up g (si_version s) = (None, si_version s')" if "e = None"
  proof (cases e1)
    case None
    then have "dr_ping dr (si_pings s) = None"
      using 1 by (auto simp: NewPool_def ping_def acquire_def Let_def split: option.splits if_splits)
    then show ?thesis
      using assms 1 s1 None that
      by (auto simp: newPool_def Migrate_def newProvider_def split: option.splits prod.splits)
  qed (use assms 1 that in \<open>simp add: newPool_def\<close>)
qed

text \<open>The command closes its connection in every case, and only \<open>up\<close> and \<open>down\<close> change the schema.\<close>

lemma migrate_run_site:
  assumes "migrate_run L E dr g args s = (r, s')"
  shows "si_open s' = si_open s"
    "\<forall>c\<in>set (take 1 (drop 1 args)). c \<noteq> ''up'' \<and> c \<noteq> ''down'' \<Longrightarrow> drop 1 args \<noteq> [] \<Longrightarrow> si_version s' = si_version s"
  using assms
  by (auto simp: migrate_run_def Let_def split: sum.splits option.splits prod.splits if_splits list.splits
      dest!: ping_site Migrate_open)

text \<open>What is printed or logged does not depend on the password.\<close>

lemma Redacted_password: "Redacted (c\<lparr>dc_Password := p\<rparr>) = Redacted c"
  by (simp add: Redacted_def)

end
