(* ===== verification/Loops.thy ===== *)
theory Loops
  imports System
begin

text \<open>
  The loops of the background workers: \<open>Run\<close> of \<open>internal/app/reference_worker.go\<close> and of
  \<open>internal/app/publisher.go\<close>, with the constructors that give them their policy. What the runtime's
  \<open>select\<close> takes in each round, a tick or the end of the context, is an argument: when both are ready it
  may take either. The errors of a round are only logged.
\<close>

datatype ready = Tick | Done

definition NewReferenceWorker :: "ReferencePolicy \<Rightarrow> ReferencePolicy" where
  "NewReferenceWorker policy = ReferencePolicy_normalised policy"

definition NewPublisher :: "PublisherPolicy \<Rightarrow> PublisherPolicy" where
  "NewPublisher policy = PublisherPolicy_normalised policy"

definition NewSubmitTransaction :: "ReferencePolicy \<Rightarrow> ReferencePolicy" where
  "NewSubmitTransaction waiting = ReferencePolicy_normalised waiting"

fun Worker_Run :: "env \<Rightarrow> RetryPolicy \<Rightarrow> ReferencePolicy \<Rightarrow> ctx \<Rightarrow> ready list \<Rightarrow> database world \<Rightarrow> database world" where
  "Worker_Run \<Gamma> retry policy c [] w = w"
| "Worker_Run \<Gamma> retry policy c (Done # rs) w = w"
| "Worker_Run \<Gamma> retry policy c (Tick # rs) w =
     (case Worker_RunOnce \<Gamma> retry policy c w of (res, k, w') \<Rightarrow> Worker_Run \<Gamma> retry policy c rs w')"

fun Publisher_Run :: "env \<Rightarrow> RetryPolicy \<Rightarrow> PublisherPolicy \<Rightarrow> ctx \<Rightarrow> ready list \<Rightarrow> database world \<Rightarrow> database world" where
  "Publisher_Run \<Gamma> retry policy c [] w = w"
| "Publisher_Run \<Gamma> retry policy c (Done # rs) w = w"
| "Publisher_Run \<Gamma> retry policy c (Tick # rs) w =
     (case Publisher_RunOnce \<Gamma> retry policy c w of (res, v, w') \<Rightarrow> Publisher_Run \<Gamma> retry policy c rs w')"

text \<open>A loop is a sequence of steps of the service, so what every step keeps a loop keeps.\<close>

lemma Worker_Run_steps: "(step \<Gamma>)\<^sup>*\<^sup>* w (Worker_Run \<Gamma> retry (NewReferenceWorker pol) c rs w)"
proof (induction rs arbitrary: w)
  case (Cons r rs)
  obtain res k w' where run: "Worker_RunOnce \<Gamma> retry (ReferencePolicy_normalised pol) c w = (res, k, w')" by (metis prod_cases3)
  show ?case
    using Cons.IH [of w'] step.revisit [OF run] run
    by (cases r) (auto simp: NewReferenceWorker_def intro: converse_rtranclp_into_rtranclp)
qed simp

lemma Publisher_Run_steps: "(step \<Gamma>)\<^sup>*\<^sup>* w (Publisher_Run \<Gamma> retry (NewPublisher pol) c rs w)"
proof (induction rs arbitrary: w)
  case (Cons r rs)
  obtain res v w' where run: "Publisher_RunOnce \<Gamma> retry (NewPublisher pol) c w = (res, v, w')" by (metis prod_cases3)
  show ?case
    using Cons.IH [of w'] step.publish [OF run] run
    by (cases r) (auto intro: converse_rtranclp_into_rtranclp)
qed simp

text \<open>The worker and the publisher side by side, for as long as they run: the books stay sound.\<close>

lemma loops_sound:
  assumes "sound w b" "clock_ok \<Gamma>"
  shows "\<exists>b'. sound (Publisher_Run \<Gamma> retry (NewPublisher ppol) c rs (Worker_Run \<Gamma> retry' (NewReferenceWorker pol) c' rs' w)) b'"
  using steps_sound [OF rtranclp_trans [OF Worker_Run_steps Publisher_Run_steps] assms(2,1)] by blast

end
