(* ===== verification/Spec2Isabelle.thy ===== *)
theory Spec2Isabelle
  imports Open_Wallet Reference_Worker Publisher Queries Verdict Delivery Http_Answers Oidc System Completion
    Metrics Startup Loops
begin

text \<open>
  A model of the wagering core, a service that keeps the wallets of players and applies the operations
  of game providers to them: bets, wins, losses, refunds and rollbacks. Operations arrive over HTTP or
  from a queue, each is applied exactly once, every movement of money is an entry of an append-only
  ledger, and what happened is published as events through an outbox.

  \<^bold>\<open>The parts and how they interact.\<close> A request passes the edge (\<open>Http_Server\<close>, \<open>Oidc\<close>) to an endpoint
  (\<open>Http\<close>), which calls a use case: \<open>Open_Wallet\<close>, \<open>Submit\<close> or \<open>Queries\<close>. A message of the queue passes
  the adapter (\<open>Queue\<close>) and the consumer (\<open>Consumer\<close>) to the same code of \<open>Submit\<close>. A use case that writes
  runs inside a unit of work (\<open>UnitOfWork\<close>), which hands it the repositories (\<open>Store\<close>) over the tables
  (\<open>Schema\<close>); it moves the domain objects (\<open>Money\<close>, \<open>Wallet\<close>, \<open>Ledger\<close>, \<open>Transaction\<close>), writes them, and
  records their events (\<open>Event\<close>, \<open>Recorder\<close>) in the same commit. A reversal whose target has not arrived is
  parked, and the worker (\<open>Reference_Worker\<close>) visits it again under a \<open>Policy\<close>. The \<open>Publisher\<close> sends the
  outbox to the broker. The settings (\<open>Settings\<close>) and the life cycle (\<open>Lifecycle\<close>, \<open>Startup\<close>) put the
  process together, and \<open>Metrics\<close> is what all of them report.

  \<^bold>\<open>Which theory models which source\<close> (paths under \<open>src/internal\<close>).
  \<^item> Shared: \<open>Prelude\<close> (Go's types, results, signed words, decimal printing, lists), \<open>World\<close> (effects, the
    driver's errors), \<open>Samples\<close> (the data of the examples).
  \<^item> Domain: \<open>Errors\<close> (\<open>domain/errors.go\<close>, \<open>app/errors.go\<close>), \<open>Money\<close>, \<open>Identifier\<close>, \<open>Ledger\<close>, \<open>Wallet\<close>,
    \<open>Transaction\<close>, \<open>Event\<close>: the file of \<open>domain/\<close> with that name.
  \<^item> Standard library: \<open>Json\<close>, \<open>Sha256\<close>, \<open>Url\<close>, as far as the program uses \<open>encoding/json\<close>, \<open>crypto/sha256\<close>
    and \<open>net/url\<close>.
  \<^item> Application: \<open>Idempotency\<close> (\<open>app/idempotency.go\<close>), \<open>Identity\<close> (\<open>app/identity.go\<close>), \<open>Policy\<close> (the policies
    of \<open>app/reference_worker.go\<close>, \<open>app/events.go\<close>, \<open>adapter/postgres/uow.go\<close>), \<open>Recorder\<close>
    (\<open>app/events.go\<close>), \<open>Reversal\<close> (\<open>app/reversal.go\<close>), \<open>Submit\<close> (\<open>app/submit.go\<close>), \<open>Open_Wallet\<close>
    (\<open>app/openwallet.go\<close>), \<open>Reference_Worker\<close>, \<open>Publisher\<close>, \<open>Loops\<close> (the workers and their loops),
    \<open>Queries\<close> (\<open>app/queries.go\<close>, \<open>app/reconcile.go\<close>), \<open>Consumer\<close> (\<open>app/consumer.go\<close>).
  \<^item> Storage: \<open>Schema\<close> (\<open>migrations/\<close>: rows, checks, keys and the guards of the triggers), \<open>Store\<close> (the
    repositories of \<open>adapter/postgres\<close>), \<open>UnitOfWork\<close> (\<open>uow.go\<close>, \<open>snapshot.go\<close>).
  \<^item> Edge: \<open>Http_Errors\<close>, \<open>Cursor\<close>, \<open>Http\<close>, \<open>Http_Server\<close> (\<open>adapter/http\<close>), \<open>Oidc\<close> (\<open>adapter/oidc\<close>),
    \<open>Queue\<close> (\<open>adapter/sqs\<close>).
  \<^item> Process: \<open>Settings\<close>, \<open>Lifecycle\<close>, \<open>Startup\<close> (\<open>platform/\<close>, \<open>adapter/postgres/pool.go\<close> and \<open>migrate.go\<close>,
    \<open>cmd/migrate\<close>), \<open>Metrics\<close> (\<open>adapter/metrics\<close>, \<open>app/metrics.go\<close>).

  \<^bold>\<open>How state and effects are modelled.\<close> A Go string is a list of bytes, an \<open>int64\<close> a 64-bit word with
  signed comparison, a \<open>time.Time\<close> a count of nanoseconds with a zone. A fallible function returns
  \<open>error + 'a\<close>, and \<open>andThen\<close> is its early return. An effectful one maps a \<open>world\<close> to a result and a world:
  the world holds the rows of the tables, whether a transaction is open or aborted, and the number of
  external calls made so far. Everything outside the program is an argument indexed by that number, the
  record \<open>env\<close>: the clock, the identifiers, the faults of the database, how each commit ends (done, refused,
  or its answer lost, whether it took effect or not), the rows other sessions hold, randomness,
  cancellation and the broker. Nothing is assumed of it unless a theorem says so. Other arguments of the
  same kind: the token parser and the issuer's answers (\<open>Oidc\<close>), the queue service (\<open>Queue\<close>), the literal
  addresses a url may hold (\<open>url_lib\<close>), the driver and the migration library (\<open>Startup\<close>), the float64
  product in a duration with a fraction.

  \<^bold>\<open>The specification and what is proved.\<close>
  \<^item> \<open>Bank\<close> is the abstract state, the three financial tables as domain objects, with \<open>bank_ok\<close> (every wallet
    is the sum of its ledger, every reversal reverses one processed operation once, and so on) and \<open>commit\<close>,
    the moves a commit may make. \<open>Codec\<close> and \<open>Repos\<close> relate it to the rows: the locale \<open>table\<close> states the one
    law of a repository, that what is written reads back, and is interpreted for wallets, entries and
    transactions.
  \<^item> Domain lemmas: arithmetic that is exact or refused, parsing against a reference reading, round trips,
    the invariants of a wallet and a transaction under every operation, events for every outcome.
  \<^item> Each use case refines the specification: it commits once or leaves the data alone, whatever fails
    (\<open>Submission\<close>, \<open>Open_Wallet\<close>, \<open>Reference_Worker\<close>, \<open>Delivery\<close>, by the locale \<open>bookkeeping\<close>); \<open>Verdict\<close> says
    which outcome it commits, and \<open>Completion\<close> that it does so while the environment works.
  \<^item> \<open>Writes\<close>: what the domain builds meets every check of the schema. \<open>Frame\<close>: what no operation touches, by
    the locales \<open>frame\<close>, \<open>financial_frame\<close>, \<open>publishing_frame\<close> and \<open>store_frame\<close>, interpreted for the inbox, the
    books, the history and the outbox.
  \<^item> \<open>System\<close> is the service as a whole, a step relation of requests, polls, ticks and publications in any
    order: its reachable states are sound, and nothing recorded is ever taken back.
  \<^item> The edge: who is served, which status and body a failure has, what a token must be (\<open>Oidc\<close>), what a
    replayed request answers (\<open>Http_Answers\<close>), which meters can exist (\<open>Metrics\<close>).
  \<^item> The process: a setting takes effect or is refused by name (\<open>Settings\<close>), the pool is closed after
    everything that uses it (\<open>Lifecycle\<close>), nothing stays open after a failed start (\<open>Startup\<close>).

  \<^bold>\<open>Bounds and recursion.\<close> Loops over data are structural. The retry loop of the unit of work and the loop
  of the worker are bounded by the attempts and the batch size of their policies, and their termination
  is proved. The polling and publishing loops do not end by themselves; they take the sequence of what
  happens to them (the broker's answers, what a \<open>select\<close> chooses) as an argument, and a theorem about them
  holds for every such sequence. The JSON reader and the SHA-256 rounds are functions on the input with a
  measure. \<open>Completion\<close> asks that the identifiers minted in sixteen consecutive calls differ: a submission
  makes fewer calls than that. The construction of the graph follows parameters at most nine deep, which
  is enough for this graph (\<open>boot_order_legal\<close> shows that nothing is missing).

  \<^bold>\<open>Hypotheses.\<close> \<open>clock_ok\<close>: the clock reads a time after the zero time, which the rows could not tell from
  absent. \<open>ids_usable\<close>: the generator's identifiers have the length of an identifier. \<open>represents\<close>,
  \<open>bank_ok\<close>, \<open>idle\<close>, \<open>inbox_ok\<close>: the state a step starts in, all established by the empty database and kept by
  every step. \<open>healthy\<close> and \<open>ready\<close>, for liveness only: the database answers, commits are confirmed, new
  identifiers are new. \<open>legal_order\<close>: the container runs a constructor after those of its parameters.
  Each has an instance in the witnesses (\<open>calm\<close>, \<open>demo_db\<close>, \<open>demo_service\<close>, \<open>boot_order\<close>).

  \<^bold>\<open>Not modelled.\<close> Log lines other than the request log and the life cycle's, wording of most errors,
  measured durations. Transactions of several sessions interleave in the source; here a unit of work runs to its
  end, and the isolation of the database (row locks, conditional updates, unique keys) is relied on for
  that. The SQL text is read as operations on rows, the query planner is not. \<open>net/http\<close> is modelled as far
  as the patterns of the route table need it, the AWS client as the requests it is given, the Prometheus
  client as the calls it receives, the container as the order of the hooks. \<open>app/ports.go\<close> holds
  interfaces only, \<open>adapter/oidc/oidctest\<close> is for tests, \<open>cmd/api\<close> starts the container.
\<close>

end
